(* ===== verification/Prelude.thy ===== *)
theory Prelude
  imports Complex_Main "HOL-Library.State_Monad" "HOL-Library.AList" "HOL-Library.Sublist"
    "HOL-Library.Char_ord" "HOL-Library.List_Lexorder" "HOL-Library.Word"
begin

text \<open>
  Shared vocabulary of the development.

  \<^item> Fallible, stateful Go code is a program of the library's state monad whose result is a
    sum: \<open>Inl\<close> an error, \<open>Inr\<close> a value. \<open>try_as g m f\<close> is the idiom
    \<^verbatim>\<open>x, err := m(); if err != nil { return g(err) }; f(x)\<close>.
  \<^item> \<open>triple P m Q\<close> is a Hoare triple on such a program; the rules are collected in
    \<open>triple_rules\<close>. The locale \<open>io_relation\<close> lifts a reflexive and transitive relation on
    states (an invariant, a frame condition) through every combinator.
  \<^item> A Go map is an association list (\<open>tab\<close>), \<open>for range\<close> visits it in list order.
  \<^item> Go strings are byte strings (\<^typ>\<open>string\<close>), compared lexicographically.
\<close>

section \<open>Collections of facts\<close>

named_theorems run_simps \<open>what a program does to the state, one equation per combinator\<close>
named_theorems triple_rules \<open>Hoare rules, one per combinator or operation\<close>

section \<open>Programs that may fail\<close>

type_synonym ('s, 'e, 'a) prog = "('s, 'e + 'a) state"

definition ok :: "'a \<Rightarrow> ('s, 'e, 'a) prog" where
  "ok x = State_Monad.return (Inr x)"

definition fail_with :: "'e \<Rightarrow> ('s, 'e, 'a) prog" where
  "fail_with e = State_Monad.return (Inl e)"

definition try_as :: "('d \<Rightarrow> 'e) \<Rightarrow> ('s, 'd, 'a) prog \<Rightarrow> ('a \<Rightarrow> ('s, 'e, 'b) prog) \<Rightarrow> ('s, 'e, 'b) prog" where
  "try_as g m f = State_Monad.bind m (\<lambda>r. case r of Inl d \<Rightarrow> fail_with (g d) | Inr x \<Rightarrow> f x)"

definition try_in :: "('s, 'e, 'a) prog \<Rightarrow> ('a \<Rightarrow> ('s, 'e, 'b) prog) \<Rightarrow> ('s, 'e, 'b) prog" where
  "try_in m f = try_as (\<lambda>e. e) m f"

text \<open>A loop over a slice, run for its effect on the state.\<close>

primrec for_each :: "'a list \<Rightarrow> ('a \<Rightarrow> ('s, unit) state) \<Rightarrow> ('s, unit) state" where
  "for_each [] f = State_Monad.return ()"
| "for_each (x # xs) f = State_Monad.bind (f x) (\<lambda>_. for_each xs f)"

text \<open>A loop that stops with the first error, as a loop body that returns does.\<close>

primrec try_each :: "'a list \<Rightarrow> ('a \<Rightarrow> ('s, 'e, unit) prog) \<Rightarrow> ('s, 'e, unit) prog" where
  "try_each [] f = ok ()"
| "try_each (x # xs) f = try_in (f x) (\<lambda>_. try_each xs f)"

lemma run_update [simp, run_simps]: "run_state (State_Monad.update f) s = ((), f s)"
  by (simp add: State_Monad.update_def)

lemma run_ok [simp, run_simps]: "run_state (ok x) s = (Inr x, s)"
  by (simp add: ok_def)

lemma run_fail_with [simp, run_simps]: "run_state (fail_with e) s = (Inl e, s)"
  by (simp add: fail_with_def)

lemma run_unit: obtains s' where "run_state m s = ((), s')"
  by (cases "run_state m s") simp

lemma run_try_as [run_simps]:
  "run_state (try_as g m f) s =
     (case run_state m s of (Inl d, s') \<Rightarrow> (Inl (g d), s') | (Inr x, s') \<Rightarrow> run_state (f x) s')"
  by (auto simp: try_as_def split: prod.splits sum.splits)

lemma run_try_in [run_simps]:
  "run_state (try_in m f) s =
     (case run_state m s of (Inl d, s') \<Rightarrow> (Inl d, s') | (Inr x, s') \<Rightarrow> run_state (f x) s')"
  by (simp add: try_in_def run_try_as)

lemma try_as_Inr [elim]:
  assumes "run_state (try_as g m f) s = (Inr y, s')"
  obtains x s1 where "run_state m s = (Inr x, s1)" and "run_state (f x) s1 = (Inr y, s')"
  using assms by (auto simp: run_try_as split: prod.splits sum.splits)

lemma try_in_Inr [elim]:
  assumes "run_state (try_in m f) s = (Inr y, s')"
  obtains x s1 where "run_state m s = (Inr x, s1)" and "run_state (f x) s1 = (Inr y, s')"
  using assms by (auto simp: run_try_in split: prod.splits sum.splits)

lemma try_in_ok [simp]: "try_in (ok x) f = f x"
  by (simp add: try_in_def try_as_def ok_def)

lemma try_in_fail [simp]: "try_in (fail_with e) f = fail_with e"
  by (simp add: try_in_def try_as_def fail_with_def)

lemma try_as_ok [simp]: "try_as g (ok x) f = f x"
  by (simp add: try_as_def ok_def)

lemma try_as_fail [simp]: "try_as g (fail_with e) f = fail_with (g e)"
  by (simp add: try_as_def fail_with_def)

subsection \<open>Hoare triples\<close>

definition triple :: "('s \<Rightarrow> bool) \<Rightarrow> ('s, 'a) state \<Rightarrow> ('a \<Rightarrow> 's \<Rightarrow> bool) \<Rightarrow> bool" where
  "triple P m Q \<longleftrightarrow> (\<forall>s. P s \<longrightarrow> Q (fst (run_state m s)) (snd (run_state m s)))"

lemma tripleI:
  assumes "\<And>s r s'. P s \<Longrightarrow> run_state m s = (r, s') \<Longrightarrow> Q r s'"
  shows "triple P m Q"
  using assms by (auto simp: triple_def)

lemma tripleD:
  assumes "triple P m Q" and "P s" and "run_state m s = (r, s')"
  shows "Q r s'"
  using assms by (fastforce simp: triple_def)

lemma triple_weaken:
  assumes "triple P m Q" and "\<And>s. P' s \<Longrightarrow> P s" and "\<And>r s. Q r s \<Longrightarrow> Q' r s"
  shows "triple P' m Q'"
  using assms by (auto simp: triple_def)

lemma triple_return [triple_rules]: "triple (Q x) (State_Monad.return x) Q"
  by (simp add: triple_def)

lemma triple_ok [triple_rules]: "triple (Q (Inr x)) (ok x) Q"
  by (simp add: triple_def)

lemma triple_fail [triple_rules]: "triple (Q (Inl e)) (fail_with e) Q"
  by (simp add: triple_def)

lemma triple_bind:
  assumes "triple P m R" and "\<And>x. triple (R x) (f x) Q"
  shows "triple P (State_Monad.bind m f) Q"
  using assms by (auto simp: triple_def split: prod.splits)

lemma triple_try_as:
  assumes "triple P m R" and "\<And>d s. R (Inl d) s \<Longrightarrow> Q (Inl (g d)) s" and "\<And>x. triple (R (Inr x)) (f x) Q"
  shows "triple P (try_as g m f) Q"
  unfolding try_as_def
  by (rule triple_bind [OF assms(1)]) (auto simp: triple_def assms(2) split: sum.split intro: assms(3) [unfolded triple_def, rule_format])

lemma triple_try_in:
  assumes "triple P m R" and "\<And>d s. R (Inl d) s \<Longrightarrow> Q (Inl d) s" and "\<And>x. triple (R (Inr x)) (f x) Q"
  shows "triple P (try_in m f) Q"
  unfolding try_in_def by (rule triple_try_as [OF assms])

lemma triple_if:
  assumes "b \<Longrightarrow> triple P m Q" and "\<not> b \<Longrightarrow> triple P m' Q"
  shows "triple P (if b then m else m') Q"
  using assms by simp

lemma triple_for_each:
  assumes "\<And>x. x \<in> set xs \<Longrightarrow> triple I (f x) (\<lambda>_. I)"
  shows "triple I (for_each xs f) (\<lambda>_. I)"
  using assms
proof (induction xs)
  case Nil
  show ?case by (simp add: triple_def)
next
  case (Cons x xs)
  show ?case unfolding for_each.simps
    by (rule triple_bind [where R = "\<lambda>_. I"]) (simp_all add: Cons)
qed

lemma triple_try_each:
  assumes "\<And>x. x \<in> set xs \<Longrightarrow> triple I (f x) (\<lambda>_. I)"
  shows "triple I (try_each xs f) (\<lambda>_. I)"
  using assms
proof (induction xs)
  case Nil
  show ?case by (simp add: triple_def)
next
  case (Cons x xs)
  show ?case unfolding try_each.simps
    by (rule triple_try_in [where R = "\<lambda>_. I"]) (simp_all add: Cons)
qed

subsection \<open>Relations between the state before and after\<close>

text \<open>
  An interface every invariant and every frame condition offers: a reflexive, transitive
  relation. Inside the locale the relation is lifted once through all the combinators, so
  that a service operation respects it as soon as the store operations it calls do.
\<close>

text \<open>\<open>errs R m\<close>: the relation holds whenever \<open>m\<close> returns an error.\<close>

definition errs :: "('s \<Rightarrow> 's \<Rightarrow> bool) \<Rightarrow> ('s, 'e, 'a) prog \<Rightarrow> bool" where
  "errs R m \<longleftrightarrow> (\<forall>s e s'. run_state m s = (Inl e, s') \<longrightarrow> R s s')"

locale io_relation =
  fixes R :: "'s \<Rightarrow> 's \<Rightarrow> bool"
  assumes R_refl: "R s s"
    and R_trans: "R s t \<Longrightarrow> R t u \<Longrightarrow> R s u"
begin

lemma io_return: "state_io_rel R (State_Monad.return x)"
  by (simp add: state_io_rel_def R_refl)

lemma io_ok: "state_io_rel R (ok x)"
  by (simp add: state_io_rel_def R_refl)

lemma io_fail: "state_io_rel R (fail_with e)"
  by (simp add: state_io_rel_def R_refl)

lemma io_bind:
  assumes "state_io_rel R m" and "\<And>x. state_io_rel R (f x)"
  shows "state_io_rel R (State_Monad.bind m f)"
  using assms by (auto simp: state_io_rel_def split: prod.split intro: R_trans)

lemma io_bind_val:
  assumes "state_io_rel R m" and "\<And>x s s'. run_state m s = (x, s') \<Longrightarrow> state_io_rel R (f x)"
  shows "state_io_rel R (State_Monad.bind m f)"
  unfolding state_io_rel_def
proof
  fix s
  obtain x s' where m: "run_state m s = (x, s')" by force
  with assms(1) have "R s s'" by (auto simp: state_io_rel_def dest: spec [of _ s])
  moreover have "R s' (snd (run_state (f x) s'))"
    using assms(2) [OF m] by (simp add: state_io_rel_def)
  ultimately show "R s (snd (run_state (State_Monad.bind m f) s))"
    using m by (auto intro: R_trans)
qed

lemma io_case_sum:
  assumes "\<And>e. r = Inl e \<Longrightarrow> state_io_rel R (f e)" and "\<And>x. r = Inr x \<Longrightarrow> state_io_rel R (g x)"
  shows "state_io_rel R (case r of Inl e \<Rightarrow> f e | Inr x \<Rightarrow> g x)"
  using assms by (cases r) auto

lemma io_case_option:
  assumes "r = None \<Longrightarrow> state_io_rel R f" and "\<And>x. r = Some x \<Longrightarrow> state_io_rel R (g x)"
  shows "state_io_rel R (case r of None \<Rightarrow> f | Some x \<Rightarrow> g x)"
  using assms by (cases r) auto

lemma io_if:
  assumes "b \<Longrightarrow> state_io_rel R m" and "\<not> b \<Longrightarrow> state_io_rel R m'"
  shows "state_io_rel R (if b then m else m')"
  using assms by simp

lemma io_try_as:
  assumes "state_io_rel R m" and "\<And>x. state_io_rel R (f x)"
  shows "state_io_rel R (try_as g m f)"
  unfolding try_as_def by (intro io_bind io_case_sum io_fail assms)

text \<open>The same when the continuation needs to know what kind of value it gets.\<close>

lemma io_try_as_val:
  assumes "state_io_rel R m" and "\<And>x s s'. run_state m s = (Inr x, s') \<Longrightarrow> state_io_rel R (f x)"
  shows "state_io_rel R (try_as g m f)"
  unfolding state_io_rel_def
proof
  fix s
  obtain r s' where m: "run_state m s = (r, s')" by force
  with assms(1) have "R s s'" by (auto simp: state_io_rel_def dest: spec [of _ s])
  moreover have "R s' (snd (run_state (f x) s'))" if "r = Inr x" for x
    using assms(2) [of s x s'] m that by (simp add: state_io_rel_def)
  ultimately show "R s (snd (run_state (try_as g m f) s))"
    using m by (cases r) (auto simp: run_try_as intro: R_trans)
qed

lemma io_try_in:
  assumes "state_io_rel R m" and "\<And>x. state_io_rel R (f x)"
  shows "state_io_rel R (try_in m f)"
  unfolding try_in_def by (intro io_try_as assms)

lemma io_for_each:
  assumes "\<And>x. state_io_rel R (f x)"
  shows "state_io_rel R (for_each xs f)"
  by (induction xs) (auto intro: io_return io_bind assms)

lemma io_try_each:
  assumes "\<And>x. state_io_rel R (f x)"
  shows "state_io_rel R (try_each xs f)"
  by (induction xs) (auto intro: io_ok io_try_in assms)

lemma io_run: "state_io_rel R m \<Longrightarrow> run_state m s = (r, s') \<Longrightarrow> R s s'"
  unfolding state_io_rel_def by (metis snd_conv)

lemma errs_bind:
  assumes "state_io_rel R m" and "\<And>x. errs R (f x)"
  shows "errs R (State_Monad.bind m f)"
  unfolding errs_def
proof (intro allI impI)
  fix s e s'
  assume run: "run_state (State_Monad.bind m f) s = (Inl e, s')"
  obtain x s1 where m: "run_state m s = (x, s1)" by force
  with run have "run_state (f x) s1 = (Inl e, s')" by simp
  with assms(2) have "R s1 s'" unfolding errs_def by blast
  with io_run [OF assms(1) m] show "R s s'" by (rule R_trans)
qed

lemma errs_fail: "errs R (fail_with e)"
  by (simp add: errs_def R_refl)

lemma errs_try:
  assumes "state_io_rel R m" and "\<And>x. errs R (f x)"
  shows "errs R (try_as g m f)"
  unfolding try_as_def by (rule errs_bind [OF assms(1)]) (auto split: sum.split intro: errs_fail assms(2))

text \<open>The last fallible step may change anything when it succeeds.\<close>

lemma errs_last:
  assumes "errs R m" and "\<And>x s e s'. run_state (f x) s \<noteq> (Inl e, s')"
  shows "errs R (try_as g m f)"
  using assms by (auto simp: errs_def run_try_as split: prod.splits sum.splits)

lemmas io_rules = io_return io_ok io_fail io_bind io_case_sum io_case_option io_if io_try_as
  io_try_in io_for_each io_try_each

end

subsection \<open>Invariants\<close>

definition preserving :: "('s \<Rightarrow> bool) \<Rightarrow> 's \<Rightarrow> 's \<Rightarrow> bool" where
  "preserving I s s' \<longleftrightarrow> (I s \<longrightarrow> I s')"

interpretation pres: io_relation "preserving I" for I
  by unfold_locales (auto simp: preserving_def)

text \<open>\<open>yields I m K\<close>: started in a state with \<open>I\<close>, a value that \<open>m\<close> returns satisfies \<open>K\<close>.\<close>

definition yields :: "('s \<Rightarrow> bool) \<Rightarrow> ('s, 'e, 'a) prog \<Rightarrow> ('a \<Rightarrow> bool) \<Rightarrow> bool" where
  "yields I m K \<longleftrightarrow> (\<forall>s x s'. I s \<longrightarrow> run_state m s = (Inr x, s') \<longrightarrow> K x)"

lemma pres_try_as_val:
  assumes "state_io_rel (preserving I) m" and "yields I m K" and "\<And>x. K x \<Longrightarrow> state_io_rel (preserving I) (f x)"
  shows "state_io_rel (preserving I) (try_as g m f)"
  unfolding state_io_rel_def
proof
  fix s
  obtain r s' where m: "run_state m s = (r, s')" by force
  with assms(1) have "I s \<longrightarrow> I s'"
    by (auto simp: state_io_rel_def preserving_def dest: spec [of _ s])
  with m assms(2,3) show "preserving I s (snd (run_state (try_as g m f) s))"
    by (cases r) (auto simp: preserving_def run_try_as yields_def state_io_rel_def)
qed

lemma pres_try_in_val:
  assumes "state_io_rel (preserving I) m" and "yields I m K" and "\<And>x. K x \<Longrightarrow> state_io_rel (preserving I) (f x)"
  shows "state_io_rel (preserving I) (try_in m f)"
  unfolding try_in_def using assms by (rule pres_try_as_val)

end
