(* ===== verification/Golib.thy ===== *)
theory Golib
  imports Prelude
begin

text \<open>
  What the program uses of the Go language and its standard library: maps, byte strings
  (\<^verbatim>\<open>strings.TrimSpace\<close>, \<^verbatim>\<open>strings.ToLower\<close>, \<^verbatim>\<open>strings.Contains\<close>), \<^verbatim>\<open>encoding/hex\<close>,
  \<^verbatim>\<open>time.Time\<close> with \<^verbatim>\<open>Sub\<close> and \<^verbatim>\<open>AddDate\<close>.
\<close>

section \<open>Maps\<close>

text \<open>
  \<open>map[string]T\<close> is an association list; \<open>map_of m k\<close> reads it, \<open>AList.update\<close> writes it,
  \<open>AList.delete\<close> removes a key, \<open>vals m\<close> is what \<^verbatim>\<open>for _, v := range m\<close> visits. A table of
  rows is well formed (\<open>tab_ok\<close>) when no key occurs twice and every row sits under its own id.
\<close>

type_synonym 'v tab = "(string \<times> 'v) list"

abbreviation vals :: "'v tab \<Rightarrow> 'v list" where
  "vals m \<equiv> map snd m"

definition tab_ok :: "('v \<Rightarrow> string) \<Rightarrow> 'v tab \<Rightarrow> bool" where
  "tab_ok idf m \<longleftrightarrow> distinct (map fst m) \<and> (\<forall>(k, v) \<in> set m. idf v = k)"

text \<open>\<^verbatim>\<open>for k, v := range m { if p(v) { delete(m, k) } }\<close>\<close>

definition delete_where :: "('v \<Rightarrow> bool) \<Rightarrow> 'v tab \<Rightarrow> 'v tab" where
  "delete_where p m = filter (\<lambda>(k, v). \<not> p v) m"

text \<open>\<^verbatim>\<open>for k, v := range m { if p(v) { m[k] = f(v) } }\<close>\<close>

definition update_where :: "('v \<Rightarrow> bool) \<Rightarrow> ('v \<Rightarrow> 'v) \<Rightarrow> 'v tab \<Rightarrow> 'v tab" where
  "update_where p f m = map (\<lambda>(k, v). (k, if p v then f v else v)) m"

lemma tab_ok_Nil [simp]: "tab_ok idf []"
  by (simp add: tab_ok_def)

lemma tab_ok_lookup: "tab_ok idf m \<Longrightarrow> map_of m k = Some v \<Longrightarrow> idf v = k"
  by (auto simp: tab_ok_def dest!: map_of_SomeD)

lemma tab_ok_vals: "tab_ok idf m \<Longrightarrow> v \<in> set (vals m) \<longleftrightarrow> map_of m (idf v) = Some v"
  by (force simp: tab_ok_def map_of_eq_Some_iff)

lemma set_update_subset: "set (AList.update k v m) \<subseteq> insert (k, v) (set m)"
  by (induction m) auto

lemma tab_ok_update:
  assumes "tab_ok idf m" and "idf v = k"
  shows "tab_ok idf (AList.update k v m)"
proof -
  have "distinct (map fst (AList.update k v m))"
    using assms(1) by (simp add: tab_ok_def distinct_update)
  moreover have "idf v' = k'" if "(k', v') \<in> set (AList.update k v m)" for k' v'
    using that set_update_subset [of k v m] assms by (auto simp: tab_ok_def)
  ultimately show ?thesis
    by (auto simp: tab_ok_def)
qed

lemma tab_ok_filter: "tab_ok idf m \<Longrightarrow> tab_ok idf (filter P m)"
  by (simp add: tab_ok_def distinct_map_filter)

lemma tab_ok_delete: "tab_ok idf m \<Longrightarrow> tab_ok idf (AList.delete k m)"
  by (simp add: AList.delete_eq tab_ok_filter)

lemma tab_ok_delete_where: "tab_ok idf m \<Longrightarrow> tab_ok idf (delete_where p m)"
  by (simp add: delete_where_def tab_ok_filter)

lemma keys_update_where: "map fst (update_where p f m) = map fst m"
  by (induction m) (auto simp: update_where_def)

lemma tab_ok_update_where:
  assumes "tab_ok idf m" and "\<And>v. idf (f v) = idf v"
  shows "tab_ok idf (update_where p f m)"
proof -
  have "idf v' = k'" if "(k', v') \<in> set (update_where p f m)" for k' v'
    using that assms by (auto simp: tab_ok_def update_where_def)
  then show ?thesis
    using assms(1) by (auto simp: tab_ok_def keys_update_where)
qed

lemma map_of_delete_where:
  assumes "distinct (map fst m)"
  shows "map_of (delete_where p m) k =
    (case map_of m k of None \<Rightarrow> None | Some v \<Rightarrow> if p v then None else Some v)"
  using assms
proof (induction m)
  case Nil
  show ?case by (simp add: delete_where_def)
next
  case (Cons kv m)
  obtain k' v where kv: "kv = (k', v)" by force
  have *: "map_of m k' = None"
    using Cons.prems kv by (simp add: map_of_eq_None_iff)
  show ?case
    using Cons kv * by (cases "k' = k") (auto simp: delete_where_def)
qed

lemma map_of_update_where:
  "map_of (update_where p f m) k = map_option (\<lambda>v. if p v then f v else v) (map_of m k)"
  by (induction m) (auto simp: update_where_def)

lemma set_vals_update: "set (vals (AList.update k v m)) \<subseteq> insert v (set (vals m))"
  using set_update_subset [of k v m] by auto

lemma set_vals_delete: "set (vals (AList.delete k m)) \<subseteq> set (vals m)"
  by (auto simp: AList.delete_eq)

lemma set_vals_delete_where: "set (vals (delete_where p m)) = {v \<in> set (vals m). \<not> p v}"
  by (induction m) (auto simp: delete_where_def)

lemma vals_update_where: "vals (update_where p f m) = map (\<lambda>v. if p v then f v else v) (vals m)"
  by (induction m) (auto simp: update_where_def)

lemma set_vals_update_where:
  "set (vals (update_where p f m)) = (\<lambda>v. if p v then f v else v) ` set (vals m)"
  by (simp only: vals_update_where set_map)

lemma vals_lookup: "map_of m k = Some v \<Longrightarrow> v \<in> set (vals m)"
  by (force dest: map_of_SomeD)

lemmas tab_ok_rules = tab_ok_Nil tab_ok_update tab_ok_delete tab_ok_delete_where

section \<open>Strings\<close>

text \<open>
  The UTF-8 encodings of the runes \<^verbatim>\<open>unicode.IsSpace\<close> accepts: the ASCII blanks, U+0085, U+00A0,
  U+1680, U+2000 to U+200A, U+2028, U+2029, U+202F, U+205F and U+3000.
\<close>

definition space_runes :: "string list" where
  "space_runes =
     [[CHR 0x09], [CHR 0x0A], [CHR 0x0B], [CHR 0x0C], [CHR 0x0D], [CHR 0x20],
      [CHR 0xC2, CHR 0x85], [CHR 0xC2, CHR 0xA0], [CHR 0xE1, CHR 0x9A, CHR 0x80],
      [CHR 0xE2, CHR 0x80, CHR 0x80], [CHR 0xE2, CHR 0x80, CHR 0x81], [CHR 0xE2, CHR 0x80, CHR 0x82],
      [CHR 0xE2, CHR 0x80, CHR 0x83], [CHR 0xE2, CHR 0x80, CHR 0x84], [CHR 0xE2, CHR 0x80, CHR 0x85],
      [CHR 0xE2, CHR 0x80, CHR 0x86], [CHR 0xE2, CHR 0x80, CHR 0x87], [CHR 0xE2, CHR 0x80, CHR 0x88],
      [CHR 0xE2, CHR 0x80, CHR 0x89], [CHR 0xE2, CHR 0x80, CHR 0x8A], [CHR 0xE2, CHR 0x80, CHR 0xA8],
      [CHR 0xE2, CHR 0x80, CHR 0xA9], [CHR 0xE2, CHR 0x80, CHR 0xAF], [CHR 0xE2, CHR 0x81, CHR 0x9F],
      [CHR 0xE3, CHR 0x80, CHR 0x80]]"

text \<open>Strips the given byte sequences from the front for as long as one of them is there.\<close>

function strip_front :: "string list \<Rightarrow> string \<Rightarrow> string" where
  "strip_front ps s =
     (case find (\<lambda>p. p \<noteq> [] \<and> prefix p s) ps of
        None \<Rightarrow> s
      | Some p \<Rightarrow> strip_front ps (drop (length p) s))"
  by pat_completeness auto
termination
proof (relation "measure (\<lambda>(ps, s). length s)", goal_cases)
  case (2 ps s p)
  then have "p \<noteq> []" and "prefix p s"
    by (auto simp: find_Some_iff)
  then have "0 < length p" and "length p \<le> length s"
    by (auto dest: prefix_length_le)
  then show ?case by (simp only: in_measure split_conv length_drop)
qed simp

declare strip_front.simps [simp del]

definition TrimSpace :: "string \<Rightarrow> string" where
  "TrimSpace s = (let l = strip_front space_runes s in rev (strip_front (map rev space_runes) (rev l)))"

lemma strip_front_Nil [simp]: "strip_front ps [] = []"
  by (subst strip_front.simps) (auto split: option.split simp: find_Some_iff)

lemma TrimSpace_Nil [simp]: "TrimSpace [] = []"
  by (simp add: TrimSpace_def)

text \<open>
  \<^verbatim>\<open>strings.ToLower\<close> lowers the ASCII letters of an ASCII string byte by byte; any other string
  goes through the Unicode tables, which are the parameter \<open>uni\<close>.
\<close>

definition is_ascii :: "string \<Rightarrow> bool" where
  "is_ascii s \<longleftrightarrow> list_all (\<lambda>c. (of_char c :: nat) < 128) s"

definition lower_char :: "char \<Rightarrow> char" where
  "lower_char c = (if (65::nat) \<le> of_char c \<and> (of_char c :: nat) \<le> 90 then char_of ((of_char c :: nat) + 32) else c)"

definition upper_char :: "char \<Rightarrow> char" where
  "upper_char c = (if (97::nat) \<le> of_char c \<and> (of_char c :: nat) \<le> 122 then char_of ((of_char c :: nat) - 32) else c)"

definition ToLower :: "(string \<Rightarrow> string) \<Rightarrow> string \<Rightarrow> string" where
  "ToLower uni s = (if is_ascii s then map lower_char s else uni s)"

text \<open>\<^verbatim>\<open>strings.ToUpper\<close> is only applied to hexadecimal digits.\<close>

definition ToUpper_ascii :: "string \<Rightarrow> string" where
  "ToUpper_ascii s = map upper_char s"

definition Contains :: "string \<Rightarrow> string \<Rightarrow> bool" where
  "Contains s sub \<longleftrightarrow> sublist sub s"

section \<open>Hexadecimal\<close>

definition hexdig :: "nat \<Rightarrow> char" where
  "hexdig n = ''0123456789abcdef'' ! n"

definition hex_byte :: "8 word \<Rightarrow> string" where
  "hex_byte b = [hexdig (unat b div 16), hexdig (unat b mod 16)]"

definition hex_encode :: "8 word list \<Rightarrow> string" where
  "hex_encode bs = concat (map hex_byte bs)"

section \<open>Time\<close>

text \<open>
  A \<^verbatim>\<open>time.Time\<close> is the number of nanoseconds since 1 January of year 1, UTC, which is Go's zero
  time; all instants of the program are UTC. A \<^verbatim>\<open>time.Duration\<close> is an \<^verbatim>\<open>int64\<close> of nanoseconds.
\<close>

type_synonym gotime = int

definition IsZero :: "gotime \<Rightarrow> bool" where
  "IsZero t \<longleftrightarrow> t = 0"

definition max_duration :: int where
  "max_duration = 2 ^ 63 - 1"

definition min_duration :: int where
  "min_duration = - (2 ^ 63)"

text \<open>\<^verbatim>\<open>t.Sub(u)\<close> saturates at the extreme durations (about 292 years).\<close>

definition time_sub :: "gotime \<Rightarrow> gotime \<Rightarrow> int" where
  "time_sub t u = max min_duration (min max_duration (t - u))"

definition nanos_per_second :: int where
  "nanos_per_second = 1000000000"

definition nanos_per_day :: int where
  "nanos_per_day = 86400 * nanos_per_second"

text \<open>Seconds from year 1 to 1970.\<close>

definition unix_epoch :: gotime where
  "unix_epoch = 62135596800 * nanos_per_second"

definition UnixMilli :: "gotime \<Rightarrow> int" where
  "UnixMilli t = (t - unix_epoch) div 1000000"

subsection \<open>The calendar\<close>

definition is_leap :: "int \<Rightarrow> bool" where
  "is_leap y \<longleftrightarrow> y mod 4 = 0 \<and> (y mod 100 \<noteq> 0 \<or> y mod 400 = 0)"

text \<open>Days before 1 January of year \<open>y\<close>, counted from 1 January of year 1.\<close>

definition days_before_year :: "int \<Rightarrow> int" where
  "days_before_year y = 365 * (y - 1) + (y - 1) div 4 - (y - 1) div 100 + (y - 1) div 400"

text \<open>Days before month \<open>m\<close> (1 to 12) in a year.\<close>

definition days_before_month :: "bool \<Rightarrow> int \<Rightarrow> int" where
  "days_before_month leap m =
     [0, 31, 59, 90, 120, 151, 181, 212, 243, 273, 304, 334] ! nat (m - 1) + (if leap \<and> m > 2 then 1 else 0)"

definition year_of_day :: "int \<Rightarrow> int" where
  "year_of_day d =
     (let n400 = d div 146097; d1 = d mod 146097;
          n100 = min 3 (d1 div 36524); d2 = d1 - 36524 * n100;
          n4 = d2 div 1461; d3 = d2 mod 1461;
          n1 = min 3 (d3 div 365)
      in 400 * n400 + 100 * n100 + 4 * n4 + n1 + 1)"

definition month_of_yday :: "bool \<Rightarrow> int \<Rightarrow> int" where
  "month_of_yday leap yd = int (length (filter (\<lambda>m. days_before_month leap m \<le> yd) [2..12])) + 1"

text \<open>
  \<^verbatim>\<open>t.AddDate(0, months, 0)\<close>: the civil date of \<open>t\<close> with the month advanced and normalised, the
  day and the clock unchanged; a day beyond the end of the new month runs into the next one.
\<close>

definition AddMonths :: "gotime \<Rightarrow> int \<Rightarrow> gotime" where
  "AddMonths t months =
     (let d = t div nanos_per_day; clock = t mod nanos_per_day;
          y = year_of_day d; yd = d - days_before_year y;
          m = month_of_yday (is_leap y) yd; day = yd - days_before_month (is_leap y) m;
          m0 = m - 1 + months; y' = y + m0 div 12; m' = m0 mod 12 + 1
      in (days_before_year y' + days_before_month (is_leap y') m' + day) * nanos_per_day + clock)"

end
