(* ===== verification/Strconv.thy ===== *)
theory Strconv
  imports Golib
begin

text \<open>
  The parts of \<^verbatim>\<open>strconv\<close> and \<^verbatim>\<open>strings\<close> the program uses to build and to read keys:
  \<^verbatim>\<open>Itoa\<close> and \<^verbatim>\<open>FormatInt\<close>, \<^verbatim>\<open>ParseInt\<close> with its saturating range error, \<^verbatim>\<open>Split\<close>, \<^verbatim>\<open>SplitN\<close>
  with two parts, \<^verbatim>\<open>Join\<close> and \<^verbatim>\<open>ContainsAny\<close>.
\<close>

section \<open>Decimal numbers\<close>

text \<open>\<^verbatim>\<open>strconv.Itoa\<close>, \<^verbatim>\<open>strconv.FormatInt(n, 10)\<close>\<close>

fun decimal :: "nat \<Rightarrow> string" where
  "decimal n = (if n < 10 then [char_of (48 + n)] else decimal (n div 10) @ [char_of (48 + n mod 10)])"

declare decimal.simps [simp del]

definition Itoa :: "int \<Rightarrow> string" where
  "Itoa n = (if n < 0 then ''-'' @ decimal (nat (- n)) else decimal (nat n))"

definition is_digit :: "char \<Rightarrow> bool" where
  "is_digit c \<longleftrightarrow> (48::nat) \<le> of_char c \<and> (of_char c :: nat) \<le> 57"

definition digit_val :: "char \<Rightarrow> nat" where
  "digit_val c = of_char c - 48"

text \<open>
  \<^verbatim>\<open>strconv.ParseUint(s, 10, 64)\<close> after the test for an empty string. The first digit that does
  not fit ends the scan with the range error, whatever follows it.
\<close>

datatype parsed = Parsed nat | OutOfRange | BadSyntax

fun ParseUint_loop :: "nat \<Rightarrow> string \<Rightarrow> parsed" where
  "ParseUint_loop n [] = Parsed n"
| "ParseUint_loop n (c # cs) =
     (if \<not> is_digit c then BadSyntax
      else if 2 ^ 64 \<le> n * 10 + digit_val c then OutOfRange
      else ParseUint_loop (n * 10 + digit_val c) cs)"

definition ParseUint :: "string \<Rightarrow> parsed" where
  "ParseUint s = (if s = [] then BadSyntax else ParseUint_loop 0 s)"

text \<open>
  \<^verbatim>\<open>strconv.ParseInt(s, 10, 64)\<close>: the value and whether the error is nil. A syntax error gives 0,
  a range error the nearest 64-bit integer.
\<close>

definition ParseInt :: "string \<Rightarrow> int \<times> bool" where
  "ParseInt s =
     (let neg = (s \<noteq> [] \<and> hd s = CHR ''-'');
          body = (if s \<noteq> [] \<and> (hd s = CHR ''-'' \<or> hd s = CHR ''+'') then tl s else s)
      in case ParseUint body of
           BadSyntax \<Rightarrow> (0, False)
         | OutOfRange \<Rightarrow> (if neg then - (2 ^ 63) else 2 ^ 63 - 1, False)
         | Parsed u \<Rightarrow>
             if \<not> neg \<and> 2 ^ 63 \<le> u then (2 ^ 63 - 1, False)
             else if neg \<and> 2 ^ 63 < u then (- (2 ^ 63), False)
             else (if neg then - int u else int u, True))"

lemma decimal_digits: "c \<in> set (decimal n) \<Longrightarrow> is_digit c"
proof (induction n rule: decimal.induct)
  case (1 n)
  have "is_digit (char_of (48 + n))" if "n < 10"
    using that by (simp add: is_digit_def)
  moreover have "is_digit (char_of (48 + n mod 10))"
    by (simp add: is_digit_def)
  ultimately show ?case
    using 1 by (subst (asm) (2) decimal.simps) (auto split: if_splits)
qed

lemma decimal_nonempty [simp]: "decimal n \<noteq> []"
  by (subst decimal.simps) simp

lemma digit_val_char [simp]: "d < 10 \<Longrightarrow> digit_val (char_of (48 + d)) = d"
  by (simp add: digit_val_def)

lemma ParseUint_loop_append:
  "ParseUint_loop n xs = Parsed m \<Longrightarrow> ParseUint_loop n (xs @ ys) = ParseUint_loop m ys"
  by (induction n xs rule: ParseUint_loop.induct) (auto split: if_splits)

lemma ParseUint_decimal: "n < 2 ^ 64 \<Longrightarrow> ParseUint_loop 0 (decimal n) = Parsed n"
proof (induction n rule: decimal.induct)
  case (1 n)
  show ?case
  proof (cases "n < 10")
    case True
    then show ?thesis
      by (subst decimal.simps) (simp add: is_digit_def)
  next
    case False
    with 1 have "ParseUint_loop 0 (decimal (n div 10)) = Parsed (n div 10)"
      by simp
    moreover have "ParseUint_loop (n div 10) [char_of (48 + n mod 10)] = Parsed n"
      using 1 by (simp add: is_digit_def)
    ultimately show ?thesis
      using False by (subst decimal.simps) (simp add: ParseUint_loop_append)
  qed
qed

lemma ParseInt_Itoa:
  assumes "- (2 ^ 63) \<le> n" and "n < 2 ^ 63"
  shows "ParseInt (Itoa n) = (n, True)"
proof (cases "n < 0")
  case True
  have "ParseUint_loop 0 (decimal (nat (- n))) = Parsed (nat (- n))"
    using assms(1) True by (intro ParseUint_decimal) (simp add: nat_less_iff)
  then show ?thesis
    using assms True by (simp add: ParseInt_def Itoa_def ParseUint_def nat_le_iff)
next
  case False
  have "hd (decimal (nat n)) \<noteq> CHR ''-''" and "hd (decimal (nat n)) \<noteq> CHR ''+''"
    using decimal_digits [of "hd (decimal (nat n))" "nat n"] by (auto simp: is_digit_def)
  moreover have "ParseUint_loop 0 (decimal (nat n)) = Parsed (nat n)"
    using assms False by (intro ParseUint_decimal) (simp add: nat_less_iff)
  ultimately show ?thesis
    using assms False by (simp add: ParseInt_def Itoa_def ParseUint_def nat_less_iff)
qed

section \<open>Separated lists\<close>

text \<open>\<^verbatim>\<open>strings.Split(s, sep)\<close> for a separator of one byte; it never returns an empty slice.\<close>

fun Split :: "char \<Rightarrow> string \<Rightarrow> string list" where
  "Split sep [] = [[]]"
| "Split sep (c # cs) =
     (if c = sep then [] # Split sep cs
      else case Split sep cs of [] \<Rightarrow> [[c]] | p # ps \<Rightarrow> (c # p) # ps)"

text \<open>\<^verbatim>\<open>strings.SplitN(s, sep, 2)\<close>, as the pair of its parts when there are two.\<close>

fun SplitN2 :: "char \<Rightarrow> string \<Rightarrow> (string \<times> string) option" where
  "SplitN2 sep [] = None"
| "SplitN2 sep (c # cs) = (if c = sep then Some ([], cs) else map_option (\<lambda>(a, b). (c # a, b)) (SplitN2 sep cs))"

fun Join :: "string list \<Rightarrow> string \<Rightarrow> string" where
  "Join [] sep = []"
| "Join [x] sep = x"
| "Join (x # y # xs) sep = x @ sep @ Join (y # xs) sep"

definition ContainsAny :: "string \<Rightarrow> string \<Rightarrow> bool" where
  "ContainsAny s chars \<longleftrightarrow> list_ex (\<lambda>c. c \<in> set chars) s"

lemma Split_nonempty [simp]: "Split sep s \<noteq> []"
  by (induction s) (auto split: list.splits)

lemma Split_free: "sep \<notin> set s \<Longrightarrow> Split sep s = [s]"
  by (induction s) auto

lemma Split_append: "sep \<notin> set s \<Longrightarrow> Split sep (s @ sep # t) = s # Split sep t"
  by (induction s) auto

text \<open>Splitting undoes joining when no part holds the separator.\<close>

lemma Split_Join:
  assumes "xs \<noteq> []" and "\<forall>x \<in> set xs. sep \<notin> set x"
  shows "Split sep (Join xs [sep]) = xs"
  using assms by (induction xs "[sep]" rule: Join.induct) (auto simp: Split_free Split_append)

lemma SplitN2_append: "sep \<notin> set a \<Longrightarrow> SplitN2 sep (a @ sep # b) = Some (a, b)"
  by (induction a) auto

end
