(* ===== verification/Stream.thy ===== *)
theory Stream
  imports Strconv
begin

text \<open>
  \<^verbatim>\<open>internal/stream/client.go\<close> and \<^verbatim>\<open>sse.go\<close>: stream ids, the in-process stream client, the rate
  limiter and the SSE frames. The instant \<^verbatim>\<open>m.Now()\<close> is an argument; a call that waits on
  the notify channel is the call made again once an entry was appended.
\<close>

section \<open>Stream ids\<close>

text \<open>\<^verbatim>\<open>ID(at, seq)\<close> takes the instant, \<open>mk_ID\<close> its milliseconds.\<close>

definition mk_ID :: "int \<Rightarrow> int \<Rightarrow> string" where
  "mk_ID ms n = Itoa ms @ ''-'' @ Itoa n"

definition stream_ID :: "gotime \<Rightarrow> int \<Rightarrow> string" where
  "stream_ID t n = mk_ID (UnixMilli t) n"

definition ParseID :: "string \<Rightarrow> int \<times> int \<times> bool" where
  "ParseID i =
     (case SplitN2 (CHR ''-'') i of
        None \<Rightarrow> (0, 0, False)
      | Some (a, b) \<Rightarrow> let (ms, ok1) = ParseInt a; (n, ok2) = ParseInt b in (ms, n, ok1 \<and> ok2))"

definition Less :: "string \<Rightarrow> string \<Rightarrow> bool" where
  "Less a b =
     (let (am, as, _) = ParseID a; (bm, bs, _) = ParseID b
      in if am \<noteq> bm then am < bm else as < bs)"

section \<open>The in-process client\<close>

record Entry =
  e_ID :: string
  e_Fields :: "string tab"

record counter =
  c_n :: int
  c_exp :: gotime

record Memory =
  m_streams :: "Entry list tab"
  m_counters :: "counter tab"
  m_seq :: int
  m_Err :: "string option"

type_synonym 'a client = "(Memory, string, 'a) prog"

definition NewMemory :: Memory where
  "NewMemory = \<lparr>m_streams = [], m_counters = [], m_seq = 0, m_Err = None\<rparr>"

text \<open>\<^verbatim>\<open>m.streams[key]\<close>, nil when the key is absent.\<close>

definition stream_of :: "Memory \<Rightarrow> string \<Rightarrow> Entry list" where
  "stream_of m key = (case map_of (m_streams m) key of None \<Rightarrow> [] | Some es \<Rightarrow> es)"

definition set_stream :: "string \<Rightarrow> Entry list \<Rightarrow> Memory \<Rightarrow> Memory" where
  "set_stream key es m = m\<lparr>m_streams := AList.update key es (m_streams m)\<rparr>"

text \<open>Every call first returns the injected outage, if there is one.\<close>

definition unless_down :: "'a client \<Rightarrow> 'a client" where
  "unless_down p = do {
     m \<leftarrow> State_Monad.get;
     (case m_Err m of Some e \<Rightarrow> fail_with e | None \<Rightarrow> p)
   }"

definition XAdd :: "gotime \<Rightarrow> string \<Rightarrow> string tab \<Rightarrow> int \<Rightarrow> string client" where
  "XAdd now key flds maxLen = unless_down (do {
     m \<leftarrow> State_Monad.get;
     let n = m_seq m + 1;
     let i = stream_ID now n;
     let es = stream_of m key @ [\<lparr>e_ID = i, e_Fields = flds\<rparr>];
     let es = (if 0 < maxLen \<and> maxLen < int (length es) then drop (length es - nat maxLen) es else es);
     State_Monad.set (set_stream key es (m\<lparr>m_seq := n\<rparr>));
     ok i
   })"

text \<open>The loop of \<open>after\<close> stops when \<open>count\<close> entries are collected; \<open>count = 0\<close> takes them all.\<close>

definition after :: "Memory \<Rightarrow> string \<Rightarrow> string \<Rightarrow> int \<Rightarrow> Entry list" where
  "after m key afterID count =
     (let es = filter (\<lambda>e. afterID = [] \<or> Less afterID (e_ID e)) (stream_of m key)
      in if 0 < count then take (nat count) es else es)"

definition XRead_from :: "Memory \<Rightarrow> string \<Rightarrow> string \<Rightarrow> string" where
  "XRead_from m key afterID =
     (if afterID = [] \<or> afterID = ''$''
      then (if stream_of m key = [] then ''0-0'' else e_ID (last (stream_of m key)))
      else afterID)"

definition XRead :: "string \<Rightarrow> string \<Rightarrow> int \<Rightarrow> Entry list client" where
  "XRead key afterID count = unless_down (do {
     m \<leftarrow> State_Monad.get;
     ok (after m key (XRead_from m key afterID) count)
   })"

definition XRange :: "string \<Rightarrow> string \<Rightarrow> int \<Rightarrow> Entry list client" where
  "XRange key afterID count = unless_down (do {
     m \<leftarrow> State_Monad.get;
     ok (after m key afterID count)
   })"

definition XLast :: "string \<Rightarrow> string client" where
  "XLast key = unless_down (do {
     m \<leftarrow> State_Monad.get;
     ok (if stream_of m key = [] then [] else e_ID (last (stream_of m key)))
   })"

definition XTrimMinID :: "string \<Rightarrow> string \<Rightarrow> unit client" where
  "XTrimMinID key minID = unless_down (do {
     m \<leftarrow> State_Monad.get;
     State_Monad.set (set_stream key (filter (\<lambda>e. \<not> Less (e_ID e) minID) (stream_of m key)) m);
     ok ()
   })"

definition Incr :: "gotime \<Rightarrow> string \<Rightarrow> int \<Rightarrow> int client" where
  "Incr now key ttl = unless_down (do {
     m \<leftarrow> State_Monad.get;
     let c = (case map_of (m_counters m) key of None \<Rightarrow> \<lparr>c_n = 0, c_exp = 0\<rparr> | Some c \<Rightarrow> c);
     let c = (if c_n c = 0 \<or> (\<not> IsZero (c_exp c) \<and> c_exp c \<le> now)
              then \<lparr>c_n = 0, c_exp = (if 0 < ttl then now + ttl else 0)\<rparr> else c);
     let c = c\<lparr>c_n := c_n c + 1\<rparr>;
     State_Monad.set (m\<lparr>m_counters := AList.update key c (m_counters m)\<rparr>);
     ok (c_n c)
   })"

definition Ping :: "unit client" where
  "Ping = unless_down (ok ())"

definition mem_Close :: "(Memory, unit) state" where
  "mem_Close = State_Monad.update (\<lambda>m. m\<lparr>m_streams := [], m_counters := []\<rparr>)"

definition mem_Len :: "Memory \<Rightarrow> string \<Rightarrow> nat" where
  "mem_Len m key = length (stream_of m key)"

section \<open>The rate limiter\<close>

text \<open>\<^verbatim>\<open>at.Unix()/60\<close> truncates toward zero; \<^verbatim>\<open>Unix\<close> itself rounds down.\<close>

definition Unix :: "gotime \<Rightarrow> int" where
  "Unix t = (t - unix_epoch) div nanos_per_second"

definition quot_trunc :: "int \<Rightarrow> int \<Rightarrow> int" where
  "quot_trunc a b = (if 0 \<le> a then a div b else - ((- a) div b))"

definition RateKey :: "string \<Rightarrow> string \<Rightarrow> gotime \<Rightarrow> string" where
  "RateKey kind subject t = ''lcm:rl:'' @ kind @ '':'' @ subject @ '':'' @ Itoa (quot_trunc (Unix t) 60)"

text \<open>\<^verbatim>\<open>Limited\<close> returns the verdict together with the error; \<open>now\<close> is the clock of the counter.\<close>

definition Limited :: "gotime \<Rightarrow> string \<Rightarrow> string \<Rightarrow> int \<Rightarrow> gotime \<Rightarrow> (Memory, bool \<times> string option) state" where
  "Limited now kind subject limit t =
     (if limit \<le> 0 then State_Monad.return (False, None)
      else do {
        r \<leftarrow> Incr now (RateKey kind subject t) (120 * nanos_per_second);
        (case r of
           Inl e \<Rightarrow> State_Monad.return (True, Some e)
         | Inr n \<Rightarrow> State_Monad.return (limit < n, None))
      })"

section \<open>Server-sent events\<close>

record StreamEvent =
  v_ID :: string
  v_Type :: string
  v_Data :: string

definition Frame :: "StreamEvent \<Rightarrow> string" where
  "Frame ev =
     (if v_ID ev \<noteq> [] then ''id: '' @ v_ID ev @ [CHR 0x0A] else []) @
     ''event: '' @ v_Type ev @ [CHR 0x0A] @
     ''data: '' @ filter (\<lambda>c. c \<noteq> CHR 0x0D \<and> c \<noteq> CHR 0x0A) (v_Data ev) @ [CHR 0x0A, CHR 0x0A]"

text \<open>
  What \<^verbatim>\<open>ServeSSE\<close> writes, as a function of the cases its \<^verbatim>\<open>select\<close> takes one after the other: the
  client left, the maximal age passed, the heartbeat, an event, the closed channel. The
  answer tells whether the handler returned.
\<close>

datatype sse_case = Done | Deadline | Heartbeat | Received StreamEvent | ChannelClosed

definition Retry :: int where
  "Retry = 3000"

definition greeting :: "string \<Rightarrow> string" where
  "greeting inst = ''retry: '' @ Itoa Retry @ [CHR 0x0A] @ '': connected '' @ inst @ [CHR 0x0A, CHR 0x0A]"

fun sse_loop :: "sse_case list \<Rightarrow> string \<times> bool" where
  "sse_loop [] = ([], False)"
| "sse_loop (Done # _) = ([], True)"
| "sse_loop (ChannelClosed # _) = ([], True)"
| "sse_loop (Deadline # _) = (''event: bye'' @ [CHR 0x0A] @ ''data: {}'' @ [CHR 0x0A, CHR 0x0A], True)"
| "sse_loop (Heartbeat # cs) = (let (out, r) = sse_loop cs in ('': ping'' @ [CHR 0x0A, CHR 0x0A] @ out, r))"
| "sse_loop (Received ev # cs) = (let (out, r) = sse_loop cs in (Frame ev @ out, r))"

definition ServeSSE :: "string \<Rightarrow> sse_case list \<Rightarrow> string \<times> bool" where
  "ServeSSE inst cs = (let (out, r) = sse_loop cs in (greeting inst @ out, r))"

section \<open>The order of the ids\<close>

text \<open>\<open>Less\<close> compares the two numbers of an id, the milliseconds first.\<close>

definition id_key :: "string \<Rightarrow> int \<times> int" where
  "id_key i = (fst (ParseID i), fst (snd (ParseID i)))"

lemma Less_key: "Less a b \<longleftrightarrow> fst (id_key a) < fst (id_key b) \<or> fst (id_key a) = fst (id_key b) \<and> snd (id_key a) < snd (id_key b)"
  by (auto simp: Less_def id_key_def split: prod.splits)

lemma Less_irrefl [simp]: "\<not> Less a a"
  by (simp add: Less_key)

lemma Less_trans: "Less a b \<Longrightarrow> Less b c \<Longrightarrow> Less a c"
  by (auto simp: Less_key)

lemma Less_asym: "Less a b \<Longrightarrow> \<not> Less b a"
  by (auto simp: Less_key)

lemma transp_Less [intro, simp]: "transp Less"
  by (auto intro: transpI Less_trans)

lemma ParseID_mk:
  assumes "0 \<le> ms" "ms < 2 ^ 63" "0 \<le> n" "n < 2 ^ 63"
  shows "ParseID (mk_ID ms n) = (ms, n, True)"
proof -
  have "CHR ''-'' \<notin> set (Itoa ms)"
    using assms decimal_digits [of "CHR ''-''" "nat ms"] by (auto simp: Itoa_def is_digit_def)
  then have "SplitN2 (CHR ''-'') (mk_ID ms n) = Some (Itoa ms, Itoa n)"
    by (simp add: mk_ID_def SplitN2_append)
  then show ?thesis
    using assms by (simp add: ParseID_def ParseInt_Itoa)
qed

lemma id_key_mk:
  assumes "0 \<le> ms" "ms < 2 ^ 63" "0 \<le> n" "n < 2 ^ 63"
  shows "id_key (mk_ID ms n) = (ms, n)"
  using ParseID_mk [OF assms] by (simp add: id_key_def)

lemma mk_ID_nonempty [simp]: "mk_ID ms n \<noteq> []"
  by (simp add: mk_ID_def)

lemma stream_ID_nonempty [simp]: "stream_ID t n \<noteq> []"
  by (simp add: stream_ID_def)

text \<open>
  A stream id carries its two numbers: parsing the id built from a millisecond count and a
  sequence number returns them, and \<open>Less\<close> orders two such ids by time first and sequence second,
  although ids are compared as strings of different lengths.
\<close>

theorem stream_id_roundtrip:
  assumes "0 \<le> ms" "ms < 2 ^ 63" "0 \<le> n" "n < 2 ^ 63" "0 \<le> ms'" "ms' < 2 ^ 63" "0 \<le> n'" "n' < 2 ^ 63"
  shows "ParseID (mk_ID ms n) = (ms, n, True) \<and>
    (Less (mk_ID ms n) (mk_ID ms' n') \<longleftrightarrow> ms < ms' \<or> ms = ms' \<and> n < n')"
  using ParseID_mk [OF assms(1-4)] id_key_mk [OF assms(1-4)] id_key_mk [OF assms(5-8)]
  by (simp add: Less_key)

theorem stream_id_roundtrip_witness:
  "ParseID (mk_ID 999 7) = (999, 7, True) \<and> (Less (mk_ID 999 7) (mk_ID 1000 2) \<longleftrightarrow> (999::int) < 1000 \<or> (999::int) = 1000 \<and> (7::int) < 2)"
  by (rule stream_id_roundtrip) simp_all

section \<open>What the frames say\<close>

text \<open>
  A reader of the event-stream format: lines end with a line feed, a line that starts with a
  colon is a comment, an empty line ends an event, which counts when it had a data line.
\<close>

definition no_event :: StreamEvent where
  "no_event = \<lparr>v_ID = [], v_Type = [], v_Data = []\<rparr>"

fun sse_read :: "StreamEvent \<Rightarrow> bool \<Rightarrow> string list \<Rightarrow> StreamEvent list" where
  "sse_read ev seen [] = []"
| "sse_read ev seen (l # ls) =
     (if l = [] then (if seen then [ev] else []) @ sse_read no_event False ls
      else if prefix ''id: '' l then sse_read (ev\<lparr>v_ID := drop 4 l\<rparr>) seen ls
      else if prefix ''event: '' l then sse_read (ev\<lparr>v_Type := drop 7 l\<rparr>) seen ls
      else if prefix ''data: '' l
        then sse_read (ev\<lparr>v_Data := (if seen then v_Data ev @ [CHR 0x0A] else []) @ drop 6 l\<rparr>) True ls
      else sse_read ev seen ls)"

definition one_line :: "string \<Rightarrow> bool" where
  "one_line s \<longleftrightarrow> CHR 0x0A \<notin> set s \<and> CHR 0x0D \<notin> set s"

definition framed_ok :: "StreamEvent \<Rightarrow> bool" where
  "framed_ok ev \<longleftrightarrow> one_line (v_ID ev) \<and> one_line (v_Type ev) \<and> one_line (v_Data ev)"

lemma one_line_id: "one_line s \<Longrightarrow> filter (\<lambda>c. c \<noteq> CHR 0x0D \<and> c \<noteq> CHR 0x0A) s = s"
  by (auto simp: one_line_def filter_id_conv)

lemma Split_line: "one_line s \<Longrightarrow> Split (CHR 0x0A) (s @ CHR 0x0A # t) = s # Split (CHR 0x0A) t"
  by (simp add: one_line_def Split_append)

lemma Split_line_after:
  "one_line s \<Longrightarrow> CHR 0x0A \<notin> set p \<Longrightarrow> Split (CHR 0x0A) (p @ s @ CHR 0x0A # t) = (p @ s) # Split (CHR 0x0A) t"
  using Split_append [of "CHR 0x0A" "p @ s" t] by (simp add: one_line_def)

text \<open>The reader gets one event out of one frame.\<close>

lemma Frame_lines:
  assumes "framed_ok ev"
  shows "Split (CHR 0x0A) (Frame ev @ t) =
    (if v_ID ev \<noteq> [] then [''id: '' @ v_ID ev] else []) @
    [''event: '' @ v_Type ev, ''data: '' @ v_Data ev, []] @ Split (CHR 0x0A) t"
  using assms Split_line_after [of "v_ID ev" "''id: ''"] Split_line_after [of "v_Type ev" "''event: ''"]
    Split_line_after [of "v_Data ev" "''data: ''"]
  by (simp add: Frame_def framed_ok_def one_line_id)

lemma sse_read_Frame:
  assumes "framed_ok ev"
  shows "sse_read no_event False (Split (CHR 0x0A) (Frame ev @ t)) = ev # sse_read no_event False (Split (CHR 0x0A) t)"
  unfolding Frame_lines [OF assms] by (cases ev) (auto simp: no_event_def)

text \<open>The events a run of the handler passes on: those received until it returns, then the farewell.\<close>

fun passed_on :: "sse_case list \<Rightarrow> StreamEvent list" where
  "passed_on [] = []"
| "passed_on (Received ev # cs) = ev # passed_on cs"
| "passed_on (Heartbeat # cs) = passed_on cs"
| "passed_on (Deadline # _) = [\<lparr>v_ID = [], v_Type = ''bye'', v_Data = ''{}''\<rparr>]"
| "passed_on (Done # _) = []"
| "passed_on (ChannelClosed # _) = []"

lemma sse_loop_read:
  assumes "\<forall>ev. Received ev \<in> set cs \<longrightarrow> framed_ok ev"
  shows "sse_read no_event False (Split (CHR 0x0A) (fst (sse_loop cs))) = passed_on cs"
  using assms
proof (induction cs rule: passed_on.induct)
  case (2 ev cs)
  then show ?case by (simp add: sse_read_Frame case_prod_beta)
qed (simp_all add: no_event_def case_prod_beta)

text \<open>
  C28: what an SSE client reads is what the subscription yielded: for events without line breaks,
  a reader of the event-stream format recovers from the bytes \<^verbatim>\<open>ServeSSE\<close> writes exactly the events
  received before the handler returned, in order, with id, type and data unchanged; the greeting,
  the heartbeats and the comments add nothing, and the end of the maximal age adds one \<^verbatim>\<open>bye\<close>.
\<close>

theorem sse_roundtrip:
  assumes "one_line inst" and "\<forall>ev. Received ev \<in> set cs \<longrightarrow> framed_ok ev"
  shows "sse_read no_event False (Split (CHR 0x0A) (fst (ServeSSE inst cs))) = passed_on cs"
proof -
  have l1: "one_line (Itoa Retry)" by code_simp
  have "Split (CHR 0x0A) (greeting inst @ t) =
      (''retry: '' @ Itoa Retry) # ('': connected '' @ inst) # [] # Split (CHR 0x0A) t" for t
    using Split_line_after [OF l1, of "''retry: ''"] Split_line_after [OF assms(1), of "'': connected ''"]
    by (simp add: greeting_def)
  then show ?thesis
    using sse_loop_read [OF assms(2)] by (simp add: ServeSSE_def case_prod_beta)
qed

definition sse_demo :: "sse_case list" where
  "sse_demo = [Heartbeat, Received \<lparr>v_ID = mk_ID 5 1, v_Type = ''asset.assigned'', v_Data = ''{}''\<rparr>, Deadline, Done]"

theorem sse_roundtrip_witness:
  "sse_read no_event False (Split (CHR 0x0A) (fst (ServeSSE ''a1'' sse_demo))) = passed_on sse_demo \<and>
   length (passed_on sse_demo) = 2"
proof -
  have 1: "one_line ''a1''" by code_simp
  have "list_all (\<lambda>c. case c of Received ev \<Rightarrow> framed_ok ev | _ \<Rightarrow> True) sse_demo" by code_simp
  then have 2: "\<forall>ev. Received ev \<in> set sse_demo \<longrightarrow> framed_ok ev" by (fastforce simp: list_all_iff)
  show ?thesis
    using sse_roundtrip [OF 1 2] by (simp add: sse_demo_def)
qed

section \<open>The limiter lets through as many as it says\<close>

definition counted :: "Memory \<Rightarrow> string \<Rightarrow> int" where
  "counted m key = (case map_of (m_counters m) key of None \<Rightarrow> 0 | Some c \<Rightarrow> c_n c)"

text \<open>\<open>fresh_until t m key\<close>: the counter of the key, if there is one, was started less than two minutes before \<open>t\<close>.\<close>

definition fresh_until :: "gotime \<Rightarrow> Memory \<Rightarrow> string \<Rightarrow> bool" where
  "fresh_until t m key \<longleftrightarrow>
     (case map_of (m_counters m) key of None \<Rightarrow> True | Some c \<Rightarrow> 0 < c_n c \<and> t < c_exp c)"

text \<open>One request per instant of the list, each at its own time.\<close>

primrec requests :: "string \<Rightarrow> string \<Rightarrow> int \<Rightarrow> gotime list \<Rightarrow> (Memory, bool list) state" where
  "requests kind subject limit [] = State_Monad.return []"
| "requests kind subject limit (t # ts) = do {
     (b, _) \<leftarrow> Limited t kind subject limit t;
     bs \<leftarrow> requests kind subject limit ts;
     State_Monad.return (b # bs)
   }"

lemma Limited_up:
  assumes "m_Err m = None" and "0 < limit" and "fresh_until now m (RateKey kind subject t)"
  shows "\<exists>m'. run_state (Limited now kind subject limit t) m = ((limit < counted m (RateKey kind subject t) + 1, None), m') \<and>
    m_Err m' = None \<and> counted m' (RateKey kind subject t) = counted m (RateKey kind subject t) + 1 \<and>
    (\<forall>u. now \<le> u \<and> u < now + 120 * nanos_per_second \<and> fresh_until u m (RateKey kind subject t) \<longrightarrow>
       fresh_until u m' (RateKey kind subject t))"
  using assms
  by (auto simp: Limited_def Incr_def unless_down_def counted_def fresh_until_def Let_def IsZero_def update_conv'
      split: option.splits)

lemma same_minute:
  assumes "quot_trunc (Unix t) 60 = quot_trunc (Unix u) 60"
  shows "u < t + 120 * nanos_per_second"
proof -
  have "Unix u < Unix t + 119"
    using assms by (auto simp: quot_trunc_def split: if_splits)
  then show ?thesis
    by (simp add: Unix_def nanos_per_second_def)
qed

lemma requests_results:
  assumes "m_Err m = None" and "0 < limit" and "sorted ts"
    and "\<forall>t \<in> set ts. RateKey kind subject t = key" and "\<forall>t \<in> set ts. fresh_until t m key"
    and "\<forall>t \<in> set ts. \<forall>u \<in> set ts. u < t + 120 * nanos_per_second"
  shows "fst (run_state (requests kind subject limit ts) m) =
    map (\<lambda>k. limit < counted m key + int k) [1..<length ts + 1]"
  using assms
proof (induction ts arbitrary: m)
  case Nil
  then show ?case by simp
next
  case (Cons t ts)
  have key: "RateKey kind subject t = key" using Cons.prems(4) by simp
  obtain m' where m': "run_state (Limited t kind subject limit t) m = ((limit < counted m key + 1, None), m')"
      "m_Err m' = None" "counted m' key = counted m key + 1"
    and fresh: "\<And>u. t \<le> u \<Longrightarrow> u < t + 120 * nanos_per_second \<Longrightarrow> fresh_until u m key \<Longrightarrow> fresh_until u m' key"
    using Limited_up [of m limit t kind subject t] Cons.prems key by auto
  have "\<forall>u \<in> set ts. fresh_until u m' key"
    using Cons.prems by (intro ballI fresh) simp_all
  then have IH: "fst (run_state (requests kind subject limit ts) m') =
      map (\<lambda>k. limit < counted m' key + int k) [1..<length ts + 1]"
    by (intro Cons.IH) (use Cons.prems(2-4,6) m'(2) in simp_all)
  have up: "[1..<length (t # ts) + 1] = 1 # map Suc [1..<length ts + 1]"
    by (simp add: map_Suc_upt upt_conv_Cons del: upt_Suc)
  have step: "fst (run_state (requests kind subject limit (t # ts)) m) =
      (limit < counted m key + 1) # fst (run_state (requests kind subject limit ts) m')"
    using m'(1) by (simp add: case_prod_beta)
  show ?case
    unfolding step up IH m'(3) by (simp add: o_def add.assoc del: upt_Suc)
qed

lemma filter_upt_le: "length (filter (\<lambda>k. \<not> limit < int k) [1..<n + 1]) = min n (nat limit)"
  by (induction n) (auto simp: min_def)

text \<open>
  C29: the limiter admits exactly as many requests of a subject as the limit says: with the counter
  up and the window unused, of any number of requests made in the same minute at non-decreasing
  times, the first \<open>limit\<close> pass and all later ones are limited.
\<close>

theorem limiter_admits:
  assumes "m_Err m = None" and "0 < limit" and "sorted (t # ts)"
    and "\<forall>u \<in> set ts. quot_trunc (Unix u) 60 = quot_trunc (Unix t) 60"
    and "map_of (m_counters m) (RateKey kind subject t) = None"
  shows "let bs = fst (run_state (requests kind subject limit (t # ts)) m) in
    bs = map (\<lambda>k. limit < int k) [1..<length (t # ts) + 1] \<and>
    length (filter Not bs) = min (length (t # ts)) (nat limit)"
proof -
  let ?k = "RateKey kind subject t"
  have "\<forall>u \<in> set (t # ts). RateKey kind subject u = ?k"
    using assms(4) by (simp add: RateKey_def)
  moreover have "\<forall>u \<in> set (t # ts). fresh_until u m ?k"
    using assms(5) by (simp add: fresh_until_def)
  moreover have "\<forall>u \<in> set (t # ts). \<forall>v \<in> set (t # ts). v < u + 120 * nanos_per_second"
    using assms(4) by (intro ballI same_minute) auto
  ultimately have *: "fst (run_state (requests kind subject limit (t # ts)) m) =
      map (\<lambda>k. limit < int k) [1..<length (t # ts) + 1]"
    using requests_results [OF assms(1-3)] assms(5) by (simp add: counted_def)
  show ?thesis
    unfolding Let_def * using filter_upt_le [of limit "length (t # ts)"] by (simp add: filter_map o_def del: upt_Suc)
qed

theorem limiter_admits_witness:
  "let bs = fst (run_state (requests ''send'' ''u1'' 2 (unix_epoch # [unix_epoch, unix_epoch + 1])) NewMemory) in
    bs = map (\<lambda>k. (2::int) < int k) [1..<length (unix_epoch # [unix_epoch, unix_epoch + 1]) + 1] \<and>
    length (filter Not bs) = min (length (unix_epoch # [unix_epoch, unix_epoch + 1])) (nat 2)"
  by (rule limiter_admits) (simp_all add: NewMemory_def Unix_def nanos_per_second_def)

end
