(* ===== verification/Json_Valid.thy ===== *)
theory Json_Valid
  imports Strconv
begin

text \<open>
  \<^verbatim>\<open>encoding/json.Valid\<close>: a checker of the JSON grammar. Every function returns what follows the
  construct it reads, or None. The fuel of the three mutually recursive functions bounds the number of nested
  calls; each of them but the step from a list to its first element consumes a byte, so twice the
  length of the input suffices. The scanner's nesting limit of 10000 is not reached by a
  payload that passes the length check made before.
\<close>

fun skip_ws :: "string \<Rightarrow> string" where
  "skip_ws [] = []"
| "skip_ws (c # cs) = (if c \<in> {CHR 0x20, CHR 0x09, CHR 0x0A, CHR 0x0D} then skip_ws cs else c # cs)"

definition is_hex :: "char \<Rightarrow> bool" where
  "is_hex c \<longleftrightarrow> is_digit c \<or> (97::nat) \<le> of_char c \<and> (of_char c :: nat) \<le> 102 \<or> (65::nat) \<le> of_char c \<and> (of_char c :: nat) \<le> 70"

text \<open>The rest of a string literal, after its opening quote.\<close>

fun json_string :: "string \<Rightarrow> string option" where
  "json_string [] = None"
| "json_string (c # cs) =
     (if c = CHR 0x22 then Some cs
      else if c = CHR 0x5C then
        (case cs of
           [] \<Rightarrow> None
         | d # ds \<Rightarrow>
             if d \<in> {CHR ''b'', CHR ''f'', CHR ''n'', CHR ''r'', CHR ''t'', CHR 0x5C, CHR 0x2F, CHR 0x22} then json_string ds
             else if d = CHR ''u'' then
               (case ds of
                  h1 # h2 # h3 # h4 # rest \<Rightarrow>
                    if is_hex h1 \<and> is_hex h2 \<and> is_hex h3 \<and> is_hex h4 then json_string rest else None
                | _ \<Rightarrow> None)
             else None)
      else if (of_char c :: nat) < 32 then None
      else json_string cs)"

definition json_digits :: "string \<Rightarrow> string option" where
  "json_digits s = (if s \<noteq> [] \<and> is_digit (hd s) then Some (dropWhile is_digit s) else None)"

definition json_exponent :: "string \<Rightarrow> string option" where
  "json_exponent s =
     (if s \<noteq> [] \<and> (hd s = CHR ''e'' \<or> hd s = CHR ''E'')
      then (let r = tl s in json_digits (if r \<noteq> [] \<and> (hd r = CHR ''+'' \<or> hd r = CHR ''-'') then tl r else r))
      else Some s)"

definition json_fraction :: "string \<Rightarrow> string option" where
  "json_fraction s = (if s \<noteq> [] \<and> hd s = CHR ''.'' then Option.bind (json_digits (tl s)) json_exponent else json_exponent s)"

definition json_number :: "string \<Rightarrow> string option" where
  "json_number s =
     (let r = (if s \<noteq> [] \<and> hd s = CHR ''-'' then tl s else s)
      in if r \<noteq> [] \<and> hd r = CHR ''0'' then json_fraction (tl r)
         else Option.bind (json_digits r) json_fraction)"

fun json_value :: "nat \<Rightarrow> string \<Rightarrow> string option"
and json_elements :: "nat \<Rightarrow> string \<Rightarrow> string option"
and json_members :: "nat \<Rightarrow> string \<Rightarrow> string option" where
  "json_value 0 s = None"
| "json_value (Suc n) s =
     (case skip_ws s of
        [] \<Rightarrow> None
      | c # cs \<Rightarrow>
          if c = CHR 0x22 then json_string cs
          else if c = CHR ''{'' then
            (case skip_ws cs of d # ds \<Rightarrow> if d = CHR ''}'' then Some ds else json_members n (d # ds) | [] \<Rightarrow> None)
          else if c = CHR ''['' then
            (case skip_ws cs of d # ds \<Rightarrow> if d = CHR '']'' then Some ds else json_elements n (d # ds) | [] \<Rightarrow> None)
          else if prefix ''true'' (c # cs) then Some (drop 3 cs)
          else if prefix ''false'' (c # cs) then Some (drop 4 cs)
          else if prefix ''null'' (c # cs) then Some (drop 3 cs)
          else json_number (c # cs))"
| "json_elements 0 s = None"
| "json_elements (Suc n) s =
     (case json_value n s of
        None \<Rightarrow> None
      | Some r \<Rightarrow>
          (case skip_ws r of
             [] \<Rightarrow> None
           | c # cs \<Rightarrow> if c = CHR '','' then json_elements n cs else if c = CHR '']'' then Some cs else None))"
| "json_members 0 s = None"
| "json_members (Suc n) s =
     (case skip_ws s of
        [] \<Rightarrow> None
      | q # qs \<Rightarrow>
          if q \<noteq> CHR 0x22 then None
          else (case json_string qs of
             None \<Rightarrow> None
           | Some r \<Rightarrow>
               (case skip_ws r of
                  [] \<Rightarrow> None
                | c # cs \<Rightarrow>
                    if c \<noteq> CHR '':'' then None
                    else (case json_value n cs of
                       None \<Rightarrow> None
                     | Some r2 \<Rightarrow>
                         (case skip_ws r2 of
                            [] \<Rightarrow> None
                          | d # ds \<Rightarrow>
                              if d = CHR '','' then json_members n ds
                              else if d = CHR ''}'' then Some ds else None)))))"

definition json_Valid :: "string \<Rightarrow> bool" where
  "json_Valid s = (case json_value (2 * length s + 2) s of None \<Rightarrow> False | Some r \<Rightarrow> skip_ws r = [])"

lemma json_samples:
  "json_Valid ''{}''" "json_Valid ''[1, -0.5e+3, true, [null]]''" "\<not> json_Valid ''[1,]''" "\<not> json_Valid ''01''"
  by code_simp+

end
