(* ===== verification/Stream_Hub.thy ===== *)
theory Stream_Hub
  imports Stream Json_Valid
begin

text \<open>
  \<^verbatim>\<open>internal/stream/hub.go\<close>: the hub that fans tenant streams out to the connections of users.
  The objects the Go code shares by pointer (subscriptions, tenant subscribers) live in
  lists and are named by their position; the set \<^verbatim>\<open>t.conns\<close> is a list of such positions. A
  goroutine is data: the phase of every subscriber loop and the replays that
  \<^verbatim>\<open>Subscribe\<close> still has to run. The critical sections of the two mutexes and of the client are the
  atomic steps; \<open>hub_step\<close> interleaves them freely.
\<close>

section \<open>State\<close>

definition MaxPayload :: nat where "MaxPayload = 16384"
definition MaxTargets :: nat where "MaxTargets = 1000"
definition DefaultMaxLen :: int where "DefaultMaxLen = 10000"
definition connBuffer :: nat where "connBuffer = 32"

datatype hub_err = ErrTooMany | ErrType | ErrPayload | ErrTargets | ErrReserved | HubClosed | ClientErr string

record HubConfig =
  ReplayWindow :: int
  StreamsPerUser :: int
  StreamsPerTenant :: int
  MaxLen :: int

record Subscription =
  s_tenant :: string
  s_user :: string
  s_ch :: "StreamEvent list"
  s_last :: string
  s_closed :: bool
  s_got :: "StreamEvent list"

text \<open>
  The phases of \<^verbatim>\<open>loop\<close>: at its head; after the test of the context, before the read; with the
  entries of a batch still to dispatch; with the subscribers still to be pushed an event; returned.
\<close>

datatype loop_phase =
    AtHead
  | Reading
  | Dispatching "Entry list"
  | Delivering StreamEvent "nat list" "Entry list"
  | Returned

record tenantSub =
  t_id :: string
  t_conns :: "nat list"
  t_byUser :: "int tab"
  t_cancelled :: bool
  t_last :: string
  t_phase :: loop_phase

text \<open>A replay that \<^verbatim>\<open>Subscribe\<close> runs after it released the lock: not read yet, or with events to push.\<close>

datatype replay_phase = ToRead string | ToPush "StreamEvent list"

record Hub =
  h_mem :: Memory
  h_cfg :: HubConfig
  h_now :: gotime
  h_done :: bool
  h_tenants :: "nat tab"
  h_tsubs :: "tenantSub list"
  h_subs :: "Subscription list"
  h_replays :: "(nat \<times> replay_phase) list"

definition NewHub :: "HubConfig \<Rightarrow> gotime \<Rightarrow> Hub" where
  "NewHub cfg now = \<lparr>h_mem = NewMemory, h_cfg = \<lparr>
      ReplayWindow = (if ReplayWindow cfg \<le> 0 then 300 * nanos_per_second else ReplayWindow cfg),
      StreamsPerUser = (if StreamsPerUser cfg \<le> 0 then 5 else StreamsPerUser cfg),
      StreamsPerTenant = (if StreamsPerTenant cfg \<le> 0 then 2000 else StreamsPerTenant cfg),
      MaxLen = (if MaxLen cfg \<le> 0 then DefaultMaxLen else MaxLen cfg)\<rparr>,
    h_now = now, h_done = False, h_tenants = [], h_tsubs = [], h_subs = [], h_replays = []\<rparr>"

definition stream_Key :: "string \<Rightarrow> string" where
  "stream_Key tenantID = ''platform:events:'' @ tenantID"

definition upd_sub :: "nat \<Rightarrow> (Subscription \<Rightarrow> Subscription) \<Rightarrow> Hub \<Rightarrow> Hub" where
  "upd_sub i f h = h\<lparr>h_subs := (h_subs h)[i := f (h_subs h ! i)]\<rparr>"

definition upd_tsub :: "nat \<Rightarrow> (tenantSub \<Rightarrow> tenantSub) \<Rightarrow> Hub \<Rightarrow> Hub" where
  "upd_tsub k f h = h\<lparr>h_tsubs := (h_tsubs h)[k := f (h_tsubs h ! k)]\<rparr>"

text \<open>A call of the client, which is guarded by its own mutex.\<close>

definition client_call :: "'a client \<Rightarrow> (Hub, hub_err, 'a) prog" where
  "client_call p = do {
     h \<leftarrow> State_Monad.get;
     let (r, m) = run_state p (h_mem h);
     State_Monad.set (h\<lparr>h_mem := m\<rparr>);
     (case r of Inl e \<Rightarrow> fail_with (ClientErr e) | Inr x \<Rightarrow> ok x)
   }"

section \<open>Publishing\<close>

text \<open>\<^verbatim>\<open>^[a-z][a-z0-9._-]{0,63}$\<close>\<close>

definition is_lower :: "char \<Rightarrow> bool" where
  "is_lower c \<longleftrightarrow> (97::nat) \<le> of_char c \<and> (of_char c :: nat) \<le> 122"

definition typeRE :: "string \<Rightarrow> bool" where
  "typeRE s \<longleftrightarrow> s \<noteq> [] \<and> is_lower (hd s) \<and> length (tl s) \<le> 63 \<and>
     list_all (\<lambda>c. is_lower c \<or> is_digit c \<or> c \<in> {CHR ''.'', CHR ''_'', CHR ''-''}) (tl s)"

definition Reserved :: "string list" where
  "Reserved = [''issued'', ''renewed'', ''revoked'', ''reset'', ''bye'']"

definition ValidateType :: "string \<Rightarrow> bool \<Rightarrow> hub_err + unit" where
  "ValidateType typ modl =
     (if \<not> typeRE typ then Inl ErrType
      else if modl \<and> typ \<in> set Reserved then Inl ErrReserved
      else Inr ())"

text \<open>The payload of an event: nil, raw bytes, or a value for \<^verbatim>\<open>json.Marshal\<close>, which may fail.\<close>

datatype 'v payload = NoPayload | RawPayload string | ValuePayload 'v

definition encode_payload :: "('v \<Rightarrow> string option) \<Rightarrow> 'v payload \<Rightarrow> string option" where
  "encode_payload marshal d =
     (case d of NoPayload \<Rightarrow> Some ''{}'' | RawPayload b \<Rightarrow> Some b | ValuePayload v \<Rightarrow> marshal v)"

definition bad_user :: "string \<Rightarrow> bool" where
  "bad_user u \<longleftrightarrow> u = [] \<or> ContainsAny u [CHR '','', CHR '' '', CHR 0x0A]"

definition PublishID :: "('v \<Rightarrow> string option) \<Rightarrow> string \<Rightarrow> string list \<Rightarrow> bool \<Rightarrow> string \<Rightarrow> 'v payload \<Rightarrow> bool \<Rightarrow> (Hub, hub_err, string) prog" where
  "PublishID marshal tenantID to everyone typ data modl =
     (case ValidateType typ modl of
        Inl e \<Rightarrow> fail_with e
      | Inr _ \<Rightarrow>
          if everyone = (to \<noteq> []) \<or> MaxTargets < length to then fail_with ErrTargets
          else (case encode_payload marshal data of
             None \<Rightarrow> fail_with ErrPayload
           | Some raw \<Rightarrow>
               if MaxPayload < length raw \<or> \<not> json_Valid raw \<or> ContainsAny raw [CHR 0x0A, CHR 0x0D] then fail_with ErrPayload
               else if \<not> everyone \<and> list_ex bad_user to then fail_with ErrTargets
               else do {
                 h \<leftarrow> State_Monad.get;
                 client_call (XAdd (h_now h) (stream_Key tenantID)
                   [(''to'', if everyone then ''*'' else Join to '',''), (''type'', typ), (''data'', raw),
                    (''at'', Itoa (UnixMilli (h_now h)))]
                   (MaxLen (h_cfg h)))
               }))"

definition hub_Publish :: "('v \<Rightarrow> string option) \<Rightarrow> string \<Rightarrow> string list \<Rightarrow> bool \<Rightarrow> string \<Rightarrow> 'v payload \<Rightarrow> (Hub, hub_err, unit) prog" where
  "hub_Publish marshal tenantID to everyone typ data =
     try_in (PublishID marshal tenantID to everyone typ data False) (\<lambda>_. ok ())"

text \<open>\<^verbatim>\<open>events.HubPublisher.Publish\<close> with a hub: a broadcast whose error is dropped.\<close>

definition HubPublisher_Publish :: "('v \<Rightarrow> string option) \<Rightarrow> string \<Rightarrow> string \<Rightarrow> 'v payload \<Rightarrow> (Hub, unit) state" where
  "HubPublisher_Publish marshal tenantID eventType payload = do {
     _ \<leftarrow> PublishID marshal tenantID [] True eventType payload True;
     State_Monad.return ()
   }"

section \<open>One subscription\<close>

text \<open>\<^verbatim>\<open>e.Fields[k]\<close>, the empty string when the key is absent.\<close>

definition field :: "Entry \<Rightarrow> string \<Rightarrow> string" where
  "field e k = (case map_of (e_Fields e) k of None \<Rightarrow> [] | Some v \<Rightarrow> v)"

definition event_of :: "Entry \<Rightarrow> StreamEvent" where
  "event_of e = \<lparr>v_ID = e_ID e, v_Type = field e ''type'', v_Data = field e ''data''\<rparr>"

definition targets :: "string \<Rightarrow> string \<Rightarrow> bool" where
  "targets to user \<longleftrightarrow> to = ''*'' \<or> user \<in> set (Split (CHR '','') to)"

definition push :: "StreamEvent \<Rightarrow> Subscription \<Rightarrow> bool \<times> Subscription" where
  "push ev s =
     (if s_closed s \<or> (v_ID ev \<noteq> [] \<and> s_last s \<noteq> [] \<and> \<not> Less (s_last s) (v_ID ev)) then (True, s)
      else let s = (if v_ID ev \<noteq> [] then s\<lparr>s_last := v_ID ev\<rparr> else s)
           in if length (s_ch s) < connBuffer then (True, s\<lparr>s_ch := s_ch s @ [ev]\<rparr>) else (False, s))"

text \<open>\<^verbatim>\<open>t.byUser[userID]\<close>, 0 when the key is absent.\<close>

definition by_user :: "tenantSub \<Rightarrow> string \<Rightarrow> int" where
  "by_user t userID = (case map_of (t_byUser t) userID of None \<Rightarrow> 0 | Some n \<Rightarrow> n)"

text \<open>\<^verbatim>\<open>(*Subscription).Close\<close>: the flag \<^verbatim>\<open>closed\<close> stands for the once as well, both are set together.\<close>

definition forget_conn :: "nat \<Rightarrow> string \<Rightarrow> tenantSub \<Rightarrow> tenantSub" where
  "forget_conn i user t =
     (let n = by_user t user - 1
      in t\<lparr>t_conns := removeAll i (t_conns t),
           t_byUser := (if n \<le> 0 then AList.delete user (t_byUser t) else AList.update user n (t_byUser t))\<rparr>)"

definition sub_Close :: "nat \<Rightarrow> Hub \<Rightarrow> Hub" where
  "sub_Close i h =
     (let s = h_subs h ! i in
      if s_closed s then h
      else let h = upd_sub i (\<lambda>s. s\<lparr>s_closed := True\<rparr>) h in
        (case map_of (h_tenants h) (s_tenant s) of
           None \<Rightarrow> h
         | Some k \<Rightarrow>
             let h = upd_tsub k (forget_conn i (s_user s)) h
             in if t_conns (h_tsubs h ! k) = []
                then (upd_tsub k (\<lambda>t. t\<lparr>t_cancelled := True\<rparr>) h)\<lparr>h_tenants := AList.delete (s_tenant s) (h_tenants h)\<rparr>
                else h))"

text \<open>Pushing to a subscription of the hub; the answer tells whether the subscriber kept up.\<close>

definition push_to :: "nat \<Rightarrow> StreamEvent \<Rightarrow> Hub \<Rightarrow> bool \<times> Hub" where
  "push_to i ev h = (let (good, s) = push ev (h_subs h ! i) in (good, upd_sub i (\<lambda>_. s) h))"

definition deliver :: "nat \<Rightarrow> StreamEvent \<Rightarrow> Hub \<Rightarrow> Hub" where
  "deliver i ev h = (let (good, h) = push_to i ev h in if good then h else sub_Close i h)"

text \<open>The reader takes an event off the channel.\<close>

definition receive :: "nat \<Rightarrow> Hub \<Rightarrow> Hub" where
  "receive i = upd_sub i (\<lambda>s. s\<lparr>s_ch := tl (s_ch s), s_got := s_got s @ [hd (s_ch s)]\<rparr>)"

section \<open>Subscribing\<close>

text \<open>
  \<^verbatim>\<open>Subscribe\<close> up to the release of the lock: the subscriber of the tenant is found, or made and
  its loop started after the current tail; then the subscription is registered within the limits.
\<close>

definition new_tsub :: "string \<Rightarrow> string \<Rightarrow> tenantSub" where
  "new_tsub tenantID start = \<lparr>t_id = tenantID, t_conns = [], t_byUser = [], t_cancelled = False,
     t_last = (if start = [] then ''0-0'' else start), t_phase = AtHead\<rparr>"

definition new_sub :: "string \<Rightarrow> string \<Rightarrow> Subscription" where
  "new_sub tenantID userID = \<lparr>s_tenant = tenantID, s_user = userID, s_ch = [], s_last = [], s_closed = False, s_got = []\<rparr>"

definition add_tsub :: "tenantSub \<Rightarrow> Hub \<Rightarrow> Hub" where
  "add_tsub t h = h\<lparr>h_tenants := AList.update (t_id t) (length (h_tsubs h)) (h_tenants h), h_tsubs := h_tsubs h @ [t]\<rparr>"

definition tenant_sub :: "string \<Rightarrow> (Hub, hub_err, nat) prog" where
  "tenant_sub tenantID = do {
     h \<leftarrow> State_Monad.get;
     (case map_of (h_tenants h) tenantID of
        Some k \<Rightarrow> ok k
      | None \<Rightarrow> try_in (client_call (XLast (stream_Key tenantID))) (\<lambda>start. do {
          State_Monad.update (add_tsub (new_tsub tenantID start));
          ok (length (h_tsubs h))
        }))
   }"

definition add_conn :: "nat \<Rightarrow> string \<Rightarrow> tenantSub \<Rightarrow> tenantSub" where
  "add_conn i userID t = t\<lparr>t_conns := t_conns t @ [i], t_byUser := AList.update userID (by_user t userID + 1) (t_byUser t)\<rparr>"

definition register :: "string \<Rightarrow> string \<Rightarrow> nat \<Rightarrow> (Hub, hub_err, nat) prog" where
  "register tenantID userID k = do {
     h \<leftarrow> State_Monad.get;
     if StreamsPerUser (h_cfg h) \<le> by_user (h_tsubs h ! k) userID \<or>
        StreamsPerTenant (h_cfg h) \<le> int (length (t_conns (h_tsubs h ! k)))
     then fail_with ErrTooMany
     else do {
       State_Monad.set (upd_tsub k (add_conn (length (h_subs h)) userID) (h\<lparr>h_subs := h_subs h @ [new_sub tenantID userID]\<rparr>));
       ok (length (h_subs h))
     }
   }"

definition Subscribe_open :: "string \<Rightarrow> string \<Rightarrow> (Hub, hub_err, nat) prog" where
  "Subscribe_open tenantID userID = do {
     h \<leftarrow> State_Monad.get;
     if h_done h then fail_with HubClosed
     else try_in (tenant_sub tenantID) (register tenantID userID)
   }"

definition reset_event :: "string \<Rightarrow> StreamEvent" where
  "reset_event reason = \<lparr>v_ID = [], v_Type = ''reset'', v_Data = reason\<rparr>"

definition replay_window :: string where
  "replay_window = [CHR ''{'', CHR 0x22] @ ''reason'' @ [CHR 0x22, CHR '':'', CHR 0x22] @ ''replay_window'' @ [CHR 0x22, CHR ''}'']"

definition replay_unavailable :: string where
  "replay_unavailable = [CHR ''{'', CHR 0x22] @ ''reason'' @ [CHR 0x22, CHR '':'', CHR 0x22] @ ''replay_unavailable'' @ [CHR 0x22, CHR ''}'']"

definition from_UnixMilli :: "int \<Rightarrow> gotime" where
  "from_UnixMilli ms = unix_epoch + ms * 1000000"

text \<open>What \<^verbatim>\<open>replay\<close> pushes to the subscription of a user.\<close>

definition replay_events :: "string \<Rightarrow> string \<Rightarrow> string \<Rightarrow> (Hub, StreamEvent list) state" where
  "replay_events tenantID user lastID = do {
     h \<leftarrow> State_Monad.get;
     let (ms, _, good) = ParseID lastID;
     if \<not> good \<or> from_UnixMilli ms < h_now h - ReplayWindow (h_cfg h) then State_Monad.return [reset_event replay_window]
     else do {
       r \<leftarrow> client_call (XRange (stream_Key tenantID) lastID (MaxLen (h_cfg h)));
       State_Monad.return (case r of
          Inl _ \<Rightarrow> [reset_event replay_unavailable]
        | Inr es \<Rightarrow> map event_of (filter (\<lambda>e. targets (field e ''to'') user) es))
     }
   }"

text \<open>The pushes of a replay ignore whether the buffer was full.\<close>

definition replay_push :: "nat \<Rightarrow> StreamEvent \<Rightarrow> (Hub, unit) state" where
  "replay_push i ev = State_Monad.update (\<lambda>h. snd (push_to i ev h))"

definition replay :: "nat \<Rightarrow> string \<Rightarrow> (Hub, unit) state" where
  "replay i lastID = do {
     h \<leftarrow> State_Monad.get;
     evs \<leftarrow> replay_events (s_tenant (h_subs h ! i)) (s_user (h_subs h ! i)) lastID;
     for_each evs (replay_push i)
   }"

text \<open>\<^verbatim>\<open>Subscribe\<close> without interference.\<close>

definition Subscribe :: "string \<Rightarrow> string \<Rightarrow> string \<Rightarrow> (Hub, hub_err, nat) prog" where
  "Subscribe tenantID userID lastID =
     try_in (Subscribe_open tenantID userID) (\<lambda>i.
       if lastID = [] then ok i else do { replay i lastID; ok i })"

section \<open>The subscriber loop\<close>

text \<open>\<open>ticked\<close>: whether the trim ticker fired; the error of the trim is ignored.\<close>

definition loop_trim :: "nat \<Rightarrow> bool \<Rightarrow> (Hub, unit) state" where
  "loop_trim k ticked =
     (if ticked then do {
        h \<leftarrow> State_Monad.get;
        _ \<leftarrow> client_call (XTrimMinID (stream_Key (t_id (h_tsubs h ! k))) (stream_ID (h_now h - ReplayWindow (h_cfg h)) 0));
        State_Monad.return ()
      } else State_Monad.return ())"

text \<open>The read takes at most 100 entries; after a failure the loop starts over.\<close>

definition loop_read :: "nat \<Rightarrow> (Hub, unit) state" where
  "loop_read k = do {
     h \<leftarrow> State_Monad.get;
     r \<leftarrow> client_call (XRead (stream_Key (t_id (h_tsubs h ! k))) (t_last (h_tsubs h ! k)) 100);
     State_Monad.update (upd_tsub k (\<lambda>t. t\<lparr>t_phase := (case r of Inl _ \<Rightarrow> AtHead | Inr es \<Rightarrow> Dispatching es)\<rparr>))
   }"

text \<open>The snapshot \<^verbatim>\<open>dispatch\<close> takes of the subscribers of an entry.\<close>

definition addressees :: "Hub \<Rightarrow> nat \<Rightarrow> Entry \<Rightarrow> nat list" where
  "addressees h k e = filter (\<lambda>i. targets (field e ''to'') (s_user (h_subs h ! i))) (t_conns (h_tsubs h ! k))"

definition dispatch :: "nat \<Rightarrow> Entry \<Rightarrow> (Hub, unit) state" where
  "dispatch k e = do {
     h \<leftarrow> State_Monad.get;
     for_each (addressees h k e) (\<lambda>i. State_Monad.update (deliver i (event_of e)))
   }"

text \<open>One turn of the loop that no other goroutine interrupts.\<close>

definition loop_turn :: "nat \<Rightarrow> bool \<Rightarrow> (Hub, unit) state" where
  "loop_turn k ticked = do {
     loop_trim k ticked;
     h \<leftarrow> State_Monad.get;
     r \<leftarrow> client_call (XRead (stream_Key (t_id (h_tsubs h ! k))) (t_last (h_tsubs h ! k)) 100);
     (case r of
        Inl _ \<Rightarrow> State_Monad.return ()
      | Inr es \<Rightarrow> for_each es (\<lambda>e. do {
          State_Monad.update (upd_tsub k (\<lambda>t. t\<lparr>t_last := e_ID e\<rparr>));
          dispatch k e
        }))
   }"

section \<open>The hub as a whole\<close>

definition OpenStreams :: "Hub \<Rightarrow> nat" where
  "OpenStreams h = sum_list (map (\<lambda>k. length (t_conns (h_tsubs h ! k))) (vals (h_tenants h)))"

text \<open>Cancelling the hub's context cancels the context of every loop.\<close>

definition cancel_hub :: "Hub \<Rightarrow> Hub" where
  "cancel_hub h = h\<lparr>h_done := True, h_tsubs := map (\<lambda>t. t\<lparr>t_cancelled := True\<rparr>) (h_tsubs h)\<rparr>"

definition open_subs :: "Hub \<Rightarrow> nat list" where
  "open_subs h = concat (map (\<lambda>k. t_conns (h_tsubs h ! k)) (vals (h_tenants h)))"

definition hub_Close :: "Hub \<Rightarrow> Hub" where
  "hub_Close h = (let h = cancel_hub h in fold sub_Close (open_subs h) h)"

end
