(* ===== verification/Hub_Laws.thy ===== *)
theory Hub_Laws
  imports Stream_Hub
begin

text \<open>
  What the hub guarantees whatever way its goroutines interleave: an event reaches only the
  subscribers it was published for, in the order of the ids and at most once; the limits on open
  streams and queues hold. The invariants are proved by induction on the runs of the hub.
\<close>

section \<open>Runs of the hub\<close>

text \<open>A published event as its publisher described it, with the id it got.\<close>

record Published =
  p_tenant :: string
  p_to :: "string list"
  p_all :: bool
  p_type :: string
  p_raw :: string
  p_id :: string

text \<open>\<open>returned h i\<close>: the call of \<^verbatim>\<open>Subscribe\<close> that made subscription \<open>i\<close> has returned.\<close>

definition returned :: "Hub \<Rightarrow> nat \<Rightarrow> bool" where
  "returned h i \<longleftrightarrow> (\<forall>ph. (i, ph) \<in> set (h_replays h) \<longrightarrow> ph = ToPush [])"

definition set_phase :: "nat \<Rightarrow> loop_phase \<Rightarrow> Hub \<Rightarrow> Hub" where
  "set_phase k ph = upd_tsub k (\<lambda>t. t\<lparr>t_phase := ph\<rparr>)"

definition take_entry :: "nat \<Rightarrow> Entry \<Rightarrow> Entry list \<Rightarrow> Hub \<Rightarrow> Hub" where
  "take_entry k e es h =
     upd_tsub k (\<lambda>t. t\<lparr>t_last := e_ID e, t_phase := Delivering (event_of e) (addressees h k e) es\<rparr>) h"

definition set_replay :: "nat \<Rightarrow> nat \<times> replay_phase \<Rightarrow> Hub \<Rightarrow> Hub" where
  "set_replay j r h = h\<lparr>h_replays := (h_replays h)[j := r]\<rparr>"

text \<open>The states of a hub, each with the log of what was published so far.\<close>

inductive hub_run :: "('v \<Rightarrow> string option) \<Rightarrow> HubConfig \<Rightarrow> Published list \<Rightarrow> Hub \<Rightarrow> bool"
  for marshal :: "'v \<Rightarrow> string option" and cfg :: HubConfig where
  starts: "hub_run marshal cfg [] (NewHub cfg now)"
| publishes: "hub_run marshal cfg pubs h \<Longrightarrow>
    run_state (PublishID marshal tn to everyone typ d modl) h = (Inr i, h') \<Longrightarrow> encode_payload marshal d = Some raw \<Longrightarrow>
    hub_run marshal cfg (pubs @ [\<lparr>p_tenant = tn, p_to = to, p_all = everyone, p_type = typ, p_raw = raw, p_id = i\<rparr>]) h'"
| refuses: "hub_run marshal cfg pubs h \<Longrightarrow>
    run_state (PublishID marshal tn to everyone typ d modl) h = (Inl err, h') \<Longrightarrow> hub_run marshal cfg pubs h'"
| subscribes: "hub_run marshal cfg pubs h \<Longrightarrow> run_state (Subscribe_open tn u) h = (Inr i, h') \<Longrightarrow>
    hub_run marshal cfg pubs (if lastID = [] then h' else h'\<lparr>h_replays := h_replays h' @ [(i, ToRead lastID)]\<rparr>)"
| rejects: "hub_run marshal cfg pubs h \<Longrightarrow> run_state (Subscribe_open tn u) h = (Inl err, h') \<Longrightarrow> hub_run marshal cfg pubs h'"
| replay_reads: "hub_run marshal cfg pubs h \<Longrightarrow> j < length (h_replays h) \<Longrightarrow> h_replays h ! j = (i, ToRead lastID) \<Longrightarrow>
    run_state (replay_events (s_tenant (h_subs h ! i)) (s_user (h_subs h ! i)) lastID) h = (evs, h') \<Longrightarrow>
    hub_run marshal cfg pubs (set_replay j (i, ToPush evs) h')"
| replay_pushes: "hub_run marshal cfg pubs h \<Longrightarrow> j < length (h_replays h) \<Longrightarrow> h_replays h ! j = (i, ToPush (ev # evs)) \<Longrightarrow>
    hub_run marshal cfg pubs (set_replay j (i, ToPush evs) (snd (push_to i ev h)))"
| loop_stops: "hub_run marshal cfg pubs h \<Longrightarrow> k < length (h_tsubs h) \<Longrightarrow> t_phase (h_tsubs h ! k) = AtHead \<Longrightarrow>
    t_cancelled (h_tsubs h ! k) \<Longrightarrow> hub_run marshal cfg pubs (set_phase k Returned h)"
| loop_starts: "hub_run marshal cfg pubs h \<Longrightarrow> k < length (h_tsubs h) \<Longrightarrow> t_phase (h_tsubs h ! k) = AtHead \<Longrightarrow>
    \<not> t_cancelled (h_tsubs h ! k) \<Longrightarrow> run_state (loop_trim k ticked) h = ((), h') \<Longrightarrow> hub_run marshal cfg pubs (set_phase k Reading h')"
| loop_reads: "hub_run marshal cfg pubs h \<Longrightarrow> k < length (h_tsubs h) \<Longrightarrow> t_phase (h_tsubs h ! k) = Reading \<Longrightarrow>
    run_state (loop_read k) h = ((), h') \<Longrightarrow> hub_run marshal cfg pubs h'"
| loop_ends: "hub_run marshal cfg pubs h \<Longrightarrow> k < length (h_tsubs h) \<Longrightarrow> t_phase (h_tsubs h ! k) = Dispatching [] \<Longrightarrow>
    hub_run marshal cfg pubs (set_phase k AtHead h)"
| loop_takes: "hub_run marshal cfg pubs h \<Longrightarrow> k < length (h_tsubs h) \<Longrightarrow> t_phase (h_tsubs h ! k) = Dispatching (e # es) \<Longrightarrow>
    hub_run marshal cfg pubs (take_entry k e es h)"
| loop_delivers: "hub_run marshal cfg pubs h \<Longrightarrow> k < length (h_tsubs h) \<Longrightarrow> t_phase (h_tsubs h ! k) = Delivering ev (i # js) es \<Longrightarrow>
    hub_run marshal cfg pubs (set_phase k (Delivering ev js es) (deliver i ev h))"
| loop_next: "hub_run marshal cfg pubs h \<Longrightarrow> k < length (h_tsubs h) \<Longrightarrow> t_phase (h_tsubs h ! k) = Delivering ev [] es \<Longrightarrow>
    hub_run marshal cfg pubs (set_phase k (Dispatching es) h)"
| receives: "hub_run marshal cfg pubs h \<Longrightarrow> i < length (h_subs h) \<Longrightarrow> returned h i \<Longrightarrow> s_ch (h_subs h ! i) \<noteq> [] \<Longrightarrow>
    hub_run marshal cfg pubs (receive i h)"
| closes: "hub_run marshal cfg pubs h \<Longrightarrow> i < length (h_subs h) \<Longrightarrow> hub_run marshal cfg pubs (sub_Close i h)"
| cancels: "hub_run marshal cfg pubs h \<Longrightarrow> hub_run marshal cfg pubs (cancel_hub h)"
| clock: "hub_run marshal cfg pubs h \<Longrightarrow> hub_run marshal cfg pubs (h\<lparr>h_now := now\<rparr>)"
| outage: "hub_run marshal cfg pubs h \<Longrightarrow> hub_run marshal cfg pubs (h\<lparr>h_mem := (h_mem h)\<lparr>m_Err := err\<rparr>\<rparr>)"
| drops: "hub_run marshal cfg pubs h \<Longrightarrow> hub_run marshal cfg pubs (h\<lparr>h_mem := snd (run_state mem_Close (h_mem h))\<rparr>)"

section \<open>Who gets what\<close>

text \<open>
  \<open>meant_for p tn u\<close>: the publisher of \<open>p\<close> addressed user \<open>u\<close> of tenant \<open>tn\<close>. The single
  recipient \<^verbatim>\<open>*\<close> is stored like a broadcast, and is one.
\<close>

definition meant_for :: "Published \<Rightarrow> string \<Rightarrow> string \<Rightarrow> bool" where
  "meant_for p tn u \<longleftrightarrow> p_tenant p = tn \<and> (p_all p \<or> p_to p = [''*''] \<or> u \<in> set (p_to p))"

definition event_as :: "Published \<Rightarrow> StreamEvent" where
  "event_as p = \<lparr>v_ID = p_id p, v_Type = p_type p, v_Data = p_raw p\<rparr>"

definition legit :: "Published list \<Rightarrow> string \<times> string \<Rightarrow> StreamEvent \<Rightarrow> bool" where
  "legit pubs w ev \<longleftrightarrow> v_ID ev = [] \<and> v_Type ev = ''reset'' \<or>
     (\<exists>p \<in> set pubs. meant_for p (fst w) (snd w) \<and> ev = event_as p)"

definition describes :: "Published \<Rightarrow> Entry \<Rightarrow> bool" where
  "describes p e \<longleftrightarrow> e_ID e = p_id p \<and> field e ''type'' = p_type p \<and> field e ''data'' = p_raw p \<and>
     field e ''to'' = (if p_all p then ''*'' else Join (p_to p) '','') \<and>
     (\<not> p_all p \<longrightarrow> p_to p \<noteq> [] \<and> (\<forall>u \<in> set (p_to p). \<not> bad_user u))"

definition entry_good :: "Published list \<Rightarrow> string \<Rightarrow> Entry \<Rightarrow> bool" where
  "entry_good pubs tn e \<longleftrightarrow> (\<exists>p \<in> set pubs. p_tenant p = tn \<and> describes p e)"

lemma Join_star: "xs \<noteq> [] \<Longrightarrow> \<forall>x \<in> set xs. x \<noteq> [] \<Longrightarrow> Join xs '','' = ''*'' \<Longrightarrow> xs = [''*'']"
  by (induction xs "'',''" rule: Join.induct) (auto simp: append_eq_Cons_conv)

lemma targets_meant:
  assumes "describes p e" and "targets (field e ''to'') u"
  shows "meant_for p (p_tenant p) u"
proof (cases "p_all p")
  case False
  then have p: "field e ''to'' = Join (p_to p) '',''" "p_to p \<noteq> []"
      "\<forall>v \<in> set (p_to p). v \<noteq> []" "\<forall>v \<in> set (p_to p). CHR '','' \<notin> set v"
    using assms(1) by (auto simp: describes_def bad_user_def ContainsAny_def list_ex_iff)
  show ?thesis
    using assms(2) p Split_Join [OF p(2,4)] Join_star [OF p(2,3)] by (auto simp: targets_def meant_for_def)
qed (simp add: meant_for_def)

lemma legit_event_of:
  assumes "entry_good pubs tn e" and "targets (field e ''to'') u"
  shows "legit pubs (tn, u) (event_of e)"
  using assms targets_meant
  by (fastforce simp: entry_good_def legit_def event_of_def event_as_def describes_def)

lemma legit_mono: "legit pubs w ev \<Longrightarrow> legit (pubs @ l) w ev"
  by (auto simp: legit_def)

lemma entry_good_mono: "entry_good pubs tn e \<Longrightarrow> entry_good (pubs @ l) tn e"
  by (auto simp: entry_good_def)

lemma legit_reset [simp]: "legit pubs w (reset_event r)"
  by (simp add: legit_def reset_event_def)

section \<open>One subscription\<close>

definition seen :: "Subscription \<Rightarrow> StreamEvent list" where
  "seen s = s_got s @ s_ch s"

definition ids :: "StreamEvent list \<Rightarrow> string list" where
  "ids evs = filter (\<lambda>i. i \<noteq> []) (map v_ID evs)"

definition sub_good :: "Published list \<Rightarrow> Subscription \<Rightarrow> bool" where
  "sub_good pubs s \<longleftrightarrow> (\<forall>ev \<in> set (seen s). legit pubs (s_tenant s, s_user s) ev) \<and>
     sorted_wrt Less (ids (seen s)) \<and>
     (\<forall>i \<in> set (ids (seen s)). s_last s \<noteq> [] \<and> (i = s_last s \<or> Less i (s_last s))) \<and>
     length (s_ch s) \<le> connBuffer"

lemma push_fields [simp]:
  "s_tenant (snd (push ev s)) = s_tenant s" "s_user (snd (push ev s)) = s_user s"
  "s_closed (snd (push ev s)) = s_closed s" "s_got (snd (push ev s)) = s_got s"
  by (auto simp: push_def Let_def)

lemma ids_append [simp]: "ids (xs @ ys) = ids xs @ ids ys"
  by (simp add: ids_def)

lemma push_good:
  assumes "sub_good pubs s" and "legit pubs (s_tenant s, s_user s) ev"
  shows "sub_good pubs (snd (push ev s))"
proof (cases "s_closed s \<or> (v_ID ev \<noteq> [] \<and> s_last s \<noteq> [] \<and> \<not> Less (s_last s) (v_ID ev))")
  case True
  then show ?thesis using assms(1) by (simp add: push_def)
next
  case False
  then have "v_ID ev \<noteq> [] \<Longrightarrow> \<forall>i \<in> set (ids (seen s)). Less i (v_ID ev)"
    using assms(1) by (auto simp: sub_good_def intro: Less_trans)
  moreover have "snd (push ev s) = (let s' = (if v_ID ev = [] then s else s\<lparr>s_last := v_ID ev\<rparr>) in
      if length (s_ch s) < connBuffer then s'\<lparr>s_ch := s_ch s @ [ev]\<rparr> else s')"
    using False by (auto simp add: push_def Let_def)
  ultimately show ?thesis
    using assms
    by (cases "v_ID ev = []"; cases "length (s_ch s) < connBuffer")
      (auto simp: sub_good_def Let_def seen_def ids_def sorted_wrt_append)
qed

lemma sub_good_mono: "sub_good pubs s \<Longrightarrow> sub_good (pubs @ l) s"
  by (auto simp: sub_good_def intro: legit_mono)

section \<open>The whole hub\<close>

definition who :: "Hub \<Rightarrow> (string \<times> string) list" where
  "who h = map (\<lambda>s. (s_tenant s, s_user s)) (h_subs h)"

definition mem_good :: "Published list \<Rightarrow> Memory \<Rightarrow> bool" where
  "mem_good pubs m \<longleftrightarrow> (\<forall>tn. \<forall>e \<in> set (stream_of m (stream_Key tn)). entry_good pubs tn e)"

fun phase_good :: "Published list \<Rightarrow> (string \<times> string) list \<Rightarrow> string \<Rightarrow> loop_phase \<Rightarrow> bool" where
  "phase_good pubs ws tn (Dispatching es) = (\<forall>e \<in> set es. entry_good pubs tn e)"
| "phase_good pubs ws tn (Delivering ev js es) =
     ((\<forall>i \<in> set js. i < length ws \<and> legit pubs (ws ! i) ev) \<and> (\<forall>e \<in> set es. entry_good pubs tn e))"
| "phase_good pubs ws tn ph = True"

definition tsub_good :: "Published list \<Rightarrow> (string \<times> string) list \<Rightarrow> tenantSub \<Rightarrow> bool" where
  "tsub_good pubs ws t \<longleftrightarrow> (\<forall>i \<in> set (t_conns t). i < length ws \<and> fst (ws ! i) = t_id t) \<and>
     phase_good pubs ws (t_id t) (t_phase t)"

fun replay_good :: "Published list \<Rightarrow> (string \<times> string) list \<Rightarrow> nat \<times> replay_phase \<Rightarrow> bool" where
  "replay_good pubs ws (i, ToRead _) = (i < length ws)"
| "replay_good pubs ws (i, ToPush evs) = (i < length ws \<and> (\<forall>ev \<in> set evs. legit pubs (ws ! i) ev))"

definition index_good :: "Hub \<Rightarrow> bool" where
  "index_good h \<longleftrightarrow> (\<forall>(tn, k) \<in> set (h_tenants h). k < length (h_tsubs h) \<and> t_id (h_tsubs h ! k) = tn)"

definition hub_good :: "Published list \<Rightarrow> Hub \<Rightarrow> bool" where
  "hub_good pubs h \<longleftrightarrow> mem_good pubs (h_mem h) \<and> (\<forall>t \<in> set (h_tsubs h). tsub_good pubs (who h) t) \<and>
     (\<forall>r \<in> set (h_replays h). replay_good pubs (who h) r) \<and> (\<forall>s \<in> set (h_subs h). sub_good pubs s) \<and> index_good h"

lemma who_nth: "i < length (h_subs h) \<Longrightarrow> who h ! i = (s_tenant (h_subs h ! i), s_user (h_subs h ! i))"
  by (simp add: who_def)

lemma length_who [simp]: "length (who h) = length (h_subs h)"
  by (simp add: who_def)

text \<open>Only the record of a subscription changes, not whose it is.\<close>

lemma who_upd_sub:
  assumes "i < length (h_subs h) \<Longrightarrow> s_tenant (f (h_subs h ! i)) = s_tenant (h_subs h ! i) \<and> s_user (f (h_subs h ! i)) = s_user (h_subs h ! i)"
  shows "who (upd_sub i f h) = who h"
  using assms
  by (cases "i < length (h_subs h)") (simp_all add: who_def upd_sub_def map_update list_update_beyond list_update_same_conv)

lemma who_upd_tsub [simp]: "who (upd_tsub k f h) = who h"
  by (simp add: who_def upd_tsub_def)

lemma who_other [simp]:
  "who (h\<lparr>h_mem := m\<rparr>) = who h" "who (h\<lparr>h_tenants := x, h_tsubs := y\<rparr>) = who h" "who (h\<lparr>h_tenants := x\<rparr>) = who h"
  "who (h\<lparr>h_replays := z\<rparr>) = who h" "who (h\<lparr>h_now := n\<rparr>) = who h" "who (h\<lparr>h_done := b, h_tsubs := y\<rparr>) = who h"
  by (simp_all add: who_def)

lemma fields_upd_sub [simp]:
  "h_mem (upd_sub i f h) = h_mem h" "h_tsubs (upd_sub i f h) = h_tsubs h" "h_replays (upd_sub i f h) = h_replays h"
  "h_tenants (upd_sub i f h) = h_tenants h" "h_cfg (upd_sub i f h) = h_cfg h" "length (h_subs (upd_sub i f h)) = length (h_subs h)"
  by (simp_all add: upd_sub_def)

lemma fields_upd_tsub [simp]:
  "h_mem (upd_tsub k f h) = h_mem h" "h_subs (upd_tsub k f h) = h_subs h" "h_replays (upd_tsub k f h) = h_replays h"
  "h_tenants (upd_tsub k f h) = h_tenants h" "h_cfg (upd_tsub k f h) = h_cfg h" "length (h_tsubs (upd_tsub k f h)) = length (h_tsubs h)"
  by (simp_all add: upd_tsub_def)

lemma nth_upd_sub: "i < length (h_subs h) \<Longrightarrow> h_subs (upd_sub i f h) ! j = (if j = i then f (h_subs h ! i) else h_subs h ! j)"
  by (simp add: upd_sub_def)

lemma nth_upd_tsub: "k < length (h_tsubs h) \<Longrightarrow> h_tsubs (upd_tsub k f h) ! j = (if j = k then f (h_tsubs h ! k) else h_tsubs h ! j)"
  by (simp add: upd_tsub_def)

lemma good_upd_sub:
  assumes "hub_good pubs h" and "i < length (h_subs h)"
    and "s_tenant (f (h_subs h ! i)) = s_tenant (h_subs h ! i)" and "s_user (f (h_subs h ! i)) = s_user (h_subs h ! i)"
    and "sub_good pubs (h_subs h ! i) \<Longrightarrow> sub_good pubs (f (h_subs h ! i))"
  shows "hub_good pubs (upd_sub i f h)"
proof -
  have w: "who (upd_sub i f h) = who h"
    by (rule who_upd_sub) (simp add: assms)
  have "\<forall>s \<in> set (h_subs (upd_sub i f h)). sub_good pubs s"
    using assms set_update_subset_insert [of "h_subs h" i] unfolding upd_sub_def hub_good_def by fastforce
  then show ?thesis
    using assms(1) by (simp add: hub_good_def w index_good_def)
qed

lemma good_upd_tsub:
  assumes "hub_good pubs h" and "k < length (h_tsubs h)" and "t_id (f (h_tsubs h ! k)) = t_id (h_tsubs h ! k)"
    and "tsub_good pubs (who h) (h_tsubs h ! k) \<Longrightarrow> tsub_good pubs (who h) (f (h_tsubs h ! k))"
  shows "hub_good pubs (upd_tsub k f h)"
proof -
  have "\<forall>t \<in> set (h_tsubs (upd_tsub k f h)). tsub_good pubs (who h) t"
    using assms set_update_subset_insert [of "h_tsubs h" k] unfolding upd_tsub_def hub_good_def by fastforce
  moreover have "index_good (upd_tsub k f h)"
    using assms by (auto simp: index_good_def hub_good_def nth_upd_tsub)
  ultimately show ?thesis
    using assms(1) by (simp add: hub_good_def)
qed

lemma good_mem: "hub_good pubs h \<Longrightarrow> mem_good pubs m \<Longrightarrow> hub_good pubs (h\<lparr>h_mem := m\<rparr>)"
  by (simp add: hub_good_def who_def index_good_def)

lemma good_push:
  assumes "hub_good pubs h" and "i < length (h_subs h)" and "legit pubs (who h ! i) ev"
  shows "hub_good pubs (snd (push_to i ev h))"
  using assms push_good [of pubs "h_subs h ! i" ev]
  by (auto simp: push_to_def Let_def case_prod_beta who_nth intro!: good_upd_sub)

lemma tsub_good_cancelled [simp]: "tsub_good pubs ws (t\<lparr>t_cancelled := b\<rparr>) = tsub_good pubs ws t"
  by (simp add: tsub_good_def)

lemma forget_conn_good: "tsub_good pubs ws t \<Longrightarrow> tsub_good pubs ws (forget_conn i u t)"
  by (simp add: tsub_good_def forget_conn_def Let_def)

lemma sub_Close_unfold:
  "sub_Close i h = (if s_closed (h_subs h ! i) then h else
     let h1 = upd_sub i (\<lambda>s. s\<lparr>s_closed := True\<rparr>) h in
       case map_of (h_tenants h) (s_tenant (h_subs h ! i)) of None \<Rightarrow> h1
       | Some k \<Rightarrow>
           let h2 = upd_tsub k (forget_conn i (s_user (h_subs h ! i))) h1 in
             if t_conns (h_tsubs h2 ! k) = [] then
               (upd_tsub k (\<lambda>t. t\<lparr>t_cancelled := True\<rparr>) h2)\<lparr>h_tenants := AList.delete (s_tenant (h_subs h ! i)) (h_tenants h)\<rparr>
             else h2)"
  by (simp add: sub_Close_def Let_def split: option.split)

lemma index_good_lookup: "index_good h \<Longrightarrow> map_of (h_tenants h) tn = Some k \<Longrightarrow> k < length (h_tsubs h) \<and> t_id (h_tsubs h ! k) = tn"
  by (auto simp: index_good_def dest!: map_of_SomeD)

lemma good_drop_tenant: "hub_good pubs h \<Longrightarrow> hub_good pubs (h\<lparr>h_tenants := AList.delete tn (h_tenants h)\<rparr>)"
  by (auto simp: hub_good_def who_def index_good_def AList.delete_eq)

lemma good_close:
  assumes "hub_good pubs h" and "i < length (h_subs h)"
  shows "hub_good pubs (sub_Close i h)"
proof (cases "s_closed (h_subs h ! i)")
  case True
  then show ?thesis using assms by (simp add: sub_Close_def)
next
  case False
  let ?h1 = "upd_sub i (\<lambda>s. s\<lparr>s_closed := True\<rparr>) h"
  have 1: "hub_good pubs ?h1"
    by (rule good_upd_sub [OF assms]) (simp_all add: sub_good_def seen_def)
  show ?thesis
  proof (cases "map_of (h_tenants h) (s_tenant (h_subs h ! i))")
    case None
    then show ?thesis using 1 False by (simp add: sub_Close_unfold)
  next
    case (Some k)
    let ?h2 = "upd_tsub k (forget_conn i (s_user (h_subs h ! i))) ?h1"
    have k: "k < length (h_tsubs h)"
      using assms(1) Some index_good_lookup by (auto simp: hub_good_def)
    have 2: "hub_good pubs ?h2"
      by (rule good_upd_tsub [OF 1]) (use k in \<open>simp_all add: forget_conn_good\<close>, simp add: forget_conn_def Let_def)
    have "hub_good pubs (upd_tsub k (\<lambda>t. t\<lparr>t_cancelled := True\<rparr>) ?h2)"
      by (rule good_upd_tsub [OF 2]) (use k in simp_all)
    then show ?thesis
      using 2 False Some by (auto simp: sub_Close_unfold Let_def dest: good_drop_tenant)
  qed
qed

lemma good_deliver:
  assumes "hub_good pubs h" and "i < length (h_subs h)" and "legit pubs (who h ! i) ev"
  shows "hub_good pubs (deliver i ev h)"
proof -
  have "length (h_subs (snd (push_to i ev h))) = length (h_subs h)"
    by (simp add: push_to_def case_prod_beta Let_def)
  then show ?thesis
    using good_push [OF assms] good_close [OF good_push [OF assms]] assms(2)
    by (simp add: deliver_def case_prod_beta Let_def)
qed

subsection \<open>The client\<close>

lemma run_client_call:
  "run_state (client_call p) h =
     (case run_state p (h_mem h) of (Inl e, m) \<Rightarrow> (Inl (ClientErr e), h\<lparr>h_mem := m\<rparr>) | (Inr x, m) \<Rightarrow> (Inr x, h\<lparr>h_mem := m\<rparr>))"
  by (auto simp: client_call_def Let_def split: prod.split sum.split)

lemma reads_only [simp]:
  "snd (run_state (XRange key a n) m) = m" "snd (run_state (XRead key a n) m) = m" "snd (run_state (XLast key) m) = m"
  by (auto simp: XRange_def XRead_def XLast_def unless_down_def split: option.split)

lemma client_reads:
  assumes "snd (run_state p (h_mem h)) = h_mem h"
  shows "snd (run_state (client_call p) h) = h"
  using assms by (auto simp: run_client_call split: prod.split sum.split)

lemma stream_Key_inj [simp]: "stream_Key a = stream_Key b \<longleftrightarrow> a = b"
  by (simp add: stream_Key_def)

lemma stream_of_set [simp]: "stream_of (set_stream key es m) key' = (if key' = key then es else stream_of m key')"
  by (simp add: stream_of_def set_stream_def update_conv')

lemma stream_of_seq [simp]: "stream_of (m\<lparr>m_seq := n\<rparr>) key = stream_of m key" "stream_of (m\<lparr>m_Err := x\<rparr>) key = stream_of m key"
  by (simp_all add: stream_of_def)

lemma after_subset: "set (after m key a n) \<subseteq> set (stream_of m key)"
  by (auto simp: after_def Let_def dest: in_set_takeD)

lemma XRange_val: "fst (run_state (XRange key a n) m) = Inr es \<Longrightarrow> set es \<subseteq> set (stream_of m key)"
  using after_subset [of m key a n] by (auto simp: XRange_def unless_down_def split: option.splits)

lemma XRead_val: "fst (run_state (XRead key a n) m) = Inr es \<Longrightarrow> set es \<subseteq> set (stream_of m key)"
  using after_subset [of m key "XRead_from m key a" n] by (auto simp: XRead_def unless_down_def split: option.splits)

lemma XTrim_good: "mem_good pubs m \<Longrightarrow> mem_good pubs (snd (run_state (XTrimMinID key i) m))"
  by (auto simp: XTrimMinID_def unless_down_def mem_good_def split: option.split)

lemma XAdd_good:
  assumes "mem_good pubs m" and "run_state (XAdd now (stream_Key tn) flds n) m = (Inr i, m')"
    and "p_tenant p = tn" and "describes p \<lparr>e_ID = i, e_Fields = flds\<rparr>"
  shows "mem_good (pubs @ [p]) m'"
proof -
  have "entry_good (pubs @ [p]) tn' e" if "e \<in> set (stream_of m' (stream_Key tn'))" for tn' e
  proof -
    have "e \<in> set (stream_of m (stream_Key tn')) \<or> tn' = tn \<and> e = \<lparr>e_ID = i, e_Fields = flds\<rparr>"
      using that assms(2) by (auto simp: XAdd_def unless_down_def Let_def split: option.splits if_splits dest!: in_set_dropD)
    then show ?thesis
      using assms(1,3,4) by (auto simp: mem_good_def entry_good_def)
  qed
  then show ?thesis by (simp add: mem_good_def)
qed

lemma XAdd_fails: "run_state (XAdd now key flds n) m = (Inl e, m') \<Longrightarrow> m' = m"
  by (auto simp: XAdd_def unless_down_def Let_def split: option.splits)

subsection \<open>A longer log\<close>

lemma phase_good_mono: "phase_good pubs ws tn ph \<Longrightarrow> phase_good (pubs @ l) ws tn ph"
  by (cases ph) (auto intro: legit_mono entry_good_mono)

lemma replay_good_mono: "replay_good pubs ws r \<Longrightarrow> replay_good (pubs @ l) ws r"
  by (cases "(pubs, ws, r)" rule: replay_good.cases) (auto intro: legit_mono)

lemma tsub_good_mono: "tsub_good pubs ws t \<Longrightarrow> tsub_good (pubs @ l) ws t"
  by (auto simp: tsub_good_def intro: phase_good_mono)

lemma hub_good_log:
  assumes "hub_good pubs h" and "mem_good (pubs @ l) m"
  shows "hub_good (pubs @ l) (h\<lparr>h_mem := m\<rparr>)"
  using assms
  by (auto simp: hub_good_def index_good_def intro: tsub_good_mono replay_good_mono sub_good_mono)

subsection \<open>More subscriptions\<close>

lemma phase_good_more: "phase_good pubs ws tn ph \<Longrightarrow> phase_good pubs (ws @ l) tn ph"
  by (cases ph) (auto simp: nth_append)

lemma replay_good_more: "replay_good pubs ws r \<Longrightarrow> replay_good pubs (ws @ l) r"
  by (cases "(pubs, ws, r)" rule: replay_good.cases) (auto simp: nth_append)

lemma tsub_good_more: "tsub_good pubs ws t \<Longrightarrow> tsub_good pubs (ws @ l) t"
  by (auto simp: tsub_good_def nth_append phase_good_more)

lemma good_new_sub:
  assumes "hub_good pubs h" and "sub_good pubs s"
  shows "hub_good pubs (h\<lparr>h_subs := h_subs h @ [s]\<rparr>)"
  using assms
  by (auto simp: hub_good_def index_good_def who_def intro: tsub_good_more replay_good_more)

lemma good_new_tsub:
  assumes "hub_good pubs h" and "t_id t = tn" and "t_conns t = []" and "t_phase t = AtHead"
  shows "hub_good pubs (h\<lparr>h_tenants := AList.update tn (length (h_tsubs h)) (h_tenants h), h_tsubs := h_tsubs h @ [t]\<rparr>)"
proof -
  have "index_good (h\<lparr>h_tenants := AList.update tn (length (h_tsubs h)) (h_tenants h), h_tsubs := h_tsubs h @ [t]\<rparr>)"
    using assms set_update_subset [of tn "length (h_tsubs h)" "h_tenants h"]
    by (fastforce simp: index_good_def hub_good_def nth_append)
  then show ?thesis
    using assms by (auto simp: hub_good_def tsub_good_def)
qed

subsection \<open>Every step keeps the invariant\<close>

lemma PublishID_ok:
  assumes "run_state (PublishID marshal tn to everyone typ d modl) h = (Inr i, h')"
  obtains raw m' where "encode_payload marshal d = Some raw" "everyone = (to = [])"
    "\<not> everyone \<Longrightarrow> \<forall>u \<in> set to. \<not> bad_user u" "typeRE typ" "json_Valid raw" "one_line raw" "h' = h\<lparr>h_mem := m'\<rparr>"
    "run_state (XAdd (h_now h) (stream_Key tn)
       [(''to'', if everyone then ''*'' else Join to '',''), (''type'', typ), (''data'', raw), (''at'', Itoa (UnixMilli (h_now h)))]
       (MaxLen (h_cfg h))) (h_mem h) = (Inr i, m')"
  using assms
  by (auto simp: PublishID_def ValidateType_def run_client_call one_line_def ContainsAny_def list_ex_iff
      split: if_splits option.splits prod.splits sum.splits)

lemma PublishID_err:
  assumes "run_state (PublishID marshal tn to everyone typ d modl) h = (Inl err, h')"
  shows "h' = h"
  using assms
  by (auto simp: PublishID_def ValidateType_def run_client_call dest!: XAdd_fails
      split: if_splits option.splits prod.splits sum.splits)

lemma publish_good:
  assumes "hub_good pubs h" and "run_state (PublishID marshal tn to everyone typ d modl) h = (Inr i, h')"
    and "encode_payload marshal d = Some raw"
  shows "hub_good (pubs @ [\<lparr>p_tenant = tn, p_to = to, p_all = everyone, p_type = typ, p_raw = raw, p_id = i\<rparr>]) h'"
  using assms(2)
proof (rule PublishID_ok)
  let ?p = "\<lparr>p_tenant = tn, p_to = to, p_all = everyone, p_type = typ, p_raw = raw, p_id = i\<rparr>"
  fix raw' m'
  assume *: "encode_payload marshal d = Some raw'" "everyone = (to = [])" "\<not> everyone \<Longrightarrow> \<forall>u \<in> set to. \<not> bad_user u"
    and h': "h' = h\<lparr>h_mem := m'\<rparr>"
    and X: "run_state (XAdd (h_now h) (stream_Key tn)
       [(''to'', if everyone then ''*'' else Join to '',''), (''type'', typ), (''data'', raw'), (''at'', Itoa (UnixMilli (h_now h)))]
       (MaxLen (h_cfg h))) (h_mem h) = (Inr i, m')"
  have "mem_good (pubs @ [?p]) m'"
    by (rule XAdd_good [OF _ X]) (use assms(1,3) * in \<open>auto simp: hub_good_def describes_def field_def\<close>)
  then show ?thesis
    unfolding h' by (rule hub_good_log [OF assms(1)])
qed

lemma tenant_sub_cases:
  assumes "run_state (tenant_sub tn) h = (r, h')"
  obtains (found) k where "map_of (h_tenants h) tn = Some k" "r = Inr k" "h' = h"
  | (down) e where "map_of (h_tenants h) tn = None" "r = Inl e" "h' = h"
  | (made) start where "map_of (h_tenants h) tn = None" "fst (run_state (XLast (stream_Key tn)) (h_mem h)) = Inr start"
      "r = Inr (length (h_tsubs h))" "h' = add_tsub (new_tsub tn start) h"
proof (cases "map_of (h_tenants h) tn")
  case None
  obtain x m where X: "run_state (XLast (stream_Key tn)) (h_mem h) = (x, m)" by force
  then have "m = h_mem h" using reads_only(3) [of "stream_Key tn" "h_mem h"] by simp
  with X have "(r, h') = (case x of Inl e \<Rightarrow> (Inl (ClientErr e), h)
      | Inr start \<Rightarrow> (Inr (length (h_tsubs h)), add_tsub (new_tsub tn start) h))"
    using assms None by (cases x) (simp_all add: tenant_sub_def run_try_in run_client_call)
  then show thesis
    using down [OF None] made [OF None] X by (cases x) simp_all
next
  case (Some k)
  then have "r = Inr k" and "h' = h" using assms by (simp_all add: tenant_sub_def)
  then show thesis by (rule found [OF Some])
qed

lemma register_cases:
  assumes "run_state (register tn u k) h = (r, h')"
  obtains (full) "r = Inl ErrTooMany" "h' = h"
      "StreamsPerUser (h_cfg h) \<le> by_user (h_tsubs h ! k) u \<or> StreamsPerTenant (h_cfg h) \<le> int (length (t_conns (h_tsubs h ! k)))"
  | (opened) "r = Inr (length (h_subs h))" "by_user (h_tsubs h ! k) u < StreamsPerUser (h_cfg h)"
      "int (length (t_conns (h_tsubs h ! k))) < StreamsPerTenant (h_cfg h)"
      "h' = upd_tsub k (add_conn (length (h_subs h)) u) (h\<lparr>h_subs := h_subs h @ [new_sub tn u]\<rparr>)"
proof (cases "StreamsPerUser (h_cfg h) \<le> by_user (h_tsubs h ! k) u \<or> StreamsPerTenant (h_cfg h) \<le> int (length (t_conns (h_tsubs h ! k)))")
  case True
  then have "(r, h') = (Inl ErrTooMany, h)" using assms by (simp add: register_def)
  then show thesis using full True by simp
next
  case False
  then have "(r, h') = (Inr (length (h_subs h)), upd_tsub k (add_conn (length (h_subs h)) u) (h\<lparr>h_subs := h_subs h @ [new_sub tn u]\<rparr>))"
    using assms by (simp add: register_def)
  then show thesis using opened False by simp
qed

lemma register_good:
  assumes "hub_good pubs h" and "k < length (h_tsubs h)" and "t_id (h_tsubs h ! k) = tn" and "run_state (register tn u k) h = (r, h')"
  shows "hub_good pubs h'"
  using assms(4)
proof (cases rule: register_cases)
  case full
  then show ?thesis using assms(1) by simp
next
  case opened
  have "hub_good pubs (h\<lparr>h_subs := h_subs h @ [new_sub tn u]\<rparr>)"
    by (rule good_new_sub [OF assms(1)]) (simp add: sub_good_def seen_def ids_def new_sub_def)
  then show ?thesis
    unfolding opened
    by (rule good_upd_tsub)
      (use assms(2,3) in \<open>auto simp: add_conn_def tsub_good_def who_def nth_append new_sub_def\<close>)
qed

lemma add_tsub_good:
  assumes "hub_good pubs h" and "t_conns t = []" and "t_phase t = AtHead"
  shows "hub_good pubs (add_tsub t h)"
  unfolding add_tsub_def by (rule good_new_tsub [OF assms(1) refl assms(2,3)])

lemma Subscribe_open_err: "run_state (Subscribe_open tn u) h = (r, h') \<Longrightarrow> h_done h \<Longrightarrow> h' = h \<and> r = Inl HubClosed"
  by (simp add: Subscribe_open_def)

lemma Subscribe_open_run:
  assumes "run_state (Subscribe_open tn u) h = (r, h')" and "\<not> h_done h"
  obtains (down) e where "run_state (tenant_sub tn) h = (Inl e, h')" "r = Inl e"
  | (registers) k h1 where "run_state (tenant_sub tn) h = (Inr k, h1)" "run_state (register tn u k) h1 = (r, h')"
proof -
  obtain x h1 where x: "run_state (tenant_sub tn) h = (x, h1)" by force
  with assms have "(r, h') = (case x of Inl e \<Rightarrow> (Inl e, h1) | Inr k \<Rightarrow> run_state (register tn u k) h1)"
    by (cases x) (auto simp: Subscribe_open_def run_try_in)
  with x down registers show thesis by (cases x) simp_all
qed

lemma new_tsub_fields [simp]:
  "t_id (new_tsub tn start) = tn" "t_conns (new_tsub tn start) = []" "t_phase (new_tsub tn start) = AtHead" "t_byUser (new_tsub tn start) = []"
  by (simp_all add: new_tsub_def)

lemma add_tsub_fields [simp]:
  "h_tsubs (add_tsub t h) = h_tsubs h @ [t]" "h_subs (add_tsub t h) = h_subs h" "h_cfg (add_tsub t h) = h_cfg h"
  "h_tenants (add_tsub t h) = AList.update (t_id t) (length (h_tsubs h)) (h_tenants h)" "h_mem (add_tsub t h) = h_mem h"
  "h_replays (add_tsub t h) = h_replays h"
  by (simp_all add: add_tsub_def)

lemma subscribe_good:
  assumes "hub_good pubs h" and "run_state (Subscribe_open tn u) h = (r, h')"
  shows "hub_good pubs h'"
proof (cases "h_done h")
  case True
  then show ?thesis using Subscribe_open_err [OF assms(2)] assms(1) by simp
next
  case False
  from assms(2) this show ?thesis
  proof (cases rule: Subscribe_open_run)
    case (down e)
    then show ?thesis using assms(1) by (auto elim: tenant_sub_cases)
  next
    case (registers k h1)
    from registers(1) have "hub_good pubs h1 \<and> k < length (h_tsubs h1) \<and> t_id (h_tsubs h1 ! k) = tn"
      using assms(1) index_good_lookup [of h tn]
      by (cases rule: tenant_sub_cases) (auto simp: hub_good_def add_tsub_good [OF assms(1), unfolded hub_good_def])
    then show ?thesis using register_good [OF _ _ _ registers(2)] by blast
  qed
qed

lemma mem_good_other [simp]:
  "mem_good pubs (m\<lparr>m_Err := e\<rparr>) = mem_good pubs m"
  by (simp add: mem_good_def)

lemma replay_events_good:
  assumes "hub_good pubs h" and "run_state (replay_events tn u lastID) h = (evs, h')"
  shows "h' = h \<and> (\<forall>ev \<in> set evs. legit pubs (tn, u) ev)"
proof -
  obtain x m where X: "run_state (XRange (stream_Key tn) lastID (MaxLen (h_cfg h))) (h_mem h) = (x, m)" by force
  have m: "m = h_mem h" using X reads_only(1) by (metis snd_conv)
  have "\<forall>e \<in> set es. entry_good pubs tn e" if "x = Inr es" for es
    using XRange_val [of "stream_Key tn" lastID "MaxLen (h_cfg h)" "h_mem h" es] X that assms(1)
    by (auto simp: hub_good_def mem_good_def)
  then show ?thesis
    using assms(2) X m
    by (cases x) (auto simp: replay_events_def run_client_call legit_event_of split: prod.splits if_splits)
qed

lemma set_replay_good:
  assumes "hub_good pubs h" and "replay_good pubs (who h) r"
  shows "hub_good pubs (set_replay j r h)"
  using assms set_update_subset_insert [of "h_replays h" j r] by (auto simp: hub_good_def set_replay_def index_good_def)

lemma set_phase_good:
  assumes "hub_good pubs h" and "k < length (h_tsubs h)" and "phase_good pubs (who h) (t_id (h_tsubs h ! k)) ph"
  shows "hub_good pubs (set_phase k ph h)"
  unfolding set_phase_def by (rule good_upd_tsub [OF assms(1,2)]) (use assms(3) in \<open>simp_all add: tsub_good_def\<close>)

lemma loop_trim_good:
  assumes "hub_good pubs h" and "run_state (loop_trim k ticked) h = ((), h')"
  shows "hub_good pubs h' \<and> h_tsubs h' = h_tsubs h"
proof -
  have "hub_good pubs (snd (run_state (client_call (XTrimMinID key i)) h)) \<and>
      h_tsubs (snd (run_state (client_call (XTrimMinID key i)) h)) = h_tsubs h" for key i
    using assms(1) XTrim_good [of pubs "h_mem h" key i]
    by (auto simp: run_client_call hub_good_def index_good_def split: prod.split sum.split)
  then show ?thesis
    using assms by (auto simp: loop_trim_def case_prod_beta split: if_splits)
qed

lemma loop_read_good:
  assumes "hub_good pubs h" and "k < length (h_tsubs h)" and "run_state (loop_read k) h = ((), h')"
  shows "hub_good pubs h'"
proof -
  let ?t = "h_tsubs h ! k"
  obtain x m where X: "run_state (XRead (stream_Key (t_id ?t)) (t_last ?t) 100) (h_mem h) = (x, m)" by force
  have m: "m = h_mem h" using X reads_only(2) by (metis snd_conv)
  have "\<forall>e \<in> set es. entry_good pubs (t_id ?t) e" if "x = Inr es" for es
    using XRead_val [of "stream_Key (t_id ?t)" "t_last ?t" 100 "h_mem h" es] X that assms(1)
    by (auto simp: hub_good_def mem_good_def)
  then have ph: "phase_good pubs (who h) (t_id ?t) (case x of Inl _ \<Rightarrow> AtHead | Inr es \<Rightarrow> Dispatching es)"
    by (cases x) simp_all
  have "h' = set_phase k (case x of Inl _ \<Rightarrow> AtHead | Inr es \<Rightarrow> Dispatching es) h"
    using assms(3) X m by (cases x) (auto simp: loop_read_def run_client_call set_phase_def)
  then show ?thesis using set_phase_good [OF assms(1,2) ph] by simp
qed

lemma hub_goodD:
  assumes "hub_good pubs h"
  shows "k < length (h_tsubs h) \<Longrightarrow> tsub_good pubs (who h) (h_tsubs h ! k)"
    and "j < length (h_replays h) \<Longrightarrow> replay_good pubs (who h) (h_replays h ! j)"
    and "i < length (h_subs h) \<Longrightarrow> sub_good pubs (h_subs h ! i)"
  using assms by (simp_all add: hub_good_def)

lemma take_entry_good:
  assumes "hub_good pubs h" and "k < length (h_tsubs h)" and "t_phase (h_tsubs h ! k) = Dispatching (e # es)"
  shows "hub_good pubs (take_entry k e es h)"
proof -
  let ?t = "h_tsubs h ! k"
  have t: "\<forall>i \<in> set (t_conns ?t). i < length (h_subs h) \<and> fst (who h ! i) = t_id ?t"
      "entry_good pubs (t_id ?t) e" "\<forall>e \<in> set es. entry_good pubs (t_id ?t) e"
    using hub_goodD(1) [OF assms(1,2)] assms(3) by (auto simp: tsub_good_def)
  have "legit pubs (who h ! i) (event_of e)" if "i \<in> set (addressees h k e)" for i
    using that t legit_event_of [OF t(2)] by (auto simp: addressees_def who_nth)
  moreover have "i < length (h_subs h)" if "i \<in> set (addressees h k e)" for i
    using that t by (auto simp: addressees_def)
  ultimately show ?thesis
    unfolding take_entry_def
    by (intro good_upd_tsub [OF assms(1,2)]) (use t in \<open>simp_all add: tsub_good_def\<close>)
qed

lemma who_push [simp]: "i < length (h_subs h) \<Longrightarrow> who (snd (push_to i ev h)) = who h"
  by (simp add: push_to_def case_prod_beta Let_def who_upd_sub)

lemma length_push [simp]: "length (h_subs (snd (push_to i ev h))) = length (h_subs h)"
  by (simp add: push_to_def case_prod_beta Let_def)

lemma tsubs_push [simp]: "h_tsubs (snd (push_to i ev h)) = h_tsubs h"
  by (simp add: push_to_def case_prod_beta Let_def)

text \<open>Closing a subscription changes neither owners nor the loops.\<close>

lemma who_close [simp]: "i < length (h_subs h) \<Longrightarrow> who (sub_Close i h) = who h"
  by (simp add: sub_Close_unfold Let_def who_upd_sub split: option.split)

lemma loops_close: "map (\<lambda>t. (t_id t, t_phase t)) (h_tsubs (sub_Close i h)) = map (\<lambda>t. (t_id t, t_phase t)) (h_tsubs h)"
proof -
  have "map (\<lambda>t. (t_id t, t_phase t)) (h_tsubs (upd_tsub k f h)) = map (\<lambda>t. (t_id t, t_phase t)) (h_tsubs h)"
    if "\<And>t. t_id (f t) = t_id t \<and> t_phase (f t) = t_phase t" for k f and h :: Hub
    using that by (cases "k < length (h_tsubs h)") (simp_all add: upd_tsub_def map_update list_update_same_conv list_update_beyond)
  note * = this
  show ?thesis
    by (simp add: sub_Close_unfold Let_def * forget_conn_def split: option.split)
qed

lemma loops_deliver: "map (\<lambda>t. (t_id t, t_phase t)) (h_tsubs (deliver i ev h)) = map (\<lambda>t. (t_id t, t_phase t)) (h_tsubs h)"
  by (simp add: deliver_def case_prod_beta Let_def loops_close)

lemma loop_same:
  assumes "map (\<lambda>t. (t_id t, t_phase t)) ts' = map (\<lambda>t. (t_id t, t_phase t)) ts"
  shows "length ts' = length ts \<and> (k < length ts \<longrightarrow> t_id (ts' ! k) = t_id (ts ! k) \<and> t_phase (ts' ! k) = t_phase (ts ! k))"
proof -
  have len: "length ts' = length ts" using arg_cong [OF assms, of length] by simp
  moreover have "(t_id (ts' ! k), t_phase (ts' ! k)) = (t_id (ts ! k), t_phase (ts ! k))" if "k < length ts"
    using arg_cong [OF assms, of "\<lambda>xs. xs ! k"] that len by simp
  ultimately show ?thesis by simp
qed

lemma who_deliver [simp]: "i < length (h_subs h) \<Longrightarrow> who (deliver i ev h) = who h"
  by (simp add: deliver_def case_prod_beta Let_def)

lemma subscribed_index:
  assumes "run_state (Subscribe_open tn u) h = (Inr i, h')"
  shows "i < length (h_subs h')"
proof -
  have "\<not> h_done h" using Subscribe_open_err [OF assms] by auto
  with assms obtain k h1 where "run_state (register tn u k) h1 = (Inr i, h')"
    by (cases rule: Subscribe_open_run) auto
  then show ?thesis by (cases rule: register_cases) auto
qed

lemma hub_run_good: "hub_run marshal cfg pubs h \<Longrightarrow> hub_good pubs h"
proof (induction rule: hub_run.induct)
  case (starts now)
  show ?case by (simp add: hub_good_def NewHub_def mem_good_def NewMemory_def stream_of_def index_good_def)
next
  case (publishes pubs h tn to everyone ty d modl i h' raw)
  then show ?case using publish_good by blast
next
  case (refuses pubs h tn to everyone ty d modl err h')
  then show ?case using PublishID_err by blast
next
  case (subscribes pubs h tn u i h' lastID)
  have "hub_good pubs h'" by (rule subscribe_good [OF subscribes.IH subscribes.hyps(2)])
  moreover have "i < length (h_subs h')" by (rule subscribed_index [OF subscribes.hyps(2)])
  ultimately show ?case by (auto simp: hub_good_def index_good_def)
next
  case (rejects pubs h tn u err h')
  then show ?case using subscribe_good by blast
next
  case (replay_reads pubs h j i lastID evs h')
  have "i < length (h_subs h)" using hub_goodD(2) [OF replay_reads.IH, of j] replay_reads.hyps by simp
  with replay_events_good [OF replay_reads.IH replay_reads.hyps(4)] replay_reads.IH show ?case
    by (auto simp: who_nth intro!: set_replay_good)
next
  case (replay_pushes pubs h j i ev evs)
  then have r: "i < length (h_subs h)" "\<forall>e \<in> set (ev # evs). legit pubs (who h ! i) e"
    using hub_goodD(2) [OF replay_pushes.IH, of j] by simp_all
  with good_push [OF replay_pushes.IH] show ?case by (auto intro!: set_replay_good)
next
  case (loop_stops pubs h k)
  then show ?case by (simp add: set_phase_good)
next
  case (loop_starts pubs h k ticked h')
  then show ?case using loop_trim_good [of pubs h k ticked h'] by (simp add: set_phase_good)
next
  case (loop_reads pubs h k h')
  then show ?case using loop_read_good by blast
next
  case (loop_ends pubs h k)
  then show ?case by (simp add: set_phase_good)
next
  case (loop_takes pubs h k e es)
  then show ?case by (intro take_entry_good)
next
  case (loop_delivers pubs h k ev i js es)
  have p: "i < length (h_subs h)" "legit pubs (who h ! i) ev" "phase_good pubs (who h) (t_id (h_tsubs h ! k)) (Delivering ev js es)"
    using hub_goodD(1) [OF loop_delivers.IH loop_delivers.hyps(2)] loop_delivers.hyps(3) by (auto simp: tsub_good_def)
  show ?case
    using loop_same [OF loops_deliver [of i ev h], of k] loop_delivers.hyps(2) p
    by (intro set_phase_good good_deliver loop_delivers.IH) simp_all
next
  case (loop_next pubs h k ev es)
  then have "phase_good pubs (who h) (t_id (h_tsubs h ! k)) (Dispatching es)"
    using hub_goodD(1) [OF loop_next.IH loop_next.hyps(2)] by (auto simp: tsub_good_def)
  then show ?case by (intro set_phase_good loop_next.IH loop_next.hyps)
next
  case (receives pubs h i)
  have "sub_good pubs s \<Longrightarrow> s_ch s \<noteq> [] \<Longrightarrow> sub_good pubs (s\<lparr>s_ch := tl (s_ch s), s_got := s_got s @ [hd (s_ch s)]\<rparr>)" for s
    by (cases "s_ch s") (auto simp: sub_good_def seen_def)
  with receives show ?case unfolding receive_def by (intro good_upd_sub) simp_all
next
  case (closes pubs h i)
  then show ?case by (intro good_close)
next
  case (cancels pubs h)
  then show ?case by (auto simp: cancel_hub_def hub_good_def index_good_def)
next
  case (clock pubs h now)
  then show ?case by (simp add: hub_good_def index_good_def)
next
  case (outage pubs h err)
  then show ?case by (simp add: good_mem hub_good_def index_good_def)
next
  case (drops pubs h)
  then show ?case by (intro good_mem) (simp_all add: mem_Close_def mem_good_def stream_of_def)
qed

text \<open>
  C23: whatever the interleaving of publishers, subscriber loops, replays, readers, trims and
  outages, what a subscription was handed or still has queued is a \<^verbatim>\<open>reset\<close> notice or an event
  some publisher addressed to that user of that tenant, with the published type and payload;
  the ids of the events it gets strictly increase, so nothing comes twice or out of order; and no more than 32 events wait
  in its queue.
\<close>

theorem stream_delivery:
  assumes "hub_run marshal cfg pubs h" and "i < length (h_subs h)"
  shows "let s = h_subs h ! i; evs = s_got s @ s_ch s in
    (\<forall>ev \<in> set evs. v_ID ev = [] \<and> v_Type ev = ''reset'' \<or>
       (\<exists>p \<in> set pubs. meant_for p (s_tenant s) (s_user s) \<and> ev = event_as p)) \<and>
    sorted_wrt Less (filter (\<lambda>x. x \<noteq> []) (map v_ID evs)) \<and> length (s_ch s) \<le> connBuffer"
  using hub_goodD(3) [OF hub_run_good [OF assms(1)] assms(2)]
  by (simp add: sub_good_def legit_def seen_def ids_def Let_def)

subsection \<open>A run\<close>

text \<open>One user subscribes, one event is published for that user and delivered.\<close>

definition demo_cfg :: HubConfig where
  "demo_cfg = \<lparr>ReplayWindow = 0, StreamsPerUser = 0, StreamsPerTenant = 0, MaxLen = 0\<rparr>"

definition demo_now :: gotime where
  "demo_now = unix_epoch + 5000000"

definition demo_entry :: Entry where
  "demo_entry = \<lparr>e_ID = mk_ID 5 1, e_Fields = [(''to'', ''u1''), (''type'', ''asset.assigned''), (''data'', ''{}''), (''at'', Itoa 5)]\<rparr>"

definition demo_mem :: Memory where
  "demo_mem = \<lparr>m_streams = [(stream_Key ''t1'', [demo_entry])], m_counters = [], m_seq = 1, m_Err = None\<rparr>"

definition demo_at :: "Memory \<Rightarrow> string \<Rightarrow> loop_phase \<Rightarrow> Subscription \<Rightarrow> Hub" where
  "demo_at m l ph s = \<lparr>h_mem = m, h_cfg = h_cfg (NewHub demo_cfg 0), h_now = demo_now, h_done = False, h_tenants = [(''t1'', 0)],
     h_tsubs = [\<lparr>t_id = ''t1'', t_conns = [0], t_byUser = [(''u1'', 1)], t_cancelled = False, t_last = l, t_phase = ph\<rparr>],
     h_subs = [s], h_replays = []\<rparr>"

definition demo_log :: "Published list" where
  "demo_log = [\<lparr>p_tenant = ''t1'', p_to = [''u1''], p_all = False, p_type = ''asset.assigned'', p_raw = ''{}'', p_id = mk_ID 5 1\<rparr>]"

definition demo_sub :: Subscription where
  "demo_sub = (new_sub ''t1'' ''u1'')\<lparr>s_last := mk_ID 5 1\<rparr>"

definition hub_demo :: Hub where
  "hub_demo = demo_at demo_mem (mk_ID 5 1) (Delivering (event_of demo_entry) [] []) (demo_sub\<lparr>s_got := [event_of demo_entry]\<rparr>)"

lemma demo_subscribes: "run_state (Subscribe_open ''t1'' ''u1'') (NewHub demo_cfg demo_now) =
    (Inr 0, demo_at NewMemory ''0-0'' AtHead (new_sub ''t1'' ''u1''))"
  by (simp add: Subscribe_open_def tenant_sub_def register_def run_try_in run_client_call XLast_def unless_down_def stream_of_def
      NewMemory_def NewHub_def demo_at_def demo_cfg_def new_tsub_def add_tsub_def upd_tsub_def add_conn_def by_user_def)

lemma demo_publishes: "run_state (PublishID (\<lambda>_ :: unit. None) ''t1'' [''u1''] False ''asset.assigned'' NoPayload True) (demo_at NewMemory l ph s) =
    (Inr (mk_ID 5 1), demo_at demo_mem l ph s)"
proof -
  have "typeRE ''asset.assigned''" "''asset.assigned'' \<notin> set Reserved" "json_Valid ''{}''" "\<not> ContainsAny ''{}'' [CHR 0x0A, CHR 0x0D]"
      "\<not> bad_user ''u1''" "UnixMilli demo_now = 5" "MaxTargets = 1000" "MaxPayload = 16384" "MaxLen (h_cfg (NewHub demo_cfg 0)) = 10000"
    by code_simp+
  then show ?thesis
    by (simp add: PublishID_def ValidateType_def encode_payload_def run_client_call XAdd_def unless_down_def Let_def demo_at_def
        stream_ID_def demo_mem_def demo_entry_def NewMemory_def stream_of_def set_stream_def)
qed

lemma demo_reads: "run_state (loop_read 0) (demo_at demo_mem ''0-0'' ph s) = ((), demo_at demo_mem ''0-0'' (Dispatching [demo_entry]) s)"
proof -
  have "Less (mk_ID 0 0) (mk_ID 5 1)" by (simp add: Less_key id_key_mk)
  moreover have "mk_ID 0 0 = ''0-0''" by code_simp
  ultimately have "Less ''0-0'' (e_ID demo_entry)" by (simp add: demo_entry_def)
  then show ?thesis
    by (simp add: loop_read_def run_client_call XRead_def unless_down_def after_def XRead_from_def stream_of_def demo_at_def demo_mem_def
        upd_tsub_def)
qed

lemma demo_takes: "take_entry 0 demo_entry [] (demo_at demo_mem l ph (new_sub ''t1'' ''u1'')) =
    demo_at demo_mem (mk_ID 5 1) (Delivering (event_of demo_entry) [0] []) (new_sub ''t1'' ''u1'')"
  by (simp add: take_entry_def demo_at_def upd_tsub_def addressees_def demo_entry_def field_def targets_def new_sub_def)

lemma demo_delivers: "deliver 0 (event_of demo_entry) (demo_at m l ph (new_sub ''t1'' ''u1'')) =
    demo_at m l ph (demo_sub\<lparr>s_ch := [event_of demo_entry]\<rparr>)"
  by (simp add: deliver_def push_to_def push_def demo_at_def upd_sub_def new_sub_def connBuffer_def event_of_def demo_entry_def demo_sub_def)

lemma hub_demo_run: "hub_run (\<lambda>_ :: unit. None) demo_cfg demo_log hub_demo"
proof -
  let ?R = "hub_run (\<lambda>_ :: unit. None) demo_cfg"
  let ?s = "new_sub ''t1'' ''u1''"
  have 1: "?R [] (demo_at NewMemory ''0-0'' AtHead ?s)"
    using subscribes [OF starts demo_subscribes, where lastID = "[]"] by simp
  have 2: "?R demo_log (demo_at demo_mem ''0-0'' AtHead ?s)"
    using publishes [OF 1 demo_publishes, of "''{}''"] by (simp add: demo_log_def encode_payload_def)
  have 3: "?R demo_log (demo_at demo_mem ''0-0'' Reading ?s)"
    using loop_starts [OF 2, of 0 False] by (simp add: loop_trim_def demo_at_def set_phase_def upd_tsub_def)
  have 4: "?R demo_log (demo_at demo_mem ''0-0'' (Dispatching [demo_entry]) ?s)"
    by (rule loop_reads [OF 3 _ _ demo_reads]) (simp_all add: demo_at_def)
  have 5: "?R demo_log (demo_at demo_mem (mk_ID 5 1) (Delivering (event_of demo_entry) [0] []) ?s)"
    using loop_takes [OF 4, of 0 demo_entry "[]"] by (simp add: demo_takes) (simp add: demo_at_def)
  have 6: "?R demo_log (demo_at demo_mem (mk_ID 5 1) (Delivering (event_of demo_entry) [] []) (demo_sub\<lparr>s_ch := [event_of demo_entry]\<rparr>))"
    using loop_delivers [OF 5, of 0 "event_of demo_entry" 0 "[]" "[]"]
    by (simp add: demo_delivers) (simp add: demo_at_def set_phase_def upd_tsub_def)
  show ?thesis
    using receives [OF 6, of 0] by (simp add: returned_def demo_at_def receive_def upd_sub_def hub_demo_def demo_sub_def new_sub_def)
qed

theorem stream_delivery_witness:
  "(let s = h_subs hub_demo ! 0; evs = s_got s @ s_ch s in
    list_all (\<lambda>ev. v_ID ev = [] \<and> v_Type ev = ''reset'' \<or>
       (\<exists>p \<in> set demo_log. meant_for p (s_tenant s) (s_user s) \<and> ev = event_as p)) evs \<and>
    sorted_wrt Less (filter (\<lambda>x. x \<noteq> []) (map v_ID evs)) \<and> length (s_ch s) \<le> connBuffer) \<and>
   s_got (h_subs hub_demo ! 0) = [event_as (hd demo_log)]"
proof -
  have 1: "0 < length (h_subs hub_demo)" by (simp add: hub_demo_def demo_at_def)
  have 2: "s_got (h_subs hub_demo ! 0) = [event_as (hd demo_log)]"
    by (simp add: hub_demo_def demo_at_def event_of_def event_as_def demo_log_def demo_entry_def field_def)
  show ?thesis using stream_delivery [OF hub_demo_run 1] 2 unfolding list_all_iff by blast
qed

end
