(* ===== verification/Hub_Limits.thy ===== *)
theory Hub_Limits
  imports Hub_Laws
begin

text \<open>
  The limits of the hub and the books it keeps: the subscribers registered under a tenant are
  exactly the open streams of that tenant, the counter of a user is the number of that user's
  streams, and a tenant without streams has no subscriber loop. Only subscribing and closing touch the
  books; every other step leaves them (\<open>net\<close>) as they are.
\<close>

section \<open>The books\<close>

type_synonym books = "(string \<times> string \<times> bool) list \<times> (string \<times> nat list \<times> int tab) list \<times> nat tab \<times> HubConfig"

definition net :: "Hub \<Rightarrow> books" where
  "net h = (map (\<lambda>s. (s_tenant s, s_user s, s_closed s)) (h_subs h),
     map (\<lambda>t. (t_id t, t_conns t, t_byUser t)) (h_tsubs h), h_tenants h, h_cfg h)"

definition open_in :: "(string \<times> string \<times> bool) list \<Rightarrow> string \<Rightarrow> nat set" where
  "open_in ss tn = {i. i < length ss \<and> fst (ss ! i) = tn \<and> \<not> snd (snd (ss ! i))}"

definition count_of :: "int tab \<Rightarrow> string \<Rightarrow> int" where
  "count_of bu u = (case map_of bu u of None \<Rightarrow> 0 | Some n \<Rightarrow> n)"

definition users_in :: "(string \<times> string \<times> bool) list \<Rightarrow> string \<Rightarrow> nat list \<Rightarrow> nat list" where
  "users_in ss u cs = filter (\<lambda>i. fst (snd (ss ! i)) = u) cs"

definition conns_ok :: "(string \<times> string \<times> bool) list \<Rightarrow> HubConfig \<Rightarrow> string \<Rightarrow> nat list \<Rightarrow> int tab \<Rightarrow> bool" where
  "conns_ok ss cfg tn cs bu \<longleftrightarrow> distinct cs \<and> set cs = open_in ss tn \<and> int (length cs) \<le> StreamsPerTenant cfg \<and>
     (\<forall>u. count_of bu u = int (length (users_in ss u cs))) \<and> (\<forall>u. int (length (users_in ss u cs)) \<le> StreamsPerUser cfg)"

fun books_ok :: "books \<Rightarrow> bool" where
  "books_ok (ss, ts, idx, cfg) \<longleftrightarrow> distinct (map fst idx) \<and>
     (\<forall>(tn, k) \<in> set idx. k < length ts \<and> fst (ts ! k) = tn \<and> conns_ok ss cfg tn (fst (snd (ts ! k))) (snd (snd (ts ! k)))) \<and>
     (\<forall>tn. open_in ss tn \<noteq> {} \<longrightarrow> tn \<in> set (map fst idx)) \<and> 1 \<le> StreamsPerUser cfg \<and> 1 \<le> StreamsPerTenant cfg"

text \<open>\<open>busy_but k\<close>: every tenant of the index has an open stream, the one at position \<open>k\<close> possibly apart.\<close>

fun busy_but :: "nat option \<Rightarrow> books \<Rightarrow> bool" where
  "busy_but x (ss, ts, idx, cfg) \<longleftrightarrow> (\<forall>(tn, k) \<in> set idx. Some k \<noteq> x \<longrightarrow> fst (snd (ts ! k)) \<noteq> [])"

lemma books_row:
  assumes "books_ok (ss, ts, idx, cfg)" and "(tn, k) \<in> set idx"
  shows "k < length ts" "fst (ts ! k) = tn" "conns_ok ss cfg tn (fst (snd (ts ! k))) (snd (snd (ts ! k)))"
  using assms by fastforce+

lemma books_lookup:
  assumes "books_ok (ss, ts, idx, cfg)" and "map_of idx tn = Some k"
  shows "k < length ts" "fst (ts ! k) = tn" "conns_ok ss cfg tn (fst (snd (ts ! k))) (snd (snd (ts ! k)))"
  using books_row [OF assms(1) map_of_SomeD [OF assms(2)]] .

lemma busy_row: "busy_but x (ss, ts, idx, cfg) \<Longrightarrow> (tn, k) \<in> set idx \<Longrightarrow> Some k \<noteq> x \<Longrightarrow> fst (snd (ts ! k)) \<noteq> []"
  by fastforce

lemma books_okD:
  assumes "books_ok (ss, ts, idx, cfg)"
  shows "distinct (map fst idx)" "1 \<le> StreamsPerUser cfg" "1 \<le> StreamsPerTenant cfg" "open_in ss tn \<noteq> {} \<Longrightarrow> tn \<in> set (map fst idx)"
  using assms by auto

lemma books_okI:
  assumes "distinct (map fst idx)" "1 \<le> StreamsPerUser cfg" "1 \<le> StreamsPerTenant cfg"
    and "\<And>tn. open_in ss tn \<noteq> {} \<Longrightarrow> tn \<in> set (map fst idx)"
    and "\<And>tn k. (tn, k) \<in> set idx \<Longrightarrow> k < length ts \<and> fst (ts ! k) = tn \<and>
      conns_ok ss cfg tn (fst (snd (ts ! k))) (snd (snd (ts ! k))) \<and> (Some k \<noteq> x \<longrightarrow> fst (snd (ts ! k)) \<noteq> [])"
  shows "books_ok (ss, ts, idx, cfg) \<and> busy_but x (ss, ts, idx, cfg)"
  using assms by auto

text \<open>A tenant is the only one at its position.\<close>

lemma books_position:
  assumes "books_ok (ss, ts, idx, cfg)" and "(tn, k) \<in> set idx" and "(tn', k') \<in> set idx"
  shows "k = k' \<longleftrightarrow> tn = tn'"
  using books_row(2) [OF assms(1,2)] books_row(2) [OF assms(1,3)] assms by (auto dest: eq_key_imp_eq_value)

section \<open>Opening a stream\<close>

lemma open_in_new: "open_in (ss @ [(tn, u, False)]) tn' = open_in ss tn' \<union> (if tn' = tn then {length ss} else {})"
  by (auto simp: open_in_def nth_append less_Suc_eq)

lemma users_in_new: "\<forall>i \<in> set cs. i < length ss \<Longrightarrow> users_in (ss @ [x]) u cs = users_in ss u cs"
  by (auto simp: users_in_def nth_append intro: filter_cong)

lemma conns_ok_bound: "conns_ok ss cfg tn cs bu \<Longrightarrow> \<forall>i \<in> set cs. i < length ss"
  by (auto simp: conns_ok_def open_in_def)

lemma conns_ok_other:
  assumes "conns_ok ss cfg tn' cs bu" and "tn' \<noteq> tn"
  shows "conns_ok (ss @ [(tn, u, False)]) cfg tn' cs bu"
  using assms conns_ok_bound [OF assms(1)] by (simp add: conns_ok_def open_in_new users_in_new)

lemma conns_ok_add:
  assumes "conns_ok ss cfg tn cs bu" and "count_of bu u < StreamsPerUser cfg" and "int (length cs) < StreamsPerTenant cfg"
  shows "conns_ok (ss @ [(tn, u, False)]) cfg tn (cs @ [length ss]) (AList.update u (count_of bu u + 1) bu)"
proof -
  have b: "\<forall>i \<in> set cs. i < length ss" using conns_ok_bound [OF assms(1)] .
  have "users_in (ss @ [(tn, u, False)]) v (cs @ [length ss]) = users_in ss v cs @ (if v = u then [length ss] else [])" for v
    using users_in_new [OF b] by (simp add: users_in_def)
  moreover have "count_of (AList.update u (count_of bu u + 1) bu) v = count_of bu v + (if v = u then 1 else 0)" for v
    by (simp add: count_of_def update_conv')
  ultimately show ?thesis
    using assms b by (auto simp: conns_ok_def open_in_new users_in_new)
qed

lemma register_books:
  assumes "books_ok (ss, ts, idx, cfg)" and "busy_but (Some k) (ss, ts, idx, cfg)" and "(tn, k) \<in> set idx"
    and "ts ! k = (tn, cs, bu)" and "count_of bu u < StreamsPerUser cfg" and "int (length cs) < StreamsPerTenant cfg"
  defines "n \<equiv> (ss @ [(tn, u, False)], ts[k := (tn, cs @ [length ss], AList.update u (count_of bu u + 1) bu)], idx, cfg)"
  shows "books_ok n \<and> busy_but None n"
proof -
  have k: "k < length ts" "conns_ok ss cfg tn cs bu" using books_row [OF assms(1,3)] assms(4) by simp_all
  let ?ts = "ts[k := (tn, cs @ [length ss], AList.update u (count_of bu u + 1) bu)]"
  have "k' < length ?ts \<and> fst (?ts ! k') = tn' \<and>
      conns_ok (ss @ [(tn, u, False)]) cfg tn' (fst (snd (?ts ! k'))) (snd (snd (?ts ! k'))) \<and> (Some k' \<noteq> None \<longrightarrow> fst (snd (?ts ! k')) \<noteq> [])"
    if "(tn', k') \<in> set idx" for tn' k'
  proof (cases "k' = k")
    case True
    then show ?thesis
      using k that conns_ok_add [OF k(2) assms(5,6)] books_position [OF assms(1,3) that] by simp
  next
    case False
    then show ?thesis
      using books_row [OF assms(1) that] busy_row [OF assms(2) that] books_position [OF assms(1,3) that] by (simp add: conns_ok_other)
  qed
  moreover have "tn' \<in> set (map fst idx)" if "open_in (ss @ [(tn, u, False)]) tn' \<noteq> {}" for tn'
    using that books_okD(4) [OF assms(1), of tn'] assms(3) by (cases "tn' = tn") (force simp: open_in_new)+
  ultimately show ?thesis
    unfolding n_def by (rule books_okI [OF books_okD(1-3) [OF assms(1)], rotated])
qed

text \<open>Making the subscriber of a tenant that has none.\<close>

lemma add_tsub_books:
  assumes "books_ok (ss, ts, idx, cfg)" and "busy_but None (ss, ts, idx, cfg)" and "map_of idx tn = None"
  defines "n \<equiv> (ss, ts @ [(tn, [], [])], AList.update tn (length ts) idx, cfg)"
  shows "books_ok n \<and> busy_but (Some (length ts)) n \<and> (tn, length ts) \<in> set (AList.update tn (length ts) idx)"
proof -
  have new: "AList.update tn v idx = idx @ [(tn, v)]" for v :: nat
    using assms(3) by (induction idx) (auto split: if_splits)
  have none: "tn \<notin> set (map fst idx)" using assms(3) by (simp add: map_of_eq_None_iff)
  then have "open_in ss tn = {}" using assms(1) by auto
  then have "conns_ok ss cfg tn [] []"
    using assms(1) by (simp add: conns_ok_def count_of_def users_in_def)
  then have "k < length (ts @ [(tn, [], [])]) \<and> fst ((ts @ [(tn, [], [])]) ! k) = tn' \<and>
      conns_ok ss cfg tn' (fst (snd ((ts @ [(tn, [], [])]) ! k))) (snd (snd ((ts @ [(tn, [], [])]) ! k))) \<and>
      (Some k \<noteq> Some (length ts) \<longrightarrow> fst (snd ((ts @ [(tn, [], [])]) ! k)) \<noteq> [])"
    if "(tn', k) \<in> set (idx @ [(tn, length ts)])" for tn' k
    using that books_row [OF assms(1), of tn' k] busy_row [OF assms(2), of tn' k] by (auto simp: nth_append)
  moreover have "tn' \<in> set (map fst (idx @ [(tn, length ts)]))" if "open_in ss tn' \<noteq> {}" for tn'
    using books_okD(4) [OF assms(1) that] by simp
  moreover have "distinct (map fst (idx @ [(tn, length ts)]))" using books_okD(1) [OF assms(1)] none by simp
  ultimately have "books_ok n \<and> busy_but (Some (length ts)) n"
    unfolding n_def new using books_okD(2,3) [OF assms(1)] by (intro books_okI)
  then show ?thesis by (simp add: new)
qed

section \<open>Closing a stream\<close>

lemma open_in_close:
  "i < length ss \<Longrightarrow> ss ! i = (tn, u, False) \<Longrightarrow> open_in (ss[i := (tn, u, True)]) tn' = open_in ss tn' - (if tn' = tn then {i} else {})"
  by (auto simp: open_in_def nth_list_update split: if_splits)

lemma users_in_close: "ss ! i = (tn, u, b) \<Longrightarrow> users_in (ss[i := (tn, u, b')]) v cs = users_in ss v cs"
  by (cases "i < length ss") (auto simp: users_in_def nth_list_update list_update_beyond intro: filter_cong)

definition drop_count :: "string \<Rightarrow> int tab \<Rightarrow> int tab" where
  "drop_count u bu = (if count_of bu u - 1 \<le> 0 then AList.delete u bu else AList.update u (count_of bu u - 1) bu)"

lemma count_drop:
  assumes "0 < count_of bu u"
  shows "count_of (drop_count u bu) v = count_of bu v - (if v = u then 1 else 0)"
  using assms by (auto simp: drop_count_def count_of_def update_conv' delete_conv' split: option.splits)

lemma length_removeAll1:
  assumes "distinct xs" and "i \<in> set xs"
  shows "int (length (removeAll i xs)) = int (length xs) - 1"
proof -
  have "length (removeAll i xs) = length xs - 1"
    using assms by (simp add: distinct_remove1_removeAll [symmetric] length_remove1)
  moreover have "0 < length xs" using assms(2) by (cases xs) simp_all
  ultimately show ?thesis by linarith
qed

lemma users_in_remove:
  assumes "distinct cs" and "i \<in> set cs" and "fst (snd (ss ! i)) = u"
  shows "int (length (users_in ss v (removeAll i cs))) = int (length (users_in ss v cs)) - (if v = u then 1 else 0)"
proof -
  have "users_in ss v (removeAll i cs) = removeAll i (users_in ss v cs)"
    unfolding users_in_def by (induction cs) auto
  moreover have "removeAll i (users_in ss v cs) = users_in ss v cs" if "v \<noteq> u"
    using that assms(3) by (auto simp: users_in_def intro: removeAll_id)
  moreover have "distinct (users_in ss v cs)" using assms(1) by (simp add: users_in_def)
  moreover have "v = u \<Longrightarrow> i \<in> set (users_in ss v cs)" using assms by (simp add: users_in_def)
  ultimately show ?thesis
    using length_removeAll1 [of "users_in ss v cs" i] by (cases "v = u") simp_all
qed

lemma conns_ok_close:
  assumes "conns_ok ss cfg tn cs bu" and "i < length ss" and "ss ! i = (tn, u, False)"
  shows "conns_ok (ss[i := (tn, u, True)]) cfg tn (removeAll i cs) (drop_count u bu)"
proof -
  have i: "i \<in> set cs" "distinct cs" using assms by (auto simp: conns_ok_def open_in_def)
  have cnt: "count_of bu v = int (length (users_in ss v cs))" "int (length (users_in ss v cs)) \<le> StreamsPerUser cfg" for v
    using assms(1) by (auto simp: conns_ok_def)
  have "i \<in> set (users_in ss u cs)" using i assms(3) by (simp add: users_in_def)
  then have "0 < count_of bu u" unfolding cnt by (cases "users_in ss u cs") auto
  then have "count_of (drop_count u bu) v = int (length (users_in ss v (removeAll i cs)))" for v
    using users_in_remove [OF i(2,1), of ss u v] assms(3) cnt(1) [of v] by (simp add: count_drop)
  moreover have "int (length (users_in ss v (removeAll i cs))) \<le> StreamsPerUser cfg" for v
    using cnt(2) [of v] users_in_remove [OF i(2,1), of ss u v] assms(3) by (simp split: if_splits)
  moreover have "set cs = open_in ss tn" using assms(1) by (simp add: conns_ok_def)
  moreover have "int (length (removeAll i cs)) \<le> StreamsPerTenant cfg"
    using length_removeAll1 [OF i(2,1)] assms(1) by (simp add: conns_ok_def)
  ultimately show ?thesis
    using assms(2,3) i by (simp add: conns_ok_def open_in_close users_in_close [OF assms(3)] distinct_removeAll)
qed

lemma conns_ok_close_other:
  assumes "conns_ok ss cfg tn' cs bu" and "i < length ss" and "ss ! i = (tn, u, False)" and "tn' \<noteq> tn"
  shows "conns_ok (ss[i := (tn, u, True)]) cfg tn' cs bu"
  using assms by (simp add: conns_ok_def open_in_close users_in_close)

lemma close_books:
  assumes "books_ok (ss, ts, idx, cfg)" and "busy_but None (ss, ts, idx, cfg)" and "i < length ss" and "ss ! i = (tn, u, False)"
    and "map_of idx tn = Some k" and "ts ! k = (tn, cs, bu)"
  defines "n \<equiv> (ss[i := (tn, u, True)], ts[k := (tn, removeAll i cs, drop_count u bu)],
    if removeAll i cs = [] then AList.delete tn idx else idx, cfg)"
  shows "books_ok n \<and> busy_but None n"
proof -
  have k: "k < length ts" "conns_ok ss cfg tn cs bu" "(tn, k) \<in> set idx"
    using books_lookup [OF assms(1,5)] assms(5,6) by (auto dest: map_of_SomeD)
  let ?ts = "ts[k := (tn, removeAll i cs, drop_count u bu)]"
  have row: "k' < length ?ts \<and> fst (?ts ! k') = tn' \<and>
      conns_ok (ss[i := (tn, u, True)]) cfg tn' (fst (snd (?ts ! k'))) (snd (snd (?ts ! k'))) \<and>
      (fst (snd (?ts ! k')) = [] \<longrightarrow> tn' = tn \<and> removeAll i cs = [])"
    if "(tn', k') \<in> set idx" for tn' k'
  proof (cases "k' = k")
    case True
    then show ?thesis
      using k that conns_ok_close [OF k(2) assms(3,4)] books_position [OF assms(1) k(3) that] by simp
  next
    case False
    then show ?thesis
      using books_row [OF assms(1) that] busy_row [OF assms(2) that] books_position [OF assms(1) k(3) that] assms(3,4)
      by (simp add: conns_ok_close_other)
  qed
  let ?idx = "if removeAll i cs = [] then AList.delete tn idx else idx"
  have open_left: "tn' \<in> set (map fst ?idx)" if "open_in (ss[i := (tn, u, True)]) tn' \<noteq> {}" for tn'
  proof -
    have "open_in ss tn' \<noteq> {}" using that assms(3,4) by (auto simp: open_in_close)
    then have "tn' \<in> set (map fst idx)" using assms(1) by simp
    moreover have "tn' \<noteq> tn" if "removeAll i cs = []"
      using \<open>open_in (ss[i := (tn, u, True)]) tn' \<noteq> {}\<close> conns_ok_close [OF k(2) assms(3,4)] that by (auto simp: conns_ok_def)
    ultimately show ?thesis by (force simp: AList.delete_eq)
  qed
  have "(tn', k') \<in> set ?idx \<Longrightarrow> (tn', k') \<in> set idx \<and> (tn' = tn \<longrightarrow> removeAll i cs \<noteq> [])" for tn' k'
    by (auto simp: AList.delete_eq split: if_splits)
  then have "k' < length ?ts \<and> fst (?ts ! k') = tn' \<and>
      conns_ok (ss[i := (tn, u, True)]) cfg tn' (fst (snd (?ts ! k'))) (snd (snd (?ts ! k'))) \<and>
      (Some k' \<noteq> None \<longrightarrow> fst (snd (?ts ! k')) \<noteq> [])" if "(tn', k') \<in> set ?idx" for tn' k'
    using that row by blast
  moreover have "distinct (map fst ?idx)"
    using books_okD(1) [OF assms(1)] by (simp add: AList.delete_eq distinct_map_filter)
  ultimately show ?thesis
    unfolding n_def using open_left books_okD(2,3) [OF assms(1)] by (intro books_okI)
qed

lemma busy_weaken: "busy_but None n \<Longrightarrow> busy_but x n"
  by (cases n) auto

declare books_ok.simps [simp del] busy_but.simps [simp del]

section \<open>The books along a run\<close>

definition hub_books :: "HubConfig \<Rightarrow> Hub \<Rightarrow> bool" where
  "hub_books cfg h \<longleftrightarrow> books_ok (net h) \<and> busy_but None (net h) \<and> h_cfg h = h_cfg (NewHub cfg 0)"

lemma hub_books_net:
  assumes "net h' = net h" and "hub_books cfg h"
  shows "hub_books cfg h'"
proof -
  have "h_cfg h' = h_cfg h" using assms(1) by (simp add: net_def)
  then show ?thesis using assms by (simp only: hub_books_def)
qed

lemma net_other [simp]:
  "net (h\<lparr>h_mem := m\<rparr>) = net h" "net (h\<lparr>h_replays := z\<rparr>) = net h" "net (h\<lparr>h_now := n\<rparr>) = net h"
  by (simp_all add: net_def)

lemma net_upd_tsub:
  assumes "\<And>t. t_id (f t) = t_id t \<and> t_conns (f t) = t_conns t \<and> t_byUser (f t) = t_byUser t"
  shows "net (upd_tsub k f h) = net h"
  using assms
  by (cases "k < length (h_tsubs h)") (simp_all add: net_def upd_tsub_def map_update list_update_beyond list_update_same_conv)

lemma net_upd_sub:
  assumes "i < length (h_subs h) \<Longrightarrow> s_tenant (f (h_subs h ! i)) = s_tenant (h_subs h ! i) \<and>
    s_user (f (h_subs h ! i)) = s_user (h_subs h ! i) \<and> s_closed (f (h_subs h ! i)) = s_closed (h_subs h ! i)"
  shows "net (upd_sub i f h) = net h"
  using assms
  by (cases "i < length (h_subs h)") (simp_all add: net_def upd_sub_def map_update list_update_beyond list_update_same_conv)

lemma net_steps [simp]:
  "net (set_phase k ph h) = net h" "net (take_entry k e es h) = net h" "net (set_replay j r h) = net h"
  "net (snd (push_to i ev h)) = net h" "net (receive i h) = net h"
  by (simp_all add: set_phase_def take_entry_def set_replay_def push_to_def receive_def case_prod_beta Let_def
      net_upd_tsub net_upd_sub)

lemma net_cancel [simp]: "net (cancel_hub h) = net h"
  by (simp add: net_def cancel_hub_def)

lemma net_client: "run_state (client_call p) h = (r, h') \<Longrightarrow> net h' = net h"
  by (auto simp: run_client_call split: prod.splits sum.splits)

lemma net_publish: "run_state (PublishID marshal tn to everyone ty d modl) h = (r, h') \<Longrightarrow> net h' = net h"
  using PublishID_err [of marshal tn to everyone ty d modl h _ h'] by (cases r) (auto elim: PublishID_ok)

lemma net_trim: "run_state (loop_trim k ticked) h = ((), h') \<Longrightarrow> net h' = net h"
  by (auto simp: loop_trim_def dest: net_client split: if_splits prod.splits)

lemma net_read: "run_state (loop_read k) h = ((), h') \<Longrightarrow> net h' = net h"
  by (auto simp: loop_read_def net_upd_tsub dest: net_client split: prod.splits)

lemma net_replay: "run_state (replay_events tn u lastID) h = (evs, h') \<Longrightarrow> net h' = net h"
  by (auto simp: replay_events_def dest: net_client split: prod.splits if_splits)

lemma by_user_count: "by_user t u = count_of (t_byUser t) u"
  by (simp add: by_user_def count_of_def)

lemma nth_pair: "k < length xs \<Longrightarrow> map f xs ! k = f (xs ! k)"
  by (rule nth_map)

lemma register_net:
  assumes "k < length (h_tsubs h)"
  shows "net (upd_tsub k (add_conn (length (h_subs h)) u) (h\<lparr>h_subs := h_subs h @ [new_sub tn u]\<rparr>)) =
    (case net h of (ss, ts, idx, cfg) \<Rightarrow>
      (ss @ [(tn, u, False)],
       ts[k := (fst (ts ! k), fst (snd (ts ! k)) @ [length ss], AList.update u (count_of (snd (snd (ts ! k))) u + 1) (snd (snd (ts ! k))))],
       idx, cfg))"
  using assms by (simp add: net_def upd_tsub_def add_conn_def new_sub_def map_update by_user_count)

lemma forget_conn_fields [simp]:
  "t_id (forget_conn i u t) = t_id t" "t_conns (forget_conn i u t) = removeAll i (t_conns t)"
  "t_byUser (forget_conn i u t) = drop_count u (t_byUser t)"
  by (simp_all add: forget_conn_def Let_def drop_count_def by_user_count)

lemma close_net:
  assumes "i < length (h_subs h)" "\<not> s_closed (h_subs h ! i)" "map_of (h_tenants h) (s_tenant (h_subs h ! i)) = Some k" "k < length (h_tsubs h)"
  shows "net (sub_Close i h) =
    (case net h of (ss, ts, idx, cfg) \<Rightarrow>
      (ss[i := (fst (ss ! i), fst (snd (ss ! i)), True)],
       ts[k := (fst (ts ! k), removeAll i (fst (snd (ts ! k))), drop_count (fst (snd (ss ! i))) (snd (snd (ts ! k))))],
       if removeAll i (fst (snd (ts ! k))) = [] then AList.delete (fst (ss ! i)) idx else idx, cfg))"
  using assms
  by (simp add: sub_Close_unfold Let_def net_def upd_sub_def upd_tsub_def map_update nth_list_update)

lemma subscribe_books:
  assumes "hub_books cfg h" and "run_state (Subscribe_open tn u) h = (r, h')"
  shows "hub_books cfg h'"
proof (cases "h_done h")
  case True
  then show ?thesis using Subscribe_open_err [OF assms(2)] assms(1) by simp
next
  case False
  obtain ss ts idx c where n: "net h = (ss, ts, idx, c)" by (cases "net h") auto
  have c: "c = h_cfg h" "idx = h_tenants h" "length ts = length (h_tsubs h)" "length ss = length (h_subs h)" using n by (auto simp: net_def)
  have B: "books_ok (ss, ts, idx, c)" "busy_but None (ss, ts, idx, c)" using assms(1) n by (simp_all add: hub_books_def)
  from assms(2) False show ?thesis
  proof (cases rule: Subscribe_open_run)
    case (down e)
    then show ?thesis using assms(1) by (auto elim: tenant_sub_cases)
  next
    case (registers k h1)
    have stage: "\<exists>ts1 idx1. net h1 = (ss, ts1, idx1, c) \<and> books_ok (net h1) \<and> busy_but (Some k) (net h1) \<and> (tn, k) \<in> set idx1 \<and>
        (h1 = h \<or> fst (snd (ts1 ! k)) = [] \<and> snd (snd (ts1 ! k)) = [])"
      using registers(1)
    proof (cases rule: tenant_sub_cases)
      case (found k')
      then show ?thesis using n B c busy_weaken [OF B(2)] by (auto dest: map_of_SomeD)
    next
      case (made start)
      have "net h1 = (ss, ts @ [(tn, [], [])], AList.update tn (length ts) idx, c)"
        using made(4) n c(3) by (simp add: net_def)
      moreover have "(ts @ [(tn, [], [])]) ! k = (tn, [], [])" using made(3) c(3) by (simp add: nth_append)
      ultimately show ?thesis
        using add_tsub_books [OF B, of tn] made c by simp
    qed simp
    then obtain ts1 idx1 where s: "net h1 = (ss, ts1, idx1, c)" "books_ok (ss, ts1, idx1, c)" "busy_but (Some k) (ss, ts1, idx1, c)"
        "(tn, k) \<in> set idx1" and old: "h1 = h \<or> fst (snd (ts1 ! k)) = [] \<and> snd (snd (ts1 ! k)) = []"
      by auto
    have k: "k < length (h_tsubs h1)" "fst (ts1 ! k) = tn" "h_cfg h1 = c" "length (h_subs h1) = length ss"
        "ts1 ! k = (t_id (h_tsubs h1 ! k), t_conns (h_tsubs h1 ! k), t_byUser (h_tsubs h1 ! k))"
      using books_row [OF s(2,4)] s(1) by (auto simp: net_def)
    from registers(2) show ?thesis
    proof (cases rule: register_cases)
      case full
      then have "h1 = h"
        using old k books_okD(2,3) [OF s(2)] by (auto simp: by_user_count count_of_def)
      then show ?thesis using full assms(1) by simp
    next
      case opened
      have nh': "net h' = (ss @ [(tn, u, False)], ts1[k := (tn, t_conns (h_tsubs h1 ! k) @ [length ss],
          AList.update u (count_of (t_byUser (h_tsubs h1 ! k)) u + 1) (t_byUser (h_tsubs h1 ! k)))], idx1, c)"
        unfolding opened register_net [OF k(1)] s(1) using k(2,5) by simp
      have "books_ok (net h') \<and> busy_but None (net h')"
        unfolding nh' by (rule register_books [OF s(2,3,4)]) (use opened k in \<open>simp_all add: by_user_count\<close>)
      moreover have "h_cfg h' = h_cfg h" using opened(4) k(3) c(1) by simp
      ultimately show ?thesis using assms(1) by (simp add: hub_books_def)
    qed
  qed
qed

lemma close_books_hub:
  assumes "hub_books cfg h" and "i < length (h_subs h)"
  shows "hub_books cfg (sub_Close i h)"
proof (cases "s_closed (h_subs h ! i)")
  case True
  then show ?thesis using assms(1) by (simp add: sub_Close_def)
next
  case False
  obtain ss ts idx c where n: "net h = (ss, ts, idx, c)" by (cases "net h") auto
  let ?tn = "s_tenant (h_subs h ! i)" and ?u = "s_user (h_subs h ! i)"
  have e: "i < length ss" "ss ! i = (?tn, ?u, False)" "idx = h_tenants h" "length ts = length (h_tsubs h)"
    using n assms(2) False by (auto simp: net_def)
  have B: "books_ok (ss, ts, idx, c)" "busy_but None (ss, ts, idx, c)" using assms(1) n by (simp_all add: hub_books_def)
  have "i \<in> open_in ss ?tn" using e(1,2) by (simp add: open_in_def)
  then have "open_in ss ?tn \<noteq> {}" by blast
  then obtain k where k: "map_of idx ?tn = Some k" using books_okD(4) [OF B(1)] by (metis map_of_eq_None_iff option.exhaust set_map)
  have row: "k < length (h_tsubs h)" "ts ! k = (?tn, fst (snd (ts ! k)), snd (snd (ts ! k)))"
    using books_lookup(1,2) [OF B(1) k] e(4) by (simp_all add: prod_eq_iff)
  have nc: "net (sub_Close i h) = (ss[i := (?tn, ?u, True)],
      ts[k := (?tn, removeAll i (fst (snd (ts ! k))), drop_count ?u (snd (snd (ts ! k))))],
      if removeAll i (fst (snd (ts ! k))) = [] then AList.delete ?tn idx else idx, c)"
    using close_net [OF assms(2) False, of k] k row(1) books_lookup(2) [OF B(1) k] e n by simp
  have "books_ok (net (sub_Close i h)) \<and> busy_but None (net (sub_Close i h))"
    unfolding nc by (rule close_books [OF B e(1,2) k row(2)])
  moreover have "h_cfg (sub_Close i h) = h_cfg h"
    by (simp add: sub_Close_unfold Let_def split: option.split)
  ultimately show ?thesis using assms(1) by (simp add: hub_books_def)
qed

lemma hub_run_books: "hub_run marshal cfg pubs h \<Longrightarrow> hub_books cfg h"
proof (induction rule: hub_run.induct)
  case (starts now)
  show ?case by (simp add: hub_books_def net_def NewHub_def open_in_def books_ok.simps busy_but.simps)
next
  case (publishes pubs h tn to everyone ty d modl i h' raw)
  then show ?case using hub_books_net [OF net_publish] by blast
next
  case (refuses pubs h tn to everyone ty d modl err h')
  then show ?case using hub_books_net [OF net_publish] by blast
next
  case (subscribes pubs h tn u i h' lastID)
  have "hub_books cfg h'" by (rule subscribe_books [OF subscribes.IH subscribes.hyps(2)])
  then show ?case using hub_books_net [OF net_other(2)] by simp
next
  case (rejects pubs h tn u err h')
  then show ?case using subscribe_books by blast
next
  case (replay_reads pubs h j i lastID evs h')
  have "net (set_replay j (i, ToPush evs) h') = net h" using net_replay [OF replay_reads.hyps(4)] by simp
  then show ?case using hub_books_net replay_reads.IH by blast
next
  case (loop_starts pubs h k ticked h')
  then show ?case using hub_books_net [OF net_trim] hub_books_net [OF net_steps(1)] by blast
next
  case (loop_reads pubs h k h')
  then show ?case using hub_books_net [OF net_read] by blast
next
  case (loop_delivers pubs h k ev i js es)
  let ?h = "snd (push_to i ev h)"
  have b: "hub_books cfg ?h" by (rule hub_books_net [OF net_steps(4) loop_delivers.IH])
  have "i < length (h_subs h)"
    using hub_goodD(1) [OF hub_run_good [OF loop_delivers.hyps(1)] loop_delivers.hyps(2)] loop_delivers.hyps(3)
    by (simp add: tsub_good_def)
  then have "hub_books cfg (deliver i ev h)"
    using b close_books_hub [OF b, of i] by (simp add: deliver_def case_prod_beta Let_def)
  then show ?case by (rule hub_books_net [OF net_steps(1)])
next
  case (closes pubs h i)
  then show ?case using close_books_hub by blast
next
  case (cancels pubs h)
  then show ?case using hub_books_net [OF net_cancel] by blast
qed (rule hub_books_net, simp, assumption)+

section \<open>What the books say\<close>

definition open_streams :: "Hub \<Rightarrow> nat list" where
  "open_streams h = filter (\<lambda>i. \<not> s_closed (h_subs h ! i)) [0..<length (h_subs h)]"

lemma open_in_net: "open_in (fst (net h)) tn = set (filter (\<lambda>i. s_tenant (h_subs h ! i) = tn) (open_streams h))"
  by (auto simp: open_in_def net_def open_streams_def)

lemma length_set_eq: "distinct xs \<Longrightarrow> distinct ys \<Longrightarrow> set xs = set ys \<Longrightarrow> length xs = length ys"
  by (metis distinct_card)

lemma tenant_row:
  assumes "hub_books cfg h" and "(tn, k) \<in> set (h_tenants h)"
  shows "length (t_conns (h_tsubs h ! k)) = length (filter (\<lambda>i. s_tenant (h_subs h ! i) = tn) (open_streams h)) \<and>
    t_conns (h_tsubs h ! k) \<noteq> [] \<and> set (t_conns (h_tsubs h ! k)) = set (filter (\<lambda>i. s_tenant (h_subs h ! i) = tn) (open_streams h)) \<and>
    int (length (t_conns (h_tsubs h ! k))) \<le> StreamsPerTenant (h_cfg h) \<and> distinct (t_conns (h_tsubs h ! k)) \<and>
    int (length (filter (\<lambda>i. s_user (h_subs h ! i) = u) (t_conns (h_tsubs h ! k)))) \<le> StreamsPerUser (h_cfg h)"
proof -
  obtain ss ts idx c where n: "net h = (ss, ts, idx, c)" by (cases "net h") auto
  have B: "books_ok (ss, ts, idx, c)" "busy_but None (ss, ts, idx, c)" and idx: "(tn, k) \<in> set idx" and c: "c = h_cfg h"
    using assms n by (auto simp: hub_books_def net_def)
  have row: "ts ! k = (t_id (h_tsubs h ! k), t_conns (h_tsubs h ! k), t_byUser (h_tsubs h ! k))"
    using books_row(1) [OF B(1) idx] n by (auto simp: net_def)
  have ok: "conns_ok ss c tn (t_conns (h_tsubs h ! k)) (t_byUser (h_tsubs h ! k))"
    using books_row(3) [OF B(1) idx] row by simp
  have "users_in ss u (t_conns (h_tsubs h ! k)) = filter (\<lambda>i. s_user (h_subs h ! i) = u) (t_conns (h_tsubs h ! k))"
    using conns_ok_bound [OF ok] n by (auto simp: users_in_def net_def intro: filter_cong)
  moreover have "set (t_conns (h_tsubs h ! k)) = set (filter (\<lambda>i. s_tenant (h_subs h ! i) = tn) (open_streams h))"
    using ok open_in_net [of h tn] n by (simp add: conns_ok_def)
  moreover have "distinct (filter (\<lambda>i. s_tenant (h_subs h ! i) = tn) (open_streams h))" by (simp add: open_streams_def)
  moreover have "t_conns (h_tsubs h ! k) \<noteq> []" using busy_row [OF B(2) idx] row by simp
  moreover have "distinct (t_conns (h_tsubs h ! k))" "int (length (t_conns (h_tsubs h ! k))) \<le> StreamsPerTenant c"
      "int (length (users_in ss u (t_conns (h_tsubs h ! k)))) \<le> StreamsPerUser c"
    using ok by (simp_all add: conns_ok_def)
  ultimately show ?thesis
    unfolding c using length_set_eq by metis
qed

lemma hub_books_keys:
  assumes "hub_books cfg h"
  shows "distinct (map fst (h_tenants h))"
    and "i \<in> set (open_streams h) \<Longrightarrow> s_tenant (h_subs h ! i) \<in> set (map fst (h_tenants h))"
proof -
  obtain ss ts idx c where n: "net h = (ss, ts, idx, c)" by (cases "net h") auto
  have B: "books_ok (ss, ts, idx, c)" and idx: "idx = h_tenants h" using assms n by (auto simp: hub_books_def net_def)
  show "distinct (map fst (h_tenants h))" using books_okD(1) [OF B] idx by simp
  assume "i \<in> set (open_streams h)"
  then have "i \<in> open_in ss (s_tenant (h_subs h ! i))" using open_in_net [of h "s_tenant (h_subs h ! i)"] n by simp
  then show "s_tenant (h_subs h ! i) \<in> set (map fst (h_tenants h))" using books_okD(4) [OF B] idx by blast
qed

lemma sum_by_key:
  assumes "distinct ks" and "\<And>x. x \<in> set xs \<Longrightarrow> f x \<in> set ks"
  shows "sum_list (map (\<lambda>k. length (filter (\<lambda>x. f x = k) xs)) ks) = length xs"
  using assms(2)
proof (induction xs)
  case (Cons x xs)
  have "sum_list (map (\<lambda>k. length (filter (\<lambda>x. f x = k) (x # xs))) ks) =
      sum_list (map (\<lambda>k. (if k = f x then 1 else 0) + length (filter (\<lambda>x. f x = k) xs)) ks)"
    by (rule arg_cong [where f = sum_list]) auto
  also have "\<dots> = sum_list (map (\<lambda>k. if k = f x then 1 else 0) ks) + length xs"
    using Cons by (simp add: sum_list_addf)
  also have "sum_list (map (\<lambda>k. if k = f x then 1 else (0::nat)) ks) = 1"
    using Cons.prems assms(1) by (simp add: sum_list_distinct_conv_sum_set)
  finally show ?case by simp
qed simp

lemma OpenStreams_exact:
  assumes "hub_books cfg h"
  shows "OpenStreams h = length (open_streams h)"
proof -
  have "OpenStreams h = sum_list (map (\<lambda>(tn, k). length (t_conns (h_tsubs h ! k))) (h_tenants h))"
    by (simp add: OpenStreams_def o_def split_def)
  also have "\<dots> = sum_list (map (\<lambda>(tn, k). length (filter (\<lambda>i. s_tenant (h_subs h ! i) = tn) (open_streams h))) (h_tenants h))"
    using tenant_row [OF assms] by (intro arg_cong [where f = sum_list] map_cong) auto
  also have "\<dots> = sum_list (map (\<lambda>tn. length (filter (\<lambda>i. s_tenant (h_subs h ! i) = tn) (open_streams h))) (map fst (h_tenants h)))"
    by (simp add: o_def split_def)
  also have "\<dots> = length (open_streams h)"
    by (rule sum_by_key [OF hub_books_keys(1) [OF assms] hub_books_keys(2) [OF assms]])
  finally show ?thesis .
qed

lemma limits_hold:
  assumes "hub_books cfg h"
  shows "int (length (filter (\<lambda>i. s_tenant (h_subs h ! i) = tn) (open_streams h))) \<le> StreamsPerTenant (h_cfg h)"
    and "int (length (filter (\<lambda>i. s_tenant (h_subs h ! i) = tn \<and> s_user (h_subs h ! i) = u) (open_streams h))) \<le> StreamsPerUser (h_cfg h)"
proof -
  let ?P = "\<lambda>i. s_tenant (h_subs h ! i) = tn" and ?Q = "\<lambda>i. s_user (h_subs h ! i) = u"
  have pos: "1 \<le> StreamsPerUser (h_cfg h)" "1 \<le> StreamsPerTenant (h_cfg h)"
    using assms by (auto simp: hub_books_def NewHub_def)
  have "int (length (filter ?P (open_streams h))) \<le> StreamsPerTenant (h_cfg h) \<and>
      int (length (filter ?Q (filter ?P (open_streams h)))) \<le> StreamsPerUser (h_cfg h)"
  proof (cases "filter ?P (open_streams h) = []")
    case True
    then show ?thesis using pos by simp
  next
    case False
    then obtain i where "i \<in> set (open_streams h)" "s_tenant (h_subs h ! i) = tn" by (auto simp: filter_empty_conv)
    then obtain k where "(tn, k) \<in> set (h_tenants h)" using hub_books_keys(2) [OF assms, of i] by auto
    note row = tenant_row [OF assms this, of u]
    have "length (filter ?Q (filter ?P (open_streams h))) = length (filter ?Q (t_conns (h_tsubs h ! k)))"
      by (rule length_set_eq) (use row in \<open>auto simp: open_streams_def\<close>)
    then show ?thesis using row by simp
  qed
  then show "int (length (filter ?P (open_streams h))) \<le> StreamsPerTenant (h_cfg h)"
    and "int (length (filter (\<lambda>i. ?P i \<and> ?Q i) (open_streams h))) \<le> StreamsPerUser (h_cfg h)"
    by (simp_all add: conj_commute)
qed

text \<open>
  C24: the limits on open streams hold at every moment, whatever the interleaving: never more than
  \<^verbatim>\<open>StreamsPerTenant\<close> open streams of a tenant and \<^verbatim>\<open>StreamsPerUser\<close> of a user of a tenant (with the
  defaults \<^verbatim>\<open>NewHub\<close> fills in); \<^verbatim>\<open>OpenStreams\<close> is exactly the number of streams not closed; and the
  subscriber of a tenant stays in the index only while some stream of the tenant is open.
\<close>

theorem stream_limits:
  assumes "hub_run marshal cfg pubs h"
  shows "int (length (filter (\<lambda>i. s_tenant (h_subs h ! i) = tn) (open_streams h))) \<le> StreamsPerTenant (h_cfg (NewHub cfg 0)) \<and>
    int (length (filter (\<lambda>i. s_tenant (h_subs h ! i) = tn \<and> s_user (h_subs h ! i) = u) (open_streams h)))
      \<le> StreamsPerUser (h_cfg (NewHub cfg 0)) \<and>
    OpenStreams h = length (open_streams h) \<and>
    (\<forall>(tn, k) \<in> set (h_tenants h). \<exists>i \<in> set (open_streams h). i \<in> set (t_conns (h_tsubs h ! k)) \<and> s_tenant (h_subs h ! i) = tn)"
proof -
  have B: "hub_books cfg h" by (rule hub_run_books [OF assms])
  have "\<exists>i \<in> set (open_streams h). i \<in> set (t_conns (h_tsubs h ! k)) \<and> s_tenant (h_subs h ! i) = tn" if "(tn, k) \<in> set (h_tenants h)" for tn k
  proof -
    note row = tenant_row [OF B that, of "[]"]
    obtain i where "i \<in> set (t_conns (h_tsubs h ! k))" using row by (cases "t_conns (h_tsubs h ! k)") auto
    then show ?thesis using row by auto
  qed
  moreover have "h_cfg (NewHub cfg 0) = h_cfg h" using B by (simp add: hub_books_def)
  ultimately show ?thesis
    using limits_hold [OF B] OpenStreams_exact [OF B] by auto
qed

theorem stream_limits_witness:
  "int (length (filter (\<lambda>i. s_tenant (h_subs hub_demo ! i) = ''t1'') (open_streams hub_demo))) \<le> StreamsPerTenant (h_cfg (NewHub demo_cfg 0)) \<and>
    int (length (filter (\<lambda>i. s_tenant (h_subs hub_demo ! i) = ''t1'' \<and> s_user (h_subs hub_demo ! i) = ''u1'') (open_streams hub_demo)))
      \<le> StreamsPerUser (h_cfg (NewHub demo_cfg 0)) \<and>
    OpenStreams hub_demo = length (open_streams hub_demo) \<and>
    list_all (\<lambda>(tn, k). \<exists>i \<in> set (open_streams hub_demo). i \<in> set (t_conns (h_tsubs hub_demo ! k)) \<and> s_tenant (h_subs hub_demo ! i) = tn)
      (h_tenants hub_demo)"
  using stream_limits [OF hub_demo_run, of "''t1''" "''u1''"] unfolding list_all_iff .

section \<open>Closing the hub\<close>

lemma closed_after: "i < length (h_subs h) \<Longrightarrow> s_closed (h_subs (sub_Close i h) ! i)"
  by (auto simp: sub_Close_unfold Let_def nth_upd_sub split: option.split)

lemma closed_stays: "i < length (h_subs h) \<Longrightarrow> s_closed (h_subs h ! j) \<Longrightarrow> s_closed (h_subs (sub_Close i h) ! j)"
  by (auto simp: sub_Close_unfold Let_def nth_upd_sub split: option.split)

lemma length_close [simp]: "length (h_subs (sub_Close i h)) = length (h_subs h)"
  by (simp add: sub_Close_unfold Let_def split: option.split)

lemma fold_close:
  assumes "hub_run marshal cfg pubs h" and "\<forall>i \<in> set is. i < length (h_subs h)"
  shows "hub_run marshal cfg pubs (fold sub_Close is h) \<and> length (h_subs (fold sub_Close is h)) = length (h_subs h) \<and>
    h_done (fold sub_Close is h) = h_done h \<and>
    (\<forall>j < length (h_subs h). s_closed (h_subs h ! j) \<or> j \<in> set is \<longrightarrow> s_closed (h_subs (fold sub_Close is h) ! j))"
  using assms
proof (induction "is" arbitrary: h)
  case (Cons i "is")
  have "h_done (sub_Close i h) = h_done h"
    by (simp add: sub_Close_unfold Let_def upd_sub_def upd_tsub_def split: option.split)
  then show ?case
    using Cons.IH [OF closes [OF Cons.prems(1), of i]] Cons.prems closed_after [of i h] closed_stays [of i h] by auto
qed simp

text \<open>
  C27: \<^verbatim>\<open>Hub.Close\<close> ends every stream: whatever state the hub is in, afterwards all subscriptions are
  closed, \<^verbatim>\<open>OpenStreams\<close> is 0, no tenant has a subscriber left, and a new \<^verbatim>\<open>Subscribe\<close> is refused.
\<close>

theorem hub_close_ends_streams:
  assumes "hub_run marshal cfg pubs h"
  shows "(\<forall>s \<in> set (h_subs (hub_Close h)). s_closed s) \<and> OpenStreams (hub_Close h) = 0 \<and> h_tenants (hub_Close h) = [] \<and>
    fst (run_state (Subscribe tn u lastID) (hub_Close h)) = Inl HubClosed"
proof -
  let ?h = "cancel_hub h"
  have R: "hub_run marshal cfg pubs ?h" by (rule cancels [OF assms])
  note B = hub_run_books [OF R]
  have all: "set (open_subs ?h) = set (open_streams ?h)"
  proof -
    have "set (open_subs ?h) = (\<Union>(tn, k) \<in> set (h_tenants ?h). set (t_conns (h_tsubs ?h ! k)))"
      by (auto simp: open_subs_def)
    also have "\<dots> = (\<Union>(tn, k) \<in> set (h_tenants ?h). set (filter (\<lambda>i. s_tenant (h_subs ?h ! i) = tn) (open_streams ?h)))"
      using tenant_row [OF B] by (intro SUP_cong) auto
    also have "\<dots> = set (open_streams ?h)" using hub_books_keys(2) [OF B] by fastforce
    finally show ?thesis .
  qed
  then have idx: "\<forall>i \<in> set (open_subs ?h). i < length (h_subs ?h)" by (simp add: open_streams_def)
  note F = fold_close [OF R idx]
  have C: "hub_Close h = fold sub_Close (open_subs ?h) ?h" by (simp add: hub_Close_def Let_def)
  have closed: "s_closed (h_subs (hub_Close h) ! j)" if "j < length (h_subs (hub_Close h))" for j
    using that F all unfolding C by (cases "s_closed (h_subs ?h ! j)") (auto simp: open_streams_def)
  then have none: "open_streams (hub_Close h) = []" by (simp add: open_streams_def filter_empty_conv)
  have B': "hub_books cfg (hub_Close h)" using F hub_run_books unfolding C by blast
  have "h_done (hub_Close h)" using F unfolding C by (simp add: cancel_hub_def)
  then have "fst (run_state (Subscribe tn u lastID) (hub_Close h)) = Inl HubClosed"
    by (simp add: Subscribe_def Subscribe_open_def run_try_in)
  moreover have "h_tenants (hub_Close h) = []"
    using tenant_row [OF B'] none by (cases "h_tenants (hub_Close h)") force+
  ultimately show ?thesis
    using closed OpenStreams_exact [OF B'] none by (auto simp: in_set_conv_nth)
qed

theorem hub_close_ends_streams_witness:
  "list_all s_closed (h_subs (hub_Close hub_demo)) \<and> OpenStreams (hub_Close hub_demo) = 0 \<and> h_tenants (hub_Close hub_demo) = [] \<and>
    fst (run_state (Subscribe ''t1'' ''u1'' []) (hub_Close hub_demo)) = Inl HubClosed"
  using hub_close_ends_streams [OF hub_demo_run, of "''t1''" "''u1''" "[]"] unfolding list_all_iff .

end
