(* ===== verification/Hub_Delivery.thy ===== *)
theory Hub_Delivery
  imports Hub_Limits
begin

text \<open>
  What does arrive: a turn of the subscriber loop hands every addressed event of its batch to a
  subscriber with room in its queue, and a replay queues the first 32 missed events. The replay
  ignores that the queue is full, so what lies beyond is lost without a \<^verbatim>\<open>reset\<close>.
\<close>

section \<open>A turn of the loop\<close>

text \<open>Pushing a list of events to a subscription that has room for all of them.\<close>

definition accepts :: "StreamEvent list \<Rightarrow> Subscription \<Rightarrow> bool" where
  "accepts evs s \<longleftrightarrow> \<not> s_closed s \<and> length (s_ch s) + length evs \<le> connBuffer \<and> sorted_wrt Less (map v_ID evs) \<and>
     (s_last s = [] \<or> (\<forall>ev \<in> set evs. Less (s_last s) (v_ID ev)))"

lemma push_accepted:
  assumes "accepts (ev # evs) s"
  shows "fst (push ev s)" "s_ch (snd (push ev s)) = s_ch s @ [ev]" "accepts evs (snd (push ev s))"
  using assms by (auto simp: accepts_def push_def Let_def)

text \<open>\<open>watching k i h\<close>: subscription \<open>i\<close> is registered once with the subscriber at \<open>k\<close>.\<close>

definition watching :: "nat \<Rightarrow> nat \<Rightarrow> Hub \<Rightarrow> bool" where
  "watching k i h \<longleftrightarrow> k < length (h_tsubs h) \<and> i < length (h_subs h) \<and> i \<in> set (t_conns (h_tsubs h ! k)) \<and> distinct (t_conns (h_tsubs h ! k))"

lemma watching_upd_tsub:
  assumes "watching k i h" and "\<And>t. i \<in> set (t_conns t) \<Longrightarrow> distinct (t_conns t) \<Longrightarrow> i \<in> set (t_conns (f t)) \<and> distinct (t_conns (f t))"
  shows "watching k i (upd_tsub x f h)"
  using assms by (cases "x < length (h_tsubs h)") (auto simp: watching_def upd_tsub_def nth_list_update list_update_beyond)

lemma watching_other [simp]:
  "watching k i (upd_sub j f h) = watching k i h" "watching k i (h\<lparr>h_tenants := x\<rparr>) = watching k i h"
  by (simp_all add: watching_def)

lemma close_other:
  assumes "j \<noteq> i" and "watching k i h"
  shows "h_subs (sub_Close j h) ! i = h_subs h ! i" "watching k i (sub_Close j h)"
proof -
  show "h_subs (sub_Close j h) ! i = h_subs h ! i"
    using assms(1) by (simp add: sub_Close_unfold Let_def upd_sub_def upd_tsub_def split: option.split)
  have 1: "watching k i (upd_tsub x (forget_conn j u) h)" for x u
    by (rule watching_upd_tsub [OF assms(2)]) (use assms(1) in \<open>simp add: distinct_removeAll\<close>)
  have 2: "watching k i (upd_tsub x (\<lambda>t. t\<lparr>t_cancelled := True\<rparr>) (upd_tsub x (forget_conn j u) h))" for x u
    by (rule watching_upd_tsub [OF 1]) simp
  have swap: "upd_tsub x g (upd_sub j f h) = upd_sub j f (upd_tsub x g h)" for x g f and h :: Hub
    by (simp add: upd_tsub_def upd_sub_def)
  show "watching k i (sub_Close j h)"
    using assms(2) 1 2 by (simp add: sub_Close_unfold Let_def swap split: option.split)
qed

lemma push_to_other:
  assumes "j \<noteq> i"
  shows "h_subs (snd (push_to j ev h)) ! i = h_subs h ! i"
  using assms by (simp add: push_to_def Let_def case_prod_beta upd_sub_def)

lemma push_to_watching: "watching k i h \<Longrightarrow> watching k i (snd (push_to j ev h))"
  by (simp add: watching_def)

lemma deliver_other:
  assumes "j \<noteq> i" and "watching k i h"
  shows "h_subs (deliver j ev h) ! i = h_subs h ! i" "watching k i (deliver j ev h)"
  using close_other [OF assms(1) push_to_watching [OF assms(2), of j ev]] push_to_other [OF assms(1)] push_to_watching [OF assms(2)]
  by (simp_all add: deliver_def Let_def case_prod_beta)

lemma deliver_self:
  assumes "watching k i h" and "accepts (ev # evs) (h_subs h ! i)"
  shows "h_subs (deliver i ev h) ! i = snd (push ev (h_subs h ! i))" "watching k i (deliver i ev h)"
  using assms(1) push_accepted(1) [OF assms(2)] push_to_watching [OF assms(1), of i ev]
  by (auto simp: deliver_def push_to_def Let_def case_prod_beta nth_upd_sub watching_def)

lemma deliver_all_other:
  assumes "watching k i h" and "i \<notin> set js"
  shows "h_subs (snd (run_state (for_each js (\<lambda>j. State_Monad.update (deliver j ev))) h)) ! i = h_subs h ! i \<and>
    watching k i (snd (run_state (for_each js (\<lambda>j. State_Monad.update (deliver j ev))) h))"
  using assms
proof (induction js arbitrary: h)
  case (Cons j js)
  have j: "j \<noteq> i" using Cons.prems(2) by auto
  show ?case using Cons.IH [OF deliver_other(2) [OF j Cons.prems(1)]] deliver_other(1) [OF j Cons.prems(1)] Cons.prems(2) by simp
qed simp

lemma deliver_all:
  assumes "watching k i h" and "i \<in> set js" and "distinct js" and "accepts (ev # evs) (h_subs h ! i)"
  shows "h_subs (snd (run_state (for_each js (\<lambda>j. State_Monad.update (deliver j ev))) h)) ! i = snd (push ev (h_subs h ! i)) \<and>
    watching k i (snd (run_state (for_each js (\<lambda>j. State_Monad.update (deliver j ev))) h))"
  using assms
proof (induction js arbitrary: h)
  case (Cons j js)
  show ?case
  proof (cases "j = i")
    case True
    then show ?thesis
      using deliver_all_other [OF deliver_self(2) [OF Cons.prems(1,4)], of js] deliver_self(1) [OF Cons.prems(1,4)] Cons.prems(3) by simp
  next
    case False
    then show ?thesis
      using Cons.IH [OF deliver_other(2) [OF False Cons.prems(1)]] deliver_other(1) [OF False Cons.prems(1)] Cons.prems by simp
  qed
qed simp

definition for_user :: "string \<Rightarrow> Entry list \<Rightarrow> StreamEvent list" where
  "for_user u es = map event_of (filter (\<lambda>e. targets (field e ''to'') u) es)"

definition loop_body :: "nat \<Rightarrow> Entry \<Rightarrow> (Hub, unit) state" where
  "loop_body k e = do { State_Monad.update (upd_tsub k (\<lambda>t. t\<lparr>t_last := e_ID e\<rparr>)); dispatch k e }"

lemma loop_body_effect:
  assumes "watching k i h" and "accepts (for_user (s_user (h_subs h ! i)) (e # es)) (h_subs h ! i)"
  defines "h' \<equiv> snd (run_state (loop_body k e) h)"
  shows "watching k i h' \<and> s_user (h_subs h' ! i) = s_user (h_subs h ! i) \<and> accepts (for_user (s_user (h_subs h ! i)) es) (h_subs h' ! i) \<and>
    s_ch (h_subs h' ! i) = s_ch (h_subs h ! i) @ for_user (s_user (h_subs h ! i)) [e]"
proof -
  let ?h = "upd_tsub k (\<lambda>t. t\<lparr>t_last := e_ID e\<rparr>) h" and ?u = "s_user (h_subs h ! i)"
  have w: "watching k i ?h" using assms(1) by (auto simp: watching_def nth_upd_tsub)
  have h': "h' = snd (run_state (for_each (addressees ?h k e) (\<lambda>j. State_Monad.update (deliver j (event_of e)))) ?h)"
    by (simp add: h'_def loop_body_def dispatch_def)
  show ?thesis
  proof (cases "targets (field e ''to'') ?u")
    case True
    then have a: "accepts (event_of e # for_user ?u es) (h_subs ?h ! i)" using assms(2) by (simp add: for_user_def)
    have "i \<in> set (addressees ?h k e)" "distinct (addressees ?h k e)" using w True by (auto simp: addressees_def watching_def)
    from deliver_all [OF w this a] show ?thesis
      using push_accepted(2,3) [OF a] True unfolding h' by (simp add: for_user_def)
  next
    case False
    then have "i \<notin> set (addressees ?h k e)" by (simp add: addressees_def)
    from deliver_all_other [OF w this, of "event_of e"] show ?thesis
      using False assms(2) unfolding h' by (simp add: for_user_def)
  qed
qed

lemma loop_bodies_effect:
  assumes "watching k i h" and "accepts (for_user (s_user (h_subs h ! i)) es) (h_subs h ! i)"
  shows "s_ch (h_subs (snd (run_state (for_each es (loop_body k)) h)) ! i) = s_ch (h_subs h ! i) @ for_user (s_user (h_subs h ! i)) es \<and>
    \<not> s_closed (h_subs (snd (run_state (for_each es (loop_body k)) h)) ! i)"
  using assms
proof (induction es arbitrary: h)
  case Nil
  then show ?case by (simp add: for_user_def accepts_def)
next
  case (Cons e es)
  let ?h = "snd (run_state (loop_body k e) h)"
  note eff = loop_body_effect [OF Cons.prems]
  have "for_user u (e # es) = for_user u [e] @ for_user u es" for u by (simp add: for_user_def)
  with Cons.IH [of ?h] eff show ?case by (simp add: case_prod_beta)
qed

text \<open>
  C25: a subscriber that keeps up misses nothing that is live: when the loop of a tenant makes a
  turn with the stream reachable, every entry of the batch it reads that is addressed to the user of an
  open stream of that tenant is appended to the queue of that stream, in order, provided
  the queue has room for them and they are newer than what the stream got; the stream stays open.
  Other subscribers that stall and are dropped during the turn do not matter.
\<close>

theorem live_delivery:
  assumes "hub_run marshal cfg pubs h" and "(tn, k) \<in> set (h_tenants h)" and "i \<in> set (t_conns (h_tsubs h ! k))"
    and "m_Err (h_mem h) = None"
    and "es = after (h_mem h) (stream_Key tn) (XRead_from (h_mem h) (stream_Key tn) (t_last (h_tsubs h ! k))) 100"
    and "accepts (for_user (s_user (h_subs h ! i)) es) (h_subs h ! i)"
  shows "let s' = h_subs (snd (run_state (loop_turn k False) h)) ! i in
    s_ch s' = s_ch (h_subs h ! i) @ for_user (s_user (h_subs h ! i)) es \<and> \<not> s_closed s'"
proof -
  have k: "k < length (h_tsubs h)" "t_id (h_tsubs h ! k) = tn"
    using hub_run_good [OF assms(1)] assms(2) by (auto simp: hub_good_def index_good_def)
  have w: "watching k i h"
    using tenant_row [OF hub_run_books [OF assms(1)] assms(2)] assms(3) k(1) by (auto simp: watching_def open_streams_def)
  have "run_state (XRead (stream_Key tn) (t_last (h_tsubs h ! k)) 100) (h_mem h) = (Inr es, h_mem h)"
    using assms(4,5) by (simp add: XRead_def unless_down_def)
  then have "snd (run_state (loop_turn k False) h) = snd (run_state (for_each es (loop_body k)) h)"
    using k by (simp add: loop_turn_def loop_trim_def run_client_call loop_body_def [abs_def])
  then show ?thesis
    using loop_bodies_effect [OF w assms(6)] by (simp add: Let_def)
qed

lemma demo_published_run: "hub_run (\<lambda>_ :: unit. None) demo_cfg demo_log (demo_at demo_mem ''0-0'' AtHead (new_sub ''t1'' ''u1''))"
proof -
  have 1: "hub_run (\<lambda>_ :: unit. None) demo_cfg [] (demo_at NewMemory ''0-0'' AtHead (new_sub ''t1'' ''u1''))"
    using subscribes [OF starts demo_subscribes, where lastID = "[]"] by simp
  show ?thesis using publishes [OF 1 demo_publishes, of "''{}''"] by (simp add: demo_log_def encode_payload_def)
qed

theorem live_delivery_witness:
  "let h = demo_at demo_mem ''0-0'' AtHead (new_sub ''t1'' ''u1'');
       s' = h_subs (snd (run_state (loop_turn 0 False) h)) ! 0 in
    s_ch s' = s_ch (h_subs h ! 0) @ for_user (s_user (h_subs h ! 0)) [demo_entry] \<and> \<not> s_closed s' \<and> length (s_ch s') = 1"
proof -
  let ?h = "demo_at demo_mem ''0-0'' AtHead (new_sub ''t1'' ''u1'')"
  have "Less (mk_ID 0 0) (mk_ID 5 1)" by (simp add: Less_key id_key_mk)
  moreover have "mk_ID 0 0 = ''0-0''" by code_simp
  ultimately have es: "[demo_entry] = after (h_mem ?h) (stream_Key ''t1'') (XRead_from (h_mem ?h) (stream_Key ''t1'') (t_last (h_tsubs ?h ! 0))) 100"
    by (simp add: after_def demo_at_def demo_mem_def stream_of_def XRead_from_def demo_entry_def)
  have one: "for_user ''u1'' [demo_entry] = [event_of demo_entry]"
    by (simp add: for_user_def targets_def field_def demo_entry_def)
  have acc: "accepts (for_user (s_user (h_subs ?h ! 0)) [demo_entry]) (h_subs ?h ! 0)"
    using one by (simp add: accepts_def demo_at_def new_sub_def connBuffer_def)
  have "let s' = h_subs (snd (run_state (loop_turn 0 False) ?h)) ! 0 in
      s_ch s' = s_ch (h_subs ?h ! 0) @ for_user (s_user (h_subs ?h ! 0)) [demo_entry] \<and> \<not> s_closed s'"
    by (rule live_delivery [OF demo_published_run _ _ _ es acc]) (simp_all add: demo_at_def demo_mem_def)
  moreover have "h_subs ?h ! 0 = new_sub ''t1'' ''u1''" by (simp add: demo_at_def)
  ultimately show ?thesis
    using one by (simp add: Let_def new_sub_def)
qed

section \<open>What a replay queues\<close>

lemma replay_pushes_effect:
  assumes "i < length (h_subs h)" and "\<not> s_closed (h_subs h ! i)" and "\<forall>ev \<in> set evs. v_ID ev \<noteq> []"
    and "sorted_wrt Less (map v_ID evs)" and "s_last (h_subs h ! i) = [] \<or> (\<forall>ev \<in> set evs. Less (s_last (h_subs h ! i)) (v_ID ev))"
  defines "s' \<equiv> h_subs (snd (run_state (for_each evs (replay_push i)) h)) ! i"
  shows "s_ch s' = s_ch (h_subs h ! i) @ take (connBuffer - length (s_ch (h_subs h ! i))) evs \<and> \<not> s_closed s' \<and>
    s_last s' = (if evs = [] then s_last (h_subs h ! i) else v_ID (last evs))"
  using assms(1-5) unfolding s'_def
proof (induction evs arbitrary: h)
  case (Cons ev evs)
  let ?s = "h_subs h ! i" and ?h = "snd (push_to i ev h)"
  have s: "h_subs ?h ! i = snd (push ev ?s)"
    using Cons.prems(1) by (simp add: push_to_def Let_def case_prod_beta nth_upd_sub)
  have p: "\<not> s_closed (snd (push ev ?s))" "s_last (snd (push ev ?s)) = v_ID ev"
      "s_ch (snd (push ev ?s)) = (if length (s_ch ?s) < connBuffer then s_ch ?s @ [ev] else s_ch ?s)"
    using Cons.prems by (auto simp: push_def Let_def)
  have step: "snd (run_state (for_each (ev # evs) (replay_push i)) h) = snd (run_state (for_each evs (replay_push i)) ?h)"
    by (simp add: replay_push_def)
  have t: "s_ch (snd (push ev ?s)) @ take (connBuffer - length (s_ch (snd (push ev ?s)))) evs =
      s_ch ?s @ take (connBuffer - length (s_ch ?s)) (ev # evs)"
    unfolding p by (cases "length (s_ch ?s) < connBuffer") (auto simp: Suc_diff_Suc [symmetric])
  show ?case
    using Cons.IH [of ?h] Cons.prems(1,3,4) p s unfolding step by (simp add: t [unfolded p])
qed simp

text \<open>
  C26: what a reconnecting client is replayed: with the last id inside the window and the stream
  reachable, \<^verbatim>\<open>Subscribe\<close> queues the first 32 of the newer events addressed to the user, in order. When
  there are more, the others are dropped for good: the stream stays open, no \<^verbatim>\<open>reset\<close> is
  queued, and the id up to which events count as delivered is that of the last one.
\<close>

theorem replay_queues_first:
  assumes "run_state (Subscribe_open tn u) h = (Inr i, h1)" and "lastID \<noteq> []" and "ParseID lastID = (ms, n, True)"
    and "h_now h - ReplayWindow (h_cfg h) \<le> from_UnixMilli ms" and "m_Err (h_mem h) = None"
    and "es = for_user u (after (h_mem h) (stream_Key tn) lastID (MaxLen (h_cfg h)))"
    and "\<forall>ev \<in> set es. v_ID ev \<noteq> []" and "sorted_wrt Less (map v_ID es)"
  shows "let (r, h') = run_state (Subscribe tn u lastID) h; s = h_subs h' ! i in
    r = Inr i \<and> s_ch s = take connBuffer es \<and> \<not> s_closed s \<and> (es \<noteq> [] \<longrightarrow> s_last s = v_ID (last es))"
proof -
  have "\<not> h_done h" using Subscribe_open_err [OF assms(1)] by auto
  with assms(1) obtain k h0 where t: "run_state (tenant_sub tn) h = (Inr k, h0)" and r: "run_state (register tn u k) h0 = (Inr i, h1)"
    by (cases rule: Subscribe_open_run) auto
  have keep: "h_mem h0 = h_mem h \<and> h_cfg h0 = h_cfg h \<and> h_now h0 = h_now h"
    using t by (cases rule: tenant_sub_cases) (auto simp: add_tsub_def)
  have h1: "h_mem h1 = h_mem h \<and> h_cfg h1 = h_cfg h \<and> h_now h1 = h_now h \<and> i < length (h_subs h1) \<and> h_subs h1 ! i = new_sub tn u"
    using r keep by (cases rule: register_cases) (auto simp: nth_append upd_tsub_def)
  have ev: "run_state (replay_events tn u lastID) h1 = (es, h1)"
    using assms(3-6) h1
    by (simp add: replay_events_def run_client_call XRange_def unless_down_def for_user_def)
  have "run_state (Subscribe tn u lastID) h = (Inr i, snd (run_state (for_each es (replay_push i)) h1))"
    using assms(1,2) ev h1 by (simp add: Subscribe_def run_try_in replay_def new_sub_def case_prod_beta)
  then show ?thesis
    using replay_pushes_effect [of i h1 es] h1 assms(7,8) by (simp add: new_sub_def Let_def)
qed

theorem replay_queues_first_witness:
  "let (r, h') = run_state (Subscribe ''t1'' ''u1'' (mk_ID 4 0)) ((NewHub demo_cfg demo_now)\<lparr>h_mem := demo_mem\<rparr>); s = h_subs h' ! 0;
       es = [event_of demo_entry] in
    r = Inr 0 \<and> s_ch s = take connBuffer es \<and> \<not> s_closed s \<and> s_last s = v_ID (last es)"
proof -
  let ?h = "(NewHub demo_cfg demo_now)\<lparr>h_mem := demo_mem\<rparr>"
  have o: "run_state (Subscribe_open ''t1'' ''u1'') ?h = (Inr 0, snd (run_state (Subscribe_open ''t1'' ''u1'') ?h))"
    by (simp add: Subscribe_open_def tenant_sub_def register_def run_try_in run_client_call XLast_def unless_down_def stream_of_def
      demo_mem_def NewHub_def demo_cfg_def new_tsub_def add_tsub_def upd_tsub_def add_conn_def by_user_def)
  have "Less (mk_ID 4 0) (mk_ID 5 1)" by (simp add: Less_key id_key_mk)
  then have es: "[event_of demo_entry] = for_user ''u1'' (after (h_mem ?h) (stream_Key ''t1'') (mk_ID 4 0) (MaxLen (h_cfg ?h)))"
    by (simp add: for_user_def targets_def field_def demo_entry_def demo_mem_def after_def stream_of_def NewHub_def demo_cfg_def DefaultMaxLen_def)
  have id: "ParseID (mk_ID 4 0) = (4, 0, True)" by (rule ParseID_mk) simp_all
  have "let (r, h') = run_state (Subscribe ''t1'' ''u1'' (mk_ID 4 0)) ?h; s = h_subs h' ! 0 in
      r = Inr 0 \<and> s_ch s = take connBuffer [event_of demo_entry] \<and> \<not> s_closed s \<and>
      ([event_of demo_entry] \<noteq> [] \<longrightarrow> s_last s = v_ID (last [event_of demo_entry]))"
    by (rule replay_queues_first [OF o _ id _ _ es])
      (simp_all add: NewHub_def demo_cfg_def demo_now_def from_UnixMilli_def nanos_per_second_def demo_mem_def event_of_def demo_entry_def)
  then show ?thesis by (simp add: Let_def)
qed

end
