(* ===== verification/Ids.thy ===== *)
theory Ids
  imports Golib
begin

unbundle bit_operations_syntax

text \<open>
  \<^verbatim>\<open>internal/store/ids.go\<close>: UUIDv7 identifiers. The machine state every component shares starts
  here: the wall clock, the random source (an infinite byte sequence, consumed from the front) and
  the two package variables that keep identifiers monotonic.
\<close>

record sys =
  wall :: gotime
  rnd :: "nat \<Rightarrow> 8 word"
  idLast :: int
  idSeq :: "16 word"

definition read_rand :: "nat \<Rightarrow> ('z sys_scheme, 8 word list) state" where
  "read_rand n = State (\<lambda>w. (map (rnd w) [0..<n], w\<lparr>rnd := (\<lambda>i. rnd w (i + n))\<rparr>))"

text \<open>The critical section of \<^verbatim>\<open>NewID\<close>: the millisecond and the sequence number of the next id.\<close>

definition next_stamp :: "8 word list \<Rightarrow> int \<Rightarrow> int \<Rightarrow> 16 word \<Rightarrow> int \<times> int \<times> 16 word" where
  "next_stamp b ms lst sq =
     (if ms \<le> lst then
        (let sq' = sq + 1 in
         if 4096 \<le> sq' then (lst + 1, lst + 1, 0) else (lst, lst, sq'))
      else (ms, ms, push_bit 8 (ucast (b ! 6 AND 7)) OR ucast (b ! 7)))"

text \<open>The sixteen bytes of the identifier.\<close>

definition id_bytes :: "8 word list \<Rightarrow> int \<Rightarrow> 16 word \<Rightarrow> 8 word list" where
  "id_bytes b ms sq =
     (let u = word_of_int ms :: 64 word in
      [ucast (drop_bit 40 u), ucast (drop_bit 32 u), ucast (drop_bit 24 u), ucast (drop_bit 16 u),
       ucast (drop_bit 8 u), ucast u,
       0x70 OR (ucast (drop_bit 8 sq) AND 0x0f), ucast (sq AND 0xff), (b ! 8 AND 0x3f) OR 0x80] @ drop 9 b)"

definition id_text :: "string \<Rightarrow> string" where
  "id_text h = take 8 h @ ''-'' @ take 4 (drop 8 h) @ ''-'' @ take 4 (drop 12 h) @ ''-'' @
     take 4 (drop 16 h) @ ''-'' @ take 12 (drop 20 h)"

definition NewID :: "('z sys_scheme, string) state" where
  "NewID = do {
     b \<leftarrow> read_rand 16;
     State (\<lambda>w. case next_stamp b (UnixMilli (wall w)) (idLast w) (idSeq w) of
       (ms, lst, sq) \<Rightarrow> (id_text (hex_encode (id_bytes b ms sq)), w\<lparr>idLast := lst, idSeq := sq\<rparr>))
   }"

subsection \<open>Identifiers as numerals\<close>

text \<open>\<open>hexn k n\<close> is \<open>n\<close> in \<open>k\<close> hexadecimal digits; its order is the order of the numbers.\<close>

primrec hexn :: "nat \<Rightarrow> nat \<Rightarrow> string" where
  "hexn 0 n = []"
| "hexn (Suc k) n = hexn k (n div 16) @ [hexdig (n mod 16)]"

lemma length_hexn [simp]: "length (hexn k n) = k"
  by (induction k arbitrary: n) auto

lemma hexdig_less: "a < b \<Longrightarrow> b < 16 \<Longrightarrow> hexdig a < hexdig b"
proof -
  assume "a < b" "b < 16"
  then have "b \<in> {1..<16}" "a \<in> {0..<b}" by auto
  have "\<forall>b \<in> set [1..<16]. \<forall>a \<in> set [0..<b]. hexdig a < hexdig b"
    by code_simp
  with \<open>a < b\<close> \<open>b < 16\<close> show ?thesis by auto
qed

lemma less_append_left: "ys < zs \<Longrightarrow> xs @ ys < xs @ (zs :: 'a::order list)"
  by (induction xs) auto

lemma less_append_right: "xs < ys \<Longrightarrow> length xs = length ys \<Longrightarrow> xs @ us < ys @ (vs :: 'a::order list)"
proof (induction xs arbitrary: ys)
  case Nil
  then show ?case by simp
next
  case (Cons x xs)
  then show ?case by (cases ys) auto
qed

lemma append_less_cases:
  assumes "a @ b < a' @ (b' :: 'a::order list)" and "length a = length a'"
  shows "a < a' \<or> (a = a' \<and> b < b')"
  using assms
proof (induction a arbitrary: a')
  case Nil
  then show ?case by simp
next
  case (Cons x xs)
  then show ?case by (cases a') auto
qed

lemma hexn_mono: "n < m \<Longrightarrow> m < 16 ^ k \<Longrightarrow> hexn k n < hexn k m"
proof (induction k arbitrary: n m)
  case 0
  then show ?case by simp
next
  case (Suc k)
  have m: "m div 16 < 16 ^ k"
    using Suc.prems(2) by (simp add: less_mult_imp_div_less mult.commute)
  show ?case
  proof (cases "n div 16 < m div 16")
    case True
    with Suc.IH [OF True m] show ?thesis
      by (simp add: less_append_right)
  next
    case False
    then have eq: "n div 16 = m div 16"
      using Suc.prems(1) by (meson div_le_mono le_neq_implies_less less_imp_le)
    then have "n mod 16 < m mod 16"
      using Suc.prems(1) by (metis div_mult_mod_eq add_less_cancel_left)
    then show ?thesis
      by (simp add: eq less_append_left hexdig_less)
  qed
qed

lemma mod256_digits: "(n :: nat) mod 256 div 16 = n div 16 mod 16" "n mod 256 mod 16 = n mod 16"
  using mod_mult2_eq [of n 16 16] by (simp_all add: mod_mod_cancel)

lemma hex_byte_mod: "unat b = n mod 256 \<Longrightarrow> hex_byte b = hexn 2 (n mod 256)"
  by (simp add: hex_byte_def numeral_2_eq_2 mod256_digits)

lemma hexn_mod: "hexn k (n mod 16 ^ k) = hexn k n"
proof (induction k arbitrary: n)
  case (Suc k)
  have "n mod (16 * 16 ^ k) div 16 = n div 16 mod 16 ^ k"
    by (simp add: mod_mult2_eq)
  moreover have "n mod (16 * 16 ^ k) mod 16 = n mod 16"
    by (simp add: mod_mod_cancel)
  ultimately show ?case
    using Suc.IH [of "n div 16"] by simp
qed simp

lemma hexn_append: "hexn (j + k) n = hexn j (n div 16 ^ k) @ hexn k n"
proof (induction k arbitrary: n)
  case (Suc k)
  have "n div 16 div 16 ^ k = n div (16 * 16 ^ k)"
    by (simp add: div_mult2_eq)
  with Suc [of "n div 16"] show ?case by simp
qed simp

lemma unat_shift: "unat (drop_bit k (u :: 'a::len word)) = unat u div 2 ^ k"
  by (simp only: unat_drop_bit_eq drop_bit_nat_def)

lemma unat_byte0: "unat (ucast (u :: 64 word) :: 8 word) = unat u mod 256"
  by (simp add: unsigned_ucast_eq take_bit_eq_mod)

lemma hexn_bytes6:
  "hexn 12 n = hexn 2 ((n div 2 ^ 40) mod 256) @ hexn 2 ((n div 2 ^ 32) mod 256) @ hexn 2 ((n div 2 ^ 24) mod 256) @
     hexn 2 ((n div 2 ^ 16) mod 256) @ hexn 2 ((n div 2 ^ 8) mod 256) @ hexn 2 (n mod 256)"
proof -
  have 16: "hexn 2 (x mod 256) = hexn 2 x" for x
    using hexn_mod [of 2 x] by simp
  show ?thesis
    using hexn_append [of 10 2 n] hexn_append [of 8 2 "n div 256"] hexn_append [of 6 2 "n div 65536"]
      hexn_append [of 4 2 "n div 16777216"] hexn_append [of 2 2 "n div 4294967296"]
    by (simp add: 16 div_mult2_eq [symmetric])
qed

lemma or_70: "x < 16 \<Longrightarrow> (0x70::nat) OR x = 0x70 + x"
proof -
  assume "x < 16"
  have "\<forall>x \<in> set [0..<16]. (0x70::nat) OR x = 0x70 + x" by code_simp
  with \<open>x < 16\<close> show ?thesis by auto
qed

lemma seq_high:
  fixes sq :: "16 word"
  assumes "unat sq < 4096"
  shows "unat (0x70 OR (ucast (drop_bit 8 sq) AND 0x0f) :: 8 word) = 0x70 + unat sq div 256"
proof -
  have small: "unat sq div 256 < 16"
    using assms by (simp add: less_mult_imp_div_less)
  then have "unat sq div 256 AND 15 = unat sq div 256"
    using take_bit_eq_mask [of 4 "unat sq div 256"] by (simp add: take_bit_eq_mod mask_eq_exp_minus_1)
  with small show ?thesis
    by (simp add: unsigned_or_eq unsigned_and_eq unsigned_ucast_eq unat_shift take_bit_eq_mod or_70)
qed

lemma seq_low:
  fixes sq :: "16 word"
  shows "unat (ucast (sq AND 0xff) :: 8 word) = unat sq mod 256"
proof -
  have "unat sq mod 256 AND 255 = unat sq mod 256"
    using take_bit_eq_mask [of 8 "unat sq mod 256"] by (simp add: take_bit_eq_mod mask_eq_exp_minus_1)
  then show ?thesis
    by (simp add: unsigned_and_eq unsigned_ucast_eq take_bit_eq_mod)
qed

lemma hexn_seq: "n < 4096 \<Longrightarrow> hexn 4 (0x7000 + n) = hexn 2 (0x70 + n div 256) @ hexn 2 (n mod 256)"
proof -
  assume n: "n < 4096"
  have "(0x7000 + n) mod 256 = n mod 256"
    using mod_mult_self1 [of n 112 256] by (simp add: add.commute)
  then have "hexn 2 (n mod 256) = hexn 2 (0x7000 + n)"
    using hexn_mod [of 2 "0x7000 + n"] by simp
  moreover have "(0x7000 + n) div 256 = 0x70 + n div 256"
    using div_mult_self1 [of 256 n 112] by (simp add: add.commute)
  ultimately show ?thesis
    using hexn_append [of 2 2 "0x7000 + n"] by simp
qed

lemma hex_byte_hexn: "hex_byte b = hexn 2 (unat b)"
proof -
  have "unat b < 2 ^ LENGTH(8)"
    by (rule unsigned_less)
  then have "unat b div 16 < 16"
    by (simp add: less_mult_imp_div_less)
  then show ?thesis
    by (simp add: hex_byte_def numeral_2_eq_2)
qed

text \<open>The text of an identifier: twelve digits of the millisecond, then \<open>7\<close> and the sequence number.\<close>

lemma id_text_eq:
  assumes ms: "0 \<le> ms" "ms < 2 ^ 48" and sq: "unat sq < 4096"
  shows "\<exists>tl. id_text (hex_encode (id_bytes b ms sq)) =
    (take 8 (hexn 12 (nat ms)) @ ''-'' @ drop 8 (hexn 12 (nat ms)) @ ''-'' @ hexn 4 (0x7000 + unat sq)) @ tl"
proof -
  define u :: "64 word" where "u = word_of_int ms"
  have u: "unat u = nat ms"
    using ms by (simp add: u_def unat_eq_nat_uint uint_word_of_int)
  have "hex_encode (id_bytes b ms sq) = hexn 12 (nat ms) @ hexn 4 (0x7000 + unat sq) @
      concat (map hex_byte (((b ! 8 AND 0x3f) OR 0x80) # drop 9 b))"
    by (simp add: hex_encode_def id_bytes_def Let_def hex_byte_hexn unat_byte0 unat_shift u seq_high [OF sq] seq_low
        hexn_seq [OF sq] hexn_bytes6 flip: u_def)
  then show ?thesis
    by (simp add: id_text_def)
qed

lemma id_text_less:
  assumes "0 \<le> ms" and "ms' < 2 ^ 48" and "unat sq < 4096" "unat sq' < 4096"
    and "ms < ms' \<or> ms = ms' \<and> sq < sq'"
  shows "id_text (hex_encode (id_bytes b ms sq)) < id_text (hex_encode (id_bytes b' ms' sq'))"
proof -
  let ?H = "\<lambda>ms. hexn 12 (nat ms)" and ?S = "\<lambda>sq. hexn 4 (0x7000 + unat sq)"
  let ?f = "\<lambda>ms sq. take 8 (?H ms) @ ''-'' @ drop 8 (?H ms) @ ''-'' @ ?S sq"
  have "?f ms sq < ?f ms' sq'"
  proof (cases "ms < ms'")
    case True
    then have "?H ms < ?H ms'"
      using assms by (intro hexn_mono) auto
    then consider "take 8 (?H ms) < take 8 (?H ms')"
      | "take 8 (?H ms) = take 8 (?H ms')" "drop 8 (?H ms) < drop 8 (?H ms')"
      using append_less_cases [of "take 8 (?H ms)" "drop 8 (?H ms)" "take 8 (?H ms')" "drop 8 (?H ms')"] by auto
    then show ?thesis
      by cases (auto intro!: less_append_left less_append_right)
  next
    case False
    then have eq: "ms = ms'" and "unat sq < unat sq'"
      using assms by (auto simp: word_less_nat_alt)
    then have "?S sq < ?S sq'"
      using assms by (intro hexn_mono) auto
    then show ?thesis
      by (auto simp: eq intro!: less_append_left)
  qed
  then have "?f ms sq @ tl < ?f ms' sq' @ tl'" for tl tl'
    by (rule less_append_right) simp
  with id_text_eq [of ms sq b] id_text_eq [of ms' sq' b'] assms show ?thesis
    by fastforce
qed

subsection \<open>The generator\<close>

text \<open>Between two calls the clock and the random source are arbitrary; the package variables are not touched.\<close>

definition ids_ok :: "'z sys_scheme \<Rightarrow> bool" where
  "ids_ok w \<longleftrightarrow> 0 \<le> idLast w \<and> unat (idSeq w) < 4096"

definition stamp_less :: "'z sys_scheme \<Rightarrow> 'z sys_scheme \<Rightarrow> bool" where
  "stamp_less w w' \<longleftrightarrow> idLast w < idLast w' \<or> idLast w = idLast w' \<and> idSeq w < idSeq w'"

lemma start_seq_bound: "unat (push_bit 8 (ucast (x AND 7 :: 8 word)) OR ucast (y :: 8 word) :: 16 word) < 4096"
proof -
  let ?a = "push_bit 8 (ucast (x AND 7)) :: 16 word" and ?b = "ucast y :: 16 word"
  have 7: "uint (x AND 7) < 8"
    using AND_upper2 [of 7 "uint x"] by (simp add: unsigned_and_eq)
  have "uint ?a = take_bit 16 (push_bit 8 (take_bit 16 (uint (x AND 7))))"
    by (simp only: unsigned_push_bit_eq unsigned_ucast_eq) simp
  also have "\<dots> \<le> 2047"
    using 7 by (simp add: take_bit_eq_mod push_bit_int_def)
  finally have a: "uint ?a < 2 ^ 12" by simp
  have "uint ?b = take_bit 16 (uint y)"
    by (simp only: unsigned_ucast_eq) simp
  also have "\<dots> < 256"
    using unsigned_less [of y, where 'a = int] by (simp add: take_bit_eq_mod)
  finally have b: "uint ?b < 2 ^ 12" by simp
  have "uint (?a OR ?b) = uint ?a OR uint ?b"
    by (rule unsigned_or_eq)
  also have "\<dots> < 2 ^ 12"
    using a b by (intro OR_upper) auto
  finally have "uint (?a OR ?b) < 2 ^ 12" .
  then have "int (unat (?a OR ?b)) < int 4096" by simp
  then show ?thesis
    by (simp only: of_nat_less_iff)
qed
lemma NewID_run:
  assumes "run_state NewID w = (i, w')"
  shows "\<exists>b. i = id_text (hex_encode (id_bytes b (idLast w') (idSeq w')))"
  using assms
  by (auto simp: NewID_def read_rand_def next_stamp_def Let_def split: prod.splits if_splits)

lemma NewID_stamp:
  assumes "run_state NewID w = (i, w')" and "ids_ok w"
  shows "stamp_less w w'" and "ids_ok w'"
proof -
  let ?b = "map (rnd w) [0..<16]"
  from assms(1) have
    st: "next_stamp ?b (UnixMilli (wall w)) (idLast w) (idSeq w) = (idLast w', idLast w', idSeq w')"
    by (auto simp: NewID_def read_rand_def next_stamp_def Let_def split: prod.splits if_splits)
  have inc: "idSeq w < idSeq w + 1" and nat: "unat (idSeq w + 1) = Suc (unat (idSeq w))"
    using assms(2) by (auto simp: ids_ok_def word_less_nat_alt unat_plus_simple unat_word_ariths)
  show "stamp_less w w'"
    using st inc by (auto simp: stamp_less_def next_stamp_def Let_def split: if_splits)
  show "ids_ok w'"
    using st assms(2) start_seq_bound [of "?b ! 6" "?b ! 7"]
    by (auto simp: ids_ok_def next_stamp_def Let_def word_le_nat_alt split: if_splits)
qed

text \<open>Identifiers minted one after the other, each at a clock reading of its own.\<close>

primrec mint_all :: "gotime list \<Rightarrow> ('z sys_scheme, string list) state" where
  "mint_all [] = State_Monad.return []"
| "mint_all (t # ts) = do {
     State (\<lambda>w. ((), w\<lparr>wall := t\<rparr>));
     i \<leftarrow> NewID;
     is \<leftarrow> mint_all ts;
     State_Monad.return (i # is)
   }"

lemma stamp_less_trans: "stamp_less w w' \<Longrightarrow> stamp_less w' w'' \<Longrightarrow> stamp_less w w''"
  by (auto simp: stamp_less_def)

lemma stamp_less_id:
  assumes "stamp_less w w'" and "ids_ok w" and "ids_ok w'" and "idLast w' < 2 ^ 48"
  shows "id_text (hex_encode (id_bytes b (idLast w) (idSeq w))) < id_text (hex_encode (id_bytes b' (idLast w') (idSeq w')))"
  using assms by (intro id_text_less) (auto simp: stamp_less_def ids_ok_def)

lemma mint_all_bounds:
  assumes "run_state (mint_all ts) w = (is, w')" and "ids_ok w" and "idLast w' < 2 ^ 48"
  shows "ids_ok w' \<and> idLast w \<le> idLast w' \<and>
    (\<forall>i \<in> set is. \<forall>b. id_text (hex_encode (id_bytes b (idLast w) (idSeq w))) < i) \<and> sorted_wrt (<) is"
  using assms
proof (induction ts arbitrary: w "is")
  case Nil
  then show ?case by simp
next
  case (Cons t ts)
  from Cons.prems(1) obtain i w1 js where
    n: "run_state NewID (w\<lparr>wall := t\<rparr>) = (i, w1)" and m: "run_state (mint_all ts) w1 = (js, w')" and js: "is = i # js"
    by (auto split: prod.splits)
  have ok: "ids_ok (w\<lparr>wall := t\<rparr>)"
    using Cons.prems(2) by (simp add: ids_ok_def)
  note st = NewID_stamp [OF n ok]
  note IH = Cons.IH [OF m st(2) Cons.prems(3)]
  obtain b where i: "i = id_text (hex_encode (id_bytes b (idLast w1) (idSeq w1)))"
    using NewID_run [OF n] by blast
  have lt: "id_text (hex_encode (id_bytes b' (idLast w) (idSeq w))) < i" for b'
    using stamp_less_id [OF st(1) ok st(2), of b' b] IH Cons.prems(3) i by simp
  have tail: "\<forall>j \<in> set js. i < j"
    using IH i by blast
  have "idLast w \<le> idLast w1"
    using st(1) by (auto simp: stamp_less_def)
  with IH lt tail js show ?case
    by (auto intro: less_trans)
qed

end
