(* ===== verification/Models.thy ===== *)
theory Models
  imports Golib
begin

text \<open>
  \<^verbatim>\<open>internal/store/models.go\<close>: the domain rows, one record per struct with the fields of the source
  in their order (a prefix per struct keeps the selectors apart). Enumerations stored as text stay
  strings. \<^verbatim>\<open>*time.Time\<close> is an option, \<^verbatim>\<open>map[string]string\<close> a table, \<^verbatim>\<open>float64\<close> a real number (rounding,
  infinities and NaN are not modelled), \<^verbatim>\<open>int\<close> and \<^verbatim>\<open>int64\<close> counters are integers.
\<close>

section \<open>Enumerations\<close>

abbreviation AssetDeployable :: string where "AssetDeployable \<equiv> ''deployable''"
abbreviation AssetAssigned :: string where "AssetAssigned \<equiv> ''assigned''"
abbreviation AssetBroken :: string where "AssetBroken \<equiv> ''broken''"
abbreviation AssetArchived :: string where "AssetArchived \<equiv> ''archived''"
abbreviation ActionAssigned :: string where "ActionAssigned \<equiv> ''assigned''"
abbreviation ActionUnassigned :: string where "ActionUnassigned \<equiv> ''unassigned''"
abbreviation LocActive :: string where "LocActive \<equiv> ''active''"
abbreviation LocPlanned :: string where "LocPlanned \<equiv> ''planned''"
abbreviation LocDecommissioned :: string where "LocDecommissioned \<equiv> ''decommissioned''"
abbreviation SupActive :: string where "SupActive \<equiv> ''active''"
abbreviation SupInactive :: string where "SupInactive \<equiv> ''inactive''"
abbreviation LicActive :: string where "LicActive \<equiv> ''active''"
abbreviation LicExpired :: string where "LicExpired \<equiv> ''expired''"
abbreviation LicSuspended :: string where "LicSuspended \<equiv> ''suspended''"
abbreviation InsActive :: string where "InsActive \<equiv> ''active''"
abbreviation InsExpired :: string where "InsExpired \<equiv> ''expired''"
abbreviation InsCancelled :: string where "InsCancelled \<equiv> ''cancelled''"
abbreviation EntityAsset :: string where "EntityAsset \<equiv> ''asset''"
abbreviation EntityConsumable :: string where "EntityConsumable \<equiv> ''consumable''"
abbreviation EntityLicense :: string where "EntityLicense \<equiv> ''license''"

section \<open>Rows\<close>

record Asset =
  a_ID :: string
  a_TenantID :: string
  a_AssetTag :: string
  a_Name :: string
  a_Serial :: string
  a_ModelName :: string
  a_ModelNumber :: string
  a_CategoryID :: string
  a_SupplierID :: string
  a_LocationID :: string
  a_UserID :: string
  a_Status :: string
  a_PhotoKey :: string
  a_WarrantyMonths :: int
  a_PurchaseDate :: "gotime option"
  a_OrderNumber :: string
  a_PurchaseCost :: real
  a_Notes :: string
  a_SalvageValue :: real
  a_UsefulLifeYears :: int
  a_DepreciationRate :: real
  a_Tags :: "string tab"
  a_CreatedBy :: string
  a_UpdatedBy :: string
  a_CreatedAt :: gotime
  a_UpdatedAt :: gotime
  a_BookValue :: real

record Assignment =
  g_ID :: string
  g_TenantID :: string
  g_AssetID :: string
  g_AssetName :: string
  g_UserID :: string
  g_UserName :: string
  g_Action :: string
  g_AssignedAt :: gotime
  g_ReturnedAt :: "gotime option"
  g_AssignedBy :: string
  g_Notes :: string

record Document =
  d_ID :: string
  d_TenantID :: string
  d_EntityType :: string
  d_EntityID :: string
  d_FileName :: string
  d_FileSize :: int
  d_MimeType :: string
  d_StorageKey :: string
  d_Checksum :: string
  d_Description :: string
  d_UploadedBy :: string
  d_CreatedAt :: gotime
  d_PaperlessDocumentID :: string

definition PaperlessKeyPrefix :: string where
  "PaperlessKeyPrefix = ''paperless:''"

record InvSyncSettings =
  v_TenantID :: string
  v_ExcludeVMs :: bool
  v_ExcludeContainers :: bool
  v_SkipStale :: bool
  v_SkipRetired :: bool
  v_HostnameInclude :: "string list"
  v_HostnameExclude :: "string list"
  v_OSInclude :: "string list"
  v_OSExclude :: "string list"
  v_UpdatedBy :: string
  v_UpdatedAt :: gotime

record Category =
  c_ID :: string
  c_TenantID :: string
  c_Name :: string
  c_Description :: string
  c_ParentID :: string
  c_Icon :: string
  c_Tags :: "string tab"
  c_CreatedBy :: string
  c_CreatedAt :: gotime
  c_UpdatedAt :: gotime
  c_AssetCount :: int
  c_ChildCount :: int

record Supplier =
  s_ID :: string
  s_TenantID :: string
  s_Name :: string
  s_Code :: string
  s_Address :: string
  s_City :: string
  s_State :: string
  s_Country :: string
  s_PostalCode :: string
  s_ContactPerson :: string
  s_Telephone :: string
  s_Email :: string
  s_Website :: string
  s_Notes :: string
  s_Status :: string
  s_Tags :: "string tab"
  s_CreatedBy :: string
  s_CreatedAt :: gotime
  s_UpdatedAt :: gotime

record Location =
  l_ID :: string
  l_TenantID :: string
  l_Name :: string
  l_Code :: string
  l_Description :: string
  l_ParentID :: string
  l_Path :: string
  l_Address :: string
  l_City :: string
  l_State :: string
  l_Country :: string
  l_PostalCode :: string
  l_Contact :: string
  l_Phone :: string
  l_Email :: string
  l_Status :: string
  l_Tags :: "string tab"
  l_CreatedBy :: string
  l_CreatedAt :: gotime
  l_UpdatedAt :: gotime
  l_ChildCount :: int
  l_AssetCount :: int

record Consumable =
  n_ID :: string
  n_TenantID :: string
  n_Name :: string
  n_Description :: string
  n_CategoryID :: string
  n_SupplierID :: string
  n_LocationID :: string
  n_ModelName :: string
  n_ModelNumber :: string
  n_Amount :: int
  n_MinAmount :: int
  n_PurchaseDate :: "gotime option"
  n_PurchaseCost :: real
  n_OrderNumber :: string
  n_Notes :: string
  n_Tags :: "string tab"
  n_CreatedBy :: string
  n_CreatedAt :: gotime
  n_UpdatedAt :: gotime

record License =
  i_ID :: string
  i_TenantID :: string
  i_Name :: string
  i_SupplierID :: string
  i_PurchaseDate :: "gotime option"
  i_PurchaseCost :: real
  i_OrderNumber :: string
  i_ValidFrom :: "gotime option"
  i_ValidTo :: "gotime option"
  i_Notes :: string
  i_Status :: string
  i_Metadata :: "string tab"
  i_CreatedBy :: string
  i_CreatedAt :: gotime
  i_UpdatedAt :: gotime

record InsurancePolicy =
  p_ID :: string
  p_TenantID :: string
  p_Name :: string
  p_PolicyNumber :: string
  p_Provider :: string
  p_CoverageType :: string
  p_PremiumAmount :: real
  p_Deductible :: real
  p_CoverageLimit :: real
  p_ValidFrom :: "gotime option"
  p_ValidTo :: "gotime option"
  p_Status :: string
  p_Notes :: string
  p_Metadata :: "string tab"
  p_CreatedBy :: string
  p_CreatedAt :: gotime
  p_UpdatedAt :: gotime
  p_AssetCount :: int

record PolicyAsset =
  q_ID :: string
  q_TenantID :: string
  q_PolicyID :: string
  q_AssetID :: string
  q_CoveredValue :: real
  q_Notes :: string
  q_AssetTag :: string
  q_AssetName :: string
  q_ModelName :: string
  q_CreatedBy :: string
  q_CreatedAt :: gotime

record NotifyState =
  y_ID :: string
  y_TenantID :: string
  y_ConditionKey :: string
  y_LastNotifiedAt :: gotime
  y_LastState :: string

text \<open>
  \<^verbatim>\<open>any\<close> as it occurs in audit details and event payloads: strings, numbers, booleans, times, \<^verbatim>\<open>map[string]any\<close>
  (\<open>AMap\<close>), \<^verbatim>\<open>[]any\<close> (\<open>AList\<close>) and \<^verbatim>\<open>map[string]string\<close> (\<open>AStrMap\<close>), which a type switch tells apart.
\<close>

datatype any = AStr string | AInt int | ABool bool | ATime gotime | AMap "(string \<times> any) list" | AList "any list"
  | AStrMap "(string \<times> string) list"

record AuditRow =
  r_ID :: string
  r_TenantID :: string
  r_At :: gotime
  r_ActorKind :: string
  r_ActorID :: string
  r_Action :: string
  r_SubjectKind :: string
  r_SubjectID :: string
  r_Outcome :: string
  r_Reason :: string
  r_Detail :: "any tab"

section \<open>Filters\<close>

record AssetFilter =
  f_Status :: string
  f_CategoryID :: string
  f_SupplierID :: string
  f_LocationID :: string
  f_UserID :: string
  f_Query :: string
  f_Limit :: int
  f_CursorID :: string

record ListOpts =
  o_Query :: string
  o_Limit :: int
  o_CursorID :: string

section \<open>Zero values\<close>

text \<open>\<^verbatim>\<open>store.Asset{}\<close> and its siblings: what a composite literal leaves unset.\<close>

definition zero_asset :: Asset where
  "zero_asset = \<lparr>a_ID = [], a_TenantID = [], a_AssetTag = [], a_Name = [], a_Serial = [], a_ModelName = [],
     a_ModelNumber = [], a_CategoryID = [], a_SupplierID = [], a_LocationID = [], a_UserID = [], a_Status = [],
     a_PhotoKey = [], a_WarrantyMonths = 0, a_PurchaseDate = None, a_OrderNumber = [], a_PurchaseCost = 0,
     a_Notes = [], a_SalvageValue = 0, a_UsefulLifeYears = 0, a_DepreciationRate = 0, a_Tags = [],
     a_CreatedBy = [], a_UpdatedBy = [], a_CreatedAt = 0, a_UpdatedAt = 0, a_BookValue = 0\<rparr>"

definition zero_category :: Category where
  "zero_category = \<lparr>c_ID = [], c_TenantID = [], c_Name = [], c_Description = [], c_ParentID = [], c_Icon = [],
     c_Tags = [], c_CreatedBy = [], c_CreatedAt = 0, c_UpdatedAt = 0, c_AssetCount = 0, c_ChildCount = 0\<rparr>"

definition zero_supplier :: Supplier where
  "zero_supplier = \<lparr>s_ID = [], s_TenantID = [], s_Name = [], s_Code = [], s_Address = [], s_City = [],
     s_State = [], s_Country = [], s_PostalCode = [], s_ContactPerson = [], s_Telephone = [], s_Email = [],
     s_Website = [], s_Notes = [], s_Status = [], s_Tags = [], s_CreatedBy = [], s_CreatedAt = 0, s_UpdatedAt = 0\<rparr>"

definition zero_location :: Location where
  "zero_location = \<lparr>l_ID = [], l_TenantID = [], l_Name = [], l_Code = [], l_Description = [], l_ParentID = [],
     l_Path = [], l_Address = [], l_City = [], l_State = [], l_Country = [], l_PostalCode = [], l_Contact = [],
     l_Phone = [], l_Email = [], l_Status = [], l_Tags = [], l_CreatedBy = [], l_CreatedAt = 0, l_UpdatedAt = 0,
     l_ChildCount = 0, l_AssetCount = 0\<rparr>"

definition zero_consumable :: Consumable where
  "zero_consumable = \<lparr>n_ID = [], n_TenantID = [], n_Name = [], n_Description = [], n_CategoryID = [],
     n_SupplierID = [], n_LocationID = [], n_ModelName = [], n_ModelNumber = [], n_Amount = 0, n_MinAmount = 0,
     n_PurchaseDate = None, n_PurchaseCost = 0, n_OrderNumber = [], n_Notes = [], n_Tags = [], n_CreatedBy = [],
     n_CreatedAt = 0, n_UpdatedAt = 0\<rparr>"

definition zero_license :: License where
  "zero_license = \<lparr>i_ID = [], i_TenantID = [], i_Name = [], i_SupplierID = [], i_PurchaseDate = None,
     i_PurchaseCost = 0, i_OrderNumber = [], i_ValidFrom = None, i_ValidTo = None, i_Notes = [], i_Status = [],
     i_Metadata = [], i_CreatedBy = [], i_CreatedAt = 0, i_UpdatedAt = 0\<rparr>"

definition zero_insurance :: InsurancePolicy where
  "zero_insurance = \<lparr>p_ID = [], p_TenantID = [], p_Name = [], p_PolicyNumber = [], p_Provider = [],
     p_CoverageType = [], p_PremiumAmount = 0, p_Deductible = 0, p_CoverageLimit = 0, p_ValidFrom = None,
     p_ValidTo = None, p_Status = [], p_Notes = [], p_Metadata = [], p_CreatedBy = [], p_CreatedAt = 0,
     p_UpdatedAt = 0, p_AssetCount = 0\<rparr>"

definition zero_settings :: InvSyncSettings where
  "zero_settings = \<lparr>v_TenantID = [], v_ExcludeVMs = False, v_ExcludeContainers = False, v_SkipStale = False,
     v_SkipRetired = False, v_HostnameInclude = [], v_HostnameExclude = [], v_OSInclude = [], v_OSExclude = [],
     v_UpdatedBy = [], v_UpdatedAt = 0\<rparr>"

definition no_filter :: ListOpts where
  "no_filter = \<lparr>o_Query = [], o_Limit = 0, o_CursorID = []\<rparr>"

lemmas zero_defs = zero_asset_def zero_category_def zero_supplier_def zero_location_def zero_consumable_def
  zero_license_def zero_insurance_def zero_settings_def no_filter_def

end
