(* ===== verification/Deprec.thy ===== *)
theory Deprec
  imports Golib
begin

text \<open>
  \<^verbatim>\<open>internal/deprec/deprec.go\<close>: double-declining-balance depreciation. \<^verbatim>\<open>float64\<close> arithmetic is exact
  real arithmetic here; \<^verbatim>\<open>math.Pow\<close> is \<open>go_pow\<close>, which is 1 for the exponent 0 whatever the base.
\<close>

definition DefaultRate :: real where
  "DefaultRate = 2 / 5"

definition yearSeconds :: real where
  "yearSeconds = 365.25 * 24 * 3600"

definition go_pow :: "real \<Rightarrow> real \<Rightarrow> real" where
  "go_pow x y = (if y = 0 then 1 else x powr y)"

definition salvageFloor :: "real \<Rightarrow> real \<Rightarrow> real" where
  "salvageFloor salvage cost =
     (let flr = (if salvage < 0 then 0 else salvage) in if flr > cost then cost else flr)"

text \<open>The rate handling shared by \<^verbatim>\<open>BookValue\<close> and \<^verbatim>\<open>AnnualSchedule\<close>.\<close>

definition effectiveRate :: "real \<Rightarrow> real" where
  "effectiveRate rate = (let r = (if rate \<le> 0 then DefaultRate else rate) in if r > 1 then 1 else r)"

definition elapsedYears :: "gotime \<Rightarrow> gotime \<Rightarrow> real" where
  "elapsedYears purchaseDate now =
     (if now > purchaseDate then real_of_int (time_sub now purchaseDate) / 1000000000 / yearSeconds else 0)"

definition BookValue :: "real \<Rightarrow> real \<Rightarrow> int \<Rightarrow> real \<Rightarrow> gotime \<Rightarrow> gotime \<Rightarrow> real" where
  "BookValue cost salvage usefulLifeYears rate purchaseDate now =
     (if cost \<le> 0 \<or> usefulLifeYears \<le> 0 \<or> IsZero purchaseDate then cost
      else
        (let flr = salvageFloor salvage cost; years = elapsedYears purchaseDate now in
         if years \<ge> real_of_int usefulLifeYears then flr
         else
           (let v = cost * go_pow (1 - effectiveRate rate) years in
            if v < flr then flr else v)))"

text \<open>The loop of \<^verbatim>\<open>AnnualSchedule\<close>: the values of the next \<open>n\<close> years after value \<open>v\<close>.\<close>

primrec schedule_loop :: "real \<Rightarrow> real \<Rightarrow> nat \<Rightarrow> real \<Rightarrow> real list" where
  "schedule_loop flr rate 0 v = []"
| "schedule_loop flr rate (Suc n) v =
     (let v' = v * (1 - rate); v'' = (if v' < flr then flr else v') in v'' # schedule_loop flr rate n v'')"

definition AnnualSchedule :: "real \<Rightarrow> real \<Rightarrow> int \<Rightarrow> real \<Rightarrow> real list" where
  "AnnualSchedule cost salvage usefulLifeYears rate =
     (if usefulLifeYears \<le> 0 then []
      else
        (let flr = salvageFloor salvage cost; n = nat usefulLifeYears in
         (cost # schedule_loop flr (effectiveRate rate) n cost)[n := flr]))"

section \<open>Bounds\<close>

lemma effectiveRate_bounds: "0 < effectiveRate rate" "effectiveRate rate \<le> 1"
  by (auto simp: effectiveRate_def DefaultRate_def)

lemma salvageFloor_le: "salvageFloor salvage cost \<le> cost"
  by (auto simp: salvageFloor_def Let_def)

lemma salvageFloor_nonneg: "0 \<le> cost \<Longrightarrow> 0 \<le> salvageFloor salvage cost"
  by (auto simp: salvageFloor_def Let_def)

lemma elapsedYears_nonneg: "0 \<le> elapsedYears p n"
  by (auto simp: elapsedYears_def time_sub_def yearSeconds_def max_duration_def min_duration_def)

lemma elapsedYears_mono: "n \<le> n' \<Longrightarrow> elapsedYears p n \<le> elapsedYears p n'"
  by (auto simp: elapsedYears_def time_sub_def yearSeconds_def min_duration_def divide_right_mono max_duration_def)

lemma go_pow_le_one: "0 \<le> x \<Longrightarrow> x \<le> 1 \<Longrightarrow> 0 \<le> y \<Longrightarrow> go_pow x y \<le> 1"
  by (auto simp: go_pow_def powr_le1)

lemma go_pow_nonneg: "0 \<le> go_pow x y"
  by (auto simp: go_pow_def)

lemma go_pow_antimono:
  assumes "0 \<le> x" and "x \<le> 1" and "0 \<le> y" and "y \<le> z"
  shows "go_pow x z \<le> go_pow x y"
proof (cases "y = 0")
  case True
  then show ?thesis
    using assms go_pow_le_one [of x z] by (auto simp: go_pow_def)
next
  case False
  then show ?thesis
    using assms by (cases "x = 0") (auto simp: go_pow_def powr_mono')
qed

lemma depreciated_antimono:
  assumes "0 < cost" and "0 \<le> y" and "y \<le> z"
  shows "cost * go_pow (1 - effectiveRate rate) z \<le> cost * go_pow (1 - effectiveRate rate) y"
  using assms effectiveRate_bounds [of rate] by (intro mult_left_mono go_pow_antimono) auto

lemma schedule_loop_nth:
  assumes "0 \<le> flr" and "0 \<le> r" and "r \<le> 1" and "flr \<le> v" and "i < n"
  shows "schedule_loop flr r n v ! i = max flr (v * (1 - r) ^ Suc i)"
  using assms(4,5)
proof (induction n arbitrary: v i)
  case 0
  then show ?case by simp
next
  case (Suc n)
  let ?w = "max flr (v * (1 - r))"
  have step: "max flr (?w * (1 - r) ^ Suc j) = max flr (v * (1 - r) ^ Suc (Suc j))" for j
  proof (cases "v * (1 - r) < flr")
    case True
    have p: "0 \<le> (1 - r) ^ Suc j" "(1 - r) ^ Suc j \<le> 1"
      using assms(2,3) by (simp_all add: power_le_one del: power_Suc)
    have "flr * (1 - r) ^ Suc j \<le> flr"
      using assms(1) p by (simp add: mult_left_le del: power_Suc)
    moreover have "v * (1 - r) * (1 - r) ^ Suc j \<le> flr * (1 - r) ^ Suc j"
      using True p(1) by (intro mult_right_mono) auto
    ultimately have "max flr (flr * (1 - r) ^ Suc j) = flr" and "max flr (v * (1 - r) * (1 - r) ^ Suc j) = flr"
      by linarith+
    moreover have "?w = flr" and "v * (1 - r) ^ Suc (Suc j) = v * (1 - r) * (1 - r) ^ Suc j"
      using True by simp_all
    ultimately show ?thesis by metis
  next
    case False
    then show ?thesis by (simp add: max_def mult.assoc)
  qed
  have unfold: "schedule_loop flr r (Suc n) v = ?w # schedule_loop flr r n ?w"
    by (simp add: Let_def max_def)
  show ?case
  proof (cases i)
    case 0
    then show ?thesis by (simp only: unfold nth_Cons_0 power_Suc power_0 mult_1_right)
  next
    case (Suc j)
    have "schedule_loop flr r n ?w ! j = max flr (?w * (1 - r) ^ Suc j)"
      using Suc.IH [of ?w j] Suc.prems Suc by simp
    then show ?thesis
      using Suc step [of j] by (simp only: unfold nth_Cons_Suc)
  qed
qed

lemma length_schedule_loop [simp]: "length (schedule_loop flr r n v) = n"
  by (induction n arbitrary: v) (auto simp: Let_def)

lemma elapsedYears_exact:
  assumes "0 \<le> y" and "y \<le> 292"
  shows "elapsedYears p (p + y * 31557600000000000) = real_of_int y"
  using assms
  by (cases "y = 0") (auto simp: elapsedYears_def time_sub_def yearSeconds_def max_duration_def min_duration_def)

section \<open>What the library promises\<close>

text \<open>
  C8: the book value of a depreciable asset never leaves the band between the salvage floor and the
  purchase cost, and is never negative.
\<close>

theorem BookValue_bounds:
  assumes "0 < cost"
  shows "salvageFloor salvage cost \<le> BookValue cost salvage life rate p now
     \<and> BookValue cost salvage life rate p now \<le> cost
     \<and> 0 \<le> BookValue cost salvage life rate p now"
proof -
  have "cost * go_pow (1 - effectiveRate rate) (elapsedYears p now) \<le> cost * 1"
    using assms effectiveRate_bounds [of rate] elapsedYears_nonneg [of p now]
    by (intro mult_left_mono go_pow_le_one) auto
  then show ?thesis
    using assms salvageFloor_le [of salvage cost] salvageFloor_nonneg [of cost salvage]
    by (auto simp: BookValue_def Let_def)
qed

theorem BookValue_bounds_witness:
  "salvageFloor 100 1000 \<le> BookValue 1000 100 5 0 1 (1 + 63115200000000000)
     \<and> BookValue 1000 100 5 0 1 (1 + 63115200000000000) \<le> 1000
     \<and> 0 \<le> BookValue 1000 100 5 0 1 (1 + 63115200000000000)"
  by (rule BookValue_bounds) simp

text \<open>
  The book value never rises as time passes.
\<close>

theorem BookValue_antimono:
  assumes "now \<le> now'"
  shows "BookValue cost salvage life rate p now' \<le> BookValue cost salvage life rate p now"
proof (cases "cost \<le> 0 \<or> life \<le> 0 \<or> IsZero p")
  case True
  then show ?thesis by (auto simp: BookValue_def)
next
  case False
  have "elapsedYears p now \<le> elapsedYears p now'"
    using assms by (rule elapsedYears_mono)
  moreover define A B where "A = cost * go_pow (1 - effectiveRate rate) (elapsedYears p now')"
    and "B = cost * go_pow (1 - effectiveRate rate) (elapsedYears p now)"
  moreover have "A \<le> B"
    unfolding A_def B_def using False calculation(1) elapsedYears_nonneg [of p now]
    by (intro depreciated_antimono) auto
  ultimately show ?thesis
    using False by (auto simp: BookValue_def Let_def simp flip: A_def B_def)
qed

theorem BookValue_antimono_witness:
  "BookValue 1000 100 5 (1/2) 1 (1 + 63115200000000000) \<le> BookValue 1000 100 5 (1/2) 1 (1 + 31557600000000000)"
  by (rule BookValue_antimono) simp

text \<open>
  The two ways the library computes a depreciation agree: entry \<open>y\<close> of the annual schedule is
  the book value exactly \<open>y\<close> years after the purchase, up to the 292 years a
  \<^verbatim>\<open>time.Duration\<close> can hold.
\<close>

theorem AnnualSchedule_BookValue:
  assumes "0 < cost" and "0 \<le> y" and "y \<le> life" and "y \<le> 292" and "p \<noteq> 0" and "0 < life"
  shows "AnnualSchedule cost salvage life rate ! nat y
     = BookValue cost salvage life rate p (p + y * 31557600000000000)"
proof -
  let ?r = "effectiveRate rate" and ?f = "salvageFloor salvage cost"
  have f: "0 \<le> ?f" "?f \<le> cost"
    using assms(1) by (auto intro: salvageFloor_nonneg salvageFloor_le)
  have pow: "go_pow (1 - ?r) (real_of_int y) = (1 - ?r) ^ nat y"
    using assms(2) effectiveRate_bounds [of rate]
    by (auto simp: go_pow_def powr_real_of_int' power_int_def)
  have loop: "(cost # schedule_loop ?f ?r (nat life) cost) ! nat y = max ?f (cost * (1 - ?r) ^ nat y)"
    if "y < life"
  proof (cases "nat y")
    case 0
    then show ?thesis using f by simp
  next
    case (Suc i)
    then show ?thesis
      using schedule_loop_nth [of ?f ?r cost i "nat life"] f effectiveRate_bounds [of rate] that by simp
  qed
  define xs where "xs = cost # schedule_loop ?f ?r (nat life) cost"
  have sched: "AnnualSchedule cost salvage life rate ! nat y = (if y = life then ?f else xs ! nat y)"
  proof -
    have "AnnualSchedule cost salvage life rate = xs[nat life := ?f]" and "length xs = Suc (nat life)"
      using assms by (simp_all add: AnnualSchedule_def Let_def xs_def del: list_update.simps)
    with assms show ?thesis
      by (auto simp: nth_list_update eq_nat_nat_iff)
  qed
  show ?thesis
  proof (cases "y = life")
    case True
    then show ?thesis
      using assms sched elapsedYears_exact [of y p] by (simp add: BookValue_def IsZero_def Let_def)
  next
    case False
    then have "y < life" using assms by simp
    then show ?thesis
      using assms sched loop elapsedYears_exact [of y p] pow
      by (auto simp: xs_def BookValue_def IsZero_def Let_def max_def)
  qed
qed

theorem AnnualSchedule_BookValue_witness:
  "AnnualSchedule 1000 100 5 (1/2) ! nat 2 = BookValue 1000 100 5 (1/2) 1 (1 + 2 * 31557600000000000)"
  by (rule AnnualSchedule_BookValue) simp_all

end
