(* ===== verification/Authz.thy ===== *)
theory Authz
  imports Golib
begin

text \<open>
  \<^verbatim>\<open>internal/authz/authz.go\<close>: the access model, and the error values the services return. Each Go
  package declares its own sentinels with the same roles (\<^verbatim>\<open>assets.ErrNotFound\<close>,
  \<^verbatim>\<open>categories.ErrNotFound\<close>, ...); they share one datatype here, and a value belongs to the package whose
  operation returned it. \<open>StoreErr\<close> is a store error a service passes on unchanged.
\<close>

datatype repo_err = RNotFound | RConflict | RNotEmpty | RInjected string

datatype svc_err =
    Forbidden string
  | Validation string
  | NotFound
  | Conflict
  | InUse
  | StateRefused string
  | StoreErr repo_err
  | UserDirErr string
  | SealErr string
  | Unavailable string
  | SettingsInvalid string string

abbreviation ActorUser :: string where "ActorUser \<equiv> ''user''"
abbreviation ActorService :: string where "ActorService \<equiv> ''service''"
abbreviation ActorSystem :: string where "ActorSystem \<equiv> ''system''"
abbreviation RoleAdmin :: string where "RoleAdmin \<equiv> ''admin''"
abbreviation RoleOwner :: string where "RoleOwner \<equiv> ''owner''"
abbreviation RoleSystem :: string where "RoleSystem \<equiv> ''system''"
abbreviation RolePlatformAdmin :: string where "RolePlatformAdmin \<equiv> ''platform-admin''"

record Subjects =
  TenantID :: string
  UserID :: string
  Roles :: "string list"
  ActorKind :: string

fun role_loop :: "string list \<Rightarrow> string \<Rightarrow> bool" where
  "role_loop [] role = False"
| "role_loop (r # rs) role = (if r = role then True else role_loop rs role)"

definition hasRole :: "Subjects \<Rightarrow> string \<Rightarrow> bool" where
  "hasRole s role = role_loop (Roles s) role"

definition IsAdmin :: "Subjects \<Rightarrow> bool" where
  "IsAdmin s = (if ActorKind s = ActorSystem then True
     else hasRole s RoleAdmin \<or> hasRole s RoleOwner \<or> hasRole s RoleSystem)"

definition IsPlatformAdmin :: "Subjects \<Rightarrow> bool" where
  "IsPlatformAdmin s = (if ActorKind s = ActorSystem then True
     else hasRole s RolePlatformAdmin \<or> hasRole s RoleAdmin \<or> hasRole s RoleOwner \<or> hasRole s RoleSystem)"

definition ActorID :: "Subjects \<Rightarrow> string" where
  "ActorID s = (if UserID s \<noteq> [] then UserID s else ActorKind s)"

definition RequireAdmin :: "Subjects \<Rightarrow> svc_err + unit" where
  "RequireAdmin s = (if IsAdmin s then Inr () else Inl (Forbidden ''admin required''))"

definition RequirePlatformAdmin :: "Subjects \<Rightarrow> svc_err + unit" where
  "RequirePlatformAdmin s = (if IsPlatformAdmin s then Inr () else Inl (Forbidden ''platform-admin required''))"

definition RequireTenant :: "Subjects \<Rightarrow> string \<Rightarrow> svc_err + unit" where
  "RequireTenant s tenantID =
     (if tenantID = [] then Inl (Forbidden ''tenant required'')
      else if TenantID s = tenantID then Inr ()
      else if ActorKind s = ActorSystem then Inr ()
      else Inl (Forbidden ''tenant mismatch''))"

text \<open>\<^verbatim>\<open>if err := authz.RequireTenant(subj, subj.TenantID); err != nil { return err }\<close>\<close>

definition in_tenant :: "Subjects \<Rightarrow> ('s, svc_err, 'a) prog \<Rightarrow> ('s, svc_err, 'a) prog" where
  "in_tenant subj m = (case RequireTenant subj (TenantID subj) of Inl e \<Rightarrow> fail_with e | Inr _ \<Rightarrow> m)"

lemma role_loop_set [simp]: "role_loop rs role \<longleftrightarrow> role \<in> set rs"
  by (induction rs) auto

lemma hasRole_iff: "hasRole s role \<longleftrightarrow> role \<in> set (Roles s)"
  by (simp add: hasRole_def)

lemma RequireTenant_self: "RequireTenant s (TenantID s) = (if TenantID s = [] then Inl (Forbidden ''tenant required'') else Inr ())"
  by (simp add: RequireTenant_def)

lemma in_tenant_eq: "in_tenant subj m = (if TenantID subj = [] then fail_with (Forbidden ''tenant required'') else m)"
  by (simp add: in_tenant_def RequireTenant_self)

text \<open>
  Acting on a tenant needs a named tenant, and one other than the caller's own is reserved to
  the system scope.
\<close>

theorem RequireTenant_iff:
  "RequireTenant s t = Inr () \<longleftrightarrow> t \<noteq> [] \<and> (t = TenantID s \<or> ActorKind s = ActorSystem)"
  by (auto simp: RequireTenant_def)

text \<open>
  Every tenant super-user passes the platform-admin gate, so the gate admits a caller that
  holds no platform-wide role at all: the role \<^verbatim>\<open>owner\<close> or \<^verbatim>\<open>admin\<close> of any tenant is enough.
\<close>

theorem tenant_admin_is_platform_admin:
  "RequirePlatformAdmin s = Inr () \<longleftrightarrow> IsAdmin s \<or> RolePlatformAdmin \<in> set (Roles s)"
  by (auto simp: RequirePlatformAdmin_def IsPlatformAdmin_def IsAdmin_def hasRole_iff)

end
