(* ===== verification/Memstore.thy ===== *)
theory Memstore
  imports Ids Models Deprec Authz
begin

text \<open>
  \<^verbatim>\<open>internal/memstore\<close>, the \<^verbatim>\<open>repo.Store\<close> the services run on in tests and local development, and the
  reference for what the SQL store promises: its state, the error injection every method starts
  with, and the methods on assets, assignments and documents. \<open>Memstore_Refs\<close> and
  \<open>Memstore_Items\<close> hold the other methods.

  The mutex makes each method one atomic step, so a method is one state transition. \<open>Now\<close> reads the
  wall clock, which stands still during one operation.
\<close>

record mem = sys +
  assets :: "Asset tab"
  assignments :: "Assignment tab"
  documents :: "Document tab"
  invsync :: "InvSyncSettings tab"
  categories :: "Category tab"
  suppliers :: "Supplier tab"
  locations :: "Location tab"
  consumables :: "Consumable tab"
  licenses :: "License tab"
  insurance :: "InsurancePolicy tab"
  policyAssets :: "PolicyAsset tab"
  notify :: "NotifyState tab"
  audit :: "AuditRow list"
  failNext :: "string set"

type_synonym ('z, 'a) store_op = "('z mem_scheme, repo_err, 'a) prog"

text \<open>\<^verbatim>\<open>memstore.New\<close>: every table empty, nothing armed.\<close>

definition mem_new :: "'z mem_scheme \<Rightarrow> 'z mem_scheme" where
  "mem_new w = w\<lparr>assets := [], assignments := [], documents := [], invsync := [], categories := [], suppliers := [],
     locations := [], consumables := [], licenses := [], insurance := [], policyAssets := [], notify := [],
     audit := [], failNext := {}\<rparr>"

definition FailNext :: "string \<Rightarrow> ('z mem_scheme, unit) state" where
  "FailNext method = State (\<lambda>w. ((), w\<lparr>failNext := insert method (failNext w)\<rparr>))"

definition fail_method :: "string \<Rightarrow> ('z mem_scheme, repo_err option) state" where
  "fail_method method = State (\<lambda>w.
     if method \<in> failNext w then (Some (RInjected method), w\<lparr>failNext := failNext w - {method}\<rparr>) else (None, w))"

text \<open>\<^verbatim>\<open>if err := m.fail(method); err != nil { return err }\<close> and then the body.\<close>

definition guarded :: "string \<Rightarrow> ('z, 'a) store_op \<Rightarrow> ('z, 'a) store_op" where
  "guarded method m = do {
     e \<leftarrow> fail_method method;
     case e of Some err \<Rightarrow> fail_with err | None \<Rightarrow> m
   }"

text \<open>\<^verbatim>\<open>if x.ID == "" { x.ID = store.NewID() }\<close>\<close>

definition fresh_id :: "string \<Rightarrow> ('z sys_scheme, string) state" where
  "fresh_id i = (if i = [] then NewID else State_Monad.return i)"

text \<open>\<^verbatim>\<open>if t.IsZero() { t = now }\<close>\<close>

definition default_time :: "gotime \<Rightarrow> gotime \<Rightarrow> gotime" where
  "default_time t now = (if IsZero t then now else t)"

definition default_text :: "string \<Rightarrow> string \<Rightarrow> string" where
  "default_text s d = (if s = [] then d else s)"

definition paginate :: "('a \<Rightarrow> string) \<Rightarrow> string \<Rightarrow> int \<Rightarrow> 'a list \<Rightarrow> 'a list" where
  "paginate idf cursor limit items =
     (let sorted = rev (sort_key idf items);
          kept = (if cursor \<noteq> [] then filter (\<lambda>it. idf it < cursor) sorted else sorted)
      in if limit > 0 \<and> int (length kept) > limit then take (nat limit) kept else kept)"

definition count_where :: "('v \<Rightarrow> bool) \<Rightarrow> 'v tab \<Rightarrow> int" where
  "count_where p m = int (length (filter p (vals m)))"

text \<open>A counting method: the rows of a table that satisfy a test.\<close>

definition counting :: "string \<Rightarrow> ('z mem_scheme \<Rightarrow> 'v tab) \<Rightarrow> ('v \<Rightarrow> bool) \<Rightarrow> ('z, int) store_op" where
  "counting method tab p = guarded method (do { w \<leftarrow> State_Monad.get; ok (count_where p (tab w)) })"

section \<open>Assets\<close>

definition mem_bookValue :: "Asset \<Rightarrow> gotime \<Rightarrow> real" where
  "mem_bookValue a when =
     (let pd = (case a_PurchaseDate a of None \<Rightarrow> 0 | Some d \<Rightarrow> d)
      in BookValue (a_PurchaseCost a) (a_SalvageValue a) (a_UsefulLifeYears a) (a_DepreciationRate a) pd when)"

definition fillAsset :: "gotime \<Rightarrow> Asset \<Rightarrow> Asset" where
  "fillAsset now a = a\<lparr>a_BookValue := mem_bookValue a now\<rparr>"

definition autoTag :: "('z sys_scheme, string) state" where
  "autoTag = do { i \<leftarrow> NewID; State_Monad.return (''AST-'' @ ToUpper_ascii (take 6 i)) }"

definition asset_tag_taken :: "Asset \<Rightarrow> Asset tab \<Rightarrow> bool" where
  "asset_tag_taken a m = list_ex (\<lambda>ex. a_TenantID ex = a_TenantID a \<and> a_AssetTag ex = a_AssetTag a) (vals m)"

definition CreateAsset :: "Asset \<Rightarrow> ('z, unit) store_op" where
  "CreateAsset a0 = guarded ''CreateAsset'' (do {
     tag \<leftarrow> (if a_AssetTag a0 = [] then autoTag else State_Monad.return (a_AssetTag a0));
     let a1 = a0\<lparr>a_AssetTag := tag\<rparr>;
     w \<leftarrow> State_Monad.get;
     if asset_tag_taken a1 (assets w) then fail_with RConflict
     else do {
       i \<leftarrow> fresh_id (a_ID a1);
       w' \<leftarrow> State_Monad.get;
       if map_of (assets w') i \<noteq> None then fail_with RConflict
       else do {
         let a = a1\<lparr>a_ID := i, a_Status := default_text (a_Status a1) AssetDeployable,
           a_DepreciationRate := (if a_DepreciationRate a1 = 0 then 2 / 5 else a_DepreciationRate a1),
           a_CreatedAt := default_time (a_CreatedAt a1) (wall w'), a_UpdatedAt := wall w'\<rparr>;
         State_Monad.update (\<lambda>w. w\<lparr>assets := AList.update i a (assets w)\<rparr>);
         ok ()
       }
     }
   })"

definition GetAsset :: "string \<Rightarrow> string \<Rightarrow> ('z, Asset) store_op" where
  "GetAsset tenantID i = guarded ''GetAsset'' (do {
     w \<leftarrow> State_Monad.get;
     case map_of (assets w) i of
       None \<Rightarrow> fail_with RNotFound
     | Some a \<Rightarrow> if a_TenantID a \<noteq> tenantID then fail_with RNotFound else ok (fillAsset (wall w) a)
   })"

definition FindAssetByTag :: "string \<Rightarrow> string \<Rightarrow> ('z, Asset) store_op" where
  "FindAssetByTag tenantID tag = guarded ''FindAssetByTag'' (do {
     w \<leftarrow> State_Monad.get;
     case find (\<lambda>a. a_TenantID a = tenantID \<and> a_AssetTag a = tag) (vals (assets w)) of
       None \<Rightarrow> fail_with RNotFound
     | Some a \<Rightarrow> ok (fillAsset (wall w) a)
   })"

definition FindAssetBySerial :: "string \<Rightarrow> string \<Rightarrow> ('z, Asset) store_op" where
  "FindAssetBySerial tenantID serial = guarded ''FindAssetBySerial'' (do {
     w \<leftarrow> State_Monad.get;
     case find (\<lambda>a. a_TenantID a = tenantID \<and> a_Serial a \<noteq> [] \<and> a_Serial a = serial) (vals (assets w)) of
       None \<Rightarrow> fail_with RNotFound
     | Some a \<Rightarrow> ok (fillAsset (wall w) a)
   })"

text \<open>\<^verbatim>\<open>contains(v, q)\<close>: \<open>q\<close> is already lower-cased by the caller.\<close>

definition contains_fold :: "(string \<Rightarrow> string) \<Rightarrow> string \<Rightarrow> string \<Rightarrow> bool" where
  "contains_fold uni v q = Contains (ToLower uni v) q"

definition matchAssets :: "(string \<Rightarrow> string) \<Rightarrow> Asset tab \<Rightarrow> string \<Rightarrow> AssetFilter \<Rightarrow> Asset list" where
  "matchAssets uni m tenantID f =
     (let q = ToLower uni (f_Query f) in
      filter (\<lambda>a. \<not> (a_TenantID a \<noteq> tenantID
        \<or> (f_Status f \<noteq> [] \<and> a_Status a \<noteq> f_Status f)
        \<or> (f_CategoryID f \<noteq> [] \<and> a_CategoryID a \<noteq> f_CategoryID f)
        \<or> (f_SupplierID f \<noteq> [] \<and> a_SupplierID a \<noteq> f_SupplierID f)
        \<or> (f_LocationID f \<noteq> [] \<and> a_LocationID a \<noteq> f_LocationID f)
        \<or> (f_UserID f \<noteq> [] \<and> a_UserID a \<noteq> f_UserID f)
        \<or> (q \<noteq> [] \<and> \<not> contains_fold uni (a_AssetTag a) q \<and> \<not> contains_fold uni (a_Name a) q
             \<and> \<not> contains_fold uni (a_Serial a) q \<and> \<not> contains_fold uni (a_ModelName a) q))) (vals m))"

definition ListAssets :: "(string \<Rightarrow> string) \<Rightarrow> string \<Rightarrow> AssetFilter \<Rightarrow> ('z, Asset list) store_op" where
  "ListAssets uni tenantID f = guarded ''ListAssets'' (do {
     w \<leftarrow> State_Monad.get;
     let out = paginate a_ID (f_CursorID f) (f_Limit f) (matchAssets uni (assets w) tenantID f);
     ok (map (fillAsset (wall w)) out)
   })"

definition UpdateAsset :: "Asset \<Rightarrow> ('z, unit) store_op" where
  "UpdateAsset a0 = guarded ''UpdateAsset'' (do {
     w \<leftarrow> State_Monad.get;
     case map_of (assets w) (a_ID a0) of
       None \<Rightarrow> fail_with RNotFound
     | Some ex \<Rightarrow>
         if a_TenantID ex \<noteq> a_TenantID a0 then fail_with RNotFound
         else do {
           let a1 = a0\<lparr>a_AssetTag := default_text (a_AssetTag a0) (a_AssetTag ex)\<rparr>;
           if list_ex (\<lambda>other. a_ID other \<noteq> a_ID a1 \<and> a_TenantID other = a_TenantID a1 \<and> a_AssetTag other = a_AssetTag a1)
                (vals (assets w))
           then fail_with RConflict
           else do {
             let a = a1\<lparr>a_DepreciationRate := (if a_DepreciationRate a1 = 0 then 2 / 5 else a_DepreciationRate a1),
               a_CreatedAt := a_CreatedAt ex, a_UpdatedAt := wall w\<rparr>;
             State_Monad.update (\<lambda>w. w\<lparr>assets := AList.update (a_ID a) a (assets w)\<rparr>);
             ok ()
           }
         }
   })"

definition DeleteAsset :: "string \<Rightarrow> string \<Rightarrow> ('z, unit) store_op" where
  "DeleteAsset tenantID i = guarded ''DeleteAsset'' (do {
     w \<leftarrow> State_Monad.get;
     case map_of (assets w) i of
       None \<Rightarrow> fail_with RNotFound
     | Some a \<Rightarrow>
         if a_TenantID a \<noteq> tenantID then fail_with RNotFound
         else do {
           State_Monad.update (\<lambda>w. w\<lparr>
             assignments := delete_where (\<lambda>g. g_TenantID g = tenantID \<and> g_AssetID g = i) (assignments w),
             documents := delete_where (\<lambda>d. d_TenantID d = tenantID \<and> d_EntityType d = EntityAsset \<and> d_EntityID d = i) (documents w),
             policyAssets := delete_where (\<lambda>q. q_TenantID q = tenantID \<and> q_AssetID q = i) (policyAssets w),
             assets := AList.delete i (assets w)\<rparr>);
           ok ()
         }
   })"

definition CountAssetsByCategory :: "string \<Rightarrow> string \<Rightarrow> ('z, int) store_op" where
  "CountAssetsByCategory tenantID categoryID =
     counting ''CountAssetsByCategory'' assets (\<lambda>a. a_TenantID a = tenantID \<and> a_CategoryID a = categoryID)"

definition CountAssetsBySupplier :: "string \<Rightarrow> string \<Rightarrow> ('z, int) store_op" where
  "CountAssetsBySupplier tenantID supplierID =
     counting ''CountAssetsBySupplier'' assets (\<lambda>a. a_TenantID a = tenantID \<and> a_SupplierID a = supplierID)"

definition CountAssetsByLocation :: "string \<Rightarrow> string \<Rightarrow> ('z, int) store_op" where
  "CountAssetsByLocation tenantID locationID =
     counting ''CountAssetsByLocation'' assets (\<lambda>a. a_TenantID a = tenantID \<and> a_LocationID a = locationID)"

definition AllAssets :: "string \<Rightarrow> ('z, Asset list) store_op" where
  "AllAssets tenantID = guarded ''AllAssets'' (do {
     w \<leftarrow> State_Monad.get;
     let out = paginate a_ID [] 0 (filter (\<lambda>a. a_TenantID a = tenantID) (vals (assets w)));
     ok (map (fillAsset (wall w)) out)
   })"

section \<open>Assignments\<close>

definition InsertAssignment :: "Assignment \<Rightarrow> ('z, unit) store_op" where
  "InsertAssignment g0 = guarded ''InsertAssignment'' (do {
     i \<leftarrow> fresh_id (g_ID g0);
     w \<leftarrow> State_Monad.get;
     if map_of (assignments w) i \<noteq> None then fail_with RConflict
     else do {
       let g = g0\<lparr>g_ID := i, g_Action := default_text (g_Action g0) ActionAssigned,
         g_AssignedAt := default_time (g_AssignedAt g0) (wall w)\<rparr>;
       State_Monad.update (\<lambda>w. w\<lparr>assignments := AList.update i g (assignments w)\<rparr>);
       ok ()
     }
   })"

definition CloseActiveAssignment :: "string \<Rightarrow> string \<Rightarrow> gotime \<Rightarrow> ('z, unit) store_op" where
  "CloseActiveAssignment tenantID assetID at0 = guarded ''CloseActiveAssignment'' (do {
     w \<leftarrow> State_Monad.get;
     let closed = default_time at0 (wall w);
     State_Monad.update (\<lambda>w. w\<lparr>assignments :=
       update_where (\<lambda>g. g_TenantID g = tenantID \<and> g_AssetID g = assetID \<and> g_ReturnedAt g = None)
         (\<lambda>g. g\<lparr>g_ReturnedAt := Some closed\<rparr>) (assignments w)\<rparr>);
     ok ()
   })"

text \<open>Newest first: by assignment time, then by id.\<close>

definition ListAssignments :: "string \<Rightarrow> string \<Rightarrow> int \<Rightarrow> ('z, Assignment list) store_op" where
  "ListAssignments tenantID assetID limit = guarded ''ListAssignments'' (do {
     w \<leftarrow> State_Monad.get;
     let rows = filter (\<lambda>g. g_TenantID g = tenantID \<and> g_AssetID g = assetID) (vals (assignments w));
     let out = rev (sort_key g_AssignedAt (sort_key g_ID rows));
     ok (if limit > 0 \<and> int (length out) > limit then take (nat limit) out else out)
   })"

section \<open>Documents\<close>

definition InsertDocument :: "Document \<Rightarrow> ('z, unit) store_op" where
  "InsertDocument d0 = guarded ''InsertDocument'' (do {
     w \<leftarrow> State_Monad.get;
     if list_ex (\<lambda>ex. d_StorageKey ex = d_StorageKey d0) (vals (documents w)) then fail_with RConflict
     else do {
       i \<leftarrow> fresh_id (d_ID d0);
       w' \<leftarrow> State_Monad.get;
       if map_of (documents w') i \<noteq> None then fail_with RConflict
       else do {
         let d = d0\<lparr>d_ID := i, d_CreatedAt := default_time (d_CreatedAt d0) (wall w')\<rparr>;
         State_Monad.update (\<lambda>w. w\<lparr>documents := AList.update i d (documents w)\<rparr>);
         ok ()
       }
     }
   })"

definition GetDocument :: "string \<Rightarrow> string \<Rightarrow> ('z, Document) store_op" where
  "GetDocument tenantID i = guarded ''GetDocument'' (do {
     w \<leftarrow> State_Monad.get;
     case map_of (documents w) i of
       None \<Rightarrow> fail_with RNotFound
     | Some d \<Rightarrow> if d_TenantID d \<noteq> tenantID then fail_with RNotFound else ok d
   })"

definition ListDocuments :: "string \<Rightarrow> string \<Rightarrow> string \<Rightarrow> ('z, Document list) store_op" where
  "ListDocuments tenantID entityType entityID = guarded ''ListDocuments'' (do {
     w \<leftarrow> State_Monad.get;
     ok (paginate d_ID [] 0 (filter (\<lambda>d. d_TenantID d = tenantID \<and> d_EntityType d = entityType \<and> d_EntityID d = entityID)
       (vals (documents w))))
   })"

definition DeleteDocument :: "string \<Rightarrow> string \<Rightarrow> ('z, unit) store_op" where
  "DeleteDocument tenantID i = guarded ''DeleteDocument'' (do {
     w \<leftarrow> State_Monad.get;
     case map_of (documents w) i of
       None \<Rightarrow> fail_with RNotFound
     | Some d \<Rightarrow>
         if d_TenantID d \<noteq> tenantID then fail_with RNotFound
         else do {
           State_Monad.update (\<lambda>w. w\<lparr>documents := AList.delete i (documents w)\<rparr>);
           ok ()
         }
   })"

definition ListDocumentsByPaperlessIDs :: "string \<Rightarrow> string list \<Rightarrow> ('z, Document list) store_op" where
  "ListDocumentsByPaperlessIDs tenantID ids = guarded ''ListDocumentsByPaperlessIDs'' (do {
     w \<leftarrow> State_Monad.get;
     ok (filter (\<lambda>d. d_TenantID d = tenantID \<and> d_PaperlessDocumentID d \<noteq> [] \<and> d_PaperlessDocumentID d \<in> set ids)
       (vals (documents w)))
   })"

definition ListUnmigratedDocuments :: "int \<Rightarrow> ('z, Document list) store_op" where
  "ListUnmigratedDocuments limit0 = guarded ''ListUnmigratedDocuments'' (do {
     w \<leftarrow> State_Monad.get;
     let limit = (if limit0 \<le> 0 \<or> limit0 > 1000 then 100 else limit0);
     let out = sort_key d_ID (filter (\<lambda>d. d_PaperlessDocumentID d = [] \<and> prefix ''tenants/'' (d_StorageKey d)) (vals (documents w)));
     ok (if int (length out) > limit then take (nat limit) out else out)
   })"

definition MoveDocumentToPaperless :: "string \<Rightarrow> string \<Rightarrow> string \<Rightarrow> ('z, unit) store_op" where
  "MoveDocumentToPaperless tenantID i paperlessID = guarded ''MoveDocumentToPaperless'' (do {
     w \<leftarrow> State_Monad.get;
     case map_of (documents w) i of
       None \<Rightarrow> fail_with RNotFound
     | Some d \<Rightarrow>
         if d_TenantID d \<noteq> tenantID then fail_with RNotFound
         else do {
           State_Monad.update (\<lambda>w. w\<lparr>documents := AList.update i
             (d\<lparr>d_PaperlessDocumentID := paperlessID, d_StorageKey := PaperlessKeyPrefix @ paperlessID\<rparr>) (documents w)\<rparr>);
           ok ()
         }
   })"

section \<open>Inventory-sync settings\<close>

definition GetInvSyncSettings :: "string \<Rightarrow> ('z, InvSyncSettings \<times> bool) store_op" where
  "GetInvSyncSettings tenantID = guarded ''GetInvSyncSettings'' (do {
     w \<leftarrow> State_Monad.get;
     case map_of (invsync w) tenantID of
       None \<Rightarrow> ok (zero_settings\<lparr>v_TenantID := tenantID\<rparr>, False)
     | Some s \<Rightarrow> ok (s, True)
   })"

definition PutInvSyncSettings :: "InvSyncSettings \<Rightarrow> ('z, unit) store_op" where
  "PutInvSyncSettings s = guarded ''PutInvSyncSettings'' (do {
     State_Monad.update (\<lambda>w. w\<lparr>invsync := AList.update (v_TenantID s) s (invsync w)\<rparr>);
     ok ()
   })"

end
