(* ===== verification/Memstore_Refs.thy ===== *)
theory Memstore_Refs
  imports Memstore
begin

text \<open>
  \<^verbatim>\<open>internal/memstore/memstore.go\<close>, continued: the reference data. Categories and locations are trees
  with computed counts and a delete guard; suppliers are unlinked from the rows that mention them.
\<close>

section \<open>Categories\<close>

definition fillCategory :: "'z mem_scheme \<Rightarrow> Category \<Rightarrow> Category" where
  "fillCategory w c = c\<lparr>
     c_AssetCount := count_where (\<lambda>a. a_TenantID a = c_TenantID c \<and> a_CategoryID a = c_ID c) (assets w),
     c_ChildCount := count_where (\<lambda>other. c_TenantID other = c_TenantID c \<and> c_ParentID other = c_ID c) (categories w)\<rparr>"

definition CreateCategory :: "Category \<Rightarrow> ('z, unit) store_op" where
  "CreateCategory c0 = guarded ''CreateCategory'' (do {
     w \<leftarrow> State_Monad.get;
     if list_ex (\<lambda>ex. c_TenantID ex = c_TenantID c0 \<and> c_Name ex = c_Name c0 \<and> c_ParentID ex = c_ParentID c0) (vals (categories w))
     then fail_with RConflict
     else do {
       i \<leftarrow> fresh_id (c_ID c0);
       w' \<leftarrow> State_Monad.get;
       if map_of (categories w') i \<noteq> None then fail_with RConflict
       else do {
         let c = c0\<lparr>c_ID := i, c_CreatedAt := default_time (c_CreatedAt c0) (wall w'), c_UpdatedAt := wall w'\<rparr>;
         State_Monad.update (\<lambda>w. w\<lparr>categories := AList.update i c (categories w)\<rparr>);
         ok ()
       }
     }
   })"

definition GetCategory :: "string \<Rightarrow> string \<Rightarrow> ('z, Category) store_op" where
  "GetCategory tenantID i = guarded ''GetCategory'' (do {
     w \<leftarrow> State_Monad.get;
     case map_of (categories w) i of
       None \<Rightarrow> fail_with RNotFound
     | Some c \<Rightarrow> if c_TenantID c \<noteq> tenantID then fail_with RNotFound else ok (fillCategory w c)
   })"

definition ListCategories :: "string \<Rightarrow> ('z, Category list) store_op" where
  "ListCategories tenantID = guarded ''ListCategories'' (do {
     w \<leftarrow> State_Monad.get;
     let out = paginate c_ID [] 0 (filter (\<lambda>c. c_TenantID c = tenantID) (vals (categories w)));
     ok (map (fillCategory w) out)
   })"

definition UpdateCategory :: "Category \<Rightarrow> ('z, unit) store_op" where
  "UpdateCategory c0 = guarded ''UpdateCategory'' (do {
     w \<leftarrow> State_Monad.get;
     case map_of (categories w) (c_ID c0) of
       None \<Rightarrow> fail_with RNotFound
     | Some ex \<Rightarrow>
         if c_TenantID ex \<noteq> c_TenantID c0 then fail_with RNotFound
         else if list_ex (\<lambda>other. c_ID other \<noteq> c_ID c0 \<and> c_TenantID other = c_TenantID c0 \<and> c_Name other = c_Name c0
                \<and> c_ParentID other = c_ParentID c0) (vals (categories w))
         then fail_with RConflict
         else do {
           let c = c0\<lparr>c_CreatedAt := c_CreatedAt ex, c_UpdatedAt := wall w\<rparr>;
           State_Monad.update (\<lambda>w. w\<lparr>categories := AList.update (c_ID c) c (categories w)\<rparr>);
           ok ()
         }
   })"

definition DeleteCategory :: "string \<Rightarrow> string \<Rightarrow> ('z, unit) store_op" where
  "DeleteCategory tenantID i = guarded ''DeleteCategory'' (do {
     w \<leftarrow> State_Monad.get;
     case map_of (categories w) i of
       None \<Rightarrow> fail_with RNotFound
     | Some c \<Rightarrow>
         if c_TenantID c \<noteq> tenantID then fail_with RNotFound
         else if list_ex (\<lambda>other. c_TenantID other = tenantID \<and> c_ParentID other = i) (vals (categories w)) then fail_with RNotEmpty
         else if list_ex (\<lambda>a. a_TenantID a = tenantID \<and> a_CategoryID a = i) (vals (assets w)) then fail_with RNotEmpty
         else do {
           State_Monad.update (\<lambda>w. w\<lparr>
             consumables := update_where (\<lambda>n. n_TenantID n = tenantID \<and> n_CategoryID n = i) (\<lambda>n. n\<lparr>n_CategoryID := []\<rparr>) (consumables w),
             categories := AList.delete i (categories w)\<rparr>);
           ok ()
         }
   })"

definition CountChildCategories :: "string \<Rightarrow> string \<Rightarrow> ('z, int) store_op" where
  "CountChildCategories tenantID i =
     counting ''CountChildCategories'' categories (\<lambda>c. c_TenantID c = tenantID \<and> c_ParentID c = i)"

section \<open>Suppliers\<close>

definition CreateSupplier :: "Supplier \<Rightarrow> ('z, unit) store_op" where
  "CreateSupplier s0 = guarded ''CreateSupplier'' (do {
     w \<leftarrow> State_Monad.get;
     if list_ex (\<lambda>ex. s_TenantID ex = s_TenantID s0 \<and> s_Name ex = s_Name s0) (vals (suppliers w)) then fail_with RConflict
     else do {
       i \<leftarrow> fresh_id (s_ID s0);
       w' \<leftarrow> State_Monad.get;
       if map_of (suppliers w') i \<noteq> None then fail_with RConflict
       else do {
         let s = s0\<lparr>s_ID := i, s_Status := default_text (s_Status s0) SupActive,
           s_CreatedAt := default_time (s_CreatedAt s0) (wall w'), s_UpdatedAt := wall w'\<rparr>;
         State_Monad.update (\<lambda>w. w\<lparr>suppliers := AList.update i s (suppliers w)\<rparr>);
         ok ()
       }
     }
   })"

definition GetSupplier :: "string \<Rightarrow> string \<Rightarrow> ('z, Supplier) store_op" where
  "GetSupplier tenantID i = guarded ''GetSupplier'' (do {
     w \<leftarrow> State_Monad.get;
     case map_of (suppliers w) i of
       None \<Rightarrow> fail_with RNotFound
     | Some s \<Rightarrow> if s_TenantID s \<noteq> tenantID then fail_with RNotFound else ok s
   })"

definition matchSuppliers :: "(string \<Rightarrow> string) \<Rightarrow> Supplier tab \<Rightarrow> string \<Rightarrow> string \<Rightarrow> Supplier list" where
  "matchSuppliers uni m tenantID query =
     (let q = ToLower uni query in
      filter (\<lambda>s. s_TenantID s = tenantID \<and> (q = [] \<or> contains_fold uni (s_Name s) q \<or> contains_fold uni (s_Code s) q)) (vals m))"

definition ListSuppliers :: "(string \<Rightarrow> string) \<Rightarrow> string \<Rightarrow> ListOpts \<Rightarrow> ('z, Supplier list) store_op" where
  "ListSuppliers uni tenantID f = guarded ''ListSuppliers'' (do {
     w \<leftarrow> State_Monad.get;
     ok (paginate s_ID (o_CursorID f) (o_Limit f) (matchSuppliers uni (suppliers w) tenantID (o_Query f)))
   })"

definition UpdateSupplier :: "Supplier \<Rightarrow> ('z, unit) store_op" where
  "UpdateSupplier s0 = guarded ''UpdateSupplier'' (do {
     w \<leftarrow> State_Monad.get;
     case map_of (suppliers w) (s_ID s0) of
       None \<Rightarrow> fail_with RNotFound
     | Some ex \<Rightarrow>
         if s_TenantID ex \<noteq> s_TenantID s0 then fail_with RNotFound
         else if list_ex (\<lambda>other. s_ID other \<noteq> s_ID s0 \<and> s_TenantID other = s_TenantID s0 \<and> s_Name other = s_Name s0) (vals (suppliers w))
         then fail_with RConflict
         else do {
           let s = s0\<lparr>s_CreatedAt := s_CreatedAt ex, s_UpdatedAt := wall w\<rparr>;
           State_Monad.update (\<lambda>w. w\<lparr>suppliers := AList.update (s_ID s) s (suppliers w)\<rparr>);
           ok ()
         }
   })"

definition DeleteSupplier :: "string \<Rightarrow> string \<Rightarrow> ('z, unit) store_op" where
  "DeleteSupplier tenantID i = guarded ''DeleteSupplier'' (do {
     w \<leftarrow> State_Monad.get;
     case map_of (suppliers w) i of
       None \<Rightarrow> fail_with RNotFound
     | Some s \<Rightarrow>
         if s_TenantID s \<noteq> tenantID then fail_with RNotFound
         else do {
           State_Monad.update (\<lambda>w. w\<lparr>
             assets := update_where (\<lambda>a. a_TenantID a = tenantID \<and> a_SupplierID a = i) (\<lambda>a. a\<lparr>a_SupplierID := []\<rparr>) (assets w),
             consumables := update_where (\<lambda>n. n_TenantID n = tenantID \<and> n_SupplierID n = i) (\<lambda>n. n\<lparr>n_SupplierID := []\<rparr>) (consumables w),
             licenses := update_where (\<lambda>l. i_TenantID l = tenantID \<and> i_SupplierID l = i) (\<lambda>l. l\<lparr>i_SupplierID := []\<rparr>) (licenses w),
             suppliers := AList.delete i (suppliers w)\<rparr>);
           ok ()
         }
   })"

section \<open>Locations\<close>

definition fillLocation :: "'z mem_scheme \<Rightarrow> Location \<Rightarrow> Location" where
  "fillLocation w l = l\<lparr>
     l_ChildCount := count_where (\<lambda>other. l_TenantID other = l_TenantID l \<and> l_ParentID other = l_ID l) (locations w),
     l_AssetCount := count_where (\<lambda>a. a_TenantID a = l_TenantID l \<and> a_LocationID a = l_ID l) (assets w)\<rparr>"

definition CreateLocation :: "Location \<Rightarrow> ('z, unit) store_op" where
  "CreateLocation l0 = guarded ''CreateLocation'' (do {
     w \<leftarrow> State_Monad.get;
     if list_ex (\<lambda>ex. l_TenantID ex = l_TenantID l0 \<and> l_Name ex = l_Name l0) (vals (locations w)) then fail_with RConflict
     else do {
       i \<leftarrow> fresh_id (l_ID l0);
       w' \<leftarrow> State_Monad.get;
       if map_of (locations w') i \<noteq> None then fail_with RConflict
       else do {
         let l = l0\<lparr>l_ID := i, l_Status := default_text (l_Status l0) LocActive,
           l_CreatedAt := default_time (l_CreatedAt l0) (wall w'), l_UpdatedAt := wall w'\<rparr>;
         State_Monad.update (\<lambda>w. w\<lparr>locations := AList.update i l (locations w)\<rparr>);
         ok ()
       }
     }
   })"

definition GetLocation :: "string \<Rightarrow> string \<Rightarrow> ('z, Location) store_op" where
  "GetLocation tenantID i = guarded ''GetLocation'' (do {
     w \<leftarrow> State_Monad.get;
     case map_of (locations w) i of
       None \<Rightarrow> fail_with RNotFound
     | Some l \<Rightarrow> if l_TenantID l \<noteq> tenantID then fail_with RNotFound else ok (fillLocation w l)
   })"

definition ListLocations :: "string \<Rightarrow> ('z, Location list) store_op" where
  "ListLocations tenantID = guarded ''ListLocations'' (do {
     w \<leftarrow> State_Monad.get;
     let out = paginate l_ID [] 0 (filter (\<lambda>l. l_TenantID l = tenantID) (vals (locations w)));
     ok (map (fillLocation w) out)
   })"

definition UpdateLocation :: "Location \<Rightarrow> ('z, unit) store_op" where
  "UpdateLocation l0 = guarded ''UpdateLocation'' (do {
     w \<leftarrow> State_Monad.get;
     case map_of (locations w) (l_ID l0) of
       None \<Rightarrow> fail_with RNotFound
     | Some ex \<Rightarrow>
         if l_TenantID ex \<noteq> l_TenantID l0 then fail_with RNotFound
         else if list_ex (\<lambda>other. l_ID other \<noteq> l_ID l0 \<and> l_TenantID other = l_TenantID l0 \<and> l_Name other = l_Name l0) (vals (locations w))
         then fail_with RConflict
         else do {
           let l = l0\<lparr>l_CreatedAt := l_CreatedAt ex, l_UpdatedAt := wall w\<rparr>;
           State_Monad.update (\<lambda>w. w\<lparr>locations := AList.update (l_ID l) l (locations w)\<rparr>);
           ok ()
         }
   })"

definition DeleteLocation :: "string \<Rightarrow> string \<Rightarrow> ('z, unit) store_op" where
  "DeleteLocation tenantID i = guarded ''DeleteLocation'' (do {
     w \<leftarrow> State_Monad.get;
     case map_of (locations w) i of
       None \<Rightarrow> fail_with RNotFound
     | Some l \<Rightarrow>
         if l_TenantID l \<noteq> tenantID then fail_with RNotFound
         else if list_ex (\<lambda>other. l_TenantID other = tenantID \<and> l_ParentID other = i) (vals (locations w)) then fail_with RNotEmpty
         else if list_ex (\<lambda>a. a_TenantID a = tenantID \<and> a_LocationID a = i) (vals (assets w)) then fail_with RNotEmpty
         else do {
           State_Monad.update (\<lambda>w. w\<lparr>
             consumables := update_where (\<lambda>n. n_TenantID n = tenantID \<and> n_LocationID n = i) (\<lambda>n. n\<lparr>n_LocationID := []\<rparr>) (consumables w),
             locations := AList.delete i (locations w)\<rparr>);
           ok ()
         }
   })"

definition CountChildLocations :: "string \<Rightarrow> string \<Rightarrow> ('z, int) store_op" where
  "CountChildLocations tenantID i =
     counting ''CountChildLocations'' locations (\<lambda>l. l_TenantID l = tenantID \<and> l_ParentID l = i)"

end
