(* ===== verification/Memstore_Items.thy ===== *)
theory Memstore_Items
  imports Memstore_Refs
begin

text \<open>
  \<^verbatim>\<open>internal/memstore/memstore.go\<close>, the rest: consumables, licenses, insurance policies with their
  covered assets, the scheduler's notify state, the statistics rollup, tenants and audit rows.
\<close>

section \<open>Consumables\<close>

definition CreateConsumable :: "Consumable \<Rightarrow> ('z, unit) store_op" where
  "CreateConsumable n0 = guarded ''CreateConsumable'' (do {
     i \<leftarrow> fresh_id (n_ID n0);
     w \<leftarrow> State_Monad.get;
     if map_of (consumables w) i \<noteq> None then fail_with RConflict
     else do {
       let n = n0\<lparr>n_ID := i, n_CreatedAt := default_time (n_CreatedAt n0) (wall w), n_UpdatedAt := wall w\<rparr>;
       State_Monad.update (\<lambda>w. w\<lparr>consumables := AList.update i n (consumables w)\<rparr>);
       ok ()
     }
   })"

definition GetConsumable :: "string \<Rightarrow> string \<Rightarrow> ('z, Consumable) store_op" where
  "GetConsumable tenantID i = guarded ''GetConsumable'' (do {
     w \<leftarrow> State_Monad.get;
     case map_of (consumables w) i of
       None \<Rightarrow> fail_with RNotFound
     | Some n \<Rightarrow> if n_TenantID n \<noteq> tenantID then fail_with RNotFound else ok n
   })"

definition matchConsumables :: "(string \<Rightarrow> string) \<Rightarrow> Consumable tab \<Rightarrow> string \<Rightarrow> string \<Rightarrow> Consumable list" where
  "matchConsumables uni m tenantID query =
     (let q = ToLower uni query in
      filter (\<lambda>n. n_TenantID n = tenantID \<and> (q = [] \<or> contains_fold uni (n_Name n) q \<or> contains_fold uni (n_ModelName n) q)) (vals m))"

definition ListConsumables :: "(string \<Rightarrow> string) \<Rightarrow> string \<Rightarrow> ListOpts \<Rightarrow> ('z, Consumable list) store_op" where
  "ListConsumables uni tenantID f = guarded ''ListConsumables'' (do {
     w \<leftarrow> State_Monad.get;
     ok (paginate n_ID (o_CursorID f) (o_Limit f) (matchConsumables uni (consumables w) tenantID (o_Query f)))
   })"

definition UpdateConsumable :: "Consumable \<Rightarrow> ('z, unit) store_op" where
  "UpdateConsumable n0 = guarded ''UpdateConsumable'' (do {
     w \<leftarrow> State_Monad.get;
     case map_of (consumables w) (n_ID n0) of
       None \<Rightarrow> fail_with RNotFound
     | Some ex \<Rightarrow>
         if n_TenantID ex \<noteq> n_TenantID n0 then fail_with RNotFound
         else do {
           let n = n0\<lparr>n_CreatedAt := n_CreatedAt ex, n_UpdatedAt := wall w\<rparr>;
           State_Monad.update (\<lambda>w. w\<lparr>consumables := AList.update (n_ID n) n (consumables w)\<rparr>);
           ok ()
         }
   })"

definition DeleteConsumable :: "string \<Rightarrow> string \<Rightarrow> ('z, unit) store_op" where
  "DeleteConsumable tenantID i = guarded ''DeleteConsumable'' (do {
     w \<leftarrow> State_Monad.get;
     case map_of (consumables w) i of
       None \<Rightarrow> fail_with RNotFound
     | Some n \<Rightarrow>
         if n_TenantID n \<noteq> tenantID then fail_with RNotFound
         else do {
           State_Monad.update (\<lambda>w. w\<lparr>
             documents := delete_where (\<lambda>d. d_TenantID d = tenantID \<and> d_EntityType d = EntityConsumable \<and> d_EntityID d = i) (documents w),
             consumables := AList.delete i (consumables w)\<rparr>);
           ok ()
         }
   })"

definition AllConsumables :: "string \<Rightarrow> ('z, Consumable list) store_op" where
  "AllConsumables tenantID = guarded ''AllConsumables'' (do {
     w \<leftarrow> State_Monad.get;
     ok (paginate n_ID [] 0 (filter (\<lambda>n. n_TenantID n = tenantID) (vals (consumables w))))
   })"

section \<open>Licenses\<close>

definition CreateLicense :: "License \<Rightarrow> ('z, unit) store_op" where
  "CreateLicense l0 = guarded ''CreateLicense'' (do {
     i \<leftarrow> fresh_id (i_ID l0);
     w \<leftarrow> State_Monad.get;
     if map_of (licenses w) i \<noteq> None then fail_with RConflict
     else do {
       let l = l0\<lparr>i_ID := i, i_Status := default_text (i_Status l0) LicActive,
         i_CreatedAt := default_time (i_CreatedAt l0) (wall w), i_UpdatedAt := wall w\<rparr>;
       State_Monad.update (\<lambda>w. w\<lparr>licenses := AList.update i l (licenses w)\<rparr>);
       ok ()
     }
   })"

definition GetLicense :: "string \<Rightarrow> string \<Rightarrow> ('z, License) store_op" where
  "GetLicense tenantID i = guarded ''GetLicense'' (do {
     w \<leftarrow> State_Monad.get;
     case map_of (licenses w) i of
       None \<Rightarrow> fail_with RNotFound
     | Some l \<Rightarrow> if i_TenantID l \<noteq> tenantID then fail_with RNotFound else ok l
   })"

definition matchLicenses :: "(string \<Rightarrow> string) \<Rightarrow> License tab \<Rightarrow> string \<Rightarrow> string \<Rightarrow> License list" where
  "matchLicenses uni m tenantID query =
     (let q = ToLower uni query in
      filter (\<lambda>l. i_TenantID l = tenantID \<and> (q = [] \<or> contains_fold uni (i_Name l) q)) (vals m))"

definition ListLicenses :: "(string \<Rightarrow> string) \<Rightarrow> string \<Rightarrow> ListOpts \<Rightarrow> ('z, License list) store_op" where
  "ListLicenses uni tenantID f = guarded ''ListLicenses'' (do {
     w \<leftarrow> State_Monad.get;
     ok (paginate i_ID (o_CursorID f) (o_Limit f) (matchLicenses uni (licenses w) tenantID (o_Query f)))
   })"

definition UpdateLicense :: "License \<Rightarrow> ('z, unit) store_op" where
  "UpdateLicense l0 = guarded ''UpdateLicense'' (do {
     w \<leftarrow> State_Monad.get;
     case map_of (licenses w) (i_ID l0) of
       None \<Rightarrow> fail_with RNotFound
     | Some ex \<Rightarrow>
         if i_TenantID ex \<noteq> i_TenantID l0 then fail_with RNotFound
         else do {
           let l = l0\<lparr>i_CreatedAt := i_CreatedAt ex, i_UpdatedAt := wall w\<rparr>;
           State_Monad.update (\<lambda>w. w\<lparr>licenses := AList.update (i_ID l) l (licenses w)\<rparr>);
           ok ()
         }
   })"

definition DeleteLicense :: "string \<Rightarrow> string \<Rightarrow> ('z, unit) store_op" where
  "DeleteLicense tenantID i = guarded ''DeleteLicense'' (do {
     w \<leftarrow> State_Monad.get;
     case map_of (licenses w) i of
       None \<Rightarrow> fail_with RNotFound
     | Some l \<Rightarrow>
         if i_TenantID l \<noteq> tenantID then fail_with RNotFound
         else do {
           State_Monad.update (\<lambda>w. w\<lparr>
             documents := delete_where (\<lambda>d. d_TenantID d = tenantID \<and> d_EntityType d = EntityLicense \<and> d_EntityID d = i) (documents w),
             licenses := AList.delete i (licenses w)\<rparr>);
           ok ()
         }
   })"

definition AllLicenses :: "string \<Rightarrow> ('z, License list) store_op" where
  "AllLicenses tenantID = guarded ''AllLicenses'' (do {
     w \<leftarrow> State_Monad.get;
     ok (paginate i_ID [] 0 (filter (\<lambda>l. i_TenantID l = tenantID) (vals (licenses w))))
   })"

section \<open>Insurance policies and covered assets\<close>

definition fillInsurance :: "'z mem_scheme \<Rightarrow> InsurancePolicy \<Rightarrow> InsurancePolicy" where
  "fillInsurance w p = p\<lparr>p_AssetCount :=
     count_where (\<lambda>q. q_TenantID q = p_TenantID p \<and> q_PolicyID q = p_ID p) (policyAssets w)\<rparr>"

definition CreateInsurance :: "InsurancePolicy \<Rightarrow> ('z, unit) store_op" where
  "CreateInsurance p0 = guarded ''CreateInsurance'' (do {
     w \<leftarrow> State_Monad.get;
     if list_ex (\<lambda>ex. p_TenantID ex = p_TenantID p0 \<and> (p_PolicyNumber ex = p_PolicyNumber p0 \<or> p_Name ex = p_Name p0)) (vals (insurance w))
     then fail_with RConflict
     else do {
       i \<leftarrow> fresh_id (p_ID p0);
       w' \<leftarrow> State_Monad.get;
       if map_of (insurance w') i \<noteq> None then fail_with RConflict
       else do {
         let p = p0\<lparr>p_ID := i, p_Status := default_text (p_Status p0) InsActive,
           p_CreatedAt := default_time (p_CreatedAt p0) (wall w'), p_UpdatedAt := wall w'\<rparr>;
         State_Monad.update (\<lambda>w. w\<lparr>insurance := AList.update i p (insurance w)\<rparr>);
         ok ()
       }
     }
   })"

definition GetInsurance :: "string \<Rightarrow> string \<Rightarrow> ('z, InsurancePolicy) store_op" where
  "GetInsurance tenantID i = guarded ''GetInsurance'' (do {
     w \<leftarrow> State_Monad.get;
     case map_of (insurance w) i of
       None \<Rightarrow> fail_with RNotFound
     | Some p \<Rightarrow> if p_TenantID p \<noteq> tenantID then fail_with RNotFound else ok (fillInsurance w p)
   })"

definition matchInsurance :: "(string \<Rightarrow> string) \<Rightarrow> InsurancePolicy tab \<Rightarrow> string \<Rightarrow> string \<Rightarrow> InsurancePolicy list" where
  "matchInsurance uni m tenantID query =
     (let q = ToLower uni query in
      filter (\<lambda>p. p_TenantID p = tenantID \<and> (q = [] \<or> contains_fold uni (p_Name p) q \<or> contains_fold uni (p_PolicyNumber p) q)) (vals m))"

definition ListInsurance :: "(string \<Rightarrow> string) \<Rightarrow> string \<Rightarrow> ListOpts \<Rightarrow> ('z, InsurancePolicy list) store_op" where
  "ListInsurance uni tenantID f = guarded ''ListInsurance'' (do {
     w \<leftarrow> State_Monad.get;
     let out = paginate p_ID (o_CursorID f) (o_Limit f) (matchInsurance uni (insurance w) tenantID (o_Query f));
     ok (map (fillInsurance w) out)
   })"

definition UpdateInsurance :: "InsurancePolicy \<Rightarrow> ('z, unit) store_op" where
  "UpdateInsurance p0 = guarded ''UpdateInsurance'' (do {
     w \<leftarrow> State_Monad.get;
     case map_of (insurance w) (p_ID p0) of
       None \<Rightarrow> fail_with RNotFound
     | Some ex \<Rightarrow>
         if p_TenantID ex \<noteq> p_TenantID p0 then fail_with RNotFound
         else if list_ex (\<lambda>other. \<not> (p_ID other = p_ID p0 \<or> p_TenantID other \<noteq> p_TenantID p0)
                \<and> (p_PolicyNumber other = p_PolicyNumber p0 \<or> p_Name other = p_Name p0)) (vals (insurance w))
         then fail_with RConflict
         else do {
           let p = p0\<lparr>p_CreatedAt := p_CreatedAt ex, p_UpdatedAt := wall w\<rparr>;
           State_Monad.update (\<lambda>w. w\<lparr>insurance := AList.update (p_ID p) p (insurance w)\<rparr>);
           ok ()
         }
   })"

definition DeleteInsurance :: "string \<Rightarrow> string \<Rightarrow> ('z, unit) store_op" where
  "DeleteInsurance tenantID i = guarded ''DeleteInsurance'' (do {
     w \<leftarrow> State_Monad.get;
     case map_of (insurance w) i of
       None \<Rightarrow> fail_with RNotFound
     | Some p \<Rightarrow>
         if p_TenantID p \<noteq> tenantID then fail_with RNotFound
         else do {
           State_Monad.update (\<lambda>w. w\<lparr>
             policyAssets := delete_where (\<lambda>q. q_TenantID q = tenantID \<and> q_PolicyID q = i) (policyAssets w),
             insurance := AList.delete i (insurance w)\<rparr>);
           ok ()
         }
   })"

definition AllInsurance :: "string \<Rightarrow> ('z, InsurancePolicy list) store_op" where
  "AllInsurance tenantID = guarded ''AllInsurance'' (do {
     w \<leftarrow> State_Monad.get;
     let out = paginate p_ID [] 0 (filter (\<lambda>p. p_TenantID p = tenantID) (vals (insurance w)));
     ok (map (fillInsurance w) out)
   })"

definition AddPolicyAsset :: "PolicyAsset \<Rightarrow> ('z, unit) store_op" where
  "AddPolicyAsset q0 = guarded ''AddPolicyAsset'' (do {
     w \<leftarrow> State_Monad.get;
     if list_ex (\<lambda>ex. q_PolicyID ex = q_PolicyID q0 \<and> q_AssetID ex = q_AssetID q0) (vals (policyAssets w)) then fail_with RConflict
     else do {
       i \<leftarrow> fresh_id (q_ID q0);
       w' \<leftarrow> State_Monad.get;
       if map_of (policyAssets w') i \<noteq> None then fail_with RConflict
       else do {
         let q = q0\<lparr>q_ID := i, q_CreatedAt := default_time (q_CreatedAt q0) (wall w')\<rparr>;
         State_Monad.update (\<lambda>w. w\<lparr>policyAssets := AList.update i q (policyAssets w)\<rparr>);
         ok ()
       }
     }
   })"

definition RemovePolicyAsset :: "string \<Rightarrow> string \<Rightarrow> string \<Rightarrow> ('z, unit) store_op" where
  "RemovePolicyAsset tenantID policyID assetID = guarded ''RemovePolicyAsset'' (do {
     w \<leftarrow> State_Monad.get;
     case find (\<lambda>(k, q). q_TenantID q = tenantID \<and> q_PolicyID q = policyID \<and> q_AssetID q = assetID) (policyAssets w) of
       None \<Rightarrow> fail_with RNotFound
     | Some (k, q) \<Rightarrow> do {
         State_Monad.update (\<lambda>w. w\<lparr>policyAssets := AList.delete k (policyAssets w)\<rparr>);
         ok ()
       }
   })"

definition ListPolicyAssets :: "string \<Rightarrow> string \<Rightarrow> ('z, PolicyAsset list) store_op" where
  "ListPolicyAssets tenantID policyID = guarded ''ListPolicyAssets'' (do {
     w \<leftarrow> State_Monad.get;
     ok (paginate q_ID [] 0 (filter (\<lambda>q. q_TenantID q = tenantID \<and> q_PolicyID q = policyID) (vals (policyAssets w))))
   })"

section \<open>Notify state\<close>

definition GetNotifyState :: "string \<Rightarrow> string \<Rightarrow> ('z, NotifyState) store_op" where
  "GetNotifyState tenantID conditionKey = guarded ''GetNotifyState'' (do {
     w \<leftarrow> State_Monad.get;
     case find (\<lambda>y. y_TenantID y = tenantID \<and> y_ConditionKey y = conditionKey) (vals (notify w)) of
       None \<Rightarrow> fail_with RNotFound
     | Some y \<Rightarrow> ok y
   })"

definition UpsertNotifyState :: "NotifyState \<Rightarrow> ('z, unit) store_op" where
  "UpsertNotifyState y0 = guarded ''UpsertNotifyState'' (do {
     w \<leftarrow> State_Monad.get;
     let y1 = y0\<lparr>y_LastNotifiedAt := default_time (y_LastNotifiedAt y0) (wall w)\<rparr>;
     case find (\<lambda>(k, ex). y_TenantID ex = y_TenantID y1 \<and> y_ConditionKey ex = y_ConditionKey y1) (notify w) of
       Some (k, ex) \<Rightarrow> do {
         State_Monad.update (\<lambda>w. w\<lparr>notify := AList.update k (y1\<lparr>y_ID := y_ID ex\<rparr>) (notify w)\<rparr>);
         ok ()
       }
     | None \<Rightarrow> do {
         i \<leftarrow> fresh_id (y_ID y1);
         State_Monad.update (\<lambda>w. w\<lparr>notify := AList.update i (y1\<lparr>y_ID := i\<rparr>) (notify w)\<rparr>);
         ok ()
       }
   })"

section \<open>Statistics, tenants, audit\<close>

text \<open>\<^verbatim>\<open>internal/repo/repo.go\<close>, \<^verbatim>\<open>Stats\<close>.\<close>

record Stats =
  TotalAssets :: int
  AssetsByStatus :: "int tab"
  TotalConsumables :: int
  TotalSuppliers :: int
  TotalCategories :: int
  TotalLocations :: int
  TotalLicenses :: int
  TotalInsurance :: int
  TotalCost :: real
  TotalDepreciatedValue :: real
  ExpiringSoon :: int
  LowStock :: int

definition bump :: "string \<Rightarrow> int tab \<Rightarrow> int tab" where
  "bump k m = AList.update k ((case map_of m k of None \<Rightarrow> 0 | Some n \<Rightarrow> n) + 1) m"

definition TenantStats :: "string \<Rightarrow> ('z, Stats) store_op" where
  "TenantStats tenantID = guarded ''TenantStats'' (do {
     w \<leftarrow> State_Monad.get;
     let mine = filter (\<lambda>a. a_TenantID a = tenantID) (vals (assets w));
     ok \<lparr>TotalAssets = int (length mine),
         AssetsByStatus = fold (\<lambda>a m. bump (a_Status a) m) mine [],
         TotalConsumables = count_where (\<lambda>n. n_TenantID n = tenantID) (consumables w),
         TotalSuppliers = count_where (\<lambda>s. s_TenantID s = tenantID) (suppliers w),
         TotalCategories = count_where (\<lambda>c. c_TenantID c = tenantID) (categories w),
         TotalLocations = count_where (\<lambda>l. l_TenantID l = tenantID) (locations w),
         TotalLicenses = count_where (\<lambda>l. i_TenantID l = tenantID) (licenses w),
         TotalInsurance = count_where (\<lambda>p. p_TenantID p = tenantID) (insurance w),
         TotalCost = sum_list (map a_PurchaseCost mine),
         TotalDepreciatedValue = sum_list (map (\<lambda>a. mem_bookValue a (wall w)) mine),
         ExpiringSoon = 0,
         LowStock = count_where (\<lambda>n. n_TenantID n = tenantID \<and> n_Amount n \<le> n_MinAmount n) (consumables w)\<rparr>
   })"

definition TenantIDs :: "('z, string list) store_op" where
  "TenantIDs = guarded ''TenantIDs'' (do {
     w \<leftarrow> State_Monad.get;
     ok (sort (remdups (map a_TenantID (vals (assets w)) @ map c_TenantID (vals (categories w))
       @ map s_TenantID (vals (suppliers w)) @ map l_TenantID (vals (locations w))
       @ map n_TenantID (vals (consumables w)) @ map i_TenantID (vals (licenses w)) @ map p_TenantID (vals (insurance w)))))
   })"

definition AppendAudit :: "AuditRow \<Rightarrow> ('z, unit) store_op" where
  "AppendAudit r0 = guarded ''AppendAudit'' (do {
     i \<leftarrow> fresh_id (r_ID r0);
     w \<leftarrow> State_Monad.get;
     let r = r0\<lparr>r_ID := i, r_At := default_time (r_At r0) (wall w)\<rparr>;
     State_Monad.update (\<lambda>w. w\<lparr>audit := audit w @ [r]\<rparr>);
     ok ()
   })"

end
