(* ===== verification/Store_Laws.thy ===== *)
theory Store_Laws
  imports Memstore_Items
begin

text \<open>
  What each store method does to the tables, as one effect lemma per method: an error leaves every
  table as it was, a success makes one stated change under the stated conditions. All later proofs
  about the services use these lemmas and never unfold a store method again.
\<close>

section \<open>The tables of a store\<close>

text \<open>\<open>core\<close> forgets the clock, the id generator, the random source, the armed failures and any extension.\<close>

definition core :: "'z mem_scheme \<Rightarrow> mem" where
  "core w = \<lparr>wall = 0, rnd = (\<lambda>_. 0), idLast = 0, idSeq = 0, assets = assets w, assignments = assignments w,
     documents = documents w, invsync = invsync w, categories = categories w, suppliers = suppliers w,
     locations = locations w, consumables = consumables w, licenses = licenses w, insurance = insurance w,
     policyAssets = policyAssets w, notify = notify w, audit = audit w, failNext = {}\<rparr>"

lemma core_sel [simp]:
  "assets (core w) = assets w" "assignments (core w) = assignments w" "documents (core w) = documents w"
  "invsync (core w) = invsync w" "categories (core w) = categories w" "suppliers (core w) = suppliers w"
  "locations (core w) = locations w" "consumables (core w) = consumables w" "licenses (core w) = licenses w"
  "insurance (core w) = insurance w" "policyAssets (core w) = policyAssets w" "notify (core w) = notify w"
  "audit (core w) = audit w"
  by (simp_all add: core_def)

lemma core_upd [simp]:
  "core (w\<lparr>wall := x0\<rparr>) = core w" "core (w\<lparr>rnd := x1\<rparr>) = core w" "core (w\<lparr>idLast := x2\<rparr>) = core w"
  "core (w\<lparr>idSeq := x3\<rparr>) = core w" "core (w\<lparr>failNext := x4\<rparr>) = core w"
  "core (w\<lparr>assets := y1\<rparr>) = (core w)\<lparr>assets := y1\<rparr>"
  "core (w\<lparr>assignments := y2\<rparr>) = (core w)\<lparr>assignments := y2\<rparr>"
  "core (w\<lparr>documents := y3\<rparr>) = (core w)\<lparr>documents := y3\<rparr>"
  "core (w\<lparr>invsync := y4\<rparr>) = (core w)\<lparr>invsync := y4\<rparr>"
  "core (w\<lparr>categories := y5\<rparr>) = (core w)\<lparr>categories := y5\<rparr>"
  "core (w\<lparr>suppliers := y6\<rparr>) = (core w)\<lparr>suppliers := y6\<rparr>"
  "core (w\<lparr>locations := y7\<rparr>) = (core w)\<lparr>locations := y7\<rparr>"
  "core (w\<lparr>consumables := y8\<rparr>) = (core w)\<lparr>consumables := y8\<rparr>"
  "core (w\<lparr>licenses := y9\<rparr>) = (core w)\<lparr>licenses := y9\<rparr>"
  "core (w\<lparr>insurance := z1\<rparr>) = (core w)\<lparr>insurance := z1\<rparr>"
  "core (w\<lparr>policyAssets := z2\<rparr>) = (core w)\<lparr>policyAssets := z2\<rparr>"
  "core (w\<lparr>notify := z3\<rparr>) = (core w)\<lparr>notify := z3\<rparr>"
  "core (w\<lparr>audit := z4\<rparr>) = (core w)\<lparr>audit := z4\<rparr>"
  by (simp_all add: core_def)

lemma core_tables:
  assumes "core w' = core w"
  shows "assets w' = assets w" "assignments w' = assignments w" "documents w' = documents w" "invsync w' = invsync w"
    "categories w' = categories w" "suppliers w' = suppliers w" "locations w' = locations w"
    "consumables w' = consumables w" "licenses w' = licenses w" "insurance w' = insurance w"
    "policyAssets w' = policyAssets w" "notify w' = notify w" "audit w' = audit w"
  using assms by (simp_all add: core_def)

lemma NewID_frame:
  assumes "run_state NewID w = (i, w')"
  shows "\<exists>r l s. w' = w\<lparr>rnd := r, idLast := l, idSeq := s\<rparr>"
  using assms by (auto simp: NewID_def read_rand_def split: prod.splits)

lemma NewID_nonempty:
  assumes "run_state NewID w = (i, w')"
  shows "i \<noteq> []"
  using assms by (auto simp: NewID_def read_rand_def id_text_def split: prod.splits)

lemma fresh_id_frame:
  assumes "run_state (fresh_id i0) w = (i, w')"
  shows "\<exists>r l s. w' = w\<lparr>rnd := r, idLast := l, idSeq := s\<rparr>"
proof (cases "i0 = []")
  case True
  with assms show ?thesis by (auto simp: fresh_id_def dest: NewID_frame)
next
  case False
  with assms have "w' = w\<lparr>rnd := rnd w, idLast := idLast w, idSeq := idSeq w\<rparr>"
    by (simp add: fresh_id_def)
  then show ?thesis by blast
qed

lemma fresh_id_value:
  assumes "run_state (fresh_id i0) w = (i, w')"
  shows "i \<noteq> []" and "i0 \<noteq> [] \<Longrightarrow> i = i0"
  using assms by (auto simp: fresh_id_def dest: NewID_nonempty split: if_splits)

text \<open>The result of \<open>fresh_id\<close> by name, so that simplification can run through it.\<close>

definition new_id :: "string \<Rightarrow> 'z sys_scheme \<Rightarrow> string" where
  "new_id i0 w = fst (run_state (fresh_id i0) w)"

definition after_id :: "string \<Rightarrow> 'z sys_scheme \<Rightarrow> sys" where
  "after_id i0 w = (let w' = snd (run_state (fresh_id i0) w) in \<lparr>wall = wall w', rnd = rnd w', idLast = idLast w', idSeq = idSeq w'\<rparr>)"

lemma run_fresh_id [simp]:
  "run_state (fresh_id i0) w =
     (new_id i0 w, w\<lparr>rnd := rnd (after_id i0 w), idLast := idLast (after_id i0 w), idSeq := idSeq (after_id i0 w)\<rparr>)"
proof -
  obtain i w' where f: "run_state (fresh_id i0) w = (i, w')" by force
  moreover from fresh_id_frame [OF f] obtain r l s where "w' = w\<lparr>rnd := r, idLast := l, idSeq := s\<rparr>" by blast
  ultimately show ?thesis by (simp add: new_id_def after_id_def Let_def)
qed

lemma run_NewID [simp]:
  "run_state NewID w = (new_id [] w, w\<lparr>rnd := rnd (after_id [] w), idLast := idLast (after_id [] w), idSeq := idSeq (after_id [] w)\<rparr>)"
  using run_fresh_id [of "[]" w] by (simp add: fresh_id_def)

lemma new_id_nonempty [simp]: "new_id i0 w \<noteq> []"
  by (rule fresh_id_value(1) [OF run_fresh_id])

lemma new_id_given [simp]: "i0 \<noteq> [] \<Longrightarrow> new_id i0 w = i0"
  by (simp add: new_id_def fresh_id_def)

lemma run_guarded: "run_state (guarded method m) w =
  (if method \<in> failNext w then (Inl (RInjected method), w\<lparr>failNext := failNext w - {method}\<rparr>) else run_state m w)"
  by (simp add: guarded_def fail_method_def)

lemma guarded_cases:
  assumes "run_state (guarded method m) w = (r, w')"
  obtains (armed) "r = Inl (RInjected method)" "w' = w\<lparr>failNext := failNext w - {method}\<rparr>" "method \<in> failNext w"
    | (runs) "run_state m w = (r, w')" "method \<notin> failNext w"
  using assms by (auto simp: guarded_def fail_method_def split: if_splits)

lemmas store_splits = prod.splits sum.splits if_splits option.splits

lemma after_id_given [simp]:
  "i0 \<noteq> [] \<Longrightarrow> rnd (after_id i0 w) = rnd w" "i0 \<noteq> [] \<Longrightarrow> idLast (after_id i0 w) = idLast w"
  "i0 \<noteq> [] \<Longrightarrow> idSeq (after_id i0 w) = idSeq w"
  by (simp_all add: after_id_def fresh_id_def Let_def)

section \<open>Outcomes: assets and assignments\<close>

text \<open>
  \<open>same w w'\<close>: no table, clock or extension changed; at most an armed failure was consumed and an id drawn.
  Each outcome lemma below has two cases: the method failed and changed nothing, or it did exactly
  what the case states.
\<close>

definition same :: "'z mem_scheme \<Rightarrow> 'z mem_scheme \<Rightarrow> bool" where
  "same w w' \<longleftrightarrow> core w' = core w \<and> wall w' = wall w \<and> mem.more w' = mem.more w \<and> failNext w' \<subseteq> failNext w"

definition asset_saved :: "Asset \<Rightarrow> gotime \<Rightarrow> Asset" where
  "asset_saved a now = a\<lparr>a_Status := default_text (a_Status a) AssetDeployable,
     a_DepreciationRate := (if a_DepreciationRate a = 0 then 2 / 5 else a_DepreciationRate a),
     a_CreatedAt := default_time (a_CreatedAt a) now, a_UpdatedAt := now\<rparr>"

definition asset_kept :: "Asset \<Rightarrow> Asset \<Rightarrow> gotime \<Rightarrow> Asset" where
  "asset_kept a ex now = a\<lparr>a_AssetTag := default_text (a_AssetTag a) (a_AssetTag ex),
     a_DepreciationRate := (if a_DepreciationRate a = 0 then 2 / 5 else a_DepreciationRate a),
     a_CreatedAt := a_CreatedAt ex, a_UpdatedAt := now\<rparr>"

lemma CreateAsset_outcome:
  assumes "run_state (CreateAsset a) w = (r, w')" and "a_ID a \<noteq> []" and "a_AssetTag a \<noteq> []"
  obtains (failed) e where "r = Inl e" "same w w'"
    | (created) "r = Inr ()" "map_of (assets w) (a_ID a) = None" "\<not> asset_tag_taken a (assets w)"
        "w' = w\<lparr>assets := AList.update (a_ID a) (asset_saved a (wall w)) (assets w)\<rparr>"
  using assms by (auto simp: CreateAsset_def run_guarded same_def asset_saved_def Let_def split: if_splits)

lemma GetAsset_outcome:
  assumes "run_state (GetAsset t i) w = (r, w')"
  obtains (failed) e where "r = Inl e" "same w w'"
    | (found) a where "r = Inr (fillAsset (wall w) a)" "w' = w" "map_of (assets w) i = Some a" "a_TenantID a = t"
proof -
  have "(\<exists>e. r = Inl e \<and> same w w') \<or> (\<exists>a. r = Inr (fillAsset (wall w) a) \<and> w' = w \<and> map_of (assets w) i = Some a \<and> a_TenantID a = t)"
    using assms by (auto simp: GetAsset_def run_guarded same_def split: if_splits option.splits)
  then show ?thesis using that by blast
qed

lemma UpdateAsset_outcome:
  assumes "run_state (UpdateAsset a) w = (r, w')"
  obtains (failed) e where "r = Inl e" "same w w'"
    | (updated) ex where "r = Inr ()" "map_of (assets w) (a_ID a) = Some ex" "a_TenantID ex = a_TenantID a"
        "w' = w\<lparr>assets := AList.update (a_ID a) (asset_kept a ex (wall w)) (assets w)\<rparr>"
  using assms by (auto simp: UpdateAsset_def run_guarded same_def asset_kept_def Let_def split: if_splits option.splits)

lemma DeleteAsset_outcome:
  assumes "run_state (DeleteAsset t i) w = (r, w')"
  obtains (failed) e where "r = Inl e" "same w w'"
    | (deleted) a where "r = Inr ()" "map_of (assets w) i = Some a" "a_TenantID a = t"
        "w' = w\<lparr>assignments := delete_where (\<lambda>g. g_TenantID g = t \<and> g_AssetID g = i) (assignments w),
             documents := delete_where (\<lambda>d. d_TenantID d = t \<and> d_EntityType d = EntityAsset \<and> d_EntityID d = i) (documents w),
             policyAssets := delete_where (\<lambda>q. q_TenantID q = t \<and> q_AssetID q = i) (policyAssets w),
             assets := AList.delete i (assets w)\<rparr>"
  using assms by (auto simp: DeleteAsset_def run_guarded same_def split: if_splits option.splits)

lemma InsertAssignment_outcome:
  assumes "run_state (InsertAssignment g) w = (r, w')" and "g_ID g \<noteq> []" and "g_Action g \<noteq> []"
  obtains (failed) e where "r = Inl e" "same w w'"
    | (inserted) "r = Inr ()" "map_of (assignments w) (g_ID g) = None"
        "w' = w\<lparr>assignments := AList.update (g_ID g) (g\<lparr>g_AssignedAt := default_time (g_AssignedAt g) (wall w)\<rparr>) (assignments w)\<rparr>"
  using assms by (auto simp: InsertAssignment_def run_guarded same_def default_text_def Let_def split: if_splits)

lemma CloseActiveAssignment_outcome:
  assumes "run_state (CloseActiveAssignment t i at0) w = (r, w')"
  obtains (failed) "r = Inl (RInjected ''CloseActiveAssignment'')" "same w w'"
    | (ended) "r = Inr ()" "w' = w\<lparr>assignments := update_where (\<lambda>g. g_TenantID g = t \<and> g_AssetID g = i \<and> g_ReturnedAt g = None)
         (\<lambda>g. g\<lparr>g_ReturnedAt := Some (default_time at0 (wall w))\<rparr>) (assignments w)\<rparr>"
  using assms by (auto simp: CloseActiveAssignment_def run_guarded same_def Let_def split: if_splits)

text \<open>Looking up a reference: success means the row exists in the tenant and nothing changed.\<close>

lemma GetCategory_found:
  assumes "run_state (GetCategory t i) w = (Inr c, w')"
  shows "w' = w \<and> (\<exists>c0. map_of (categories w) i = Some c0 \<and> c_TenantID c0 = t \<and> c = fillCategory w c0)"
  using assms by (auto simp: GetCategory_def run_guarded split: if_splits option.splits)

lemma GetSupplier_found:
  assumes "run_state (GetSupplier t i) w = (Inr s, w')"
  shows "w' = w \<and> map_of (suppliers w) i = Some s \<and> s_TenantID s = t"
  using assms by (auto simp: GetSupplier_def run_guarded split: if_splits option.splits)

lemma GetLocation_found:
  assumes "run_state (GetLocation t i) w = (Inr l, w')"
  shows "w' = w \<and> (\<exists>l0. map_of (locations w) i = Some l0 \<and> l_TenantID l0 = t \<and> l = fillLocation w l0)"
  using assms by (auto simp: GetLocation_def run_guarded split: if_splits option.splits)

end
