(* ===== verification/Tenancy.thy ===== *)
theory Tenancy
  imports Store_Laws
begin

text \<open>
  The contract every table of the store offers to the services, and that the store methods keep it:
  rows sit under their own ids, no two rows clash (same tag, same name, same policy number ...), and
  a method called for one tenant leaves the rows of all other tenants as they were. The locale
  \<open>tenant_table\<close> proves it once for the ways the store writes a table; it is interpreted for each of
  the ten tables, and \<open>owned t\<close>, the relation between the states before and after a call made for
  tenant \<open>t\<close>, is lifted through the programs by \<open>io_relation\<close>.
\<close>

section \<open>One table\<close>

definition rows_ok :: "('v \<Rightarrow> string) \<Rightarrow> ('v \<Rightarrow> 'v \<Rightarrow> bool) \<Rightarrow> 'v tab \<Rightarrow> bool" where
  "rows_ok idf clash m \<longleftrightarrow>
     tab_ok idf m \<and> (\<forall>x\<in>set (vals m). \<forall>y\<in>set (vals m). idf x \<noteq> idf y \<longrightarrow> \<not> clash x y)"

definition foreign :: "('v \<Rightarrow> string) \<Rightarrow> string \<Rightarrow> 'v tab \<Rightarrow> 'v tab" where
  "foreign tn t m = filter (\<lambda>(k, v). tn v \<noteq> t) m"

definition tab_rel :: "('v \<Rightarrow> string) \<Rightarrow> ('v \<Rightarrow> string) \<Rightarrow> ('v \<Rightarrow> 'v \<Rightarrow> bool) \<Rightarrow> string \<Rightarrow> 'v tab \<Rightarrow> 'v tab \<Rightarrow> bool" where
  "tab_rel idf tn clash t m m' \<longleftrightarrow>
     (rows_ok idf clash m \<longrightarrow> rows_ok idf clash m' \<and> foreign tn t m' = foreign tn t m)"

lemma tab_rel_if_ok: "(rows_ok idf clash m \<Longrightarrow> tab_rel idf tn clash t m m') \<Longrightarrow> tab_rel idf tn clash t m m'"
  by (simp add: tab_rel_def)

lemma rows_ok_lookup: "rows_ok idf clash m \<Longrightarrow> map_of m k = Some v \<Longrightarrow> idf v = k"
  by (auto simp: rows_ok_def dest: tab_ok_lookup)

lemma rows_ok_find: "rows_ok idf clash m \<Longrightarrow> find p m = Some (k, v) \<Longrightarrow> map_of m k = Some v \<and> p (k, v)"
  by (auto simp: rows_ok_def tab_ok_def find_Some_iff)

lemma foreign_update:
  assumes "tn v = t" and "\<And>old. map_of m k = Some old \<Longrightarrow> tn old = t" and "distinct (map fst m)"
  shows "foreign tn t (AList.update k v m) = foreign tn t m"
  using assms(2,3)
proof (induction m)
  case Nil
  show ?case using assms(1) by (simp add: foreign_def)
next
  case (Cons kv m)
  then show ?case using assms(1) by (cases kv) (auto simp: foreign_def split: if_splits)
qed

lemma foreign_delete:
  assumes "\<And>old. map_of m k = Some old \<Longrightarrow> tn old = t" and "distinct (map fst m)"
  shows "foreign tn t (AList.delete k m) = foreign tn t m"
  using assms
proof (induction m)
  case Nil
  show ?case by (simp add: foreign_def)
next
  case (Cons kv m)
  then show ?case by (cases kv) (force simp: foreign_def AList.delete_eq split: if_splits)
qed

lemma foreign_delete_where:
  assumes "\<And>v. p v \<Longrightarrow> tn v = t"
  shows "foreign tn t (delete_where p m) = foreign tn t m"
  unfolding foreign_def delete_where_def filter_filter by (rule filter_cong) (auto dest: assms)

lemma foreign_update_where:
  assumes "\<And>v. p v \<Longrightarrow> tn v = t" and "\<And>v. tn (f v) = tn v"
  shows "foreign tn t (update_where p f m) = foreign tn t m"
proof (induction m)
  case (Cons kv m)
  then show ?case
    using assms(1) [of "snd kv"] assms(2) [of "snd kv"] by (cases kv) (simp add: foreign_def update_where_def)
qed (simp add: foreign_def update_where_def)

locale tenant_table =
  fixes idf tn :: "'v \<Rightarrow> string" and clash :: "'v \<Rightarrow> 'v \<Rightarrow> bool"
  assumes clash_sym: "clash x y \<Longrightarrow> clash y x"
begin

lemma rel_refl: "tab_rel idf tn clash t m m"
  by (simp add: tab_rel_def)

lemma rel_trans: "tab_rel idf tn clash t m m1 \<Longrightarrow> tab_rel idf tn clash t m1 m2 \<Longrightarrow> tab_rel idf tn clash t m m2"
  by (simp add: tab_rel_def)

lemma tab_relI:
  assumes "tab_ok idf m \<Longrightarrow> tab_ok idf m'" and "tab_ok idf m \<Longrightarrow> foreign tn t m' = foreign tn t m"
    and "\<And>x y. rows_ok idf clash m \<Longrightarrow> x \<in> set (vals m') \<Longrightarrow> y \<in> set (vals m') \<Longrightarrow> idf x \<noteq> idf y \<Longrightarrow> \<not> clash x y"
  shows "tab_rel idf tn clash t m m'"
  unfolding tab_rel_def using assms(3) by (metis assms(1,2) rows_ok_def)

lemma rows_ok_clash: "rows_ok idf clash m \<Longrightarrow> x \<in> set (vals m) \<Longrightarrow> y \<in> set (vals m) \<Longrightarrow> idf x \<noteq> idf y \<Longrightarrow> \<not> clash x y"
  unfolding rows_ok_def by blast

lemma rel_replace_gen:
  assumes "idf v = k" and "tn v = t" and "\<And>old. map_of m k = Some old \<Longrightarrow> tn old = t"
    and "\<And>y. y \<in> set (vals m) \<Longrightarrow> idf y \<noteq> k \<Longrightarrow> \<not> clash y v"
  shows "tab_rel idf tn clash t m (AList.update k v m)"
proof (rule tab_relI)
  assume "tab_ok idf m"
  then show "tab_ok idf (AList.update k v m)" using assms(1) by (rule tab_ok_update)
  show "foreign tn t (AList.update k v m) = foreign tn t m"
    using assms(2,3) \<open>tab_ok idf m\<close> by (intro foreign_update) (simp_all add: tab_ok_def)
next
  fix x y
  assume "rows_ok idf clash m" "idf x \<noteq> idf y"
    and "x \<in> set (vals (AList.update k v m))" "y \<in> set (vals (AList.update k v m))"
  moreover have "\<not> clash z v \<and> \<not> clash v z" if "z \<in> set (vals m)" "idf z \<noteq> idf v" for z
    using that assms(1,4) clash_sym [of v z] by auto
  ultimately show "\<not> clash x y"
    using set_vals_update [of k v m] rows_ok_clash [of m x y] by (metis insertE subsetD)
qed

lemma rel_insert:
  assumes "map_of m k = None" and "idf v = k" and "tn v = t" and "\<And>y. y \<in> set (vals m) \<Longrightarrow> \<not> clash y v"
  shows "tab_rel idf tn clash t m (AList.update k v m)"
  using assms by (intro rel_replace_gen) simp_all

lemma rel_replace:
  assumes "map_of m k = Some old" and "tn old = t" and "idf v = k" and "tn v = t"
    and "\<And>y. y \<in> set (vals m) \<Longrightarrow> idf y \<noteq> k \<Longrightarrow> \<not> clash y v"
  shows "tab_rel idf tn clash t m (AList.update k v m)"
  using assms by (intro rel_replace_gen) simp_all

lemma rel_delete:
  assumes "map_of m k = Some old" and "tn old = t"
  shows "tab_rel idf tn clash t m (AList.delete k m)"
proof (rule tab_relI)
  assume "tab_ok idf m"
  then show "tab_ok idf (AList.delete k m)" by (rule tab_ok_delete)
  show "foreign tn t (AList.delete k m) = foreign tn t m"
    using assms \<open>tab_ok idf m\<close> by (intro foreign_delete) (simp_all add: tab_ok_def)
qed (use set_vals_delete [of k m] rows_ok_clash [of m] in blast)

text \<open>The same two writes when the row is known only through the table's own well-formedness.\<close>

lemma rel_edit:
  assumes "map_of m k = Some old" and "tn old = t" and "idf old = k \<Longrightarrow> idf v = k" and "tn v = t"
    and "\<And>y. y \<in> set (vals m) \<Longrightarrow> idf y \<noteq> k \<Longrightarrow> \<not> clash y v"
  shows "tab_rel idf tn clash t m (AList.update k v m)"
  using assms rows_ok_lookup [of idf clash m k old] by (intro tab_rel_if_ok [OF rel_replace]) auto

lemma rel_delete_found:
  assumes "find (\<lambda>(k, v). p v) m = Some (k, old)" and "p old \<Longrightarrow> tn old = t"
  shows "tab_rel idf tn clash t m (AList.delete k m)"
  using assms rows_ok_find [OF _ assms(1), of idf clash] by (intro tab_rel_if_ok [OF rel_delete]) auto

lemma rel_delete_where:
  assumes "\<And>v. p v \<Longrightarrow> tn v = t"
  shows "tab_rel idf tn clash t m (delete_where p m)"
proof (rule tab_relI)
  show "foreign tn t (delete_where p m) = foreign tn t m"
    using assms by (rule foreign_delete_where)
qed (use rows_ok_clash [of m] in \<open>auto simp only: tab_ok_delete_where set_vals_delete_where\<close>)

lemma rel_update_where:
  assumes "\<And>v. p v \<Longrightarrow> tn v = t" and "\<And>v. tn (f v) = tn v" and "\<And>v. idf (f v) = idf v"
    and "\<And>v y. clash (f v) y \<Longrightarrow> clash v y"
  shows "tab_rel idf tn clash t m (update_where p f m)"
proof (rule tab_relI)
  show "tab_ok idf (update_where p f m)" if "tab_ok idf m"
    using that assms(3) by (rule tab_ok_update_where)
  show "foreign tn t (update_where p f m) = foreign tn t m"
    using assms(1,2) by (rule foreign_update_where)
next
  let ?g = "\<lambda>v. if p v then f v else v"
  fix x y
  assume ok: "rows_ok idf clash m" and ne: "idf x \<noteq> idf y"
    and "x \<in> set (vals (update_where p f m))" "y \<in> set (vals (update_where p f m))"
  then obtain x0 y0 where xy: "x = ?g x0" "y = ?g y0" "x0 \<in> set (vals m)" "y0 \<in> set (vals m)"
    by (auto simp only: set_vals_update_where)
  have g: "clash (?g u) z \<Longrightarrow> clash u z" for u z
    by (cases "p u") (auto dest: assms(4))
  have "idf (?g u) = idf u" for u
    using assms(3) by simp
  then have "idf x0 \<noteq> idf y0"
    using ne xy(1,2) by simp
  then show "\<not> clash x y"
    using rows_ok_clash [OF ok xy(3,4)] g clash_sym xy(1,2) by blast
qed

end

section \<open>The tables of the store\<close>

text \<open>The uniqueness each table promises: the unique indexes of the SQL schema, checked by hand here.\<close>

definition tag_clash :: "Asset \<Rightarrow> Asset \<Rightarrow> bool" where
  "tag_clash x y \<longleftrightarrow> a_TenantID x = a_TenantID y \<and> a_AssetTag x = a_AssetTag y"

definition key_clash :: "Document \<Rightarrow> Document \<Rightarrow> bool" where
  "key_clash x y \<longleftrightarrow> d_PaperlessDocumentID x = [] \<and> d_PaperlessDocumentID y = [] \<and> d_StorageKey x = d_StorageKey y"

definition sibling_clash :: "Category \<Rightarrow> Category \<Rightarrow> bool" where
  "sibling_clash x y \<longleftrightarrow> c_TenantID x = c_TenantID y \<and> c_Name x = c_Name y \<and> c_ParentID x = c_ParentID y"

definition supplier_clash :: "Supplier \<Rightarrow> Supplier \<Rightarrow> bool" where
  "supplier_clash x y \<longleftrightarrow> s_TenantID x = s_TenantID y \<and> s_Name x = s_Name y"

definition location_clash :: "Location \<Rightarrow> Location \<Rightarrow> bool" where
  "location_clash x y \<longleftrightarrow> l_TenantID x = l_TenantID y \<and> l_Name x = l_Name y"

definition policy_clash :: "InsurancePolicy \<Rightarrow> InsurancePolicy \<Rightarrow> bool" where
  "policy_clash x y \<longleftrightarrow> p_TenantID x = p_TenantID y \<and> (p_PolicyNumber x = p_PolicyNumber y \<or> p_Name x = p_Name y)"

definition cover_clash :: "PolicyAsset \<Rightarrow> PolicyAsset \<Rightarrow> bool" where
  "cover_clash x y \<longleftrightarrow> q_PolicyID x = q_PolicyID y \<and> q_AssetID x = q_AssetID y"

definition no_clash :: "'v \<Rightarrow> 'v \<Rightarrow> bool" where
  "no_clash x y \<longleftrightarrow> False"

lemmas clash_defs = tag_clash_def key_clash_def sibling_clash_def supplier_clash_def location_clash_def policy_clash_def cover_clash_def no_clash_def

interpretation assets_tab: tenant_table a_ID a_TenantID tag_clash
  by unfold_locales (auto simp: clash_defs)

interpretation assignments_tab: tenant_table g_ID g_TenantID no_clash
  by unfold_locales (auto simp: clash_defs)

interpretation documents_tab: tenant_table d_ID d_TenantID key_clash
  by unfold_locales (auto simp: clash_defs)

interpretation categories_tab: tenant_table c_ID c_TenantID sibling_clash
  by unfold_locales (auto simp: clash_defs)

interpretation suppliers_tab: tenant_table s_ID s_TenantID supplier_clash
  by unfold_locales (auto simp: clash_defs)

interpretation locations_tab: tenant_table l_ID l_TenantID location_clash
  by unfold_locales (auto simp: clash_defs)

interpretation consumables_tab: tenant_table n_ID n_TenantID no_clash
  by unfold_locales (auto simp: clash_defs)

interpretation licenses_tab: tenant_table i_ID i_TenantID no_clash
  by unfold_locales (auto simp: clash_defs)

interpretation insurance_tab: tenant_table p_ID p_TenantID policy_clash
  by unfold_locales (auto simp: clash_defs)

interpretation policyAssets_tab: tenant_table q_ID q_TenantID cover_clash
  by unfold_locales (auto simp: clash_defs)

lemmas same_table = assets_tab.rel_refl assignments_tab.rel_refl documents_tab.rel_refl categories_tab.rel_refl
  suppliers_tab.rel_refl locations_tab.rel_refl consumables_tab.rel_refl licenses_tab.rel_refl
  insurance_tab.rel_refl policyAssets_tab.rel_refl

lemmas insert_row = assets_tab.rel_insert assignments_tab.rel_insert documents_tab.rel_insert categories_tab.rel_insert
  suppliers_tab.rel_insert locations_tab.rel_insert consumables_tab.rel_insert licenses_tab.rel_insert
  insurance_tab.rel_insert policyAssets_tab.rel_insert

lemmas replace_row = assets_tab.rel_replace assignments_tab.rel_replace documents_tab.rel_replace categories_tab.rel_replace
  suppliers_tab.rel_replace locations_tab.rel_replace consumables_tab.rel_replace licenses_tab.rel_replace
  insurance_tab.rel_replace policyAssets_tab.rel_replace

lemmas remove_rows = assets_tab.rel_delete assignments_tab.rel_delete documents_tab.rel_delete categories_tab.rel_delete
  suppliers_tab.rel_delete locations_tab.rel_delete consumables_tab.rel_delete licenses_tab.rel_delete
  insurance_tab.rel_delete policyAssets_tab.rel_delete
  assets_tab.rel_delete_where assignments_tab.rel_delete_where documents_tab.rel_delete_where categories_tab.rel_delete_where
  suppliers_tab.rel_delete_where locations_tab.rel_delete_where consumables_tab.rel_delete_where licenses_tab.rel_delete_where
  insurance_tab.rel_delete_where policyAssets_tab.rel_delete_where

lemmas change_rows = assets_tab.rel_update_where assignments_tab.rel_update_where documents_tab.rel_update_where categories_tab.rel_update_where
  suppliers_tab.rel_update_where locations_tab.rel_update_where consumables_tab.rel_update_where licenses_tab.rel_update_where
  insurance_tab.rel_update_where policyAssets_tab.rel_update_where

definition owned_rows :: "string \<Rightarrow> 'z mem_scheme \<Rightarrow> 'z mem_scheme \<Rightarrow> bool" where
  "owned_rows t w w' \<longleftrightarrow> wall w' = wall w \<and> notify w' = notify w
     \<and> tab_rel a_ID a_TenantID tag_clash t (assets w) (assets w')
     \<and> tab_rel g_ID g_TenantID no_clash t (assignments w) (assignments w')
     \<and> tab_rel d_ID d_TenantID key_clash t (documents w) (documents w')
     \<and> tab_rel c_ID c_TenantID sibling_clash t (categories w) (categories w')
     \<and> tab_rel s_ID s_TenantID supplier_clash t (suppliers w) (suppliers w')
     \<and> tab_rel l_ID l_TenantID location_clash t (locations w) (locations w')
     \<and> tab_rel n_ID n_TenantID no_clash t (consumables w) (consumables w')
     \<and> tab_rel i_ID i_TenantID no_clash t (licenses w) (licenses w')
     \<and> tab_rel p_ID p_TenantID policy_clash t (insurance w) (insurance w')
     \<and> tab_rel q_ID q_TenantID cover_clash t (policyAssets w) (policyAssets w')
     \<and> (\<forall>k. k \<noteq> t \<longrightarrow> map_of (invsync w') k = map_of (invsync w) k)
     \<and> (\<exists>rows. audit w' = audit w @ rows \<and> (\<forall>r\<in>set rows. r_TenantID r = t))"

definition owned :: "string \<Rightarrow> 'z mem_scheme \<Rightarrow> 'z mem_scheme \<Rightarrow> bool" where
  "owned t w w' \<longleftrightarrow> owned_rows t w w' \<and> mem.more w' = mem.more w"

definition mem_ok :: "'z mem_scheme \<Rightarrow> bool" where
  "mem_ok w \<longleftrightarrow> rows_ok a_ID tag_clash (assets w)
     \<and> rows_ok g_ID no_clash (assignments w)
     \<and> rows_ok d_ID key_clash (documents w)
     \<and> rows_ok c_ID sibling_clash (categories w)
     \<and> rows_ok s_ID supplier_clash (suppliers w)
     \<and> rows_ok l_ID location_clash (locations w)
     \<and> rows_ok n_ID no_clash (consumables w)
     \<and> rows_ok i_ID no_clash (licenses w)
     \<and> rows_ok p_ID policy_clash (insurance w)
     \<and> rows_ok q_ID cover_clash (policyAssets w)"

lemma owned_rows_mem_ok: "owned_rows t w w' \<Longrightarrow> mem_ok w \<Longrightarrow> mem_ok w'"
  by (simp add: owned_rows_def mem_ok_def tab_rel_def)

lemma owned_rows_refl: "owned_rows t w w"
  by (simp add: owned_rows_def same_table)

lemma owned_rows_trans: "owned_rows t w w1 \<Longrightarrow> owned_rows t w1 w2 \<Longrightarrow> owned_rows t w w2"
  unfolding owned_rows_def
  by (elim conjE exE, intro conjI; (erule (1) assets_tab.rel_trans assignments_tab.rel_trans documents_tab.rel_trans
    categories_tab.rel_trans suppliers_tab.rel_trans locations_tab.rel_trans consumables_tab.rel_trans
    licenses_tab.rel_trans insurance_tab.rel_trans policyAssets_tab.rel_trans | force))

lemma owned_refl: "owned t w w"
  by (simp add: owned_def owned_rows_refl)

lemma owned_trans: "owned t w w1 \<Longrightarrow> owned t w1 w2 \<Longrightarrow> owned t w w2"
  unfolding owned_def by (metis owned_rows_trans)

interpretation own: io_relation "owned t" for t
  by unfold_locales (fact owned_refl, erule (1) owned_trans)

section \<open>Reading methods\<close>

text \<open>A reading method can only consume an armed failure: no table, clock or extension changes.\<close>

lemma same_owned: "same w w' \<Longrightarrow> owned t w w'"
  using owned_refl [of t w] unfolding same_def owned_def owned_rows_def by (auto dest: core_tables)

lemma state_io_rel_mono:
  assumes "state_io_rel R m" and "\<And>s s'. R s s' \<Longrightarrow> R' s s'"
  shows "state_io_rel R' m"
  using assms by (simp add: state_io_rel_def)

interpretation unch: io_relation same
  by unfold_locales (auto simp: same_def)

lemma same_guarded:
  assumes "state_io_rel same m"
  shows "state_io_rel same (guarded method m)"
  using assms by (auto simp: state_io_rel_def run_guarded same_def)

lemma same_get [intro]:
  assumes "\<And>w. state_io_rel same (f w)"
  shows "state_io_rel same (State_Monad.bind State_Monad.get f)"
  using assms by (simp add: state_io_rel_def)

lemmas same_rules = same_guarded same_get unch.io_rules

lemma same_methods:
  "state_io_rel same (GetAsset t i)"
  "state_io_rel same (FindAssetByTag t x)"
  "state_io_rel same (FindAssetBySerial t x)"
  "state_io_rel same (ListAssets uni t f)"
  "state_io_rel same (CountAssetsByCategory t i)"
  "state_io_rel same (CountAssetsBySupplier t i)"
  "state_io_rel same (CountAssetsByLocation t i)"
  "state_io_rel same (AllAssets t)"
  "state_io_rel same (ListAssignments t i n)"
  "state_io_rel same (GetDocument t i)"
  "state_io_rel same (ListDocuments t x i)"
  "state_io_rel same (ListDocumentsByPaperlessIDs t ids)"
  "state_io_rel same (ListUnmigratedDocuments n)"
  "state_io_rel same (GetInvSyncSettings t)"
  "state_io_rel same (GetConsumable t i)"
  "state_io_rel same (ListConsumables uni t opts)"
  "state_io_rel same (AllConsumables t)"
  "state_io_rel same (GetLicense t i)"
  "state_io_rel same (ListLicenses uni t opts)"
  "state_io_rel same (AllLicenses t)"
  "state_io_rel same (GetInsurance t i)"
  "state_io_rel same (ListInsurance uni t opts)"
  "state_io_rel same (AllInsurance t)"
  "state_io_rel same (ListPolicyAssets t i)"
  "state_io_rel same (GetNotifyState t x)"
  "state_io_rel same (TenantStats t)"
  "state_io_rel same (TenantIDs)"
  "state_io_rel same (GetCategory t i)"
  "state_io_rel same (ListCategories t)"
  "state_io_rel same (CountChildCategories t i)"
  "state_io_rel same (GetSupplier t i)"
  "state_io_rel same (ListSuppliers uni t opts)"
  "state_io_rel same (GetLocation t i)"
  "state_io_rel same (ListLocations t)"
  "state_io_rel same (CountChildLocations t i)"
  unfolding counting_def Let_def GetAsset_def FindAssetByTag_def FindAssetBySerial_def ListAssets_def CountAssetsByCategory_def
    CountAssetsBySupplier_def CountAssetsByLocation_def AllAssets_def ListAssignments_def GetDocument_def
    ListDocuments_def ListDocumentsByPaperlessIDs_def ListUnmigratedDocuments_def GetInvSyncSettings_def GetConsumable_def
    ListConsumables_def AllConsumables_def GetLicense_def ListLicenses_def AllLicenses_def
    GetInsurance_def ListInsurance_def AllInsurance_def ListPolicyAssets_def GetNotifyState_def
    TenantStats_def TenantIDs_def GetCategory_def ListCategories_def CountChildCategories_def
    GetSupplier_def ListSuppliers_def GetLocation_def ListLocations_def CountChildLocations_def
  by (intro same_rules)+

lemma ownedI: "state_io_rel same m \<Longrightarrow> state_io_rel (owned t) m"
  by (erule state_io_rel_mono) (rule same_owned)

lemmas owned_reads = same_methods [THEN ownedI]

section \<open>Writing methods\<close>

lemma owned_guarded:
  assumes "state_io_rel (owned t) m"
  shows "state_io_rel (owned t) (guarded method m)"
proof -
  have "owned t w (w\<lparr>failNext := failNext w - {method}\<rparr>)" for w :: "'a mem_scheme"
    by (rule same_owned) (auto simp: same_def)
  with assms show ?thesis
    by (auto simp: state_io_rel_def run_guarded)
qed

lemma owned_NewID: "state_io_rel (owned t) NewID"
  by (auto simp: state_io_rel_def same_def intro!: same_owned)

text \<open>How a program made for \<open>t\<close> may write: one table at a time, each as the table's contract allows.\<close>

lemma owned_writeI:
  assumes "\<And>w. owned t w (snd (run_state m w))"
  shows "state_io_rel (owned t) m"
  using assms by (simp add: state_io_rel_def)

lemmas write_simps = owned_def owned_rows_def autoTag_def asset_tag_taken_def list_ex_iff clash_defs Let_def

lemma owned_creates:
  "a_TenantID a = t \<Longrightarrow> state_io_rel (owned t) (CreateAsset a)"
  "g_TenantID g = t \<Longrightarrow> state_io_rel (owned t) (InsertAssignment g)"
  "c_TenantID c = t \<Longrightarrow> state_io_rel (owned t) (CreateCategory c)"
  "s_TenantID s = t \<Longrightarrow> state_io_rel (owned t) (CreateSupplier s)"
  "l_TenantID l = t \<Longrightarrow> state_io_rel (owned t) (CreateLocation l)"
  "n_TenantID n = t \<Longrightarrow> state_io_rel (owned t) (CreateConsumable n)"
  "i_TenantID i = t \<Longrightarrow> state_io_rel (owned t) (CreateLicense i)"
  "p_TenantID p = t \<Longrightarrow> state_io_rel (owned t) (CreateInsurance p)"
  "q_TenantID q = t \<Longrightarrow> state_io_rel (owned t) (AddPolicyAsset q)"
  unfolding CreateAsset_def InsertAssignment_def CreateCategory_def CreateSupplier_def CreateLocation_def CreateConsumable_def CreateLicense_def CreateInsurance_def AddPolicyAsset_def
  by (intro owned_guarded owned_writeI, auto simp: write_simps intro!: same_table insert_row)+

lemma owned_InsertDocument: "d_TenantID d = t \<Longrightarrow> state_io_rel (owned t) (InsertDocument d)"
  unfolding InsertDocument_def
  by (intro owned_guarded owned_writeI) (auto simp: write_simps intro!: same_table insert_row)

lemma owned_updates:
  "a_TenantID a = t \<Longrightarrow> state_io_rel (owned t) (UpdateAsset a)"
  "c_TenantID c = t \<Longrightarrow> state_io_rel (owned t) (UpdateCategory c)"
  "s_TenantID s = t \<Longrightarrow> state_io_rel (owned t) (UpdateSupplier s)"
  "l_TenantID l = t \<Longrightarrow> state_io_rel (owned t) (UpdateLocation l)"
  "n_TenantID n = t \<Longrightarrow> state_io_rel (owned t) (UpdateConsumable n)"
  "i_TenantID i = t \<Longrightarrow> state_io_rel (owned t) (UpdateLicense i)"
  "p_TenantID p = t \<Longrightarrow> state_io_rel (owned t) (UpdateInsurance p)"
  unfolding UpdateAsset_def UpdateCategory_def UpdateSupplier_def UpdateLocation_def UpdateConsumable_def UpdateLicense_def UpdateInsurance_def
  by (intro owned_guarded owned_writeI, auto simp: write_simps split: option.split intro!: same_table replace_row)+

lemma owned_deletes:
  "state_io_rel (owned t) (DeleteAsset t i)"
  "state_io_rel (owned t) (DeleteDocument t i)"
  "state_io_rel (owned t) (DeleteCategory t i)"
  "state_io_rel (owned t) (DeleteSupplier t i)"
  "state_io_rel (owned t) (DeleteLocation t i)"
  "state_io_rel (owned t) (DeleteConsumable t i)"
  "state_io_rel (owned t) (DeleteLicense t i)"
  "state_io_rel (owned t) (DeleteInsurance t i)"
  unfolding DeleteAsset_def DeleteDocument_def DeleteCategory_def DeleteSupplier_def DeleteLocation_def DeleteConsumable_def DeleteLicense_def DeleteInsurance_def
  by (intro owned_guarded owned_writeI, auto simp: write_simps split: option.split intro!: same_table remove_rows change_rows)+

lemma owned_CloseActiveAssignment: "state_io_rel (owned t) (CloseActiveAssignment t i at0)"
  unfolding CloseActiveAssignment_def
  by (intro owned_guarded owned_writeI) (auto simp: write_simps intro!: same_table change_rows)

lemma owned_MoveDocumentToPaperless:
  "paperlessID \<noteq> [] \<Longrightarrow> state_io_rel (owned t) (MoveDocumentToPaperless t i paperlessID)"
  unfolding MoveDocumentToPaperless_def
  by (intro owned_guarded owned_writeI)
    (auto simp: write_simps split: option.split intro!: same_table documents_tab.rel_edit)

lemma owned_PutInvSyncSettings: "v_TenantID s = t \<Longrightarrow> state_io_rel (owned t) (PutInvSyncSettings s)"
  unfolding PutInvSyncSettings_def
  by (intro owned_guarded owned_writeI) (auto simp: write_simps update_conv intro!: same_table)

lemma owned_RemovePolicyAsset: "state_io_rel (owned t) (RemovePolicyAsset t i j)"
  unfolding RemovePolicyAsset_def
  by (intro owned_guarded owned_writeI)
    (auto simp: write_simps split: option.split intro!: same_table policyAssets_tab.rel_delete_found)

lemma owned_AppendAudit: "r_TenantID r = t \<Longrightarrow> state_io_rel (owned t) (AppendAudit r)"
  unfolding AppendAudit_def
  by (intro owned_guarded owned_writeI) (auto simp: write_simps intro!: same_table)

lemmas owned_methods = owned_creates owned_InsertDocument owned_updates owned_deletes owned_CloseActiveAssignment
  owned_MoveDocumentToPaperless owned_PutInvSyncSettings owned_RemovePolicyAsset owned_AppendAudit owned_NewID owned_reads

end
