(* ===== verification/Audit_Log.thy ===== *)
theory Audit_Log
  imports Tenancy
begin

text \<open>
  \<^verbatim>\<open>internal/audit/audit.go\<close>: the closed vocabulary, the detail guard, and the writer with its bounded
  queue. The background goroutine is the step \<open>run_step\<close>, which takes one row off the queue; \<open>Flush\<close> and
  \<open>Close\<close> drain it. Error values stand for the messages of the source.
\<close>

datatype audit_err =
    UnknownEvent string
  | TenantMissing
  | BadActorKind string
  | BadSubjectKind string
  | BadOutcome string
  | WriterClosed
  | QueueFull
  | WriteErr repo_err

abbreviation OutcomeOK :: string where "OutcomeOK \<equiv> ''ok''"
abbreviation OutcomeRefused :: string where "OutcomeRefused \<equiv> ''refused''"
abbreviation OutcomeError :: string where "OutcomeError \<equiv> ''error''"

definition known :: "string list" where
  "known = [''asset_created'', ''asset_updated'', ''asset_deleted'', ''category_created'', ''category_updated'',
     ''category_deleted'', ''supplier_created'', ''supplier_updated'', ''supplier_deleted'', ''location_created'',
     ''location_updated'', ''location_deleted'', ''consumable_created'', ''consumable_updated'', ''consumable_deleted'',
     ''license_created'', ''license_updated'', ''license_deleted'', ''insurance_created'', ''insurance_updated'',
     ''insurance_deleted'', ''asset_assigned'', ''asset_unassigned'', ''photo_uploaded'', ''photo_deleted'',
     ''document_uploaded'', ''document_deleted'', ''policy_asset_added'', ''policy_asset_removed'',
     ''inventory_sync_previewed'', ''inventory_sync_executed'', ''inventory_sync_settings_updated'',
     ''documents_migrated'', ''license_expired'', ''insurance_expired'', ''backup_exported'', ''backup_imported'',
     ''access_refused'']"

definition subject_kinds :: "string list" where
  "subject_kinds = [''asset'', ''assignment'', ''document'', ''category'', ''supplier'', ''location'', ''consumable'',
     ''license'', ''insurance'', ''policy_asset'', ''sync'', ''backup'', ''system'']"

record Event =
  e_TenantID :: string
  e_EventType :: string
  e_ActorKind :: string
  e_ActorID :: string
  e_SubjectKind :: string
  e_SubjectID :: string
  e_Outcome :: string
  e_Reason :: string
  e_Details :: "any tab"

definition Validate :: "Event \<Rightarrow> audit_err + unit" where
  "Validate e =
     (if e_EventType e \<notin> set known then Inl (UnknownEvent (e_EventType e))
      else if e_TenantID e = [] then Inl TenantMissing
      else if e_ActorKind e \<notin> {ActorUser, ActorService, ActorSystem} then Inl (BadActorKind (e_ActorKind e))
      else if e_SubjectKind e \<notin> set subject_kinds then Inl (BadSubjectKind (e_SubjectKind e))
      else if e_Outcome e \<notin> {OutcomeOK, OutcomeRefused, OutcomeError} then Inl (BadOutcome (e_Outcome e))
      else Inr ())"

section \<open>The detail guard\<close>

definition forbidden :: "string list" where
  "forbidden = [''secret'', ''credential'', ''contact'', ''email'', ''phone'', ''telephone'', ''password'']"

definition forbiddenKey :: "(string \<Rightarrow> string) \<Rightarrow> string \<Rightarrow> bool" where
  "forbiddenKey uni k = (let lk = ToLower uni k in list_ex (\<lambda>f. Contains lk f) forbidden)"

fun guardValue :: "(string \<Rightarrow> string) \<Rightarrow> any \<Rightarrow> any" where
  "guardValue uni (AStr x) = AStr (if length x > 256 then take 256 x else x)"
| "guardValue uni (AMap m) = AMap (map (\<lambda>(k, v). (k, guardValue uni v)) (filter (\<lambda>(k, v). \<not> forbiddenKey uni k) m))"
| "guardValue uni (AList xs) = AList (map (guardValue uni) xs)"
| "guardValue uni v = v"

definition guardMap :: "(string \<Rightarrow> string) \<Rightarrow> any tab \<Rightarrow> any tab" where
  "guardMap uni m = map (\<lambda>(k, v). (k, guardValue uni v)) (filter (\<lambda>(k, v). \<not> forbiddenKey uni k) m)"

section \<open>The writer\<close>

record auditing = mem +
  queue :: "AuditRow list"
  queueCap :: nat
  closed :: bool
  dropped :: int
  reported :: "audit_err list"

text \<open>\<^verbatim>\<open>NewWriter\<close>: an empty queue of 10000 rows.\<close>

definition NewWriter :: "('z auditing_scheme, unit) state" where
  "NewWriter = State_Monad.update (\<lambda>w. w\<lparr>queue := [], queueCap := 10000, closed := False, dropped := 0, reported := []\<rparr>)"

definition Record :: "(string \<Rightarrow> string) \<Rightarrow> Event \<Rightarrow> ('z auditing_scheme, audit_err, unit) prog" where
  "Record uni e = (case Validate e of Inl err \<Rightarrow> fail_with err | Inr _ \<Rightarrow> do {
     i \<leftarrow> NewID;
     w \<leftarrow> State_Monad.get;
     let row = \<lparr>r_ID = i, r_TenantID = e_TenantID e, r_At = wall w, r_ActorKind = e_ActorKind e, r_ActorID = e_ActorID e,
       r_Action = e_EventType e, r_SubjectKind = e_SubjectKind e, r_SubjectID = e_SubjectID e,
       r_Outcome = e_Outcome e, r_Reason = e_Reason e, r_Detail = guardMap uni (e_Details e)\<rparr>;
     if closed w then do { State_Monad.update (\<lambda>w. w\<lparr>dropped := dropped w + 1\<rparr>); fail_with WriterClosed }
     else if length (queue w) < queueCap w then do { State_Monad.update (\<lambda>w. w\<lparr>queue := queue w @ [row]\<rparr>); ok () }
     else do { State_Monad.update (\<lambda>w. w\<lparr>dropped := dropped w + 1, reported := reported w @ [QueueFull]\<rparr>); ok () }
   })"

definition writeRow :: "AuditRow \<Rightarrow> ('z auditing_scheme, unit) state" where
  "writeRow r = do {
     res \<leftarrow> AppendAudit r;
     case res of Inl e \<Rightarrow> State_Monad.update (\<lambda>w. w\<lparr>reported := reported w @ [WriteErr e]\<rparr>) | Inr _ \<Rightarrow> State_Monad.return ()
   }"

text \<open>One receive of \<^verbatim>\<open>run\<close>: nothing happens on an empty queue.\<close>

definition run_step :: "('z auditing_scheme, unit) state" where
  "run_step = do {
     w \<leftarrow> State_Monad.get;
     case queue w of
       [] \<Rightarrow> State_Monad.return ()
     | r # rs \<Rightarrow> do { State_Monad.update (\<lambda>w. w\<lparr>queue := rs\<rparr>); writeRow r }
   }"

text \<open>The inner loop of \<^verbatim>\<open>run\<close>: receive until the queue is empty.\<close>

definition drain :: "('z auditing_scheme, unit) state" where
  "drain = do { w \<leftarrow> State_Monad.get; for_each (queue w) (\<lambda>_. run_step) }"

definition Flush :: "('z auditing_scheme, unit) state" where
  "Flush = do { w \<leftarrow> State_Monad.get; if closed w then State_Monad.return () else drain }"

definition Close :: "('z auditing_scheme, unit) state" where
  "Close = do {
     w \<leftarrow> State_Monad.get;
     if closed w then State_Monad.return ()
     else do { State_Monad.update (\<lambda>w. w\<lparr>closed := True\<rparr>); drain }
   }"

text \<open>\<open>aud\<close> tells whether the service was wired with a recorder.\<close>

definition Emit :: "(string \<Rightarrow> string) \<Rightarrow> bool \<Rightarrow> Event \<Rightarrow> ('z auditing_scheme, unit) state" where
  "Emit uni aud e = (if \<not> aud then State_Monad.return () else do { _ \<leftarrow> Record uni e; State_Monad.return () })"

section \<open>What the guard removes\<close>

text \<open>Nothing forbidden and no long string, through \<^verbatim>\<open>map[string]any\<close> and \<^verbatim>\<open>[]any\<close> at every depth.\<close>

fun clean_value :: "(string \<Rightarrow> string) \<Rightarrow> any \<Rightarrow> bool" where
  "clean_value uni (AStr x) = (length x \<le> 256)"
| "clean_value uni (AMap m) = list_all (\<lambda>(k, v). \<not> forbiddenKey uni k \<and> clean_value uni v) m"
| "clean_value uni (AList xs) = list_all (clean_value uni) xs"
| "clean_value uni v = True"

definition clean_details :: "(string \<Rightarrow> string) \<Rightarrow> any tab \<Rightarrow> bool" where
  "clean_details uni m = clean_value uni (AMap m)"

lemma clean_guardValue: "clean_value uni (guardValue uni v)"
  by (induction uni v rule: guardValue.induct) (auto simp: list_all_iff)

lemma guardValue_clean: "clean_value uni v \<Longrightarrow> guardValue uni v = v"
proof (induction uni v rule: guardValue.induct)
  case (2 uni m)
  then have "filter (\<lambda>(k, v). \<not> forbiddenKey uni k) m = m"
    by (auto simp: list_all_iff intro!: filter_True)
  moreover from this have "map (\<lambda>(k, v). (k, guardValue uni v)) m = m"
    using 2 by (intro map_idI) (auto simp: list_all_iff)
  ultimately show ?case by simp
next
  case (3 uni xs)
  then show ?case by (auto simp: list_all_iff intro!: map_idI)
qed simp_all

lemma guardMap_AMap: "guardValue uni (AMap m) = AMap (guardMap uni m)"
  by (simp add: guardMap_def)

lemma clean_guardMap: "clean_details uni (guardMap uni m)"
  using clean_guardValue [of uni "AMap m"] by (simp only: guardMap_AMap clean_details_def)

lemma map_of_guardMap:
  "map_of (guardMap uni m) k = (if forbiddenKey uni k then None else map_option (guardValue uni) (map_of m k))"
  by (induction m) (auto simp: guardMap_def)

lemma guardMap_guardMap: "guardMap uni (guardMap uni m) = guardMap uni m"
  using guardValue_clean [of uni "AMap (guardMap uni m)"] clean_guardMap [of uni m]
  by (simp only: guardMap_AMap clean_details_def any.inject)


section \<open>What the writer keeps\<close>

definition row_good :: "(string \<Rightarrow> string) \<Rightarrow> AuditRow \<Rightarrow> bool" where
  "row_good uni r \<longleftrightarrow> r_Action r \<in> set known \<and> r_TenantID r \<noteq> [] \<and> r_ActorKind r \<in> {ActorUser, ActorService, ActorSystem}
     \<and> r_SubjectKind r \<in> set subject_kinds \<and> r_Outcome r \<in> {OutcomeOK, OutcomeRefused, OutcomeError}
     \<and> clean_details uni (r_Detail r)"

definition writer_ok :: "(string \<Rightarrow> string) \<Rightarrow> 'z auditing_scheme \<Rightarrow> bool" where
  "writer_ok uni w \<longleftrightarrow> length (queue w) \<le> queueCap w \<and> (\<forall>r\<in>set (audit w) \<union> set (queue w). row_good uni r)"

text \<open>Where a recorded event can be: stored, queued, dropped and counted, or refused by the store and reported.\<close>

definition accounted :: "'z auditing_scheme \<Rightarrow> int" where
  "accounted w = int (length (audit w)) + int (length (queue w)) + dropped w
     + int (length (filter (\<lambda>e. case e of WriteErr _ \<Rightarrow> True | _ \<Rightarrow> False) (reported w)))"

text \<open>What the writer is asked to do: record, receive one row in the background, flush, close.\<close>

datatype writer_op = WRecord Event | WReceive | WFlush | WClose

fun writer_step :: "(string \<Rightarrow> string) \<Rightarrow> writer_op \<Rightarrow> ('z auditing_scheme, unit) state" where
  "writer_step uni (WRecord e) = Emit uni True e"
| "writer_step uni WReceive = run_step"
| "writer_step uni WFlush = Flush"
| "writer_step uni WClose = Close"

definition recorded :: "writer_op list \<Rightarrow> int" where
  "recorded ops = int (length (filter (\<lambda>op. case op of WRecord e \<Rightarrow> Validate e = Inr () | _ \<Rightarrow> False) ops))"

lemma row_good_stamped [simp]: "row_good uni (r\<lparr>r_ID := i, r_At := x\<rparr>) = row_good uni r"
  by (simp add: row_good_def)

lemma Validate_cases: "Validate e = Inr () \<or> (\<exists>err. Validate e = Inl err)"
  by (cases "Validate e") simp_all

lemma row_good_event:
  assumes "Validate e = Inr ()"
  shows "row_good uni \<lparr>r_ID = i, r_TenantID = e_TenantID e, r_At = x, r_ActorKind = e_ActorKind e, r_ActorID = e_ActorID e,
       r_Action = e_EventType e, r_SubjectKind = e_SubjectKind e, r_SubjectID = e_SubjectID e,
       r_Outcome = e_Outcome e, r_Reason = e_Reason e, r_Detail = guardMap uni (e_Details e)\<rparr>"
proof -
  have "\<not> e_EventType e \<notin> set known" "e_TenantID e \<noteq> []" "\<not> e_ActorKind e \<notin> {ActorUser, ActorService, ActorSystem}"
    "\<not> e_SubjectKind e \<notin> set subject_kinds" "\<not> e_Outcome e \<notin> {OutcomeOK, OutcomeRefused, OutcomeError}"
    using assms unfolding Validate_def by (metis Inl_not_Inr)+
  then show ?thesis
    unfolding row_good_def using clean_guardMap by simp
qed

lemma writeRow_keeps:
  assumes "run_state (writeRow r) w = (u, w')" and "row_good uni r" and "writer_ok uni w"
  shows "writer_ok uni w' \<and> accounted w' = accounted w + 1 \<and> queueCap w' = queueCap w \<and> queue w' = queue w"
  using assms
  by (auto simp: writeRow_def AppendAudit_def run_guarded writer_ok_def accounted_def Let_def split: if_splits)

lemma run_step_keeps:
  assumes "run_state run_step w = (u, w')" and "writer_ok uni w"
  shows "writer_ok uni w' \<and> accounted w' = accounted w \<and> queueCap w' = queueCap w \<and> queue w' = tl (queue w)"
proof (cases "queue w")
  case Nil
  with assms show ?thesis by (simp add: run_step_def)
next
  case (Cons r rs)
  let ?v = "w\<lparr>queue := rs\<rparr>"
  have "run_state (writeRow r) ?v = (u, w')"
    using assms(1) Cons by (simp add: run_step_def)
  moreover have "row_good uni r" "writer_ok uni ?v" "accounted ?v = accounted w - 1"
    using assms(2) Cons by (auto simp: writer_ok_def accounted_def)
  ultimately show ?thesis
    using Cons writeRow_keeps [of r ?v u w' uni] by simp
qed

lemma drain_keeps:
  assumes "run_state (for_each xs (\<lambda>_. run_step)) w = (u, w')" and "writer_ok uni w"
  shows "writer_ok uni w' \<and> accounted w' = accounted w \<and> queueCap w' = queueCap w"
  using assms
proof (induction xs arbitrary: w)
  case Nil
  then show ?case by simp
next
  case (Cons x xs)
  obtain v where "run_state run_step w = ((), v)" by (rule run_unit)
  with Cons run_step_keeps [of w "()" v uni] show ?case by simp
qed

lemma Record_keeps:
  assumes "run_state (Record uni e) w = (res, w')" and "writer_ok uni w"
  shows "writer_ok uni w' \<and> accounted w' = accounted w + (if Validate e = Inr () then 1 else 0) \<and> queueCap w' = queueCap w"
proof (cases "Validate e")
  case (Inl err)
  with assms show ?thesis by (auto simp: Record_def)
next
  case (Inr u)
  with assms row_good_event [of e uni] show ?thesis
    by (auto simp: Record_def writer_ok_def accounted_def Let_def split: if_splits)
qed

lemma writer_step_keeps:
  assumes "run_state (writer_step uni op) w = (u, w')" and "writer_ok uni w"
  shows "writer_ok uni w' \<and> accounted w' = accounted w + recorded [op] \<and> queueCap w' = queueCap w"
proof (cases op)
  case (WRecord e)
  obtain res v where "run_state (Record uni e) w = (res, v)" by force
  with Record_keeps [OF this assms(2)] assms(1) WRecord show ?thesis
    by (simp add: Emit_def recorded_def)
next
  case WReceive
  with assms show ?thesis using run_step_keeps [of w u w' uni] by (simp add: recorded_def)
next
  case WFlush
  with assms show ?thesis using drain_keeps [of "queue w" w u w' uni]
    by (auto simp: recorded_def Flush_def drain_def split: if_splits)
next
  case WClose
  have "writer_ok uni (w\<lparr>closed := True\<rparr>)" "accounted (w\<lparr>closed := True\<rparr>) = accounted w"
    using assms(2) by (auto simp: writer_ok_def accounted_def)
  with WClose assms show ?thesis using drain_keeps [of "queue w" "w\<lparr>closed := True\<rparr>" u w' uni]
    by (auto simp: recorded_def Close_def drain_def split: if_splits)
qed

lemma writer_run_keeps:
  assumes "run_state (for_each ops (writer_step uni)) w = (u, w')" and "writer_ok uni w"
  shows "writer_ok uni w' \<and> accounted w' = accounted w + recorded ops \<and> queueCap w' = queueCap w"
  using assms
proof (induction ops arbitrary: w)
  case Nil
  then show ?case by (simp add: recorded_def)
next
  case (Cons op ops)
  obtain v where v: "run_state (writer_step uni op) w = ((), v)" by (rule run_unit)
  have "recorded (op # ops) = recorded [op] + recorded ops"
    by (simp add: recorded_def)
  with Cons v writer_step_keeps [OF v Cons.prems(2)] show ?case by simp
qed

text \<open>
  C6: the audit pipeline. Whatever sequence of records, background receives, flushes and a close a new
  writer sees, its queue stays within bounds, every queued or stored row is in the closed vocabulary with
  clean details, and no valid event disappears: stored, queued, dropped (and counted) and refused by
  the store (and reported) rows add up to the valid events recorded.
\<close>

theorem audit_accounting:
  assumes "audit w = []"
  shows "let w' = snd (run_state (do { NewWriter; for_each ops (writer_step uni) }) w) in
    length (queue w') \<le> 10000 \<and> (\<forall>r\<in>set (audit w') \<union> set (queue w'). row_good uni r) \<and> accounted w' = recorded ops"
proof -
  let ?v = "snd (run_state NewWriter w)"
  obtain w' where w': "run_state (for_each ops (writer_step uni)) ?v = ((), w')" by (rule run_unit)
  have "writer_ok uni ?v" "accounted ?v = 0" "queueCap ?v = 10000"
    using assms by (auto simp: NewWriter_def writer_ok_def accounted_def)
  with writer_run_keeps [OF w'] have "writer_ok uni w'" "accounted w' = recorded ops" "queueCap w' = 10000"
    by simp_all
  then show ?thesis
    using w' by (auto simp: writer_ok_def Let_def split: prod.splits)
qed

definition audit_demo :: auditing where
  "audit_demo = \<lparr>wall = 5, rnd = (\<lambda>_. 0), idLast = 0, idSeq = 0, assets = [], assignments = [], documents = [], invsync = [],
     categories = [], suppliers = [], locations = [], consumables = [], licenses = [], insurance = [], policyAssets = [],
     notify = [], audit = [], failNext = {''AppendAudit''}, queue = [], queueCap = 0, closed = True, dropped = 0, reported = []\<rparr>"

definition event_demo :: Event where
  "event_demo = \<lparr>e_TenantID = ''t'', e_EventType = ''asset_created'', e_ActorKind = ActorUser, e_ActorID = ''u'',
     e_SubjectKind = ''asset'', e_SubjectID = ''a'', e_Outcome = OutcomeOK, e_Reason = [], e_Details = []\<rparr>"

theorem audit_accounting_witness:
  "accounted (snd (run_state (do { NewWriter; for_each [WRecord event_demo, WFlush, WRecord event_demo, WClose, WRecord event_demo]
     (writer_step (\<lambda>s. s)) }) audit_demo)) = 3"
proof -
  let ?ops = "[WRecord event_demo, WFlush, WRecord event_demo, WClose, WRecord event_demo]"
  have "audit audit_demo = []" "recorded ?ops = 3"
    by (simp add: audit_demo_def) code_simp
  then show ?thesis
    using audit_accounting [of audit_demo ?ops "\<lambda>s. s"] by (simp only: Let_def)
qed

end
