(* ===== verification/Ports.thy ===== *)
theory Ports
  imports Audit_Log
begin

text \<open>
  What the services reach besides the store: the user directory (\<^verbatim>\<open>internal/userdir\<close>), the event bus
  (\<^verbatim>\<open>internal/events\<close>) and the object store (\<^verbatim>\<open>internal/blob\<close>, its in-memory implementation). The state
  of the whole service is \<open>world\<close>: the store, the audit writer, the events published so far and the
  stored objects.
\<close>

section \<open>User directory\<close>

record User =
  u_ID :: string
  u_DisplayName :: string
  u_AvatarURL :: string

datatype dir_err = UnknownUser | DirFailed string

type_synonym Directory = "string \<Rightarrow> string \<Rightarrow> dir_err + User"

text \<open>
  \<^verbatim>\<open>Auth.Resolve\<close> over the Profiles API of the auth service: \<open>lookup t ids\<close> is the answer of the remote
  call, an error or the profiles it found.
\<close>

definition Auth_Resolve :: "(string \<Rightarrow> string list \<Rightarrow> string + User list) \<Rightarrow> Directory" where
  "Auth_Resolve lookup tenantID userID =
     (case lookup tenantID [userID] of
        Inl e \<Rightarrow> Inl (DirFailed e)
      | Inr profiles \<Rightarrow> (case find (\<lambda>p. u_ID p = userID) profiles of Some p \<Rightarrow> Inr p | None \<Rightarrow> Inl UnknownUser))"

text \<open>\<^verbatim>\<open>Fake.Resolve\<close>: users keyed by tenant and id, and an error every call fails with.\<close>

definition Fake_Resolve :: "User tab tab \<Rightarrow> string option \<Rightarrow> Directory" where
  "Fake_Resolve users err tenantID userID =
     (case err of
        Some e \<Rightarrow> Inl (DirFailed e)
      | None \<Rightarrow> (case map_of (case map_of users tenantID of None \<Rightarrow> [] | Some m \<Rightarrow> m) userID of
          Some u \<Rightarrow> Inr u | None \<Rightarrow> Inl UnknownUser))"

definition Fake_Add :: "string \<Rightarrow> User \<Rightarrow> User tab tab \<Rightarrow> User tab tab" where
  "Fake_Add tenantID u users =
     AList.update tenantID (AList.update (u_ID u) u (case map_of users tenantID of None \<Rightarrow> [] | Some m \<Rightarrow> m)) users"

section \<open>Events and objects\<close>

record pub_event =
  b_TenantID :: string
  b_Type :: string
  b_Payload :: "any tab"

record world = auditing +
  published :: "pub_event list"
  objects :: "string tab"
  putErr :: "string option"
  delErr :: "string option"

definition Publish :: "string \<Rightarrow> string \<Rightarrow> any tab \<Rightarrow> ('z world_scheme, unit) state" where
  "Publish tenantID eventType payload = State_Monad.update (\<lambda>w. w\<lparr>published :=
     published w @ [\<lparr>b_TenantID = tenantID, b_Type = eventType, b_Payload = payload\<rparr>]\<rparr>)"

definition AssetAssignedPayload :: "string \<Rightarrow> string \<Rightarrow> string \<Rightarrow> any tab" where
  "AssetAssignedPayload assetID assetTag userID =
     [(''asset_id'', AStr assetID), (''asset_tag'', AStr assetTag), (''user_id'', AStr userID)]"

definition AssetUnassignedPayload :: "string \<Rightarrow> string \<Rightarrow> string \<Rightarrow> any tab" where
  "AssetUnassignedPayload assetID assetTag userID =
     [(''asset_id'', AStr assetID), (''asset_tag'', AStr assetTag), (''user_id'', AStr userID)]"

definition WarrantyExpiringPayload :: "string \<Rightarrow> string \<Rightarrow> gotime \<Rightarrow> any tab" where
  "WarrantyExpiringPayload assetID assetTag expiresAt =
     [(''asset_id'', AStr assetID), (''asset_tag'', AStr assetTag), (''expires_at'', ATime expiresAt)]"

definition LicenseExpiringPayload :: "string \<Rightarrow> string \<Rightarrow> gotime \<Rightarrow> any tab" where
  "LicenseExpiringPayload i name validTo = [(''id'', AStr i), (''name'', AStr name), (''valid_to'', ATime validTo)]"

definition InsuranceExpiringPayload :: "string \<Rightarrow> string \<Rightarrow> gotime \<Rightarrow> any tab" where
  "InsuranceExpiringPayload i policyNumber validTo =
     [(''id'', AStr i), (''policy_number'', AStr policyNumber), (''valid_to'', ATime validTo)]"

definition LowStockPayload :: "string \<Rightarrow> string \<Rightarrow> int \<Rightarrow> int \<Rightarrow> any tab" where
  "LowStockPayload i name amount minAmount =
     [(''id'', AStr i), (''name'', AStr name), (''amount'', AInt amount), (''min_amount'', AInt minAmount)]"

text \<open>\<^verbatim>\<open>Fake.Delete\<close>: an armed failure first, then an idempotent removal.\<close>

definition blob_Delete :: "string \<Rightarrow> ('z world_scheme, string, unit) prog" where
  "blob_Delete key = do {
     w \<leftarrow> State_Monad.get;
     case delErr w of
       Some e \<Rightarrow> do { State_Monad.update (\<lambda>w. w\<lparr>delErr := None\<rparr>); fail_with e }
     | None \<Rightarrow> do { State_Monad.update (\<lambda>w. w\<lparr>objects := AList.delete key (objects w)\<rparr>); ok () }
   }"

section \<open>Acting for one tenant\<close>

text \<open>
  \<open>scoped t\<close>: the tables change only in rows of \<open>t\<close> (\<open>owned_rows\<close>), and what reaches the audit queue and the
  event bus carries \<open>t\<close>.
\<close>

definition scoped :: "string \<Rightarrow> 'z world_scheme \<Rightarrow> 'z world_scheme \<Rightarrow> bool" where
  "scoped t w w' \<longleftrightarrow> owned_rows t w w'
     \<and> (\<exists>rows. queue w' = queue w @ rows \<and> (\<forall>r\<in>set rows. r_TenantID r = t))
     \<and> (\<exists>evs. published w' = published w @ evs \<and> (\<forall>e\<in>set evs. b_TenantID e = t))"

lemma scoped_refl: "scoped t w w"
  by (simp add: scoped_def owned_rows_refl)

lemma scoped_trans:
  assumes "scoped t w w1" and "scoped t w1 w2"
  shows "scoped t w w2"
proof -
  have "owned_rows t w w2"
    using assms by (auto simp: scoped_def intro: owned_rows_trans)
  then show ?thesis
    using assms by (fastforce simp: scoped_def)
qed

interpretation sc: io_relation "scoped t" for t
  by unfold_locales (fact scoped_refl, erule (1) scoped_trans)

lemma world_more: "mem.more (w' :: 'z world_scheme) = mem.more w \<Longrightarrow> queue w' = queue w \<and> published w' = published w"
  by (cases w; cases w') simp

lemma owned_scoped: "owned t w w' \<Longrightarrow> scoped t w (w' :: 'z world_scheme)"
  using world_more [of w' w] by (auto simp: scoped_def owned_def)

text \<open>Everything a service calls acts for the tenant it is called for.\<close>

lemma scopedI: "state_io_rel (owned t) m \<Longrightarrow> state_io_rel (scoped t) (m :: ('z world_scheme, _) state)"
  by (erule state_io_rel_mono) (rule owned_scoped)

lemmas scoped_store = owned_methods [THEN scopedI]

lemma scoped_frame:
  assumes "core w' = core w" and "wall w' = wall w" and "queue w' = queue w" and "published w' = published w"
  shows "scoped t w (w' :: 'z world_scheme)"
  using assms owned_rows_refl [of t w] by (auto simp: scoped_def owned_rows_def dest: core_tables)

lemma scoped_Record:
  assumes "e_TenantID e = t"
  shows "state_io_rel (scoped t) (Record uni e :: ('z world_scheme, _, _) prog)"
proof (cases "Validate e")
  case (Inl err)
  then show ?thesis by (simp add: Record_def sc.io_fail)
next
  case (Inr u)
  have "scoped t w (snd (run_state (Record uni e) w))" for w :: "'z world_scheme"
    using Inr assms owned_rows_refl [of t w]
    by (auto simp: Record_def Let_def scoped_def owned_rows_def)
  then show ?thesis by (simp add: state_io_rel_def)
qed

lemma scoped_Emit:
  assumes "e_TenantID e = t"
  shows "state_io_rel (scoped t) (Emit uni aud e :: ('z world_scheme, _) state)"
  unfolding Emit_def by (intro sc.io_rules scoped_Record assms)

lemma scoped_Publish: "state_io_rel (scoped t) (Publish t ty payload :: ('z world_scheme, _) state)"
proof -
  have "scoped t w (snd (run_state (Publish t ty payload) w))" for w :: "'z world_scheme"
    using owned_rows_refl [of t w] by (auto simp: Publish_def scoped_def owned_rows_def)
  then show ?thesis by (simp add: state_io_rel_def)
qed

lemma scoped_blob_Delete: "state_io_rel (scoped t) (blob_Delete key)"
  by (auto simp: state_io_rel_def blob_Delete_def core_def intro!: scoped_frame split: option.split)

lemma scoped_get: "state_io_rel (scoped t) State_Monad.get"
  by (simp add: state_io_rel_def scoped_refl)

lemmas scoped_rules = scoped_store scoped_Emit scoped_Publish scoped_blob_Delete scoped_get sc.io_rules

section \<open>Errors that change nothing\<close>

text \<open>
  \<open>quiet m\<close>: \<open>m\<close> never changes a table. \<open>atomic m\<close>: if \<open>m\<close> returns an error it changed no table. \<open>late m\<close>: the only
  error \<open>m\<close> returns is one of the store, passed on as it is. \<open>checked m\<close>: if \<open>m\<close> returns an error that is not such
  a store error, no table changed. A service operation reads, checks, writes and reports; it is
  \<open>checked\<close> when its reads are quiet and what follows the first write is late.
\<close>

definition quiet :: "('z world_scheme, 'a) state \<Rightarrow> bool" where
  "quiet m \<longleftrightarrow> (\<forall>w. core (snd (run_state m w)) = core w)"

definition atomic :: "('z world_scheme, 'e, 'a) prog \<Rightarrow> bool" where
  "atomic m \<longleftrightarrow> (\<forall>w e w'. run_state m w = (Inl e, w') \<longrightarrow> core w' = core w)"

definition late :: "('z world_scheme, svc_err, 'a) prog \<Rightarrow> bool" where
  "late m \<longleftrightarrow> (\<forall>w e w'. run_state m w = (Inl e, w') \<longrightarrow> (\<exists>x. e = StoreErr x))"

definition checked :: "('z world_scheme, svc_err, 'a) prog \<Rightarrow> bool" where
  "checked m \<longleftrightarrow> (\<forall>w e w'. run_state m w = (Inl e, w') \<longrightarrow> (\<forall>x. e \<noteq> StoreErr x) \<longrightarrow> core w' = core w)"

lemma quiet_same: "state_io_rel same m \<Longrightarrow> quiet m"
  by (auto simp: quiet_def state_io_rel_def same_def)

lemmas quiet_reads = same_methods [THEN quiet_same]

lemma quiet_get: "quiet State_Monad.get"
  by (simp add: quiet_def)

lemma quiet_NewID: "quiet NewID"
  by (simp add: quiet_def)

lemma quiet_return: "quiet (State_Monad.return x)"
  by (simp add: quiet_def)

lemma quiet_ok: "quiet (ok x)"
  by (simp add: quiet_def)

lemma quiet_fail: "quiet (fail_with e)"
  by (simp add: quiet_def)

lemma quiet_bind: "quiet m \<Longrightarrow> (\<And>x. quiet (f x)) \<Longrightarrow> quiet (State_Monad.bind m f)"
  by (auto simp: quiet_def split: prod.split) (metis snd_conv)

lemma quiet_try_as: "quiet m \<Longrightarrow> (\<And>x. quiet (f x)) \<Longrightarrow> quiet (try_as g m f)"
  by (auto simp: quiet_def run_try_as split: prod.split sum.split) (metis snd_conv)+

lemma quiet_if: "quiet m \<Longrightarrow> quiet m' \<Longrightarrow> quiet (if b then m else m')"
  by simp

lemma core_ext_upd [simp]:
  "core (w\<lparr>published := x1\<rparr>) = core (w :: 'z world_scheme)" "core (w\<lparr>objects := x2\<rparr>) = core w"
  "core (w\<lparr>delErr := x3\<rparr>) = core w" "core (w\<lparr>putErr := x3\<rparr>) = core w"
  "core (w\<lparr>queue := x5\<rparr>) = core w" "core (w\<lparr>dropped := x6\<rparr>) = core w" "core (w\<lparr>reported := x7\<rparr>) = core w"
  by (simp_all add: core_def)

lemma quiet_Emit: "quiet (Emit uni a e)"
  by (auto simp: quiet_def Emit_def Record_def Let_def split: sum.split prod.split)

lemma quiet_Publish: "quiet (Publish t ty pl)"
  by (simp add: quiet_def Publish_def)

lemma quiet_blob_Delete: "quiet (blob_Delete key)"
  by (auto simp: quiet_def blob_Delete_def split: option.split)

lemmas quiet_rules = quiet_reads quiet_get quiet_NewID quiet_return quiet_ok quiet_fail quiet_bind quiet_try_as quiet_if
  quiet_Emit quiet_Publish quiet_blob_Delete

lemma atomic_quiet: "quiet m \<Longrightarrow> atomic m"
  by (auto simp: quiet_def atomic_def) (metis snd_conv)

lemma late_ok: "late (ok x)"
  by (simp add: late_def)

lemma late_bind: "(\<And>x. late (f x)) \<Longrightarrow> late (State_Monad.bind m f)"
  by (auto simp: late_def split: prod.splits)

lemma late_try_as: "(\<And>x. late (f x)) \<Longrightarrow> late (try_as StoreErr m f)"
  by (auto simp: late_def run_try_as split: prod.splits sum.splits)

lemmas late_rules = late_ok late_bind late_try_as

lemma checked_late: "late m \<Longrightarrow> checked m"
  by (auto simp: late_def checked_def)

lemma checked_atomic: "atomic m \<Longrightarrow> checked m"
  by (auto simp: atomic_def checked_def)

lemma checked_fail: "checked (fail_with e)"
  by (simp add: checked_def)

lemma checked_ok: "checked (ok x)"
  by (simp add: checked_def)

lemma checked_read_bind:
  assumes "quiet m" and "\<And>x. checked (f x)"
  shows "checked (State_Monad.bind m f)"
  using assms by (auto simp: checked_def quiet_def split: prod.splits) (metis snd_conv)

lemma checked_read:
  assumes "quiet m" and "\<And>x. checked (f x)"
  shows "checked (try_as g m f)"
  using assms by (auto simp: checked_def quiet_def run_try_as split: prod.splits sum.splits) (metis snd_conv)+

lemma checked_write:
  assumes "atomic m" and "\<And>x. late (f x)"
  shows "checked (try_as g m f)"
  using assms by (auto simp: checked_def atomic_def late_def run_try_as split: prod.splits sum.splits) blast

lemma checked_if: "(b \<Longrightarrow> checked m) \<Longrightarrow> (\<not> b \<Longrightarrow> checked m') \<Longrightarrow> checked (if b then m else m')"
  by simp

lemma checked_case_sum: "(\<And>e. checked (f e)) \<Longrightarrow> (\<And>x. checked (h x)) \<Longrightarrow> checked (case r of Inl e \<Rightarrow> f e | Inr x \<Rightarrow> h x)"
  by (cases r) simp_all

lemma checked_in_tenant: "checked m \<Longrightarrow> checked (in_tenant subj m)"
  by (simp add: in_tenant_eq checked_fail)

lemma atomic_writes:
  "atomic (CreateAsset a)" "atomic (UpdateAsset a)" "atomic (DeleteAsset t i)" "atomic (InsertAssignment g)"
  "atomic (CreateCategory c)" "atomic (UpdateCategory c)" "atomic (DeleteCategory t i)"
  "atomic (CreateSupplier s)" "atomic (UpdateSupplier s)" "atomic (DeleteSupplier t i)"
  "atomic (CreateLocation l)" "atomic (UpdateLocation l)" "atomic (DeleteLocation t i)"
  "atomic (CreateConsumable n)" "atomic (UpdateConsumable n)" "atomic (DeleteConsumable t i)"
  "atomic (CreateLicense lic)" "atomic (UpdateLicense lic)" "atomic (DeleteLicense t i)"
  "atomic (CreateInsurance p)" "atomic (UpdateInsurance p)" "atomic (DeleteInsurance t i)"
  "atomic (AddPolicyAsset q)" "atomic (RemovePolicyAsset t i j)"
  unfolding CreateAsset_def UpdateAsset_def DeleteAsset_def InsertAssignment_def CreateCategory_def UpdateCategory_def
    DeleteCategory_def CreateSupplier_def UpdateSupplier_def DeleteSupplier_def CreateLocation_def UpdateLocation_def
    DeleteLocation_def CreateConsumable_def UpdateConsumable_def DeleteConsumable_def CreateLicense_def UpdateLicense_def
    DeleteLicense_def CreateInsurance_def UpdateInsurance_def DeleteInsurance_def AddPolicyAsset_def RemovePolicyAsset_def
  by (auto simp: atomic_def run_guarded autoTag_def Let_def split: if_splits option.splits)

lemmas checked_rules = checked_in_tenant checked_fail checked_ok checked_read_bind checked_read checked_if checked_case_sum
  quiet_rules

end
