(* ===== verification/Assets.thy ===== *)
theory Assets
  imports Ports
begin

text \<open>
  \<^verbatim>\<open>internal/assets/assets.go\<close>: the asset service. \<open>AssetService\<close> is what \<^verbatim>\<open>New\<close> and the setters wire in: the user
  directory, whether a recorder and an object store are attached, and the document purger; \<open>fold_case\<close> is
  the Unicode case folding of \<^verbatim>\<open>strings.ToLower\<close> outside ASCII. The service clock is the wall clock.
\<close>

record 'z AssetService =
  users :: "Directory option"
  aud :: bool
  blobs :: bool
  docs :: "(string \<Rightarrow> Document list \<Rightarrow> ('z world_scheme, unit) state) option"
  fold_case :: "string \<Rightarrow> string"

record View =
  vw_Asset :: Asset
  vw_AssigneeName :: string
  vw_HasPhoto :: bool

record AssetInput =
  x_AssetTag :: string
  x_Name :: string
  x_Serial :: string
  x_ModelName :: string
  x_ModelNumber :: string
  x_CategoryID :: string
  x_SupplierID :: string
  x_LocationID :: string
  x_Status :: string
  x_WarrantyMonths :: int
  x_PurchaseDate :: "gotime option"
  x_OrderNumber :: string
  x_PurchaseCost :: real
  x_Notes :: string
  x_SalvageValue :: real
  x_UsefulLifeYears :: int
  x_DepreciationRate :: real
  x_Tags :: "string tab"

definition AutoTag :: "('z sys_scheme, string) state" where
  "AutoTag = do { b \<leftarrow> read_rand 3; State_Monad.return (''AST-'' @ ToUpper_ascii (hex_encode b)) }"

text \<open>The runes the loop refuses are ASCII, so the check on bytes is the check on runes.\<close>

definition ValidTag :: "string \<Rightarrow> bool" where
  "ValidTag tag = (if tag = [] \<or> length tag > 64 then False
     else list_all (\<lambda>r. \<not> (of_char r \<le> (0x20 :: nat) \<or> of_char r = (0x7f :: nat))) tag)"

definition validStatus :: "string \<Rightarrow> bool" where
  "validStatus st = (st \<in> {AssetDeployable, AssetAssigned, AssetBroken, AssetArchived})"

definition asset_mapErr :: "repo_err \<Rightarrow> svc_err" where
  "asset_mapErr e = (case e of RNotFound \<Rightarrow> NotFound | RConflict \<Rightarrow> Conflict | _ \<Rightarrow> StoreErr e)"

definition asset_bookValue :: "Asset \<Rightarrow> gotime \<Rightarrow> real" where
  "asset_bookValue a now =
     (let pd = (case a_PurchaseDate a of None \<Rightarrow> 0 | Some d \<Rightarrow> d)
      in BookValue (a_PurchaseCost a) (a_SalvageValue a) (a_UsefulLifeYears a) (a_DepreciationRate a) pd now)"

definition view_at :: "'z AssetService \<Rightarrow> gotime \<Rightarrow> Asset \<Rightarrow> View" where
  "view_at svc now a0 =
     (let a = a0\<lparr>a_BookValue := asset_bookValue a0 now\<rparr>;
          name = (if a_UserID a \<noteq> [] then (case users svc of None \<Rightarrow> [] | Some resolve \<Rightarrow>
            (case resolve (a_TenantID a) (a_UserID a) of Inr u \<Rightarrow> u_DisplayName u | Inl _ \<Rightarrow> [])) else [])
      in \<lparr>vw_Asset = a, vw_AssigneeName = name, vw_HasPhoto = (a_PhotoKey a \<noteq> [])\<rparr>)"

definition asset_view :: "'z AssetService \<Rightarrow> Asset \<Rightarrow> ('y world_scheme, View) state" where
  "asset_view svc a = do { w \<leftarrow> State_Monad.get; State_Monad.return (view_at svc (wall w) a) }"

definition exists_or :: "string \<Rightarrow> string \<Rightarrow> ('z, 'a) store_op \<Rightarrow> ('z mem_scheme, svc_err, unit) prog" where
  "exists_or ref msg get = (if ref \<noteq> [] then try_as (\<lambda>_. Validation msg) get (\<lambda>_. ok ()) else ok ())"

definition checkRefs :: "string \<Rightarrow> AssetInput \<Rightarrow> ('z mem_scheme, svc_err, unit) prog" where
  "checkRefs tenantID inp =
     try_in (exists_or (x_CategoryID inp) ''category_id does not exist'' (GetCategory tenantID (x_CategoryID inp))) (\<lambda>_.
     try_in (exists_or (x_SupplierID inp) ''supplier_id does not exist'' (GetSupplier tenantID (x_SupplierID inp))) (\<lambda>_.
     exists_or (x_LocationID inp) ''location_id does not exist'' (GetLocation tenantID (x_LocationID inp))))"

definition asset_validate :: "AssetInput \<Rightarrow> svc_err + unit" where
  "asset_validate inp =
     (if TrimSpace (x_Name inp) = [] \<or> length (x_Name inp) > 200 then Inl (Validation ''name is required (max 200)'')
      else if x_AssetTag inp \<noteq> [] \<and> \<not> ValidTag (x_AssetTag inp) then Inl (Validation ''asset_tag is invalid'')
      else if x_Status inp \<noteq> [] \<and> \<not> validStatus (x_Status inp) then Inl (Validation ''status is invalid'')
      else if x_PurchaseCost inp < 0 \<or> x_SalvageValue inp < 0 \<or> x_WarrantyMonths inp < 0 \<or> x_UsefulLifeYears inp < 0
        \<or> x_DepreciationRate inp < 0 \<or> x_DepreciationRate inp > 1 then Inl (Validation ''numeric fields out of range'')
      else if length (x_Tags inp) > 64 then Inl (Validation ''too many tags'')
      else Inr ())"

definition asset_apply :: "Asset \<Rightarrow> AssetInput \<Rightarrow> Asset" where
  "asset_apply a inp = a\<lparr>a_AssetTag := TrimSpace (x_AssetTag inp), a_Name := TrimSpace (x_Name inp),
     a_Serial := TrimSpace (x_Serial inp), a_ModelName := x_ModelName inp, a_ModelNumber := x_ModelNumber inp,
     a_CategoryID := x_CategoryID inp, a_SupplierID := x_SupplierID inp, a_LocationID := x_LocationID inp,
     a_Status := x_Status inp, a_WarrantyMonths := x_WarrantyMonths inp, a_PurchaseDate := x_PurchaseDate inp,
     a_OrderNumber := x_OrderNumber inp, a_PurchaseCost := x_PurchaseCost inp, a_Notes := x_Notes inp,
     a_SalvageValue := x_SalvageValue inp, a_UsefulLifeYears := x_UsefulLifeYears inp,
     a_DepreciationRate := x_DepreciationRate inp, a_Tags := x_Tags inp\<rparr>"

text \<open>\<^verbatim>\<open>if a.Status == "" ...; if a.DepreciationRate <= 0 ...\<close>\<close>

definition asset_defaults :: "Asset \<Rightarrow> Asset" where
  "asset_defaults a = a\<lparr>a_Status := (if a_Status a = [] then AssetDeployable else a_Status a),
     a_DepreciationRate := (if a_DepreciationRate a \<le> 0 then DefaultRate else a_DepreciationRate a)\<rparr>"

definition asset_event :: "Subjects \<Rightarrow> string \<Rightarrow> string \<Rightarrow> string \<Rightarrow> string \<Rightarrow> string \<Rightarrow> any tab \<Rightarrow> Event" where
  "asset_event subj typ kind sid outcome reason details =
     \<lparr>e_TenantID = TenantID subj, e_EventType = typ, e_ActorKind = ActorKind subj, e_ActorID = ActorID subj,
      e_SubjectKind = kind, e_SubjectID = sid, e_Outcome = outcome, e_Reason = reason, e_Details = details\<rparr>"

text \<open>The insert loop of \<^verbatim>\<open>Create\<close>: \<open>n\<close> further attempts after a conflict on a generated tag.\<close>

primrec insert_loop :: "nat \<Rightarrow> bool \<Rightarrow> Asset \<Rightarrow> ('z mem_scheme, svc_err, Asset) prog" where
  "insert_loop 0 auto a = do {
     tag \<leftarrow> (if auto then AutoTag else State_Monad.return (a_AssetTag a));
     let a' = a\<lparr>a_AssetTag := tag\<rparr>;
     try_as asset_mapErr (CreateAsset a') (\<lambda>_. ok a')
   }"
| "insert_loop (Suc n) auto a = do {
     tag \<leftarrow> (if auto then AutoTag else State_Monad.return (a_AssetTag a));
     let a' = a\<lparr>a_AssetTag := tag\<rparr>;
     r \<leftarrow> CreateAsset a';
     case r of
       Inr _ \<Rightarrow> ok a'
     | Inl e \<Rightarrow> if auto \<and> e = RConflict then insert_loop n auto a' else fail_with (asset_mapErr e)
   }"

definition Assets_Create :: "'z AssetService \<Rightarrow> Subjects \<Rightarrow> AssetInput \<Rightarrow> ('z world_scheme, svc_err, View) prog" where
  "Assets_Create svc subj inp = in_tenant subj (
     case asset_validate inp of Inl e \<Rightarrow> fail_with e | Inr _ \<Rightarrow>
     if x_Status inp = AssetAssigned then fail_with (Validation ''status assigned is set through assign'') else
     try_in (checkRefs (TenantID subj) inp) (\<lambda>_. do {
       w \<leftarrow> State_Monad.get;
       i \<leftarrow> NewID;
       let a = asset_defaults (asset_apply (zero_asset\<lparr>a_ID := i, a_TenantID := TenantID subj, a_CreatedBy := ActorID subj,
         a_UpdatedBy := ActorID subj, a_CreatedAt := wall w, a_UpdatedAt := wall w\<rparr>) inp);
       try_in (insert_loop 5 (a_AssetTag a = []) a) (\<lambda>a. do {
         Emit (fold_case svc) (aud svc) (asset_event subj ''asset_created'' ''asset'' (a_ID a) OutcomeOK []
           [(''asset_tag'', AStr (a_AssetTag a))]);
         v \<leftarrow> asset_view svc a;
         ok v
       })
     }))"

definition Assets_Get :: "'z AssetService \<Rightarrow> Subjects \<Rightarrow> string \<Rightarrow> ('z world_scheme, svc_err, View) prog" where
  "Assets_Get svc subj i = in_tenant subj (
     try_as asset_mapErr (GetAsset (TenantID subj) i) (\<lambda>a. do { v \<leftarrow> asset_view svc a; ok v }))"

definition Assets_List :: "'z AssetService \<Rightarrow> Subjects \<Rightarrow> AssetFilter \<Rightarrow> ('z world_scheme, svc_err, View list) prog" where
  "Assets_List svc subj f = in_tenant subj (
     try_as StoreErr (ListAssets (fold_case svc) (TenantID subj) f) (\<lambda>rows. do {
       w \<leftarrow> State_Monad.get;
       ok (map (view_at svc (wall w)) rows)
     }))"

text \<open>What \<^verbatim>\<open>Update\<close> makes of the stored row: the lifecycle owns the assignee and the assigned status.\<close>

definition asset_edit :: "Asset \<Rightarrow> AssetInput \<Rightarrow> Asset" where
  "asset_edit a0 inp =
     (let wasAssigned = (a_Status a0 = AssetAssigned);
          a1 = (asset_apply a0 inp)\<lparr>a_PhotoKey := a_PhotoKey a0\<rparr>;
          a2 = asset_defaults (a1\<lparr>a_AssetTag := default_text (a_AssetTag a1) (a_AssetTag a0)\<rparr>)
      in if wasAssigned then a2\<lparr>a_Status := AssetAssigned, a_UserID := a_UserID a0, a_LocationID := []\<rparr>
         else a2\<lparr>a_UserID := []\<rparr>)"

definition Assets_Update :: "'z AssetService \<Rightarrow> Subjects \<Rightarrow> string \<Rightarrow> AssetInput \<Rightarrow> ('z world_scheme, svc_err, View) prog" where
  "Assets_Update svc subj i inp = in_tenant subj (
     case asset_validate inp of Inl e \<Rightarrow> fail_with e | Inr _ \<Rightarrow>
     if x_Status inp = AssetAssigned then fail_with (Validation ''status assigned is set through assign'') else
     try_in (checkRefs (TenantID subj) inp) (\<lambda>_.
     try_as asset_mapErr (GetAsset (TenantID subj) i) (\<lambda>a0. do {
       w \<leftarrow> State_Monad.get;
       let a = (asset_edit a0 inp)\<lparr>a_UpdatedBy := ActorID subj, a_UpdatedAt := wall w\<rparr>;
       try_as asset_mapErr (UpdateAsset a) (\<lambda>_. do {
         Emit (fold_case svc) (aud svc) (asset_event subj ''asset_updated'' ''asset'' (a_ID a) OutcomeOK [] []);
         v \<leftarrow> asset_view svc a;
         ok v
       })
     })))"

text \<open>The object removal of \<^verbatim>\<open>Delete\<close>: errors of the object store are ignored.\<close>

definition purge_objects :: "'z AssetService \<Rightarrow> string \<Rightarrow> Document list \<Rightarrow> ('z world_scheme, unit) state" where
  "purge_objects svc tenantID ds =
     (case docs svc of
        Some purge \<Rightarrow> purge tenantID ds
      | None \<Rightarrow> if blobs svc then for_each ds (\<lambda>d. do { _ \<leftarrow> blob_Delete (d_StorageKey d); State_Monad.return () })
                else State_Monad.return ())"

definition Assets_Delete :: "'z AssetService \<Rightarrow> Subjects \<Rightarrow> string \<Rightarrow> ('z world_scheme, svc_err, unit) prog" where
  "Assets_Delete svc subj i = in_tenant subj (
     try_as asset_mapErr (GetAsset (TenantID subj) i) (\<lambda>a. do {
       (if blobs svc \<and> a_PhotoKey a \<noteq> [] then do { _ \<leftarrow> blob_Delete (a_PhotoKey a); State_Monad.return () } else State_Monad.return ());
       r \<leftarrow> ListDocuments (TenantID subj) EntityAsset i;
       (case r of Inl _ \<Rightarrow> State_Monad.return () | Inr ds \<Rightarrow> purge_objects svc (TenantID subj) ds);
       try_as asset_mapErr (DeleteAsset (TenantID subj) i) (\<lambda>_. do {
         Emit (fold_case svc) (aud svc) (asset_event subj ''asset_deleted'' ''asset'' i OutcomeOK [] [(''asset_tag'', AStr (a_AssetTag a))]);
         ok ()
       })
     }))"

definition refuse_state :: "'z AssetService \<Rightarrow> Subjects \<Rightarrow> string \<Rightarrow> string \<Rightarrow> Asset \<Rightarrow> ('y world_scheme, svc_err, 'a) prog" where
  "refuse_state svc subj typ i a = do {
     Emit (fold_case svc) (aud svc) (asset_event subj typ ''asset'' i OutcomeRefused (''status '' @ a_Status a) []);
     fail_with (StateRefused (a_Status a))
   }"

text \<open>The assignee's name: an unknown user is a bad input, any other directory error is passed on.\<close>

definition resolve_assignee :: "'z AssetService \<Rightarrow> string \<Rightarrow> string \<Rightarrow> svc_err + string" where
  "resolve_assignee svc tenantID userID =
     (case users svc of
        None \<Rightarrow> Inr []
      | Some resolve \<Rightarrow> (case resolve tenantID userID of
          Inl UnknownUser \<Rightarrow> Inl (Validation ''user_id does not exist'')
        | Inl (DirFailed e) \<Rightarrow> Inl (UserDirErr e)
        | Inr u \<Rightarrow> Inr (u_DisplayName u)))"

text \<open>The writing half of \<^verbatim>\<open>Assign\<close>: the row, the history, the event, the audit record.\<close>

definition check_out :: "'z AssetService \<Rightarrow> Subjects \<Rightarrow> Asset \<Rightarrow> string \<Rightarrow> string \<Rightarrow> string \<Rightarrow> ('z world_scheme, svc_err, View) prog" where
  "check_out svc subj a0 userID userName notes = do {
     w \<leftarrow> State_Monad.get;
     let a = a0\<lparr>a_Status := AssetAssigned, a_UserID := userID, a_LocationID := [], a_UpdatedBy := ActorID subj, a_UpdatedAt := wall w\<rparr>;
     try_as asset_mapErr (UpdateAsset a) (\<lambda>_. do {
       gid \<leftarrow> NewID;
       let row = \<lparr>g_ID = gid, g_TenantID = TenantID subj, g_AssetID = a_ID a, g_AssetName = a_Name a, g_UserID = userID,
         g_UserName = userName, g_Action = ActionAssigned, g_AssignedAt = wall w, g_ReturnedAt = None,
         g_AssignedBy = ActorID subj, g_Notes = notes\<rparr>;
       try_as StoreErr (InsertAssignment row) (\<lambda>_. do {
         Publish (TenantID subj) ''asset.assigned'' (AssetAssignedPayload (a_ID a) (a_AssetTag a) userID);
         Emit (fold_case svc) (aud svc) (asset_event subj ''asset_assigned'' ''assignment'' gid OutcomeOK []
           [(''asset_id'', AStr (a_ID a)), (''user_id'', AStr userID)]);
         v \<leftarrow> asset_view svc a;
         ok v
       })
     })
   }"

definition Assets_Assign :: "'z AssetService \<Rightarrow> Subjects \<Rightarrow> string \<Rightarrow> string \<Rightarrow> string \<Rightarrow> ('z world_scheme, svc_err, View) prog" where
  "Assets_Assign svc subj i userID notes = in_tenant subj (
     if userID = [] then fail_with (Validation ''user_id is required'') else
     try_as asset_mapErr (GetAsset (TenantID subj) i) (\<lambda>a0.
     if a_Status a0 \<noteq> AssetDeployable then refuse_state svc subj ''asset_assigned'' i a0 else
     case resolve_assignee svc (TenantID subj) userID of
       Inl e \<Rightarrow> fail_with e
     | Inr userName \<Rightarrow> check_out svc subj a0 userID userName notes))"

text \<open>The writing half of \<^verbatim>\<open>Unassign\<close>.\<close>

definition check_in :: "'z AssetService \<Rightarrow> Subjects \<Rightarrow> Asset \<Rightarrow> string \<Rightarrow> string \<Rightarrow> ('z world_scheme, svc_err, View) prog" where
  "check_in svc subj a0 locationID notes = do {
     w \<leftarrow> State_Monad.get;
     let prevUser = a_UserID a0;
     let userName = (case users svc of None \<Rightarrow> [] | Some resolve \<Rightarrow>
       if prevUser \<noteq> [] then (case resolve (TenantID subj) prevUser of Inr u \<Rightarrow> u_DisplayName u | Inl _ \<Rightarrow> []) else []);
     let a = a0\<lparr>a_Status := AssetDeployable, a_UserID := [], a_LocationID := locationID, a_UpdatedBy := ActorID subj, a_UpdatedAt := wall w\<rparr>;
     try_as asset_mapErr (UpdateAsset a) (\<lambda>_. do {
       r \<leftarrow> CloseActiveAssignment (TenantID subj) (a_ID a) (wall w);
       if (case r of Inl e \<Rightarrow> e \<noteq> RNotFound | Inr _ \<Rightarrow> False) then fail_with (StoreErr (projl r)) else do {
         gid \<leftarrow> NewID;
         let row = \<lparr>g_ID = gid, g_TenantID = TenantID subj, g_AssetID = a_ID a, g_AssetName = a_Name a, g_UserID = prevUser,
           g_UserName = userName, g_Action = ActionUnassigned, g_AssignedAt = wall w, g_ReturnedAt = Some (wall w),
           g_AssignedBy = ActorID subj, g_Notes = notes\<rparr>;
         try_as StoreErr (InsertAssignment row) (\<lambda>_. do {
           Publish (TenantID subj) ''asset.unassigned'' (AssetUnassignedPayload (a_ID a) (a_AssetTag a) prevUser);
           Emit (fold_case svc) (aud svc) (asset_event subj ''asset_unassigned'' ''assignment'' gid OutcomeOK []
             [(''asset_id'', AStr (a_ID a)), (''user_id'', AStr prevUser)]);
           v \<leftarrow> asset_view svc a;
           ok v
         })
       }
     })
   }"

definition Assets_Unassign :: "'z AssetService \<Rightarrow> Subjects \<Rightarrow> string \<Rightarrow> string \<Rightarrow> string \<Rightarrow> ('z world_scheme, svc_err, View) prog" where
  "Assets_Unassign svc subj i locationID notes = in_tenant subj (
     try_as asset_mapErr (GetAsset (TenantID subj) i) (\<lambda>a0.
     if a_Status a0 \<noteq> AssetAssigned then refuse_state svc subj ''asset_unassigned'' i a0 else
     try_in (exists_or locationID ''location_id does not exist'' (GetLocation (TenantID subj) locationID)) (\<lambda>_.
     check_in svc subj a0 locationID notes)))"

definition Assets_Assignments :: "Subjects \<Rightarrow> string \<Rightarrow> int \<Rightarrow> ('z world_scheme, svc_err, Assignment list) prog" where
  "Assets_Assignments subj i limit0 = in_tenant subj (
     try_as asset_mapErr (GetAsset (TenantID subj) i) (\<lambda>_.
     let limit = (if limit0 \<le> 0 \<or> limit0 > 500 then 100 else limit0) in
     try_as StoreErr (ListAssignments (TenantID subj) i limit) ok))"

section \<open>Acting for the caller's tenant\<close>

lemma asset_event_tenant [simp]: "e_TenantID (asset_event subj typ kind sid outcome reason details) = TenantID subj"
  by (simp add: asset_event_def)

lemma scoped_in_tenant: "state_io_rel (scoped t) m \<Longrightarrow> state_io_rel (scoped t) (in_tenant subj m)"
  by (simp add: in_tenant_eq sc.io_fail)

lemma scoped_exists_or: "state_io_rel (scoped t) get \<Longrightarrow> state_io_rel (scoped t) (exists_or ref msg (get :: (_, _) store_op))"
  unfolding exists_or_def by (intro sc.io_rules)

lemma scoped_checkRefs: "state_io_rel (scoped t) (checkRefs t inp)"
  unfolding checkRefs_def by (intro scoped_rules scoped_exists_or)

lemma scoped_AutoTag: "state_io_rel (scoped t) AutoTag"
proof -
  have "state_io_rel (scoped t) (read_rand 3)"
    by (auto simp: state_io_rel_def read_rand_def intro!: scoped_frame)
  then show ?thesis unfolding AutoTag_def by (intro sc.io_rules)
qed

lemma asset_apply_frame [simp]:
  "a_TenantID (asset_apply a inp) = a_TenantID a" "a_ID (asset_apply a inp) = a_ID a" "a_UserID (asset_apply a inp) = a_UserID a"
  "a_TenantID (asset_defaults a) = a_TenantID a" "a_ID (asset_defaults a) = a_ID a" "a_UserID (asset_defaults a) = a_UserID a"
  by (simp_all add: asset_apply_def asset_defaults_def)

lemma asset_edit_frame [simp]: "a_TenantID (asset_edit a inp) = a_TenantID a" "a_ID (asset_edit a inp) = a_ID a"
  by (simp_all add: asset_edit_def Let_def)

lemma scoped_insert_loop: "a_TenantID a = t \<Longrightarrow> state_io_rel (scoped t) (insert_loop n auto a)"
  by (induction n arbitrary: a) (auto simp: Let_def intro!: scoped_rules scoped_AutoTag)

lemma scoped_view: "state_io_rel (scoped t) (asset_view svc a)"
  unfolding asset_view_def by (intro scoped_rules)

lemma GetAsset_tenant: "run_state (GetAsset t i) w = (Inr a, w') \<Longrightarrow> a_TenantID a = t"
  by (auto simp: GetAsset_def run_guarded fillAsset_def split: if_splits option.splits)

lemma scoped_with_asset:
  assumes "\<And>a. a_TenantID a = t \<Longrightarrow> state_io_rel (scoped t) (f a)"
  shows "state_io_rel (scoped t) (try_as g (GetAsset t i) f)"
  by (rule sc.io_try_as_val) (auto intro: scoped_rules assms dest: GetAsset_tenant)

lemma scoped_refuse_state: "state_io_rel (scoped (TenantID subj)) (refuse_state svc subj typ i a)"
  unfolding refuse_state_def by (intro scoped_rules) simp

lemmas asset_rules = scoped_in_tenant scoped_exists_or scoped_checkRefs scoped_insert_loop scoped_view
  scoped_with_asset scoped_refuse_state scoped_rules

lemma scoped_Create: "state_io_rel (scoped (TenantID subj)) (Assets_Create svc subj inp)"
  unfolding Assets_Create_def Let_def by (intro asset_rules) (simp_all add: zero_asset_def)

lemma scoped_Update: "state_io_rel (scoped (TenantID subj)) (Assets_Update svc subj i inp)"
  unfolding Assets_Update_def Let_def by (intro asset_rules) simp_all

lemma scoped_Assign: "state_io_rel (scoped (TenantID subj)) (Assets_Assign svc subj i u notes)"
  unfolding Assets_Assign_def check_out_def Let_def by (intro asset_rules) simp_all

lemma scoped_Unassign: "state_io_rel (scoped (TenantID subj)) (Assets_Unassign svc subj i loc notes)"
  unfolding Assets_Unassign_def check_in_def Let_def by (intro asset_rules) simp_all

lemma scoped_Delete:
  assumes "\<And>purge ds. docs svc = Some purge \<Longrightarrow> state_io_rel (scoped (TenantID subj)) (purge (TenantID subj) ds)"
  shows "state_io_rel (scoped (TenantID subj)) (Assets_Delete svc subj i)"
  unfolding Assets_Delete_def Let_def purge_objects_def by (intro asset_rules assms) simp_all

lemma scoped_asset_reads:
  "state_io_rel (scoped (TenantID subj)) (Assets_Get svc subj i)"
  "state_io_rel (scoped (TenantID subj)) (Assets_List svc subj f)"
  "state_io_rel (scoped (TenantID subj)) (Assets_Assignments subj i n)"
  unfolding Assets_Get_def Assets_List_def Assets_Assignments_def Let_def
  by (intro asset_rules)+

end
