(* ===== verification/Lifecycle.thy ===== *)
theory Lifecycle
  imports Assets
begin

text \<open>
  The asset lifecycle: what each operation of the asset service does to the tables, the invariants
  of the assigned state, and that operations which fail leave the tables alone.
\<close>

section \<open>A refused operation changes nothing\<close>

lemma quiet_exists_or: "quiet get \<Longrightarrow> quiet (exists_or ref msg (get :: (_, _) store_op))"
  unfolding exists_or_def by (intro quiet_rules)

lemma quiet_checkRefs: "quiet (checkRefs t inp)"
  unfolding checkRefs_def try_in_def by (intro quiet_rules quiet_exists_or)

lemma quiet_AutoTag: "quiet AutoTag"
  by (simp add: quiet_def AutoTag_def read_rand_def)

lemma quiet_view: "quiet (asset_view svc a)"
  unfolding asset_view_def by (intro quiet_rules)

lemma quiet_refuse_state: "quiet (refuse_state svc subj typ i a)"
  unfolding refuse_state_def by (intro quiet_rules)

lemma atomic_read_bind:
  assumes "quiet m" and "\<And>x. atomic (f x)"
  shows "atomic (State_Monad.bind m f)"
  using assms by (auto simp: atomic_def quiet_def split: prod.splits) (metis snd_conv)

lemma atomic_then_ok:
  assumes "atomic m"
  shows "atomic (try_as g m (\<lambda>x. ok (h x)))"
  using assms by (auto simp: atomic_def run_try_as split: prod.splits sum.splits)

lemma atomic_retry:
  assumes "atomic m" and "\<And>e. atomic (h e)"
  shows "atomic (State_Monad.bind m (\<lambda>r. case r of Inr x \<Rightarrow> ok (k x) | Inl e \<Rightarrow> h e))"
  unfolding atomic_def
proof (intro allI impI)
  fix w e w'
  assume run: "run_state (State_Monad.bind m (\<lambda>r. case r of Inr x \<Rightarrow> ok (k x) | Inl e \<Rightarrow> h e)) w = (Inl e, w')"
  obtain r v where m: "run_state m w = (r, v)" by force
  with run obtain d where d: "r = Inl d" "run_state (h d) v = (Inl e, w')"
    by (cases r) auto
  with m assms have "core v = core w" "core w' = core v"
    unfolding atomic_def by blast+
  then show "core w' = core w" by simp
qed

lemma atomic_insert_loop: "atomic (insert_loop n auto a)"
proof (induction n arbitrary: a)
  case 0
  show ?case unfolding insert_loop.simps Let_def
    by (intro atomic_read_bind atomic_then_ok atomic_writes quiet_if quiet_AutoTag quiet_return)
next
  case (Suc n)
  show ?case unfolding insert_loop.simps Let_def
    by (rule atomic_read_bind, intro quiet_if quiet_AutoTag quiet_return, rule atomic_retry)
      (use Suc in \<open>auto simp: atomic_writes atomic_quiet quiet_fail\<close>)
qed

lemmas asset_checked = checked_rules quiet_checkRefs quiet_exists_or quiet_view

lemma checked_Create: "checked (Assets_Create svc subj inp)"
  unfolding Assets_Create_def Let_def try_in_def
  by (intro asset_checked checked_write atomic_insert_loop late_rules)

lemma checked_Update: "checked (Assets_Update svc subj i inp)"
  unfolding Assets_Update_def Let_def try_in_def
  by (intro asset_checked checked_write atomic_writes late_rules)

lemma checked_Assign: "checked (Assets_Assign svc subj i u notes)"
  unfolding Assets_Assign_def check_out_def Let_def refuse_state_def
  by (intro asset_checked checked_write atomic_writes late_rules)

lemma late_if_fail: "late m \<Longrightarrow> late (if b then fail_with (StoreErr e) else m)"
  by (simp add: late_def)

lemma checked_Unassign: "checked (Assets_Unassign svc subj i loc notes)"
  unfolding Assets_Unassign_def check_in_def Let_def refuse_state_def try_in_def
  by (intro asset_checked checked_write atomic_writes late_rules late_if_fail)

section \<open>Invariants of the asset rows\<close>

definition assets_kept :: "'z mem_scheme \<Rightarrow> 'z mem_scheme \<Rightarrow> bool" where
  "assets_kept w w' \<longleftrightarrow> assets w' = assets w"

definition all_assets :: "(Asset \<Rightarrow> bool) \<Rightarrow> 'z mem_scheme \<Rightarrow> bool" where
  "all_assets P w \<longleftrightarrow> (\<forall>a\<in>set (vals (assets w)). P a)"

lemma all_assets_lookup: "all_assets P w \<Longrightarrow> map_of (assets w) k = Some a \<Longrightarrow> P a"
  unfolding all_assets_def by (blast dest: vals_lookup)

lemma all_assets_sub:
  assumes "all_assets P w" and "\<And>a. a \<in> set (vals (assets w')) \<Longrightarrow> a \<in> set (vals (assets w)) \<or> P a"
  shows "all_assets P w'"
  using assms unfolding all_assets_def by blast

lemma all_assets_same: "same w w' \<Longrightarrow> all_assets P w \<Longrightarrow> all_assets P w'"
  using core_tables(1) [of w' w] by (auto simp: all_assets_def same_def)

lemma all_assets_update: "all_assets P w \<Longrightarrow> P a \<Longrightarrow> assets w' = AList.update k a (assets w) \<Longrightarrow> all_assets P w'"
  using set_vals_update [of k a "assets w"] by (auto intro!: all_assets_sub [of P w w'] simp del: set_map)

lemma same_assets: "same w w' \<Longrightarrow> assets_kept w w'"
  by (auto simp: same_def assets_kept_def dest: core_tables(1))

lemma pres_kept: "state_io_rel assets_kept m \<Longrightarrow> state_io_rel (preserving (all_assets P)) m"
  by (erule state_io_rel_mono) (simp add: assets_kept_def preserving_def all_assets_def)

lemma kept_quiet: "quiet m \<Longrightarrow> state_io_rel assets_kept m"
  by (auto simp: quiet_def state_io_rel_def assets_kept_def intro!: core_tables(1))

lemma kept_writes:
  "state_io_rel assets_kept (InsertAssignment g)" "state_io_rel assets_kept (CloseActiveAssignment t i x)"
  "state_io_rel assets_kept (InsertDocument d)" "state_io_rel assets_kept (DeleteDocument t i)"
  "state_io_rel assets_kept (CreateCategory c)" "state_io_rel assets_kept (UpdateCategory c)" "state_io_rel assets_kept (DeleteCategory t i)"
  "state_io_rel assets_kept (CreateSupplier s)" "state_io_rel assets_kept (UpdateSupplier s)"
  "state_io_rel assets_kept (CreateLocation l)" "state_io_rel assets_kept (UpdateLocation l)" "state_io_rel assets_kept (DeleteLocation t i)"
  "state_io_rel assets_kept (CreateConsumable n)" "state_io_rel assets_kept (UpdateConsumable n)" "state_io_rel assets_kept (DeleteConsumable t i)"
  "state_io_rel assets_kept (CreateLicense lic)" "state_io_rel assets_kept (UpdateLicense lic)" "state_io_rel assets_kept (DeleteLicense t i)"
  "state_io_rel assets_kept (CreateInsurance p)" "state_io_rel assets_kept (UpdateInsurance p)" "state_io_rel assets_kept (DeleteInsurance t i)"
  "state_io_rel assets_kept (AddPolicyAsset q)" "state_io_rel assets_kept (RemovePolicyAsset t i j)"
  unfolding InsertAssignment_def CloseActiveAssignment_def InsertDocument_def DeleteDocument_def CreateCategory_def UpdateCategory_def
    DeleteCategory_def CreateSupplier_def UpdateSupplier_def CreateLocation_def UpdateLocation_def
    DeleteLocation_def CreateConsumable_def UpdateConsumable_def DeleteConsumable_def CreateLicense_def UpdateLicense_def
    DeleteLicense_def CreateInsurance_def UpdateInsurance_def DeleteInsurance_def AddPolicyAsset_def RemovePolicyAsset_def
  by (auto simp: state_io_rel_def assets_kept_def run_guarded Let_def split: option.splits)

text \<open>
  An invariant of single asset rows that survives what the store itself does to a row (computed
  and defaulted fields, the supplier link of a deleted supplier) survives every store method whose
  argument satisfies it.
\<close>

locale asset_row_invariant =
  fixes P :: "Asset \<Rightarrow> bool"
  assumes fill_keeps: "P a \<Longrightarrow> P (fillAsset now a)"
    and save_keeps: "P a \<Longrightarrow> P (asset_saved a now)"
    and update_keeps: "P a \<Longrightarrow> P (asset_kept a ex now)"
    and unlink_keeps: "P a \<Longrightarrow> P (a\<lparr>a_SupplierID := []\<rparr>)"
begin

lemma get_yields: "yields (all_assets P) (GetAsset t i) (\<lambda>a. P a \<and> a_TenantID a = t)"
  unfolding yields_def
proof (intro allI impI)
  fix w :: "'c mem_scheme" and a w'
  assume I: "all_assets P w" and run: "run_state (GetAsset t i) w = (Inr a, w')"
  from run show "P a \<and> a_TenantID a = t"
  proof (cases rule: GetAsset_outcome)
    case (found a0)
    then show ?thesis
      using fill_keeps [OF all_assets_lookup [OF I]] GetAsset_tenant [OF run] by auto
  qed simp
qed

lemma pres_of_cases:
  assumes "\<And>w r w'. run_state m w = (r, w') \<Longrightarrow> all_assets P w \<Longrightarrow> all_assets P w'"
  shows "state_io_rel (preserving (all_assets P)) m"
  unfolding state_io_rel_def preserving_def using assms by (metis prod.collapse)

lemma update_pres:
  assumes "P a"
  shows "state_io_rel (preserving (all_assets P)) (UpdateAsset a)"
proof (rule pres_of_cases)
  fix w :: "'b mem_scheme" and r w'
  assume "run_state (UpdateAsset a) w = (r, w')" and I: "all_assets P w"
  from this(1) show "all_assets P w'"
    by (cases rule: UpdateAsset_outcome)
      (auto intro: all_assets_same [OF _ I] all_assets_update [OF I update_keeps [OF assms]])
qed

lemma create_pres:
  assumes "P a" and "a_ID a \<noteq> []" and "a_AssetTag a \<noteq> []"
  shows "state_io_rel (preserving (all_assets P)) (CreateAsset a)"
proof (rule pres_of_cases)
  fix w :: "'b mem_scheme" and r w'
  assume "run_state (CreateAsset a) w = (r, w')" and I: "all_assets P w"
  from this(1) assms(2,3) show "all_assets P w'"
    by (cases rule: CreateAsset_outcome)
      (auto intro: all_assets_same [OF _ I] all_assets_update [OF I save_keeps [OF assms(1)]])
qed

lemma delete_pres: "state_io_rel (preserving (all_assets P)) (DeleteAsset t i)"
proof (rule pres_of_cases)
  fix w :: "'b mem_scheme" and r w'
  assume "run_state (DeleteAsset t i) w = (r, w')" and I: "all_assets P w"
  from this(1) show "all_assets P w'"
  proof (cases rule: DeleteAsset_outcome)
    case (failed e)
    then show ?thesis using I by (auto intro: all_assets_same)
  next
    case (deleted a)
    then show ?thesis using I set_vals_delete [of i "assets w"] by (intro all_assets_sub [OF I]) auto
  qed
qed

lemma unlink_pres: "state_io_rel (preserving (all_assets P)) (DeleteSupplier t i)"
proof -
  have "\<forall>a\<in>set (vals (update_where p (\<lambda>a. a\<lparr>a_SupplierID := []\<rparr>) m)). P a" if "\<forall>a\<in>set (vals m). P a" for p m
    using that unlink_keeps by (auto simp only: set_vals_update_where split: if_splits)
  then show ?thesis
    by (auto simp: state_io_rel_def preserving_def all_assets_def DeleteSupplier_def run_guarded split: option.splits simp del: set_map)
qed

lemmas row_rules = update_pres delete_pres unlink_pres kept_writes [THEN pres_kept] pres.io_rules

end

lemma pres_quiet: "quiet m \<Longrightarrow> state_io_rel (preserving (all_assets P)) m"
  by (intro pres_kept kept_quiet)

lemma pres_in_tenant: "state_io_rel (preserving I) m \<Longrightarrow> state_io_rel (preserving I) (in_tenant subj m)"
  by (simp add: in_tenant_eq pres.io_fail)

lemma AutoTag_nonempty: "run_state AutoTag w = (tag, w') \<Longrightarrow> tag \<noteq> []"
  by (auto simp: AutoTag_def split: prod.splits)

lemma pres_NewID:
  assumes "\<And>i. i \<noteq> [] \<Longrightarrow> state_io_rel (preserving (all_assets P)) (f i)"
  shows "state_io_rel (preserving (all_assets P)) (State_Monad.bind NewID f :: ('z world_scheme, _) state)"
  by (rule pres.io_bind_val) (auto intro: pres_quiet quiet_NewID assms)

lemmas quiet_parts = quiet_reads quiet_get quiet_NewID quiet_Emit quiet_Publish quiet_blob_Delete quiet_checkRefs quiet_view
  quiet_refuse_state quiet_reads [THEN quiet_exists_or]

text \<open>
  An invariant that moreover holds of the rows the asset service makes: a new row, an edited one, and one
  that is checked out or in. Every operation of the service keeps it.
\<close>

locale asset_service_invariant = asset_row_invariant +
  assumes tag_keeps: "P a \<Longrightarrow> P (a\<lparr>a_AssetTag := tag\<rparr>)"
    and new_row: "asset_validate inp = Inr () \<Longrightarrow> x_Status inp \<noteq> AssetAssigned \<Longrightarrow>
      P (asset_defaults (asset_apply (zero_asset\<lparr>a_ID := i, a_TenantID := t, a_CreatedBy := who, a_UpdatedBy := who,
        a_CreatedAt := now, a_UpdatedAt := now\<rparr>) inp))"
    and edit_row: "asset_validate inp = Inr () \<Longrightarrow> x_Status inp \<noteq> AssetAssigned \<Longrightarrow> P a \<Longrightarrow>
      P ((asset_edit a inp)\<lparr>a_UpdatedBy := who, a_UpdatedAt := now\<rparr>)"
    and check_out_row: "P a \<Longrightarrow> u \<noteq> [] \<Longrightarrow>
      P (a\<lparr>a_Status := AssetAssigned, a_UserID := u, a_LocationID := [], a_UpdatedBy := who, a_UpdatedAt := now\<rparr>)"
    and check_in_row: "P a \<Longrightarrow>
      P (a\<lparr>a_Status := AssetDeployable, a_UserID := [], a_LocationID := loc, a_UpdatedBy := who, a_UpdatedAt := now\<rparr>)"
begin

lemma insert_loop_pres:
  assumes "P a" and "a_ID a \<noteq> []" and "auto \<or> a_AssetTag a \<noteq> []"
  shows "state_io_rel (preserving (all_assets P)) (insert_loop n auto a :: ('z world_scheme, _, _) prog)"
  using assms
proof (induction n arbitrary: a)
  case 0
  show ?case unfolding insert_loop.simps Let_def
    by (rule pres.io_bind_val, intro pres_quiet quiet_if quiet_AutoTag quiet_return)
      (use 0 in \<open>auto intro!: pres.io_rules create_pres tag_keeps dest: AutoTag_nonempty split: if_splits\<close>)
next
  case (Suc n)
  show ?case unfolding insert_loop.simps Let_def
    by (rule pres.io_bind_val, intro pres_quiet quiet_if quiet_AutoTag quiet_return)
      (use Suc.prems in \<open>auto intro!: pres.io_rules create_pres tag_keeps Suc.IH dest: AutoTag_nonempty split: if_splits\<close>)
qed

lemma with_asset:
  assumes "\<And>a. P a \<Longrightarrow> state_io_rel (preserving (all_assets P)) (f a)"
  shows "state_io_rel (preserving (all_assets P)) (try_as g (GetAsset t i) f :: ('z world_scheme, _, _) prog)"
  by (rule pres_try_as_val [OF _ get_yields]) (auto intro: pres_quiet quiet_reads assms)

lemmas service_rules = pres_in_tenant with_asset pres_NewID quiet_parts [THEN pres_quiet] insert_loop_pres row_rules

lemma Create_pres: "state_io_rel (preserving (all_assets P)) (Assets_Create svc subj inp)"
  unfolding Assets_Create_def Let_def by (intro service_rules new_row) (auto simp: zero_asset_def)

lemma Update_pres: "state_io_rel (preserving (all_assets P)) (Assets_Update svc subj i inp)"
  unfolding Assets_Update_def Let_def by (intro service_rules edit_row) auto

lemma Assign_pres: "state_io_rel (preserving (all_assets P)) (Assets_Assign svc subj i u notes)"
  unfolding Assets_Assign_def check_out_def Let_def by (intro service_rules check_out_row) auto

lemma Unassign_pres: "state_io_rel (preserving (all_assets P)) (Assets_Unassign svc subj i loc notes)"
  unfolding Assets_Unassign_def check_in_def Let_def by (intro service_rules check_in_row) auto

lemma Delete_pres:
  assumes "\<And>purge ds. docs svc = Some purge \<Longrightarrow> state_io_rel (preserving (all_assets P)) (purge (TenantID subj) ds)"
  shows "state_io_rel (preserving (all_assets P)) (Assets_Delete svc subj i)"
  unfolding Assets_Delete_def Let_def purge_objects_def by (intro service_rules assms)

end

section \<open>The assigned state\<close>

definition life_row :: "Asset \<Rightarrow> bool" where
  "life_row a \<longleftrightarrow> validStatus (a_Status a) \<and> (a_Status a = AssetAssigned \<longleftrightarrow> a_UserID a \<noteq> [])
     \<and> (a_Status a = AssetAssigned \<longrightarrow> a_LocationID a = [])"

lemma life_row_stable:
  assumes "life_row a" and "a_Status b = default_text (a_Status a) d" and "a_UserID b = a_UserID a" and "a_LocationID b = a_LocationID a"
  shows "life_row b"
proof -
  have "a_Status a \<noteq> []" using assms(1) by (auto simp: life_row_def validStatus_def)
  with assms show ?thesis by (simp add: life_row_def default_text_def)
qed

lemma validated_status:
  assumes "asset_validate inp = Inr ()"
  shows "x_Status inp = [] \<or> validStatus (x_Status inp)"
  using assms unfolding asset_validate_def by (metis Inl_not_Inr)

lemma life_new:
  assumes "asset_validate inp = Inr ()" and "x_Status inp \<noteq> AssetAssigned" and "a_UserID a = []"
  shows "life_row (asset_defaults (asset_apply a inp))"
  using validated_status [OF assms(1)] assms(2,3)
  by (auto simp: life_row_def asset_defaults_def asset_apply_def validStatus_def)

lemma life_edit:
  assumes "asset_validate inp = Inr ()" and "x_Status inp \<noteq> AssetAssigned" and "life_row a"
  shows "life_row ((asset_edit a inp)\<lparr>a_UpdatedBy := by0, a_UpdatedAt := now\<rparr>)"
  using validated_status [OF assms(1)] assms(2,3)
  by (auto simp: life_row_def asset_edit_def asset_defaults_def asset_apply_def validStatus_def Let_def)

interpretation life: asset_service_invariant life_row
proof
  fix a b ex :: Asset and now
  assume a: "life_row a"
  then have ne: "a_Status a \<noteq> []" by (auto simp: life_row_def validStatus_def)
  show "life_row (fillAsset now a)" "life_row (asset_saved a now)" "life_row (asset_kept a ex now)" "life_row (a\<lparr>a_SupplierID := []\<rparr>)"
    using ne by (auto intro!: life_row_stable [OF a, of _ AssetDeployable] simp: fillAsset_def asset_saved_def asset_kept_def default_text_def)
qed (auto intro!: life_new life_edit simp: zero_asset_def, auto simp: life_row_def validStatus_def)


end
