(* ===== verification/Custody.thy ===== *)
theory Custody
  imports Lifecycle
begin

text \<open>
  Custody: who holds an asset, told by its row and told by the assignment history. After operations
  that report success the two agree: an assigned asset has exactly one open assignment, of its own
  assignee, and any other asset has none.
\<close>

section \<open>What a successful operation did\<close>

lemma quiet_run: "quiet m \<Longrightarrow> run_state m w = (r, w') \<Longrightarrow> core w' = core w"
  by (auto simp: quiet_def) (metis snd_conv)

lemma GetAsset_ok:
  assumes "run_state (GetAsset t i) w = (Inr a, w')"
  shows "w' = w \<and> (\<exists>a0. map_of (assets w) i = Some a0 \<and> a_TenantID a0 = t \<and> a = fillAsset (wall w) a0)"
  using assms by (cases rule: GetAsset_outcome) auto

lemma UpdateAsset_ok:
  assumes "run_state (UpdateAsset a) w = (Inr x, w')"
  shows "\<exists>ex. map_of (assets w) (a_ID a) = Some ex \<and> a_TenantID ex = a_TenantID a
    \<and> w' = w\<lparr>assets := AList.update (a_ID a) (asset_kept a ex (wall w)) (assets w)\<rparr>"
  using assms by (cases rule: UpdateAsset_outcome) auto

lemma InsertAssignment_ok:
  assumes "run_state (InsertAssignment g) w = (Inr x, w')" and "g_ID g \<noteq> []" and "g_Action g \<noteq> []"
  shows "map_of (assignments w) (g_ID g) = None
    \<and> w' = w\<lparr>assignments := AList.update (g_ID g) (g\<lparr>g_AssignedAt := default_time (g_AssignedAt g) (wall w)\<rparr>) (assignments w)\<rparr>"
  using assms by (cases rule: InsertAssignment_outcome) auto

definition assigned_row :: "Asset \<Rightarrow> string \<Rightarrow> Subjects \<Rightarrow> gotime \<Rightarrow> Asset" where
  "assigned_row a u subj now = a\<lparr>a_Status := AssetAssigned, a_UserID := u, a_LocationID := [], a_UpdatedBy := ActorID subj, a_UpdatedAt := now\<rparr>"

definition returned_row :: "Asset \<Rightarrow> string \<Rightarrow> Subjects \<Rightarrow> gotime \<Rightarrow> Asset" where
  "returned_row a loc subj now = a\<lparr>a_Status := AssetDeployable, a_UserID := [], a_LocationID := loc, a_UpdatedBy := ActorID subj, a_UpdatedAt := now\<rparr>"

definition history_row :: "string \<Rightarrow> Subjects \<Rightarrow> Asset \<Rightarrow> string \<Rightarrow> string \<Rightarrow> string \<Rightarrow> gotime \<Rightarrow> gotime option \<Rightarrow> string \<Rightarrow> Assignment" where
  "history_row gid subj a u name act now ret notes = \<lparr>g_ID = gid, g_TenantID = TenantID subj, g_AssetID = a_ID a, g_AssetName = a_Name a,
     g_UserID = u, g_UserName = name, g_Action = act, g_AssignedAt = now, g_ReturnedAt = ret, g_AssignedBy = ActorID subj, g_Notes = notes\<rparr>"

lemma history_row_simps [simp]:
  "g_ID (history_row gid subj a u name act now ret notes) = gid"
  "g_TenantID (history_row gid subj a u name act now ret notes) = TenantID subj"
  "g_AssetID (history_row gid subj a u name act now ret notes) = a_ID a"
  "g_UserID (history_row gid subj a u name act now ret notes) = u"
  "g_Action (history_row gid subj a u name act now ret notes) = act"
  "g_ReturnedAt (history_row gid subj a u name act now ret notes) = ret"
  "g_AssignedAt (history_row gid subj a u name act now ret notes) = now"
  "(history_row gid subj a u name act now ret notes)\<lparr>g_AssignedAt := default_time now now\<rparr> = history_row gid subj a u name act now ret notes"
  by (simp_all add: history_row_def default_time_def)

lemma quiet_report: "quiet (do { Publish t ty pl; Emit uni b e; v \<leftarrow> asset_view svc a; ok v })"
  by (intro quiet_rules quiet_view)

definition drawn :: "'z sys_scheme \<Rightarrow> 'z sys_scheme" where
  "drawn w = w\<lparr>rnd := rnd (after_id [] w), idLast := idLast (after_id [] w), idSeq := idSeq (after_id [] w)\<rparr>"

lemma run_bind_NewID: "run_state (State_Monad.bind NewID f) w = run_state (f (new_id [] w)) (drawn w)"
  by (simp add: drawn_def)

lemma drawn_simps [simp]: "core (drawn w) = core w" "wall (drawn w) = wall w" "assets (drawn w) = assets w"
  "assignments (drawn w) = assignments w"
  by (simp_all add: drawn_def)

text \<open>Drawing an id, inserting the history row, reporting: the common tail of check-out and check-in.\<close>

lemma record_history_ok:
  assumes "run_state (do { gid \<leftarrow> NewID;
      try_as StoreErr (InsertAssignment (history_row gid subj a u name act now ret notes)) (\<lambda>_. do {
        Publish t ty pl; Emit uni b (e gid); v \<leftarrow> asset_view svc a'; ok v }) }) w = (Inr v, w')"
    and "act \<noteq> []" and "wall w = now"
  shows "\<exists>gid. gid \<noteq> [] \<and> map_of (assignments w) gid = None
    \<and> core w' = (core w)\<lparr>assignments := AList.update gid (history_row gid subj a u name act now ret notes) (assignments w)\<rparr>"
proof -
  let ?gid = "new_id [] w"
  from assms(1) [unfolded run_bind_NewID]
  obtain x w2 where ins: "run_state (InsertAssignment (history_row ?gid subj a u name act now ret notes)) (drawn w) = (Inr x, w2)"
    and rep: "run_state (do { Publish t ty pl; Emit uni b (e ?gid); v \<leftarrow> asset_view svc a'; ok v } :: (_, svc_err, _) prog) w2 = (Inr v, w')"
    by (rule try_as_Inr)
  have "core w' = core w2" by (rule quiet_run [OF quiet_report rep])
  with InsertAssignment_ok [OF ins] assms(2,3) show ?thesis
    by (intro exI [of _ ?gid]) simp
qed

lemma check_out_ok:
  assumes "run_state (check_out svc subj a u name notes) w = (Inr v, w')"
  shows "\<exists>ex gid. map_of (assets w) (a_ID a) = Some ex \<and> gid \<noteq> [] \<and> map_of (assignments w) gid = None
    \<and> core w' = (core w)\<lparr>assets := AList.update (a_ID a) (asset_kept (assigned_row a u subj (wall w)) ex (wall w)) (assets w),
        assignments := AList.update gid (history_row gid subj (assigned_row a u subj (wall w)) u name ActionAssigned (wall w) None notes) (assignments w)\<rparr>"
proof -
  let ?a = "assigned_row a u subj (wall w)"
  have "run_state (try_as asset_mapErr (UpdateAsset ?a) (\<lambda>_. do { gid \<leftarrow> NewID;
      try_as StoreErr (InsertAssignment (history_row gid subj ?a u name ActionAssigned (wall w) None notes)) (\<lambda>_. do {
        Publish (TenantID subj) ''asset.assigned'' (AssetAssignedPayload (a_ID ?a) (a_AssetTag ?a) u);
        Emit (fold_case svc) (aud svc) (asset_event subj ''asset_assigned'' ''assignment'' gid OutcomeOK []
          [(''asset_id'', AStr (a_ID ?a)), (''user_id'', AStr u)]);
        v \<leftarrow> asset_view svc ?a; ok v }) })) w = (Inr v, w')"
    using assms by (simp add: check_out_def assigned_row_def history_row_def Let_def)
  then obtain x w1 where upd: "run_state (UpdateAsset ?a) w = (Inr x, w1)"
    and tail: "run_state (do { gid \<leftarrow> NewID;
      try_as StoreErr (InsertAssignment (history_row gid subj ?a u name ActionAssigned (wall w) None notes)) (\<lambda>_. do {
        Publish (TenantID subj) ''asset.assigned'' (AssetAssignedPayload (a_ID ?a) (a_AssetTag ?a) u);
        Emit (fold_case svc) (aud svc) (asset_event subj ''asset_assigned'' ''assignment'' gid OutcomeOK []
          [(''asset_id'', AStr (a_ID ?a)), (''user_id'', AStr u)]);
        v \<leftarrow> asset_view svc ?a; ok v }) }) w1 = (Inr v, w')"
    by (rule try_as_Inr)
  from UpdateAsset_ok [OF upd] obtain ex where ex: "map_of (assets w) (a_ID a) = Some ex"
    and w1: "w1 = w\<lparr>assets := AList.update (a_ID a) (asset_kept ?a ex (wall w)) (assets w)\<rparr>"
    by (auto simp: assigned_row_def)
  with record_history_ok [OF tail] show ?thesis by auto
qed

lemma check_in_ok:
  assumes "run_state (check_in svc subj a loc notes) w = (Inr v, w')"
  shows "\<exists>ex gid name. map_of (assets w) (a_ID a) = Some ex \<and> gid \<noteq> []
    \<and> (let closed = update_where (\<lambda>g. g_TenantID g = TenantID subj \<and> g_AssetID g = a_ID a \<and> g_ReturnedAt g = None)
             (\<lambda>g. g\<lparr>g_ReturnedAt := Some (wall w)\<rparr>) (assignments w) in
      map_of closed gid = None
      \<and> core w' = (core w)\<lparr>assets := AList.update (a_ID a) (asset_kept (returned_row a loc subj (wall w)) ex (wall w)) (assets w),
          assignments := AList.update gid (history_row gid subj (returned_row a loc subj (wall w)) (a_UserID a) name ActionUnassigned
            (wall w) (Some (wall w)) notes) closed\<rparr>)"
proof -
  let ?a = "returned_row a loc subj (wall w)"
  let ?name = "case users svc of None \<Rightarrow> [] | Some resolve \<Rightarrow>
    if a_UserID a \<noteq> [] then (case resolve (TenantID subj) (a_UserID a) of Inr u \<Rightarrow> u_DisplayName u | Inl _ \<Rightarrow> []) else []"
  let ?tail = "do { gid \<leftarrow> NewID;
      try_as StoreErr (InsertAssignment (history_row gid subj ?a (a_UserID a) ?name ActionUnassigned (wall w) (Some (wall w)) notes)) (\<lambda>_. do {
        Publish (TenantID subj) ''asset.unassigned'' (AssetUnassignedPayload (a_ID ?a) (a_AssetTag ?a) (a_UserID a));
        Emit (fold_case svc) (aud svc) (asset_event subj ''asset_unassigned'' ''assignment'' gid OutcomeOK []
          [(''asset_id'', AStr (a_ID ?a)), (''user_id'', AStr (a_UserID a))]);
        v \<leftarrow> asset_view svc ?a; ok v }) } :: (_, svc_err, _) prog"
  have "run_state (try_as asset_mapErr (UpdateAsset ?a) (\<lambda>_. do {
      r \<leftarrow> CloseActiveAssignment (TenantID subj) (a_ID a) (wall w);
      if (case r of Inl e \<Rightarrow> e \<noteq> RNotFound | Inr _ \<Rightarrow> False) then fail_with (StoreErr (projl r)) else ?tail })) w = (Inr v, w')"
    using assms by (simp add: check_in_def returned_row_def history_row_def Let_def cong: if_cong)
  then obtain x w1 where upd: "run_state (UpdateAsset ?a) w = (Inr x, w1)"
    and rest: "run_state (do { r \<leftarrow> CloseActiveAssignment (TenantID subj) (a_ID a) (wall w);
      if (case r of Inl e \<Rightarrow> e \<noteq> RNotFound | Inr _ \<Rightarrow> False) then fail_with (StoreErr (projl r)) else ?tail }) w1 = (Inr v, w')"
    by (rule try_as_Inr)
  from UpdateAsset_ok [OF upd] obtain ex where ex: "map_of (assets w) (a_ID a) = Some ex"
    and w1: "w1 = w\<lparr>assets := AList.update (a_ID a) (asset_kept ?a ex (wall w)) (assets w)\<rparr>"
    by (auto simp: returned_row_def)
  obtain r2 w2 where close: "run_state (CloseActiveAssignment (TenantID subj) (a_ID a) (wall w)) w1 = (r2, w2)" by force
  from close show ?thesis
  proof (cases rule: CloseActiveAssignment_outcome)
    case failed
    with rest close show ?thesis by simp
  next
    case ended
    with rest close have tail: "run_state ?tail w2 = (Inr v, w')" by (simp only: run_state_bind prod.case sum.case if_False)
    have "wall w2 = wall w" using ended w1 by simp
    from record_history_ok [OF tail _ this] ex ended w1 show ?thesis
      by (auto simp: Let_def default_time_def)
  qed
qed

lemma Assign_ok:
  assumes "run_state (Assets_Assign svc subj i u notes) w = (Inr v, w')"
  shows "\<exists>a0 name. TenantID subj \<noteq> [] \<and> u \<noteq> [] \<and> map_of (assets w) i = Some a0 \<and> a_TenantID a0 = TenantID subj \<and> a_Status a0 = AssetDeployable
    \<and> run_state (check_out svc subj (fillAsset (wall w) a0) u name notes) w = (Inr v, w')"
  using assms
  by (auto simp: Assets_Assign_def in_tenant_eq refuse_state_def fillAsset_def split: if_splits sum.splits prod.splits
    elim!: try_as_Inr dest!: GetAsset_ok)

lemma exists_or_ok: "run_state (exists_or ref msg get) w = (Inr x, w') \<Longrightarrow> ref \<noteq> [] \<Longrightarrow> \<exists>y. run_state get w = (Inr y, w')"
  by (auto simp: exists_or_def elim!: try_as_Inr)

lemma exists_or_location:
  assumes "run_state (exists_or ref msg (GetLocation t ref)) w = (Inr x, w')"
  shows "w' = w \<and> (ref \<noteq> [] \<longrightarrow> (\<exists>l. map_of (locations w) ref = Some l \<and> l_TenantID l = t))"
  using assms by (cases "ref = []") (auto simp: exists_or_def elim!: try_as_Inr dest!: GetLocation_found)

lemma Unassign_ok:
  assumes "run_state (Assets_Unassign svc subj i loc notes) w = (Inr v, w')"
  shows "\<exists>a0. TenantID subj \<noteq> [] \<and> map_of (assets w) i = Some a0 \<and> a_TenantID a0 = TenantID subj \<and> a_Status a0 = AssetAssigned
    \<and> (loc \<noteq> [] \<longrightarrow> (\<exists>l. map_of (locations w) loc = Some l \<and> l_TenantID l = TenantID subj))
    \<and> run_state (check_in svc subj (fillAsset (wall w) a0) loc notes) w = (Inr v, w')"
  using assms
  by (auto simp: Assets_Unassign_def in_tenant_eq refuse_state_def fillAsset_def split: if_splits sum.splits prod.splits
    elim!: try_as_Inr try_in_Inr dest!: GetAsset_ok exists_or_location)

definition refs_exist :: "'z mem_scheme \<Rightarrow> string \<Rightarrow> string \<Rightarrow> string \<Rightarrow> string \<Rightarrow> bool" where
  "refs_exist w t c s l \<longleftrightarrow>
     (c \<noteq> [] \<longrightarrow> (case map_of (categories w) c of None \<Rightarrow> False | Some r \<Rightarrow> c_TenantID r = t))
     \<and> (s \<noteq> [] \<longrightarrow> (case map_of (suppliers w) s of None \<Rightarrow> False | Some r \<Rightarrow> s_TenantID r = t))
     \<and> (l \<noteq> [] \<longrightarrow> (case map_of (locations w) l of None \<Rightarrow> False | Some r \<Rightarrow> l_TenantID r = t))"

lemma checkRefs_ok:
  assumes "run_state (checkRefs t inp) w = (Inr x, w')"
  shows "w' = w \<and> refs_exist w t (x_CategoryID inp) (x_SupplierID inp) (x_LocationID inp)"
proof -
  from assms obtain y w1 z w2 where c: "run_state (exists_or (x_CategoryID inp) ''category_id does not exist'' (GetCategory t (x_CategoryID inp))) w = (Inr y, w1)"
    and s: "run_state (exists_or (x_SupplierID inp) ''supplier_id does not exist'' (GetSupplier t (x_SupplierID inp))) w1 = (Inr z, w2)"
    and l: "run_state (exists_or (x_LocationID inp) ''location_id does not exist'' (GetLocation t (x_LocationID inp))) w2 = (Inr x, w')"
    unfolding checkRefs_def by (elim try_in_Inr)
  have "w1 = w" using c by (cases "x_CategoryID inp = []") (auto simp: exists_or_def elim!: try_as_Inr dest!: GetCategory_found)
  moreover have "w2 = w1" using s by (cases "x_SupplierID inp = []") (auto simp: exists_or_def elim!: try_as_Inr dest!: GetSupplier_found)
  ultimately show ?thesis
    using c s exists_or_location [OF l]
    by (auto simp: refs_exist_def dest!: exists_or_ok GetCategory_found GetSupplier_found)
qed

lemma draw_tag:
  assumes "run_state (if auto then AutoTag else State_Monad.return t0) w = (tag, w1)" and "auto \<or> t0 \<noteq> []"
  shows "core w1 = core w \<and> wall w1 = wall w \<and> tag \<noteq> [] \<and> (\<not> auto \<longrightarrow> tag = t0)"
  using assms by (auto simp: AutoTag_def read_rand_def split: if_splits)

definition asset_inserted :: "bool \<Rightarrow> Asset \<Rightarrow> 'z mem_scheme \<Rightarrow> Asset \<Rightarrow> 'z mem_scheme \<Rightarrow> bool" where
  "asset_inserted auto a w b w' \<longleftrightarrow> (\<exists>tag. b = a\<lparr>a_AssetTag := tag\<rparr> \<and> tag \<noteq> [] \<and> (\<not> auto \<longrightarrow> tag = a_AssetTag a))
    \<and> map_of (assets w) (a_ID a) = None \<and> \<not> asset_tag_taken b (assets w)
    \<and> core w' = (core w)\<lparr>assets := AList.update (a_ID a) (asset_saved b (wall w)) (assets w)\<rparr>"

lemma CreateAsset_ok:
  assumes "run_state (CreateAsset a) w = (Inr x, w')" and "a_ID a \<noteq> []" and "a_AssetTag a \<noteq> []"
  shows "map_of (assets w) (a_ID a) = None \<and> \<not> asset_tag_taken a (assets w)
    \<and> w' = w\<lparr>assets := AList.update (a_ID a) (asset_saved a (wall w)) (assets w)\<rparr>"
  by (rule CreateAsset_outcome [OF assms]) auto

lemma CreateAsset_err:
  assumes "run_state (CreateAsset a) w = (Inl e, w')" and "a_ID a \<noteq> []" and "a_AssetTag a \<noteq> []"
  shows "same w w'"
  by (rule CreateAsset_outcome [OF assms]) auto

lemma inserted_here:
  assumes "run_state (CreateAsset (a\<lparr>a_AssetTag := tag\<rparr>)) w1 = (Inr x, w')" and "core w1 = core w" and "wall w1 = wall w"
    and "a_ID a \<noteq> []" and "tag \<noteq> []" and "\<not> auto \<longrightarrow> tag = a_AssetTag a"
  shows "asset_inserted auto a w (a\<lparr>a_AssetTag := tag\<rparr>) w'"
  using CreateAsset_ok [OF assms(1)] assms(2-) core_tables(1) [OF assms(2)]
  by (auto simp: asset_inserted_def)

lemma insert_loop_ok:
  assumes "run_state (insert_loop n auto a) w = (Inr b, w')" and "a_ID a \<noteq> []" and "auto \<or> a_AssetTag a \<noteq> []"
  shows "asset_inserted auto a w b w'"
  using assms
proof (induction n arbitrary: a w)
  case 0
  obtain tag w1 where t: "run_state (if auto then AutoTag else State_Monad.return (a_AssetTag a)) w = (tag, w1)" by force
  with 0 obtain x where "run_state (CreateAsset (a\<lparr>a_AssetTag := tag\<rparr>)) w1 = (Inr x, w')" "b = a\<lparr>a_AssetTag := tag\<rparr>"
    by (auto simp: Let_def elim!: try_as_Inr)
  with inserted_here draw_tag [OF t] 0 show ?case by blast
next
  case (Suc n)
  obtain tag w1 where t: "run_state (if auto then AutoTag else State_Monad.return (a_AssetTag a)) w = (tag, w1)" by force
  obtain r w2 where c: "run_state (CreateAsset (a\<lparr>a_AssetTag := tag\<rparr>)) w1 = (r, w2)" by force
  note d = draw_tag [OF t Suc.prems(3)]
  show ?case
  proof (cases r)
    case (Inr x)
    with Suc.prems(1) t c have "b = a\<lparr>a_AssetTag := tag\<rparr>" "w' = w2" by (simp_all add: Let_def)
    with inserted_here c Inr d Suc.prems(2) show ?thesis by blast
  next
    case (Inl e)
    from CreateAsset_err [OF c [unfolded Inl]] d Suc.prems(2) have core: "core w2 = core w" "wall w2 = wall w"
      by (simp_all add: same_def)
    from Suc.prems(1) t c Inl have auto: auto and "run_state (insert_loop n auto (a\<lparr>a_AssetTag := tag\<rparr>)) w2 = (Inr b, w')"
      by (auto simp: Let_def split: if_splits)
    with Suc.IH [OF this(2)] Suc.prems(2) d have "asset_inserted auto (a\<lparr>a_AssetTag := tag\<rparr>) w2 b w'" by simp
    with auto core core_tables(1) [OF core(1)] show ?thesis by (auto simp: asset_inserted_def)
  qed
qed

lemma scoped_wall:
  assumes "state_io_rel (scoped t) m" and "run_state m w = (r, w')"
  shows "wall w' = wall w"
  using assms(1) by (simp add: state_io_rel_def scoped_def owned_rows_def) (metis assms(2) snd_conv)

lemma Create_ok:
  assumes "run_state (Assets_Create svc subj inp) w = (Inr v, w')"
  shows "\<exists>i b w1. i \<noteq> [] \<and> TenantID subj \<noteq> [] \<and> asset_validate inp = Inr () \<and> x_Status inp \<noteq> AssetAssigned
    \<and> refs_exist w (TenantID subj) (x_CategoryID inp) (x_SupplierID inp) (x_LocationID inp)
    \<and> (let a = asset_defaults (asset_apply (zero_asset\<lparr>a_ID := i, a_TenantID := TenantID subj, a_CreatedBy := ActorID subj,
         a_UpdatedBy := ActorID subj, a_CreatedAt := wall w, a_UpdatedAt := wall w\<rparr>) inp)
       in asset_inserted (a_AssetTag a = []) a w b w1 \<and> core w' = core w1 \<and> vw_Asset v = b\<lparr>a_BookValue := asset_bookValue b (wall w)\<rparr>)"
proof -
  from assms have t: "TenantID subj \<noteq> []" "asset_validate inp = Inr ()" "x_Status inp \<noteq> AssetAssigned"
    by (auto simp: Assets_Create_def in_tenant_eq split: if_splits sum.splits)
  let ?a = "asset_defaults (asset_apply (zero_asset\<lparr>a_ID := new_id [] w, a_TenantID := TenantID subj, a_CreatedBy := ActorID subj,
    a_UpdatedBy := ActorID subj, a_CreatedAt := wall w, a_UpdatedAt := wall w\<rparr>) inp)"
  from assms t obtain x s1 where "run_state (checkRefs (TenantID subj) inp) w = (Inr x, s1)"
    by (auto simp: Assets_Create_def in_tenant_eq elim!: try_in_Inr)
  with checkRefs_ok [OF this] have refs: "run_state (checkRefs (TenantID subj) inp) w = (Inr x, w)" by simp
  with assms t have "run_state (try_in (insert_loop 5 (a_AssetTag ?a = []) ?a) (\<lambda>a. do {
         Emit (fold_case svc) (aud svc) (asset_event subj ''asset_created'' ''asset'' (a_ID a) OutcomeOK []
           [(''asset_tag'', AStr (a_AssetTag a))]);
         v \<leftarrow> asset_view svc a;
         ok v })) (drawn w) = (Inr v, w')"
    by (simp add: Assets_Create_def in_tenant_eq run_try_in [of "checkRefs _ _"] drawn_def Let_def)
  then obtain b w1 where ins: "run_state (insert_loop 5 (a_AssetTag ?a = []) ?a) (drawn w) = (Inr b, w1)"
    and rep: "run_state (do { Emit (fold_case svc) (aud svc) (asset_event subj ''asset_created'' ''asset'' (a_ID b) OutcomeOK []
           [(''asset_tag'', AStr (a_AssetTag b))]); v \<leftarrow> asset_view svc b; ok v } :: (_, svc_err, _) prog) w1 = (Inr v, w')"
    by (rule try_in_Inr)
  have "core w' = core w1"
    by (rule quiet_run [OF _ rep]) (intro quiet_rules quiet_view)
  moreover have "asset_inserted (a_AssetTag ?a = []) ?a w b w1"
    using insert_loop_ok [OF ins] by (auto simp: zero_asset_def asset_inserted_def)
  moreover have "vw_Asset v = b\<lparr>a_BookValue := asset_bookValue b (wall w)\<rparr>"
    using rep scoped_wall [OF scoped_insert_loop ins, of "TenantID subj"]
    by (auto simp: view_at_def zero_asset_def Let_def asset_view_def split: prod.splits dest!: scoped_wall [OF scoped_Emit [OF asset_event_tenant]])
  ultimately show ?thesis
    using t checkRefs_ok [OF refs] by (intro exI [of _ "new_id [] w"] exI [of _ b] exI [of _ w1]) (simp add: Let_def)
qed

lemma Update_ok:
  assumes "run_state (Assets_Update svc subj i inp) w = (Inr v, w')"
  shows "\<exists>a0 ex. TenantID subj \<noteq> [] \<and> asset_validate inp = Inr () \<and> x_Status inp \<noteq> AssetAssigned
    \<and> refs_exist w (TenantID subj) (x_CategoryID inp) (x_SupplierID inp) (x_LocationID inp)
    \<and> map_of (assets w) i = Some a0 \<and> a_TenantID a0 = TenantID subj \<and> map_of (assets w) (a_ID a0) = Some ex
    \<and> core w' = (core w)\<lparr>assets := AList.update (a_ID a0) (asset_kept ((asset_edit (fillAsset (wall w) a0) inp)
        \<lparr>a_UpdatedBy := ActorID subj, a_UpdatedAt := wall w\<rparr>) ex (wall w)) (assets w)\<rparr>"
proof -
  from assms have t: "TenantID subj \<noteq> []" "asset_validate inp = Inr ()" "x_Status inp \<noteq> AssetAssigned"
    by (auto simp: Assets_Update_def in_tenant_eq split: if_splits sum.splits)
  let ?f = "\<lambda>a0. (asset_edit a0 inp)\<lparr>a_UpdatedBy := ActorID subj, a_UpdatedAt := wall w\<rparr>"
  from assms t obtain x s1 where "run_state (checkRefs (TenantID subj) inp) w = (Inr x, s1)"
    by (auto simp: Assets_Update_def in_tenant_eq elim!: try_in_Inr)
  with checkRefs_ok [OF this] have refs: "run_state (checkRefs (TenantID subj) inp) w = (Inr x, w)" by simp
  with assms t obtain a s2 where get: "run_state (GetAsset (TenantID subj) i) w = (Inr a, s2)"
    by (auto simp: Assets_Update_def in_tenant_eq run_try_in elim!: try_as_Inr)
  from GetAsset_ok [OF get] obtain a0 where a0: "s2 = w" "map_of (assets w) i = Some a0" "a_TenantID a0 = TenantID subj" "a = fillAsset (wall w) a0"
    by auto
  have "run_state (try_as asset_mapErr (UpdateAsset (?f a)) (\<lambda>_. do {
      Emit (fold_case svc) (aud svc) (asset_event subj ''asset_updated'' ''asset'' (a_ID (?f a)) OutcomeOK [] []);
      v \<leftarrow> asset_view svc (?f a); ok v })) w = (Inr v, w')"
    using assms t refs get a0(1) by (simp add: Assets_Update_def in_tenant_eq run_try_in run_try_as [of _ "GetAsset _ _"] Let_def)
  then obtain y w1 where upd: "run_state (UpdateAsset (?f a)) w = (Inr y, w1)"
    and rep: "run_state (do { Emit (fold_case svc) (aud svc) (asset_event subj ''asset_updated'' ''asset'' (a_ID (?f a)) OutcomeOK [] []);
      v \<leftarrow> asset_view svc (?f a); ok v } :: (_, svc_err, _) prog) w1 = (Inr v, w')"
    by (rule try_as_Inr)
  have "core w' = core w1"
    by (rule quiet_run [OF _ rep]) (intro quiet_rules quiet_view)
  with UpdateAsset_ok [OF upd] t a0 checkRefs_ok [OF refs] show ?thesis
    by (auto simp: fillAsset_def)
qed

text \<open>A purger removes documents and their objects; it has no business with assets and assignments.\<close>

definition custody_kept :: "'z mem_scheme \<Rightarrow> 'z mem_scheme \<Rightarrow> bool" where
  "custody_kept w w' \<longleftrightarrow> assets w' = assets w \<and> assignments w' = assignments w"

interpretation ck: io_relation custody_kept
  by unfold_locales (auto simp: custody_kept_def)

definition purger_ok :: "'z AssetService \<Rightarrow> bool" where
  "purger_ok svc \<longleftrightarrow> (\<forall>purge t ds. docs svc = Some purge \<longrightarrow> state_io_rel custody_kept (purge t ds) \<and> state_io_rel (scoped t) (purge t ds))"

lemma ck_quiet: "quiet m \<Longrightarrow> state_io_rel custody_kept m"
  by (auto simp: quiet_def state_io_rel_def custody_kept_def intro!: core_tables(1,2))

lemma ck_purge:
  assumes "purger_ok svc"
  shows "state_io_rel custody_kept (purge_objects svc t ds)"
  using assms
  by (cases "docs svc") (auto simp: purge_objects_def purger_ok_def intro!: ck.io_rules ck_quiet [OF quiet_blob_Delete])

lemma ck_run: "state_io_rel custody_kept m \<Longrightarrow> run_state m w = (r, w') \<Longrightarrow> assets w' = assets w \<and> assignments w' = assignments w"
  by (auto simp: state_io_rel_def custody_kept_def) (metis snd_conv)+

lemma Delete_ok:
  assumes "run_state (Assets_Delete svc subj i) w = (Inr x, w')" and "purger_ok svc"
  shows "\<exists>a. map_of (assets w) i = Some a \<and> a_TenantID a = TenantID subj \<and> assets w' = AList.delete i (assets w)
    \<and> assignments w' = delete_where (\<lambda>g. g_TenantID g = TenantID subj \<and> g_AssetID g = i) (assignments w)"
proof -
  let ?pre = "\<lambda>a. do {
       (if blobs svc \<and> a_PhotoKey a \<noteq> [] then do { _ \<leftarrow> blob_Delete (a_PhotoKey a); State_Monad.return () } else State_Monad.return ());
       r \<leftarrow> ListDocuments (TenantID subj) EntityAsset i;
       (case r of Inl _ \<Rightarrow> State_Monad.return () | Inr ds \<Rightarrow> purge_objects svc (TenantID subj) ds) }"
  let ?del = "\<lambda>a. try_as asset_mapErr (DeleteAsset (TenantID subj) i) (\<lambda>_. do {
         Emit (fold_case svc) (aud svc) (asset_event subj ''asset_deleted'' ''asset'' i OutcomeOK [] [(''asset_tag'', AStr (a_AssetTag a))]);
         ok () })"
  have pre: "state_io_rel custody_kept (?pre a)" for a
    by (intro ck.io_rules ck_quiet [OF quiet_blob_Delete] ck_quiet [OF quiet_reads(11)] ck_purge assms(2))
  have "Assets_Delete svc subj i = in_tenant subj (try_as asset_mapErr (GetAsset (TenantID subj) i) (\<lambda>a. State_Monad.bind (?pre a) (\<lambda>_. ?del a)))"
    by (simp add: Assets_Delete_def)
  with assms(1) obtain a s1 where get: "run_state (GetAsset (TenantID subj) i) w = (Inr a, s1)"
    and "run_state (State_Monad.bind (?pre a) (\<lambda>_. ?del a)) s1 = (Inr x, w')"
    by (auto simp: in_tenant_eq split: if_splits elim!: try_as_Inr)
  moreover obtain w1 where p: "run_state (?pre a) s1 = ((), w1)" by (rule run_unit)
  ultimately have "run_state (?del a) w1 = (Inr x, w')" by (simp only: run_state_bind prod.case)
  then obtain y w2 where del: "run_state (DeleteAsset (TenantID subj) i) w1 = (Inr y, w2)"
    and rep: "run_state (do { Emit (fold_case svc) (aud svc) (asset_event subj ''asset_deleted'' ''asset'' i OutcomeOK []
        [(''asset_tag'', AStr (a_AssetTag a))]); ok () } :: (_, svc_err, _) prog) w2 = (Inr x, w')"
    by (rule try_as_Inr)
  have "core w' = core w2"
    by (rule quiet_run [OF _ rep]) (intro quiet_rules)
  note core_tables(1,2) [OF this]
  moreover from GetAsset_ok [OF get] have "s1 = w" by simp
  moreover note ck_run [OF pre p]
  ultimately show ?thesis
    by (rule_tac DeleteAsset_outcome [OF del]) auto
qed

section \<open>Rows and history agree\<close>

definition open_users :: "Assignment tab \<Rightarrow> string \<Rightarrow> string \<Rightarrow> string list" where
  "open_users m t i = map g_UserID (filter (\<lambda>g. g_TenantID g = t \<and> g_AssetID g = i \<and> g_ReturnedAt g = None) (vals m))"

definition holders :: "Asset \<Rightarrow> string list" where
  "holders a = (if a_Status a = AssetAssigned then [a_UserID a] else [])"

definition custody :: "'z mem_scheme \<Rightarrow> bool" where
  "custody w \<longleftrightarrow>
     (\<forall>g\<in>set (vals (assignments w)). g_ReturnedAt g = None \<longrightarrow>
        (case map_of (assets w) (g_AssetID g) of None \<Rightarrow> False | Some a \<Rightarrow> a_TenantID a = g_TenantID g))
     \<and> (\<forall>a\<in>set (vals (assets w)). open_users (assignments w) (a_TenantID a) (a_ID a) = holders a)"

lemma update_fresh: "map_of m k = None \<Longrightarrow> AList.update k v m = m @ [(k, v)]"
  by (induction m) (auto split: if_splits)

lemma set_vals_fresh: "map_of m k = None \<Longrightarrow> set (vals (AList.update k v m)) = insert v (set (vals m))"
  by (simp add: update_fresh)

lemma open_users_insert:
  assumes "map_of m k = None"
  shows "open_users (AList.update k g m) t i = open_users m t i @
    (if g_TenantID g = t \<and> g_AssetID g = i \<and> g_ReturnedAt g = None then [g_UserID g] else [])"
  using assms by (simp add: open_users_def update_fresh)

lemma open_users_close:
  "open_users (update_where (\<lambda>g. g_TenantID g = t \<and> g_AssetID g = i \<and> g_ReturnedAt g = None) (\<lambda>g. g\<lparr>g_ReturnedAt := Some x\<rparr>) m) t' i' =
     (if t' = t \<and> i' = i then [] else open_users m t' i')"
proof (induction m)
  case (Cons kg m)
  obtain k g where "kg = (k, g)" by force
  with Cons show ?case
    by (cases "g_TenantID g = t \<and> g_AssetID g = i \<and> g_ReturnedAt g = None") (auto simp: open_users_def update_where_def)
qed (simp add: open_users_def update_where_def)

lemma open_users_delete:
  "i' \<noteq> i \<Longrightarrow> open_users (delete_where (\<lambda>g. g_TenantID g = t \<and> g_AssetID g = i) m) t' i' = open_users m t' i'"
  by (induction m) (auto simp: open_users_def delete_where_def)

text \<open>The rows of a table after one of them was written, in a well-formed table.\<close>

lemma vals_update_cases:
  assumes "tab_ok idf m" and "idf v = k" and "x \<in> set (vals (AList.update k v m))"
  shows "x = v \<or> (x \<in> set (vals m) \<and> idf x \<noteq> k)"
proof -
  have "tab_ok idf (AList.update k v m)" using assms(1,2) by (rule tab_ok_update)
  from tab_ok_vals [OF this, of x] assms(3) have "map_of (AList.update k v m) (idf x) = Some x" by simp
  then have "x = v \<or> (map_of m (idf x) = Some x \<and> idf x \<noteq> k)"
    by (cases "idf x = k") (simp_all add: update_conv)
  then show ?thesis
    using tab_ok_vals [OF assms(1)] by blast
qed

lemma vals_delete_cases:
  assumes "tab_ok idf m" and "x \<in> set (vals (AList.delete k m))"
  shows "x \<in> set (vals m) \<and> idf x \<noteq> k"
  using assms by (auto simp: AList.delete_eq tab_ok_def)

text \<open>Replacing one asset row and adding history rows for that asset only.\<close>

lemma custody_replace:
  assumes "custody w" and "tab_ok a_ID (assets w)" and "a_ID b = i"
    and "assets w' = AList.update i b (assets w)"
    and "\<And>t j. j \<noteq> i \<Longrightarrow> open_users (assignments w') t j = open_users (assignments w) t j"
    and "open_users (assignments w') (a_TenantID b) i = holders b"
    and "\<And>old. map_of (assets w) i = Some old \<Longrightarrow> a_TenantID old = a_TenantID b"
    and "\<And>g. g \<in> set (vals (assignments w')) \<Longrightarrow> g_ReturnedAt g = None \<Longrightarrow>
      g \<in> set (vals (assignments w)) \<or> (g_AssetID g = i \<and> g_TenantID g = a_TenantID b)"
  shows "custody w'"
  unfolding custody_def
proof (intro conjI ballI impI)
  fix g assume g: "g \<in> set (vals (assignments w'))" and op: "g_ReturnedAt g = None"
  show "case map_of (assets w') (g_AssetID g) of None \<Rightarrow> False | Some a \<Rightarrow> a_TenantID a = g_TenantID g"
    using assms(8) [OF g op] assms(1) op assms(7)
    by (auto simp: custody_def assms(4) update_conv split: option.splits simp del: set_map)
next
  fix a assume "a \<in> set (vals (assets w'))"
  then consider "a = b" | "a \<in> set (vals (assets w))" "a_ID a \<noteq> i"
    using vals_update_cases [OF assms(2,3), of a] unfolding assms(4) by blast
  then show "open_users (assignments w') (a_TenantID a) (a_ID a) = holders a"
  proof cases
    case 1
    then show ?thesis using assms(3,6) by simp
  next
    case 2
    then show ?thesis using assms(1,5) unfolding custody_def by metis
  qed
qed

lemma fill_simps [simp]:
  "a_ID (fillAsset now a) = a_ID a" "a_TenantID (fillAsset now a) = a_TenantID a" "a_UserID (fillAsset now a) = a_UserID a"
  "a_Status (fillAsset now a) = a_Status a" "a_LocationID (fillAsset now a) = a_LocationID a" "a_Name (fillAsset now a) = a_Name a"
  by (simp_all add: fillAsset_def)

lemma kept_simps [simp]:
  "a_ID (asset_kept a ex now) = a_ID a" "a_TenantID (asset_kept a ex now) = a_TenantID a" "a_UserID (asset_kept a ex now) = a_UserID a"
  "a_Status (asset_kept a ex now) = a_Status a" "a_LocationID (asset_kept a ex now) = a_LocationID a"
  by (simp_all add: asset_kept_def)

lemma holders_simps [simp]:
  "holders (asset_kept a ex now) = holders a" "holders (fillAsset now a) = holders a"
  "holders (assigned_row a u subj now) = [u]" "holders (returned_row a loc subj now) = []"
  by (simp_all add: holders_def assigned_row_def returned_row_def)

lemma row_frame [simp]:
  "a_ID (assigned_row a u subj now) = a_ID a" "a_TenantID (assigned_row a u subj now) = a_TenantID a"
  "a_ID (returned_row a loc subj now) = a_ID a" "a_TenantID (returned_row a loc subj now) = a_TenantID a"
  by (simp_all add: assigned_row_def returned_row_def)

lemma custody_Assign:
  assumes "run_state (Assets_Assign svc subj i u notes) w = (Inr v, w')" and "custody w" and "tab_ok a_ID (assets w)"
  shows "custody w'"
proof -
  from Assign_ok [OF assms(1)] obtain a0 name where a0: "map_of (assets w) i = Some a0" "a_TenantID a0 = TenantID subj"
    "a_Status a0 = AssetDeployable" and co: "run_state (check_out svc subj (fillAsset (wall w) a0) u name notes) w = (Inr v, w')"
    by blast
  let ?a = "assigned_row (fillAsset (wall w) a0) u subj (wall w)"
  from check_out_ok [OF co] obtain ex gid where gid: "map_of (assignments w) gid = None"
    and core: "core w' = (core w)\<lparr>assets := AList.update (a_ID a0) (asset_kept ?a ex (wall w)) (assets w),
      assignments := AList.update gid (history_row gid subj ?a u name ActionAssigned (wall w) None notes) (assignments w)\<rparr>"
    by auto
  have tabs: "assets w' = AList.update (a_ID a0) (asset_kept ?a ex (wall w)) (assets w)"
    "assignments w' = AList.update gid (history_row gid subj ?a u name ActionAssigned (wall w) None notes) (assignments w)"
    using arg_cong [OF core, of assets] arg_cong [OF core, of assignments] by simp_all
  have i: "a_ID a0 = i" using assms(3) a0(1) by (rule tab_ok_lookup)
  have "open_users (assignments w) (TenantID subj) i = []"
    using assms(2) vals_lookup [OF a0(1)] a0(2,3) i unfolding custody_def holders_def by fastforce
  then show ?thesis
    using gid a0 i
    by (intro custody_replace [OF assms(2,3) _ tabs(1)]) (auto simp: tabs(2) open_users_insert set_vals_fresh simp del: set_map)
qed

lemma still_open:
  assumes "g \<in> set (vals (update_where p (\<lambda>g. g\<lparr>g_ReturnedAt := Some x\<rparr>) m))" and "g_ReturnedAt g = None"
  shows "g \<in> set (vals m)"
  using assms by (auto simp only: set_vals_update_where split: if_splits) simp

lemma custody_Unassign:
  assumes "run_state (Assets_Unassign svc subj i loc notes) w = (Inr v, w')" and "custody w" and "tab_ok a_ID (assets w)"
  shows "custody w'"
proof -
  from Unassign_ok [OF assms(1)] obtain a0 where a0: "map_of (assets w) i = Some a0" "a_TenantID a0 = TenantID subj"
    and ci: "run_state (check_in svc subj (fillAsset (wall w) a0) loc notes) w = (Inr v, w')"
    by blast
  have i: "a_ID a0 = i" using assms(3) a0(1) by (rule tab_ok_lookup)
  let ?a = "returned_row (fillAsset (wall w) a0) loc subj (wall w)"
  let ?m = "update_where (\<lambda>g. g_TenantID g = TenantID subj \<and> g_AssetID g = i \<and> g_ReturnedAt g = None)
             (\<lambda>g. g\<lparr>g_ReturnedAt := Some (wall w)\<rparr>) (assignments w)"
  from check_in_ok [OF ci] i obtain ex gid name where gid: "map_of ?m gid = None"
    and core: "core w' = (core w)\<lparr>assets := AList.update i (asset_kept ?a ex (wall w)) (assets w),
      assignments := AList.update gid (history_row gid subj ?a (a_UserID a0) name ActionUnassigned (wall w) (Some (wall w)) notes) ?m\<rparr>"
    by (auto simp: Let_def)
  have tabs: "assets w' = AList.update i (asset_kept ?a ex (wall w)) (assets w)"
    "assignments w' = AList.update gid (history_row gid subj ?a (a_UserID a0) name ActionUnassigned (wall w) (Some (wall w)) notes) ?m"
    using arg_cong [OF core, of assets] arg_cong [OF core, of assignments] by simp_all
  show ?thesis
    using gid a0 i
    by (intro custody_replace [OF assms(2,3) _ tabs(1)])
      (auto simp: tabs(2) open_users_insert open_users_close set_vals_fresh simp del: set_map dest: still_open)
qed

lemma custody_Create:
  assumes "run_state (Assets_Create svc subj inp) w = (Inr v, w')" and "custody w" and "tab_ok a_ID (assets w)"
  shows "custody w'"
proof -
  from Create_ok [OF assms(1)] obtain i b w1 a where v: "asset_validate inp = Inr ()" "x_Status inp \<noteq> AssetAssigned"
    and a: "a = asset_defaults (asset_apply (zero_asset\<lparr>a_ID := i, a_TenantID := TenantID subj, a_CreatedBy := ActorID subj,
      a_UpdatedBy := ActorID subj, a_CreatedAt := wall w, a_UpdatedAt := wall w\<rparr>) inp)"
    and ins: "asset_inserted (a_AssetTag a = []) a w b w1" and core: "core w' = core w1"
    by (auto simp: Let_def)
  have ai: "a_ID a = i" "a_TenantID a = TenantID subj" by (simp_all add: a)
  from ins obtain tag where b: "b = a\<lparr>a_AssetTag := tag\<rparr>" and fresh: "map_of (assets w) i = None"
    and c1: "core w1 = (core w)\<lparr>assets := AList.update i (asset_saved b (wall w)) (assets w)\<rparr>"
    by (auto simp: asset_inserted_def ai)
  have tabs: "assets w' = AList.update i (asset_saved b (wall w)) (assets w)" "assignments w' = assignments w"
    using arg_cong [OF core [unfolded c1], of assets] arg_cong [OF core [unfolded c1], of assignments] by simp_all
  have "life_row a" unfolding a by (rule life_new [OF v]) (simp add: zero_asset_def)
  moreover have "a_UserID a = []" by (simp add: a zero_asset_def)
  ultimately have "holders (asset_saved b (wall w)) = []"
    by (auto simp: b holders_def asset_saved_def life_row_def default_text_def)
  moreover have "open_users (assignments w) t i = []" for t
    using assms(2) fresh by (auto simp: custody_def open_users_def filter_empty_conv split: option.splits)
  ultimately show ?thesis
    by (intro custody_replace [OF assms(2,3) _ tabs(1)]) (auto simp: tabs(2) fresh b asset_saved_def ai simp del: set_map)
qed

lemma holders_edit: "life_row a \<Longrightarrow> x_Status inp \<noteq> AssetAssigned \<Longrightarrow>
  holders ((asset_edit (fillAsset now a) inp)\<lparr>a_UpdatedBy := z, a_UpdatedAt := now'\<rparr>) = holders a"
  by (auto simp: holders_def asset_edit_def asset_defaults_def asset_apply_def Let_def)

lemma custody_Update:
  assumes "run_state (Assets_Update svc subj i inp) w = (Inr v, w')" and "custody w" and "tab_ok a_ID (assets w)"
    and "all_assets life_row w"
  shows "custody w'"
proof -
  let ?b = "\<lambda>a0. (asset_edit (fillAsset (wall w) a0) inp)\<lparr>a_UpdatedBy := ActorID subj, a_UpdatedAt := wall w\<rparr>"
  from Update_ok [OF assms(1)] obtain a0 ex where st: "x_Status inp \<noteq> AssetAssigned" and a0: "map_of (assets w) i = Some a0"
    and core: "core w' = (core w)\<lparr>assets := AList.update (a_ID a0) (asset_kept (?b a0) ex (wall w)) (assets w)\<rparr>"
    by blast
  have i: "a_ID a0 = i" using assms(3) a0 by (rule tab_ok_lookup)
  have tabs: "assets w' = AList.update i (asset_kept (?b a0) ex (wall w)) (assets w)" "assignments w' = assignments w"
    using arg_cong [OF core, of assets] arg_cong [OF core, of assignments] i by simp_all
  have "open_users (assignments w) (a_TenantID a0) i = holders a0"
    using assms(2) vals_lookup [OF a0] i unfolding custody_def by fastforce
  moreover have "holders (asset_kept (?b a0) ex (wall w)) = holders a0"
    using holders_edit [OF all_assets_lookup [OF assms(4) a0] st] by simp
  ultimately show ?thesis
    using a0 i by (intro custody_replace [OF assms(2,3) _ tabs(1)]) (auto simp: tabs(2) simp del: set_map)
qed

lemma custody_tables: "assets w' = assets w \<Longrightarrow> assignments w' = assignments w \<Longrightarrow> custody w \<Longrightarrow> custody w'"
  by (simp add: custody_def)

lemma custody_Delete:
  assumes "run_state (Assets_Delete svc subj i) w = (Inr x, w')" and "purger_ok svc" and "custody w" and "tab_ok a_ID (assets w)"
  shows "custody w'"
proof -
  from Delete_ok [OF assms(1,2)] obtain a where a: "map_of (assets w) i = Some a" "a_TenantID a = TenantID subj"
    and tabs: "assets w' = AList.delete i (assets w)"
      "assignments w' = delete_where (\<lambda>g. g_TenantID g = TenantID subj \<and> g_AssetID g = i) (assignments w)"
    by blast
  show ?thesis unfolding custody_def
  proof (intro conjI ballI impI)
    fix g assume "g \<in> set (vals (assignments w'))" and op: "g_ReturnedAt g = None"
    then have g: "g \<in> set (vals (assignments w))" "\<not> (g_TenantID g = TenantID subj \<and> g_AssetID g = i)"
      by (simp_all only: tabs(2) set_vals_delete_where mem_Collect_eq not_False_eq_True)
    with assms(3) op have "case map_of (assets w) (g_AssetID g) of None \<Rightarrow> False | Some a \<Rightarrow> a_TenantID a = g_TenantID g"
      unfolding custody_def by blast
    with g(2) a show "case map_of (assets w') (g_AssetID g) of None \<Rightarrow> False | Some a \<Rightarrow> a_TenantID a = g_TenantID g"
      by (cases "g_AssetID g = i") (simp_all add: tabs(1) delete_conv')
  next
    fix b assume "b \<in> set (vals (assets w'))"
    then have b: "b \<in> set (vals (assets w))" "a_ID b \<noteq> i"
      using vals_delete_cases [OF assms(4)] tabs(1) by metis+
    with assms(3) show "open_users (assignments w') (a_TenantID b) (a_ID b) = holders b"
      unfolding custody_def tabs(2) by (simp add: open_users_delete del: set_map)
  qed
qed

lemma Delete_error:
  assumes "run_state (Assets_Delete svc subj i) w = (Inl e, w')" and "purger_ok svc"
  shows "assets w' = assets w \<and> assignments w' = assignments w"
proof -
  have del: "errs custody_kept (DeleteAsset t i)" for t
    unfolding errs_def custody_kept_def by (auto simp: DeleteAsset_def run_guarded split: if_splits option.splits)
  have "errs custody_kept (Assets_Delete svc subj i)"
    unfolding Assets_Delete_def in_tenant_eq
    by (auto simp: Let_def intro!: ck.errs_last [OF del] ck.errs_try ck.errs_bind ck.errs_fail ck.io_rules ck_quiet [OF quiet_blob_Delete]
      ck_quiet [OF quiet_reads(1)] ck_quiet [OF quiet_reads(11)] ck_purge assms(2) split: prod.splits)
  with assms(1) show ?thesis by (auto simp: errs_def custody_kept_def)
qed

section \<open>Reachable states\<close>

datatype asset_op =
    OpCreate AssetInput
  | OpUpdate string AssetInput
  | OpDelete string
  | OpAssign string string string
  | OpUnassign string string string

text \<open>One call of the asset service, its result reduced to success or the error.\<close>

fun asset_call :: "'z AssetService \<Rightarrow> Subjects \<Rightarrow> asset_op \<Rightarrow> ('z world_scheme, svc_err, unit) prog" where
  "asset_call svc subj (OpCreate inp) = try_in (Assets_Create svc subj inp) (\<lambda>_. ok ())"
| "asset_call svc subj (OpUpdate i inp) = try_in (Assets_Update svc subj i inp) (\<lambda>_. ok ())"
| "asset_call svc subj (OpDelete i) = Assets_Delete svc subj i"
| "asset_call svc subj (OpAssign i u notes) = try_in (Assets_Assign svc subj i u notes) (\<lambda>_. ok ())"
| "asset_call svc subj (OpUnassign i loc notes) = try_in (Assets_Unassign svc subj i loc notes) (\<lambda>_. ok ())"

text \<open>
  States the asset service can reach from an empty store: any caller, any call, time passing and
  failures being armed in between. A call whose error is a store error passed on unchanged is left
  out: it may stop between the asset row and the history row.
\<close>

inductive asset_reach :: "'z AssetService \<Rightarrow> 'z world_scheme \<Rightarrow> bool" for svc where
  start: "asset_reach svc (mem_new w)"
| tick: "asset_reach svc w \<Longrightarrow> asset_reach svc (w\<lparr>wall := now, failNext := armed\<rparr>)"
| step: "asset_reach svc w \<Longrightarrow> run_state (asset_call svc subj op) w = (r, w') \<Longrightarrow> (\<And>e. r \<noteq> Inl (StoreErr e)) \<Longrightarrow> asset_reach svc w'"

lemma try_unit: "run_state (try_in m (\<lambda>_. ok ())) w = (r, w') \<Longrightarrow>
  (\<exists>v. run_state m w = (Inr v, w') \<and> r = Inr ()) \<or> (\<exists>e. run_state m w = (Inl e, w') \<and> r = Inl e)"
  by (auto simp: run_try_in split: prod.splits sum.splits)

lemma scoped_call: "purger_ok svc \<Longrightarrow> state_io_rel (scoped (TenantID subj)) (asset_call svc subj op)"
  by (cases op) (auto simp: purger_ok_def intro!: sc.io_try_in sc.io_ok scoped_Create scoped_Update scoped_Assign scoped_Unassign scoped_Delete)

lemma custody_call:
  assumes "run_state (asset_call svc subj op) w = (r, w')" and "\<And>e. r \<noteq> Inl (StoreErr e)" and "purger_ok svc"
    and "custody w" and "tab_ok a_ID (assets w)" and "all_assets life_row w"
  shows "custody w'"
proof (cases r)
  case (Inr u)
  with assms show ?thesis
    by (cases op) (auto dest!: try_unit intro: custody_Create custody_Update custody_Assign custody_Unassign custody_Delete)
next
  case (Inl e)
  have "assets w' = assets w \<and> assignments w' = assignments w"
  proof (cases op)
    case (OpDelete i)
    with assms(1,3) Inl show ?thesis by (auto dest: Delete_error)
  qed (use assms(1,2) Inl in \<open>auto dest!: try_unit checked_Create [unfolded checked_def, rule_format] checked_Update [unfolded checked_def, rule_format]
    checked_Assign [unfolded checked_def, rule_format] checked_Unassign [unfolded checked_def, rule_format] dest: core_tables(1,2)\<close>)
  with assms(4) custody_tables show ?thesis by blast
qed

lemma life_call: "purger_ok svc \<Longrightarrow> state_io_rel (preserving (all_assets life_row)) (asset_call svc subj op)"
proof (cases op)
  case (OpDelete i)
  assume "purger_ok svc"
  then have "state_io_rel (preserving (all_assets life_row)) (purge t ds)" if "docs svc = Some purge" for purge t ds
    using that by (auto simp: purger_ok_def custody_kept_def preserving_def all_assets_def state_io_rel_def)
  with OpDelete show ?thesis by (auto intro: life.Delete_pres)
qed (auto intro!: pres.io_try_in pres.io_ok life.Create_pres life.Update_pres life.Assign_pres life.Unassign_pres)


section \<open>A concrete run\<close>

definition world_demo :: world where
  "world_demo = \<lparr>wall = 5, rnd = (\<lambda>_. 0), idLast = 0, idSeq = 0, assets = [], assignments = [], documents = [], invsync = [],
     categories = [], suppliers = [], locations = [], consumables = [], licenses = [], insurance = [], policyAssets = [],
     notify = [], audit = [], failNext = {}, queue = [], queueCap = 5, closed = False, dropped = 0, reported = [],
     published = [], objects = [], putErr = None, delErr = None\<rparr>"

definition svc_demo :: "unit AssetService" where
  "svc_demo = \<lparr>users = None, aud = True, blobs = False, docs = None, fold_case = (\<lambda>s. s)\<rparr>"

definition alice :: Subjects where
  "alice = \<lparr>TenantID = ''t'', UserID = ''alice'', Roles = [], ActorKind = ActorUser\<rparr>"

definition laptop :: AssetInput where
  "laptop = \<lparr>x_AssetTag = ''L1'', x_Name = ''laptop'', x_Serial = [], x_ModelName = [], x_ModelNumber = [], x_CategoryID = [],
     x_SupplierID = [], x_LocationID = [], x_Status = [], x_WarrantyMonths = 0, x_PurchaseDate = None, x_OrderNumber = [],
     x_PurchaseCost = 0, x_Notes = [], x_SalvageValue = 0, x_UsefulLifeYears = 0, x_DepreciationRate = 0, x_Tags = []\<rparr>"

definition created_demo :: world where
  "created_demo = snd (run_state (asset_call svc_demo alice (OpCreate laptop)) (mem_new world_demo))"

definition laptop_id :: string where
  "laptop_id = fst (hd (assets created_demo))"

definition assigned_demo :: world where
  "assigned_demo = snd (run_state (asset_call svc_demo alice (OpAssign laptop_id ''bob'' [])) created_demo)"

lemma demo_results:
  "fst (run_state (asset_call svc_demo alice (OpCreate laptop)) (mem_new world_demo)) = Inr ()"
  "fst (run_state (asset_call svc_demo alice (OpAssign laptop_id ''bob'' [])) created_demo) = Inr ()"
  by code_simp+

lemma purger_demo: "purger_ok svc_demo"
  by (simp add: purger_ok_def svc_demo_def)

lemma reach_demo: "asset_reach svc_demo created_demo" "asset_reach svc_demo assigned_demo"
proof -
  show 1: "asset_reach svc_demo created_demo"
    unfolding created_demo_def using demo_results(1)
    by (intro asset_reach.step [OF asset_reach.start surjective_pairing]) simp
  show "asset_reach svc_demo assigned_demo"
    unfolding assigned_demo_def using demo_results(2)
    by (intro asset_reach.step [OF 1 surjective_pairing]) simp
qed


text \<open>
  C3: refusals. Creating, updating, assigning or unassigning either succeeds, or returns an error and
  leaves every table as it was, or passes on a store error.
\<close>

theorem asset_errors_change_nothing:
  assumes "run_state (asset_call svc subj op) w = (Inl e, w')" and "\<forall>i. op \<noteq> OpDelete i" and "\<forall>x. e \<noteq> StoreErr x"
  shows "core w' = core w"
  using assms
  by (cases op) (auto dest!: try_unit checked_Create [unfolded checked_def, rule_format] checked_Update [unfolded checked_def, rule_format]
    checked_Assign [unfolded checked_def, rule_format] checked_Unassign [unfolded checked_def, rule_format])

theorem asset_errors_change_nothing_witness:
  "core (snd (run_state (asset_call svc_demo alice (OpAssign laptop_id ''carol'' [])) assigned_demo)) = core assigned_demo"
proof -
  define out where "out = run_state (asset_call svc_demo alice (OpAssign laptop_id ''carol'' [])) assigned_demo"
  have "fst out = Inl (StateRefused AssetAssigned)"
    unfolding out_def by code_simp
  then have "out = (Inl (StateRefused AssetAssigned), snd out)"
    by (cases out) simp
  then show ?thesis
    unfolding out_def by (rule asset_errors_change_nothing) simp_all
qed

end
