(* ===== verification/Flow.thy ===== *)
theory Flow
  imports Custody
begin

text \<open>
  How an invariant of the tables passes through a service operation. An operation checks with quiet
  programs, writes, and reports; \<open>leads J m K\<close> says that \<open>m\<close>, started on tables with \<open>J\<close>, ends on tables with \<open>K\<close>,
  whatever it returns. What a quiet check found out is carried to the write by \<open>leads_check\<close>.
\<close>

definition leads :: "(mem \<Rightarrow> bool) \<Rightarrow> ('z world_scheme, 'a) state \<Rightarrow> (mem \<Rightarrow> bool) \<Rightarrow> bool" where
  "leads J m K \<longleftrightarrow> (\<forall>w. J (core w) \<longrightarrow> K (core (snd (run_state m w))))"

lemma leadsI: "(\<And>w r w'. run_state m w = (r, w') \<Longrightarrow> J (core w) \<Longrightarrow> K (core w')) \<Longrightarrow> leads J m K"
  unfolding leads_def by (metis prod.collapse)

lemma leadsD: "leads J m K \<Longrightarrow> run_state m w = (r, w') \<Longrightarrow> J (core w) \<Longrightarrow> K (core w')"
  unfolding leads_def by (metis snd_conv)

lemma leads_quiet: "quiet m \<Longrightarrow> (\<And>c. J c \<Longrightarrow> K c) \<Longrightarrow> leads J m K"
  by (simp add: leads_def quiet_def)

lemma leads_fail: "(\<And>c. J c \<Longrightarrow> K c) \<Longrightarrow> leads J (fail_with e) K"
  by (simp add: leads_def)

lemma leads_ok: "(\<And>c. J c \<Longrightarrow> K c) \<Longrightarrow> leads J (ok x) K"
  by (simp add: leads_def)

lemma leads_pre: "leads J m K \<Longrightarrow> (\<And>c. J' c \<Longrightarrow> J c) \<Longrightarrow> leads J' m K"
  by (simp add: leads_def)

lemma leads_bind:
  assumes "leads J m L" and "\<And>x. leads L (f x) K"
  shows "leads J (State_Monad.bind m f) K"
  unfolding leads_def
proof (intro allI impI)
  fix w :: "'a world_scheme"
  assume J: "J (core w)"
  obtain x v where m: "run_state m w = (x, v)" by force
  from leadsD [OF assms(1) m J] assms(2) m show "K (core (snd (run_state (State_Monad.bind m f) w)))"
    by (simp add: leads_def)
qed

lemma leads_read:
  assumes "quiet m" and "\<And>x. leads J (f x) K"
  shows "leads J (State_Monad.bind m f) K"
  by (rule leads_bind [OF leads_quiet [OF assms(1)] assms(2)])

text \<open>A check that passes says something of the tables it was made on, which are those the rest runs on.\<close>

lemma leads_check:
  assumes "quiet m" and "\<And>c. J c \<Longrightarrow> K c"
    and "\<And>w x w'. run_state m w = (Inr x, w') \<Longrightarrow> F x (core w)"
    and "\<And>x. leads (\<lambda>c. J c \<and> F x c) (f x) K"
  shows "leads J (try_as g m f) K"
  unfolding leads_def
proof (intro allI impI)
  fix w :: "'a world_scheme"
  assume J: "J (core w)"
  obtain r v where m: "run_state m w = (r, v)" by force
  have v: "core v = core w" using assms(1) m by (metis quiet_def snd_conv)
  show "K (core (snd (run_state (try_as g m f) w)))"
  proof (cases r)
    case (Inl e)
    then show ?thesis using m v J assms(2) by (simp add: run_try_as)
  next
    case (Inr x)
    then have "F x (core v)" using assms(3) m v by metis
    then show ?thesis using m v J Inr assms(4) [of x] by (simp add: run_try_as leads_def)
  qed
qed

lemma leads_try:
  assumes "quiet m" and "\<And>c. J c \<Longrightarrow> K c" and "\<And>x. leads J (f x) K"
  shows "leads J (try_as g m f) K"
  by (rule leads_check [where F = "\<lambda>_ _. True"]) (use assms in auto)

lemma leads_write:
  assumes "leads J m K" and "\<And>x. quiet (f x)"
  shows "leads J (try_as g m f) K"
  unfolding try_as_def
  by (rule leads_bind [OF assms(1)], rule leads_quiet) (auto split: sum.split intro: quiet_fail assms(2))

lemma leads_if: "(b \<Longrightarrow> leads J m K) \<Longrightarrow> (\<not> b \<Longrightarrow> leads J m' K) \<Longrightarrow> leads J (if b then m else m') K"
  by simp

lemma leads_case_sum:
  "(\<And>e. r = Inl e \<Longrightarrow> leads J (f e) K) \<Longrightarrow> (\<And>x. r = Inr x \<Longrightarrow> leads J (h x) K)
   \<Longrightarrow> leads J (case r of Inl e \<Rightarrow> f e | Inr x \<Rightarrow> h x) K"
  by (cases r) auto

lemma leads_in_tenant: "(\<And>c. J c \<Longrightarrow> K c) \<Longrightarrow> leads J m K \<Longrightarrow> leads J (in_tenant subj m) K"
  by (simp add: in_tenant_eq leads_fail)

lemma leads_new:
  assumes "\<And>i. i \<noteq> [] \<Longrightarrow> leads J (f i) K"
  shows "leads J (State_Monad.bind NewID f) K"
  unfolding leads_def using assms by (simp add: leads_def)

lemmas leads_rules = leads_in_tenant leads_fail leads_ok leads_if leads_case_sum leads_new

lemma quiet_try_in: "quiet m \<Longrightarrow> (\<And>x. quiet (f x)) \<Longrightarrow> quiet (try_in m f)"
  unfolding try_in_def by (rule quiet_try_as)

lemma quiet_in_tenant: "quiet m \<Longrightarrow> quiet (in_tenant subj m)"
  by (simp add: in_tenant_eq quiet_fail)

lemma quiet_case_sum: "(\<And>e. quiet (f e)) \<Longrightarrow> (\<And>x. quiet (h x)) \<Longrightarrow> quiet (case r of Inl e \<Rightarrow> f e | Inr x \<Rightarrow> h x)"
  by (cases r) simp_all

lemmas quiet_progs = quiet_in_tenant quiet_case_sum quiet_try_in quiet_exists_or quiet_rules

text \<open>What a listing without a cursor or limit returns.\<close>

lemma set_paginate_all [simp]: "set (paginate idf [] 0 xs) = set xs"
  by (simp add: paginate_def Let_def)

lemma distinct_paginate_all: "distinct (map idf xs) \<Longrightarrow> distinct (map idf (paginate idf [] 0 xs))"
  by (simp add: paginate_def Let_def rev_map distinct_map)

section \<open>What the smaller services share\<close>

text \<open>
  \<open>Recorder\<close> is what the services besides the asset service are wired with: whether an audit recorder is
  attached, and the Unicode case folding. \<open>refuse_used\<close> is the guard of the deletions.
\<close>

record Recorder =
  attached :: bool
  folding :: "string \<Rightarrow> string"

definition emit :: "Recorder \<Rightarrow> Subjects \<Rightarrow> string \<Rightarrow> string \<Rightarrow> string \<Rightarrow> any tab \<Rightarrow> ('z world_scheme, unit) state" where
  "emit rc subj typ kind i details = Emit (folding rc) (attached rc) (asset_event subj typ kind i OutcomeOK [] details)"

definition refuse_used :: "('z world_scheme, repo_err, int) prog \<Rightarrow> ('z world_scheme, svc_err, unit) prog" where
  "refuse_used count = try_as StoreErr count (\<lambda>n. if n > 0 then fail_with InUse else ok ())"

lemma quiet_emit: "quiet (emit rc subj typ kind i details)"
  unfolding emit_def by (rule quiet_Emit)

lemma quiet_refuse_used: "quiet count \<Longrightarrow> quiet (refuse_used count)"
  unfolding refuse_used_def by (intro quiet_rules)

lemma scoped_emit: "state_io_rel (scoped (TenantID subj)) (emit rc subj typ kind i details)"
  unfolding emit_def by (intro scoped_rules) simp

lemma scoped_refuse_used: "state_io_rel (scoped t) count \<Longrightarrow> state_io_rel (scoped t) (refuse_used count)"
  unfolding refuse_used_def by (intro scoped_rules)

lemmas scoped_kit = scoped_emit scoped_refuse_used
lemmas quiet_kit = quiet_emit quiet_refuse_used quiet_progs

section \<open>Outcomes: categories and locations\<close>

lemma CreateCategory_outcome:
  assumes "run_state (CreateCategory r) w = (res, w')" and "c_ID r \<noteq> []"
  obtains (failed) e where "res = Inl e" "same w w'"
    | (created) "res = Inr ()" "map_of (categories w) (c_ID r) = None"
        "w' = w\<lparr>categories := AList.update (c_ID r) (r\<lparr>c_CreatedAt := default_time (c_CreatedAt r) (wall w), c_UpdatedAt := wall w\<rparr>) (categories w)\<rparr>"
proof -
  have "r\<lparr>c_ID := c_ID r\<rparr> = r" by simp
  then have "(\<exists>e. res = Inl e \<and> same w w') \<or> (res = Inr () \<and> map_of (categories w) (c_ID r) = None \<and> w' = w\<lparr>categories := AList.update (c_ID r) (r\<lparr>c_CreatedAt := default_time (c_CreatedAt r) (wall w), c_UpdatedAt := wall w\<rparr>) (categories w)\<rparr>)"
    using assms by (auto simp: CreateCategory_def run_guarded same_def Let_def split: if_splits)
  then show ?thesis by (elim disjE exE conjE) (rule that; assumption)+
qed

lemma UpdateCategory_outcome:
  assumes "run_state (UpdateCategory r) w = (res, w')"
  obtains (failed) e where "res = Inl e" "same w w'"
    | (updated) ex where "res = Inr ()" "map_of (categories w) (c_ID r) = Some ex" "c_TenantID ex = c_TenantID r"
        "w' = w\<lparr>categories := AList.update (c_ID r) (r\<lparr>c_CreatedAt := c_CreatedAt ex, c_UpdatedAt := wall w\<rparr>) (categories w)\<rparr>"
proof -
  have "(\<exists>e. res = Inl e \<and> same w w') \<or> (\<exists>ex. res = Inr () \<and> map_of (categories w) (c_ID r) = Some ex \<and> c_TenantID ex = c_TenantID r
    \<and> w' = w\<lparr>categories := AList.update (c_ID r) (r\<lparr>c_CreatedAt := c_CreatedAt ex, c_UpdatedAt := wall w\<rparr>) (categories w)\<rparr>)"
    using assms by (auto simp: UpdateCategory_def run_guarded same_def Let_def split: if_splits option.splits)
  then show ?thesis by (elim disjE exE conjE) (rule that; assumption)+
qed

lemma DeleteCategory_outcome:
  assumes "run_state (DeleteCategory t i) w = (res, w')"
  obtains (failed) e where "res = Inl e" "same w w'"
    | (deleted) ex where "res = Inr ()" "map_of (categories w) i = Some ex" "c_TenantID ex = t"
        "\<forall>other\<in>set (vals (categories w)). c_TenantID other = t \<longrightarrow> c_ParentID other \<noteq> i"
        "\<forall>a\<in>set (vals (assets w)). a_TenantID a = t \<longrightarrow> a_CategoryID a \<noteq> i"
        "w' = w\<lparr>consumables := update_where (\<lambda>n. n_TenantID n = t \<and> n_CategoryID n = i) (\<lambda>n. n\<lparr>n_CategoryID := []\<rparr>) (consumables w),
           categories := AList.delete i (categories w)\<rparr>"
proof -
  have "(\<exists>e. res = Inl e \<and> same w w') \<or> (\<exists>ex. res = Inr () \<and> map_of (categories w) i = Some ex \<and> c_TenantID ex = t \<and> (\<forall>other\<in>set (vals (categories w)). c_TenantID other = t \<longrightarrow> c_ParentID other \<noteq> i) \<and> (\<forall>a\<in>set (vals (assets w)). a_TenantID a = t \<longrightarrow> a_CategoryID a \<noteq> i) \<and> w' = w\<lparr>consumables := update_where (\<lambda>n. n_TenantID n = t \<and> n_CategoryID n = i) (\<lambda>n. n\<lparr>n_CategoryID := []\<rparr>) (consumables w),
           categories := AList.delete i (categories w)\<rparr>)"
    using assms by (auto simp: DeleteCategory_def run_guarded same_def list_ex_iff split: if_splits option.splits)
  then show ?thesis by (elim disjE exE conjE) (rule that; assumption)+
qed

lemma CreateLocation_outcome:
  assumes "run_state (CreateLocation r) w = (res, w')" and "l_ID r \<noteq> []"
  obtains (failed) e where "res = Inl e" "same w w'"
    | (created) "res = Inr ()" "map_of (locations w) (l_ID r) = None"
        "w' = w\<lparr>locations := AList.update (l_ID r) (r\<lparr>l_Status := default_text (l_Status r) LocActive, l_CreatedAt := default_time (l_CreatedAt r) (wall w), l_UpdatedAt := wall w\<rparr>) (locations w)\<rparr>"
proof -
  have "r\<lparr>l_ID := l_ID r\<rparr> = r" by simp
  then have "(\<exists>e. res = Inl e \<and> same w w') \<or> (res = Inr () \<and> map_of (locations w) (l_ID r) = None \<and> w' = w\<lparr>locations := AList.update (l_ID r) (r\<lparr>l_Status := default_text (l_Status r) LocActive, l_CreatedAt := default_time (l_CreatedAt r) (wall w), l_UpdatedAt := wall w\<rparr>) (locations w)\<rparr>)"
    using assms by (auto simp: CreateLocation_def run_guarded same_def Let_def split: if_splits)
  then show ?thesis by (elim disjE exE conjE) (rule that; assumption)+
qed

lemma UpdateLocation_outcome:
  assumes "run_state (UpdateLocation r) w = (res, w')"
  obtains (failed) e where "res = Inl e" "same w w'"
    | (updated) ex where "res = Inr ()" "map_of (locations w) (l_ID r) = Some ex" "l_TenantID ex = l_TenantID r"
        "w' = w\<lparr>locations := AList.update (l_ID r) (r\<lparr>l_CreatedAt := l_CreatedAt ex, l_UpdatedAt := wall w\<rparr>) (locations w)\<rparr>"
proof -
  have "(\<exists>e. res = Inl e \<and> same w w') \<or> (\<exists>ex. res = Inr () \<and> map_of (locations w) (l_ID r) = Some ex \<and> l_TenantID ex = l_TenantID r
    \<and> w' = w\<lparr>locations := AList.update (l_ID r) (r\<lparr>l_CreatedAt := l_CreatedAt ex, l_UpdatedAt := wall w\<rparr>) (locations w)\<rparr>)"
    using assms by (auto simp: UpdateLocation_def run_guarded same_def Let_def split: if_splits option.splits)
  then show ?thesis by (elim disjE exE conjE) (rule that; assumption)+
qed

lemma DeleteLocation_outcome:
  assumes "run_state (DeleteLocation t i) w = (res, w')"
  obtains (failed) e where "res = Inl e" "same w w'"
    | (deleted) ex where "res = Inr ()" "map_of (locations w) i = Some ex" "l_TenantID ex = t"
        "\<forall>other\<in>set (vals (locations w)). l_TenantID other = t \<longrightarrow> l_ParentID other \<noteq> i"
        "\<forall>a\<in>set (vals (assets w)). a_TenantID a = t \<longrightarrow> a_LocationID a \<noteq> i"
        "w' = w\<lparr>consumables := update_where (\<lambda>n. n_TenantID n = t \<and> n_LocationID n = i) (\<lambda>n. n\<lparr>n_LocationID := []\<rparr>) (consumables w),
           locations := AList.delete i (locations w)\<rparr>"
proof -
  have "(\<exists>e. res = Inl e \<and> same w w') \<or> (\<exists>ex. res = Inr () \<and> map_of (locations w) i = Some ex \<and> l_TenantID ex = t \<and> (\<forall>other\<in>set (vals (locations w)). l_TenantID other = t \<longrightarrow> l_ParentID other \<noteq> i) \<and> (\<forall>a\<in>set (vals (assets w)). a_TenantID a = t \<longrightarrow> a_LocationID a \<noteq> i) \<and> w' = w\<lparr>consumables := update_where (\<lambda>n. n_TenantID n = t \<and> n_LocationID n = i) (\<lambda>n. n\<lparr>n_LocationID := []\<rparr>) (consumables w),
           locations := AList.delete i (locations w)\<rparr>)"
    using assms by (auto simp: DeleteLocation_def run_guarded same_def list_ex_iff split: if_splits option.splits)
  then show ?thesis by (elim disjE exE conjE) (rule that; assumption)+
qed

section \<open>References\<close>

text \<open>\<open>has_row tn m t i\<close>: the table has a row of tenant \<open>t\<close> under \<open>i\<close>. \<open>refers\<close> lets an empty reference pass.\<close>

definition has_row :: "('v \<Rightarrow> string) \<Rightarrow> 'v tab \<Rightarrow> string \<Rightarrow> string \<Rightarrow> bool" where
  "has_row tn m t i \<longleftrightarrow> (\<exists>v. map_of m i = Some v \<and> tn v = t)"

definition refers :: "('v \<Rightarrow> string) \<Rightarrow> 'v tab \<Rightarrow> string \<Rightarrow> string \<Rightarrow> bool" where
  "refers tn m t i \<longleftrightarrow> i = [] \<or> has_row tn m t i"

lemma found_rows:
  "run_state (GetCategory t i) w = (Inr c, w') \<Longrightarrow> has_row c_TenantID (categories w) t i"
  "run_state (GetSupplier t i) w = (Inr s, w') \<Longrightarrow> has_row s_TenantID (suppliers w) t i"
  "run_state (GetLocation t i) w = (Inr l, w') \<Longrightarrow> has_row l_TenantID (locations w) t i"
  by (auto simp: has_row_def dest!: GetCategory_found GetSupplier_found GetLocation_found)

lemma exists_or_refers:
  "run_state (exists_or i msg (GetCategory t i)) w = (Inr x, w') \<Longrightarrow> refers c_TenantID (categories w) t i"
  "run_state (exists_or i msg (GetSupplier t i)) w = (Inr x, w') \<Longrightarrow> refers s_TenantID (suppliers w) t i"
  "run_state (exists_or i msg (GetLocation t i)) w = (Inr x, w') \<Longrightarrow> refers l_TenantID (locations w) t i"
  by (cases "i = []", simp_all add: refers_def, auto dest!: exists_or_ok found_rows)+

lemma leads_exists_category:
  assumes "\<And>c. J c \<Longrightarrow> K c" and "\<And>x. leads (\<lambda>c. J c \<and> refers c_TenantID (categories c) t i) (f x) K"
  shows "leads J (try_as g (exists_or i msg (GetCategory t i)) f) K"
  by (rule leads_check [where F = "\<lambda>_ c. refers c_TenantID (categories c) t i"])
    (use assms in \<open>auto intro: quiet_exists_or quiet_reads dest: exists_or_refers\<close>)

lemma leads_exists_supplier:
  assumes "\<And>c. J c \<Longrightarrow> K c" and "\<And>x. leads (\<lambda>c. J c \<and> refers s_TenantID (suppliers c) t i) (f x) K"
  shows "leads J (try_as g (exists_or i msg (GetSupplier t i)) f) K"
  by (rule leads_check [where F = "\<lambda>_ c. refers s_TenantID (suppliers c) t i"])
    (use assms in \<open>auto intro: quiet_exists_or quiet_reads dest: exists_or_refers\<close>)

lemma leads_exists_location:
  assumes "\<And>c. J c \<Longrightarrow> K c" and "\<And>x. leads (\<lambda>c. J c \<and> refers l_TenantID (locations c) t i) (f x) K"
  shows "leads J (try_as g (exists_or i msg (GetLocation t i)) f) K"
  by (rule leads_check [where F = "\<lambda>_ c. refers l_TenantID (locations c) t i"])
    (use assms in \<open>auto intro: quiet_exists_or quiet_reads dest: exists_or_refers\<close>)

lemma same_core: "same w w' \<Longrightarrow> J (core w) \<Longrightarrow> J (core w')"
  by (simp add: same_def)

lemmas leads_exists = leads_exists_category leads_exists_supplier leads_exists_location

end
