(* ===== verification/Backups.thy ===== *)
theory Backups
  imports Flow
begin

text \<open>
  \<^verbatim>\<open>internal/backup\<close>: exporting the rows of a tenant and loading them back, over the store of the
  tenant. Export leaves out sealed contact data and computed fields; import checks the
  document, may wipe the target tenant first, gives fresh ids to a backup of another tenant and
  then loads table by table, parents before children. A Go function that returns a result
  together with an error is a program whose error carries the result reached so far.
\<close>

section \<open>The document\<close>

record Backup =
  bk_SchemaVersion :: int
  bk_ExportedAt :: gotime
  bk_TenantID :: string
  bk_Suppliers :: "Supplier list"
  bk_Locations :: "Location list"
  bk_Categories :: "Category list"
  bk_Assets :: "Asset list"
  bk_Assignments :: "Assignment list"
  bk_Consumables :: "Consumable list"
  bk_Licenses :: "License list"
  bk_Insurance :: "InsurancePolicy list"
  bk_PolicyAssets :: "PolicyAsset list"
  bk_Documents :: "Document list"

record ImportOptions =
  io_Mode :: string
  io_TenantID :: string
  io_Full :: bool

record ImportResult =
  im_Imported :: "int tab"
  im_Skipped :: "int tab"
  im_Deleted :: int

datatype backup_err = BkSvc svc_err | ErrBadSchema | BkTooLarge

definition SchemaVersion :: int where "SchemaVersion = 1"
definition MaxRows :: int where "MaxRows = 200000"

abbreviation ModeSkip :: string where "ModeSkip \<equiv> ''skip''"
abbreviation ModeOverwrite :: string where "ModeOverwrite \<equiv> ''overwrite''"

definition scrubSupplier :: "Supplier \<Rightarrow> Supplier" where
  "scrubSupplier sp = sp\<lparr>s_ContactPerson := [], s_Telephone := [], s_Email := []\<rparr>"

definition scrubLocation :: "Location \<Rightarrow> Location" where
  "scrubLocation l = l\<lparr>l_Contact := [], l_Phone := [], l_Email := [], l_ChildCount := 0, l_AssetCount := 0\<rparr>"

section \<open>Export\<close>

text \<open>The history and the documents of the assets, asset by asset.\<close>

primrec export_assets :: "string \<Rightarrow> Asset list \<Rightarrow> ('z world_scheme, svc_err, Assignment list \<times> Document list) prog" where
  "export_assets t [] = ok ([], [])"
| "export_assets t (a # as) =
     try_as StoreErr (ListAssignments t (a_ID a) 0) (\<lambda>g.
     try_as StoreErr (ListDocuments t EntityAsset (a_ID a)) (\<lambda>d.
     try_in (export_assets t as) (\<lambda>(gs, ds). ok (g @ gs, d @ ds))))"

primrec export_documents :: "string \<Rightarrow> string \<Rightarrow> string list \<Rightarrow> ('z world_scheme, svc_err, Document list) prog" where
  "export_documents t entity [] = ok []"
| "export_documents t entity (i # ids) =
     try_as StoreErr (ListDocuments t entity i) (\<lambda>d. try_in (export_documents t entity ids) (\<lambda>ds. ok (d @ ds)))"

primrec export_covers :: "string \<Rightarrow> string list \<Rightarrow> ('z world_scheme, svc_err, PolicyAsset list) prog" where
  "export_covers t [] = ok []"
| "export_covers t (i # ids) =
     try_as StoreErr (ListPolicyAssets t i) (\<lambda>q. try_in (export_covers t ids) (\<lambda>qs. ok (q @ qs)))"

definition Export :: "Recorder \<Rightarrow> Subjects \<Rightarrow> ('z world_scheme, svc_err, Backup) prog" where
  "Export rc subj = in_tenant subj (do {
     w \<leftarrow> State_Monad.get;
     let t = TenantID subj;
     try_as StoreErr (ListSuppliers (folding rc) t no_filter) (\<lambda>sups.
     try_as StoreErr (ListLocations t) (\<lambda>locs.
     try_as StoreErr (ListCategories t) (\<lambda>cats.
     try_as StoreErr (AllAssets t) (\<lambda>as.
     try_in (export_assets t as) (\<lambda>(asgs, docs).
     try_as StoreErr (AllConsumables t) (\<lambda>cons.
     try_in (export_documents t EntityConsumable (map n_ID cons)) (\<lambda>cdocs.
     try_as StoreErr (AllLicenses t) (\<lambda>lics.
     try_in (export_documents t EntityLicense (map i_ID lics)) (\<lambda>ldocs.
     try_as StoreErr (AllInsurance t) (\<lambda>pols.
     try_in (export_covers t (map p_ID pols)) (\<lambda>covers. do {
       emit rc subj ''backup_exported'' ''backup'' ''export'' [(''assets'', AInt (int (length as)))];
       ok \<lparr>bk_SchemaVersion = SchemaVersion, bk_ExportedAt = wall w, bk_TenantID = t, bk_Suppliers = map scrubSupplier sups,
         bk_Locations = map scrubLocation locs, bk_Categories = map (\<lambda>c. c\<lparr>c_AssetCount := 0, c_ChildCount := 0\<rparr>) cats,
         bk_Assets = map (\<lambda>a. a\<lparr>a_BookValue := 0\<rparr>) as, bk_Assignments = asgs, bk_Consumables = cons, bk_Licenses = lics,
         bk_Insurance = map (\<lambda>p. p\<lparr>p_AssetCount := 0\<rparr>) pols, bk_PolicyAssets = covers, bk_Documents = docs @ cdocs @ ldocs\<rparr>
     })))))))))))
   })"

section \<open>Checking a document\<close>

definition too_many :: "'a list \<Rightarrow> bool" where
  "too_many xs \<longleftrightarrow> int (length xs) > MaxRows"

definition Backup_Validate :: "Backup \<Rightarrow> backup_err + unit" where
  "Backup_Validate b =
     (if bk_SchemaVersion b \<noteq> SchemaVersion then Inl ErrBadSchema
      else if too_many (bk_Suppliers b) \<or> too_many (bk_Locations b) \<or> too_many (bk_Categories b) \<or> too_many (bk_Assets b) \<or>
        too_many (bk_Assignments b) \<or> too_many (bk_Consumables b) \<or> too_many (bk_Licenses b) \<or> too_many (bk_Insurance b) \<or>
        too_many (bk_PolicyAssets b) \<or> too_many (bk_Documents b) then Inl BkTooLarge
      else if list_ex (\<lambda>a. a_ID a = [] \<or> a_AssetTag a = []) (bk_Assets b) then Inl ErrBadSchema
      else if list_ex (\<lambda>s. s_ID s = [] \<or> s_Name s = []) (bk_Suppliers b) then Inl ErrBadSchema
      else if list_ex (\<lambda>l. l_ID l = [] \<or> l_Name l = []) (bk_Locations b) then Inl ErrBadSchema
      else if list_ex (\<lambda>c. c_ID c = [] \<or> c_Name c = []) (bk_Categories b) then Inl ErrBadSchema
      else if list_ex (\<lambda>p. p_ID p = [] \<or> p_PolicyNumber p = []) (bk_Insurance b) then Inl ErrBadSchema
      else Inr ())"

section \<open>Parents before children\<close>

text \<open>
  \<open>visit n\<close> is \<^verbatim>\<open>visit\<close> at depth \<open>65 - n\<close>; the pair is \<^verbatim>\<open>done\<close> and \<^verbatim>\<open>out\<close>. Categories and locations
  are ordered by the same code, up to the names of the fields.
\<close>

primrec visit :: "('v \<Rightarrow> string) \<Rightarrow> ('v \<Rightarrow> string) \<Rightarrow> 'v tab \<Rightarrow> nat \<Rightarrow> 'v \<Rightarrow> string list \<times> 'v list \<Rightarrow> string list \<times> 'v list" where
  "visit idf par byID 0 c st = st"
| "visit idf par byID (Suc n) c st =
     (if idf c \<in> set (fst st) then st
      else let st' = (case map_of byID (par c) of
                 Some p \<Rightarrow> if par c \<noteq> idf c then visit idf par byID n p st else st
               | None \<Rightarrow> st)
           in if idf c \<in> set (fst st') then st' else (idf c # fst st', snd st' @ [c]))"

definition order_rows :: "('v \<Rightarrow> string) \<Rightarrow> ('v \<Rightarrow> string) \<Rightarrow> 'v list \<Rightarrow> 'v list" where
  "order_rows idf par rows =
     snd (fold (visit idf par (fold (\<lambda>c. AList.update (idf c) c) rows []) 65) rows ([], []))"

definition orderCategories :: "Category list \<Rightarrow> Category list" where
  "orderCategories = order_rows c_ID c_ParentID"

definition orderLocations :: "Location list \<Rightarrow> Location list" where
  "orderLocations = order_rows l_ID l_ParentID"

section \<open>Wiping a tenant\<close>

primrec delete_each :: "('v \<Rightarrow> ('s, repo_err, unit) prog) \<Rightarrow> 'v list \<Rightarrow> int \<Rightarrow> ('s, int \<times> repo_err, int) prog" where
  "delete_each del [] n = ok n"
| "delete_each del (x # xs) n = try_as (\<lambda>e. (n, e)) (del x) (\<lambda>_. delete_each del xs (n + 1))"

definition wipe_table :: "('s, repo_err, 'v list) prog \<Rightarrow> ('v list \<Rightarrow> 'v list) \<Rightarrow> ('v \<Rightarrow> ('s, repo_err, unit) prog) \<Rightarrow> int \<Rightarrow> ('s, int \<times> repo_err, int) prog" where
  "wipe_table fetch arrange del n = try_as (\<lambda>e. (n, e)) fetch (\<lambda>rows. delete_each del (arrange rows) n)"

definition wipe :: "(string \<Rightarrow> string) \<Rightarrow> string \<Rightarrow> ('z world_scheme, int \<times> repo_err, int) prog" where
  "wipe uni t =
     try_in (wipe_table (AllInsurance t) (\<lambda>rows. rows) (\<lambda>p. DeleteInsurance t (p_ID p)) 0) (\<lambda>n.
     try_in (wipe_table (AllLicenses t) (\<lambda>rows. rows) (\<lambda>l. DeleteLicense t (i_ID l)) n) (\<lambda>n.
     try_in (wipe_table (AllConsumables t) (\<lambda>rows. rows) (\<lambda>c. DeleteConsumable t (n_ID c)) n) (\<lambda>n.
     try_in (wipe_table (AllAssets t) (\<lambda>rows. rows) (\<lambda>a. DeleteAsset t (a_ID a)) n) (\<lambda>n.
     try_in (wipe_table (ListCategories t) (\<lambda>rows. rev (orderCategories rows)) (\<lambda>c. DeleteCategory t (c_ID c)) n) (\<lambda>n.
     try_in (wipe_table (ListLocations t) (\<lambda>rows. rev (orderLocations rows)) (\<lambda>l. DeleteLocation t (l_ID l)) n) (\<lambda>n.
     wipe_table (ListSuppliers uni t no_filter) (\<lambda>rows. rows) (\<lambda>s. DeleteSupplier t (s_ID s)) n))))))"

section \<open>Fresh identifiers\<close>

definition fresh :: "string \<Rightarrow> string tab \<Rightarrow> ('z sys_scheme, string \<times> string tab) state" where
  "fresh old ids =
     (if old = [] then State_Monad.return ([], ids)
      else case map_of ids old of
        Some n \<Rightarrow> State_Monad.return (n, ids)
      | None \<Rightarrow> do { n \<leftarrow> NewID; State_Monad.return (n, AList.update old n ids) })"

text \<open>One assignment \<^verbatim>\<open>x.F = fresh(x.F)\<close>, and a loop of such assignments over the rows of a table.\<close>

definition renew :: "('v \<Rightarrow> string) \<Rightarrow> (string \<Rightarrow> 'v \<Rightarrow> 'v) \<Rightarrow> 'v \<Rightarrow> string tab \<Rightarrow> ('z sys_scheme, 'v \<times> string tab) state" where
  "renew get put v ids = do { (n, ids') \<leftarrow> fresh (get v) ids; State_Monad.return (put n v, ids') }"

primrec remap_rows :: "('v \<Rightarrow> string tab \<Rightarrow> ('s, 'v \<times> string tab) state) \<Rightarrow> 'v list \<Rightarrow> string tab \<Rightarrow> ('s, 'v list \<times> string tab) state" where
  "remap_rows f [] ids = State_Monad.return ([], ids)"
| "remap_rows f (v # vs) ids = do {
     (v', ids1) \<leftarrow> f v ids;
     (vs', ids2) \<leftarrow> remap_rows f vs ids1;
     State_Monad.return (v' # vs', ids2)
   }"

definition remap_locations :: "Location list \<Rightarrow> string tab \<Rightarrow> ('z sys_scheme, Location list \<times> string tab) state" where
  "remap_locations locs ids = do {
     (locs, ids) \<leftarrow> remap_rows (renew l_ID (\<lambda>n l. l\<lparr>l_ID := n\<rparr>)) locs ids;
     remap_rows (renew l_ParentID (\<lambda>n l. l\<lparr>l_ParentID := n\<rparr>)) locs ids
   }"

definition remap_categories :: "Category list \<Rightarrow> string tab \<Rightarrow> ('z sys_scheme, Category list \<times> string tab) state" where
  "remap_categories cats ids = do {
     (cats, ids) \<leftarrow> remap_rows (renew c_ID (\<lambda>n c. c\<lparr>c_ID := n\<rparr>)) cats ids;
     remap_rows (renew c_ParentID (\<lambda>n c. c\<lparr>c_ParentID := n\<rparr>)) cats ids
   }"

definition remap_asset :: "Asset \<Rightarrow> string tab \<Rightarrow> ('z sys_scheme, Asset \<times> string tab) state" where
  "remap_asset a ids = do {
     (a, ids) \<leftarrow> renew a_ID (\<lambda>n a. a\<lparr>a_ID := n\<rparr>) a ids;
     (a, ids) \<leftarrow> renew a_CategoryID (\<lambda>n a. a\<lparr>a_CategoryID := n\<rparr>) a ids;
     (a, ids) \<leftarrow> renew a_SupplierID (\<lambda>n a. a\<lparr>a_SupplierID := n\<rparr>) a ids;
     renew a_LocationID (\<lambda>n a. a\<lparr>a_LocationID := n\<rparr>) a ids
   }"

definition remap_assignment :: "Assignment \<Rightarrow> string tab \<Rightarrow> ('z sys_scheme, Assignment \<times> string tab) state" where
  "remap_assignment g ids = do {
     (g, ids) \<leftarrow> renew g_ID (\<lambda>n g. g\<lparr>g_ID := n\<rparr>) g ids;
     renew g_AssetID (\<lambda>n g. g\<lparr>g_AssetID := n\<rparr>) g ids
   }"

definition remap_consumable :: "Consumable \<Rightarrow> string tab \<Rightarrow> ('z sys_scheme, Consumable \<times> string tab) state" where
  "remap_consumable c ids = do {
     (c, ids) \<leftarrow> renew n_ID (\<lambda>n c. c\<lparr>n_ID := n\<rparr>) c ids;
     (c, ids) \<leftarrow> renew n_CategoryID (\<lambda>n c. c\<lparr>n_CategoryID := n\<rparr>) c ids;
     (c, ids) \<leftarrow> renew n_SupplierID (\<lambda>n c. c\<lparr>n_SupplierID := n\<rparr>) c ids;
     renew n_LocationID (\<lambda>n c. c\<lparr>n_LocationID := n\<rparr>) c ids
   }"

definition remap_license :: "License \<Rightarrow> string tab \<Rightarrow> ('z sys_scheme, License \<times> string tab) state" where
  "remap_license l ids = do {
     (l, ids) \<leftarrow> renew i_ID (\<lambda>n l. l\<lparr>i_ID := n\<rparr>) l ids;
     renew i_SupplierID (\<lambda>n l. l\<lparr>i_SupplierID := n\<rparr>) l ids
   }"

definition remap_cover :: "PolicyAsset \<Rightarrow> string tab \<Rightarrow> ('z sys_scheme, PolicyAsset \<times> string tab) state" where
  "remap_cover q ids = do {
     (q, ids) \<leftarrow> renew q_ID (\<lambda>n q. q\<lparr>q_ID := n\<rparr>) q ids;
     (q, ids) \<leftarrow> renew q_PolicyID (\<lambda>n q. q\<lparr>q_PolicyID := n\<rparr>) q ids;
     renew q_AssetID (\<lambda>n q. q\<lparr>q_AssetID := n\<rparr>) q ids
   }"

definition remap_document :: "Document \<Rightarrow> string tab \<Rightarrow> ('z sys_scheme, Document \<times> string tab) state" where
  "remap_document d ids = do {
     (d, ids) \<leftarrow> renew d_ID (\<lambda>n d. d\<lparr>d_ID := n\<rparr>) d ids;
     renew d_EntityID (\<lambda>n d. d\<lparr>d_EntityID := n\<rparr>) d ids
   }"

definition remap_tables :: "Backup \<Rightarrow> string tab \<Rightarrow> ('z sys_scheme, Backup \<times> string tab) state" where
  "remap_tables b ids = do {
     (sups, ids) \<leftarrow> remap_rows (renew s_ID (\<lambda>n s. s\<lparr>s_ID := n\<rparr>)) (bk_Suppliers b) ids;
     (locs, ids) \<leftarrow> remap_locations (bk_Locations b) ids;
     (cats, ids) \<leftarrow> remap_categories (bk_Categories b) ids;
     (as, ids) \<leftarrow> remap_rows remap_asset (bk_Assets b) ids;
     (asgs, ids) \<leftarrow> remap_rows remap_assignment (bk_Assignments b) ids;
     (cons, ids) \<leftarrow> remap_rows remap_consumable (bk_Consumables b) ids;
     (lics, ids) \<leftarrow> remap_rows remap_license (bk_Licenses b) ids;
     (pols, ids) \<leftarrow> remap_rows (renew p_ID (\<lambda>n p. p\<lparr>p_ID := n\<rparr>)) (bk_Insurance b) ids;
     (covers, ids) \<leftarrow> remap_rows remap_cover (bk_PolicyAssets b) ids;
     (docs, ids) \<leftarrow> remap_rows remap_document (bk_Documents b) ids;
     State_Monad.return (b\<lparr>bk_Suppliers := sups, bk_Locations := locs, bk_Categories := cats, bk_Assets := as, bk_Assignments := asgs,
       bk_Consumables := cons, bk_Licenses := lics, bk_Insurance := pols, bk_PolicyAssets := covers, bk_Documents := docs\<rparr>, ids)
   }"

definition remap :: "Backup \<Rightarrow> ('z sys_scheme, Backup) state" where
  "remap b = do { (b', _) \<leftarrow> remap_tables b []; State_Monad.return b' }"

section \<open>Import\<close>

definition imported :: "string \<Rightarrow> ImportResult \<Rightarrow> ImportResult" where
  "imported name res = res\<lparr>im_Imported := bump name (im_Imported res)\<rparr>"

definition skipped :: "string \<Rightarrow> ImportResult \<Rightarrow> ImportResult" where
  "skipped name res = res\<lparr>im_Skipped := bump name (im_Skipped res)\<rparr>"

definition store_failed :: "ImportResult \<Rightarrow> repo_err \<Rightarrow> ImportResult \<times> backup_err" where
  "store_failed res e = (res, BkSvc (StoreErr e))"

text \<open>A loop that threads its result and stops with the first error.\<close>

primrec fold_rows :: "('v \<Rightarrow> 'r \<Rightarrow> ('s, 'e, 'r) prog) \<Rightarrow> 'v list \<Rightarrow> 'r \<Rightarrow> ('s, 'e, 'r) prog" where
  "fold_rows f [] res = ok res"
| "fold_rows f (x # xs) res = try_in (f x res) (fold_rows f xs)"

text \<open>
  The body the import loops share: look the row up, skip or update it when it exists, create it
  when it does not.
\<close>

definition restore_row :: "string \<Rightarrow> string \<Rightarrow> ('s, repo_err, 'a) prog \<Rightarrow> ('s, repo_err, unit) prog \<Rightarrow> ('s, repo_err, unit) prog \<Rightarrow>
    ImportResult \<Rightarrow> ('s, ImportResult \<times> backup_err, ImportResult) prog" where
  "restore_row name mode get upd cre res = do {
     r \<leftarrow> get;
     (case r of
        Inr _ \<Rightarrow>
          if mode = ModeSkip then ok (skipped name res)
          else try_as (store_failed res) upd (\<lambda>_. ok (imported name res))
      | Inl e \<Rightarrow>
          if e \<noteq> RNotFound then fail_with (store_failed res e)
          else try_as (store_failed res) cre (\<lambda>_. ok (imported name res)))
   }"

definition into_supplier :: "string \<Rightarrow> Supplier \<Rightarrow> Supplier" where
  "into_supplier t sp = (scrubSupplier sp)\<lparr>s_TenantID := t\<rparr>"

definition into_location :: "string \<Rightarrow> Location \<Rightarrow> Location" where
  "into_location t l = (scrubLocation l)\<lparr>l_TenantID := t\<rparr>"

definition into_category :: "string \<Rightarrow> Category \<Rightarrow> Category" where
  "into_category t c = c\<lparr>c_TenantID := t, c_AssetCount := 0, c_ChildCount := 0\<rparr>"

definition into_asset :: "string \<Rightarrow> Asset \<Rightarrow> Asset" where
  "into_asset t a = a\<lparr>a_TenantID := t, a_BookValue := 0, a_Status := default_text (a_Status a) AssetDeployable\<rparr>"

definition into_license :: "string \<Rightarrow> License \<Rightarrow> License" where
  "into_license t l = l\<lparr>i_TenantID := t, i_Status := default_text (i_Status l) LicActive\<rparr>"

definition into_policy :: "string \<Rightarrow> InsurancePolicy \<Rightarrow> InsurancePolicy" where
  "into_policy t p = p\<lparr>p_TenantID := t, p_AssetCount := 0, p_Status := default_text (p_Status p) InsActive\<rparr>"

definition restore_supplier :: "string \<Rightarrow> string \<Rightarrow> Supplier \<Rightarrow> ImportResult \<Rightarrow> ('z world_scheme, ImportResult \<times> backup_err, ImportResult) prog" where
  "restore_supplier t mode sp = (let sp = into_supplier t sp in
     restore_row ''suppliers'' mode (GetSupplier t (s_ID sp)) (UpdateSupplier sp) (CreateSupplier sp))"

definition restore_location :: "string \<Rightarrow> string \<Rightarrow> Location \<Rightarrow> ImportResult \<Rightarrow> ('z world_scheme, ImportResult \<times> backup_err, ImportResult) prog" where
  "restore_location t mode l = (let l = into_location t l in
     restore_row ''locations'' mode (GetLocation t (l_ID l)) (UpdateLocation l) (CreateLocation l))"

definition restore_category :: "string \<Rightarrow> string \<Rightarrow> Category \<Rightarrow> ImportResult \<Rightarrow> ('z world_scheme, ImportResult \<times> backup_err, ImportResult) prog" where
  "restore_category t mode c = (let c = into_category t c in
     restore_row ''categories'' mode (GetCategory t (c_ID c)) (UpdateCategory c) (CreateCategory c))"

text \<open>Assets, with the ids of those this import created.\<close>

definition restore_asset :: "string \<Rightarrow> string \<Rightarrow> Asset \<Rightarrow> ImportResult \<times> string list \<Rightarrow>
    ('z world_scheme, ImportResult \<times> backup_err, ImportResult \<times> string list) prog" where
  "restore_asset t mode a0 = (\<lambda>(res, created). do {
     let a = into_asset t a0;
     r \<leftarrow> GetAsset t (a_ID a);
     (case r of
        Inr _ \<Rightarrow>
          if mode = ModeSkip then ok (skipped ''assets'' res, created)
          else try_as (store_failed res) (UpdateAsset a) (\<lambda>_. ok (imported ''assets'' res, created))
      | Inl e \<Rightarrow>
          if e \<noteq> RNotFound then fail_with (store_failed res e)
          else try_as (store_failed res) (CreateAsset a) (\<lambda>_. ok (imported ''assets'' res, a_ID a # created)))
   })"

definition restore_assignment :: "string \<Rightarrow> string list \<Rightarrow> Assignment \<Rightarrow> ImportResult \<Rightarrow> ('z world_scheme, ImportResult \<times> backup_err, ImportResult) prog" where
  "restore_assignment t created g res =
     (if g_AssetID g \<notin> set created then ok (skipped ''assignments'' res)
      else try_as (store_failed res) (InsertAssignment (g\<lparr>g_TenantID := t\<rparr>)) (\<lambda>_. ok (imported ''assignments'' res)))"

definition restore_consumable :: "string \<Rightarrow> string \<Rightarrow> Consumable \<Rightarrow> ImportResult \<Rightarrow> ('z world_scheme, ImportResult \<times> backup_err, ImportResult) prog" where
  "restore_consumable t mode c = (let c = c\<lparr>n_TenantID := t\<rparr> in
     restore_row ''consumables'' mode (GetConsumable t (n_ID c)) (UpdateConsumable c) (CreateConsumable c))"

definition restore_license :: "string \<Rightarrow> string \<Rightarrow> License \<Rightarrow> ImportResult \<Rightarrow> ('z world_scheme, ImportResult \<times> backup_err, ImportResult) prog" where
  "restore_license t mode l = (let l = into_license t l in
     restore_row ''licenses'' mode (GetLicense t (i_ID l)) (UpdateLicense l) (CreateLicense l))"

definition restore_policy :: "string \<Rightarrow> string \<Rightarrow> InsurancePolicy \<Rightarrow> ImportResult \<Rightarrow> ('z world_scheme, ImportResult \<times> backup_err, ImportResult) prog" where
  "restore_policy t mode p = (let p = into_policy t p in
     restore_row ''insurance_policies'' mode (GetInsurance t (p_ID p)) (UpdateInsurance p) (CreateInsurance p))"

definition restore_cover :: "string \<Rightarrow> gotime \<Rightarrow> PolicyAsset \<Rightarrow> ImportResult \<Rightarrow> ('z world_scheme, ImportResult \<times> backup_err, ImportResult) prog" where
  "restore_cover t now q res = do {
     r \<leftarrow> AddPolicyAsset (q\<lparr>q_TenantID := t, q_CreatedAt := default_time (q_CreatedAt q) now\<rparr>);
     (case r of
        Inr _ \<Rightarrow> ok (imported ''policy_assets'' res)
      | Inl e \<Rightarrow> if e = RConflict \<or> e = RNotFound then ok (skipped ''policy_assets'' res) else fail_with (store_failed res e))
   }"

definition restore_document :: "string \<Rightarrow> Document \<Rightarrow> ImportResult \<Rightarrow> ('z world_scheme, ImportResult \<times> backup_err, ImportResult) prog" where
  "restore_document t d res =
     (let paperOK = (d_PaperlessDocumentID d \<noteq> [] \<and> d_TenantID d = t \<and> d_StorageKey d = PaperlessKeyPrefix @ d_PaperlessDocumentID d)
      in if \<not> paperOK \<and> \<not> prefix (''tenants/'' @ t @ ''/'') (d_StorageKey d) then ok (skipped ''documents'' res)
         else do {
           r \<leftarrow> GetDocument t (d_ID d);
           (case r of
              Inr _ \<Rightarrow> ok (skipped ''documents'' res)
            | Inl _ \<Rightarrow> do {
                r \<leftarrow> InsertDocument (d\<lparr>d_TenantID := t\<rparr>);
                (case r of
                   Inr _ \<Rightarrow> ok (imported ''documents'' res)
                 | Inl e \<Rightarrow> if e = RConflict then ok (skipped ''documents'' res) else fail_with (store_failed res e))
              })
         })"

text \<open>The loops of \<^verbatim>\<open>Import\<close>, in their order.\<close>

definition restore_all :: "string \<Rightarrow> string \<Rightarrow> gotime \<Rightarrow> Backup \<Rightarrow> ImportResult \<Rightarrow> ('z world_scheme, ImportResult \<times> backup_err, ImportResult) prog" where
  "restore_all t mode now b res =
     try_in (fold_rows (restore_supplier t mode) (bk_Suppliers b) res) (\<lambda>res.
     try_in (fold_rows (restore_location t mode) (orderLocations (bk_Locations b)) res) (\<lambda>res.
     try_in (fold_rows (restore_category t mode) (orderCategories (bk_Categories b)) res) (\<lambda>res.
     try_in (fold_rows (restore_asset t mode) (bk_Assets b) (res, [])) (\<lambda>(res, created).
     try_in (fold_rows (restore_assignment t created) (bk_Assignments b) res) (\<lambda>res.
     try_in (fold_rows (restore_consumable t mode) (bk_Consumables b) res) (\<lambda>res.
     try_in (fold_rows (restore_license t mode) (bk_Licenses b) res) (\<lambda>res.
     try_in (fold_rows (restore_policy t mode) (bk_Insurance b) res) (\<lambda>res.
     try_in (fold_rows (restore_cover t now) (bk_PolicyAssets b) res) (\<lambda>res.
     fold_rows (restore_document t) (bk_Documents b) res)))))))))"

definition no_import :: ImportResult where
  "no_import = \<lparr>im_Imported = [], im_Skipped = [], im_Deleted = 0\<rparr>"

definition import_event :: "Subjects \<Rightarrow> string \<Rightarrow> string \<Rightarrow> string \<Rightarrow> any tab \<Rightarrow> Event" where
  "import_event subj t outcome reason details =
     \<lparr>e_TenantID = t, e_EventType = ''backup_imported'', e_ActorKind = ActorKind subj, e_ActorID = ActorID subj,
      e_SubjectKind = ''backup'', e_SubjectID = ''import'', e_Outcome = outcome, e_Reason = reason, e_Details = details\<rparr>"

definition wipe_first :: "Recorder \<Rightarrow> ImportOptions \<Rightarrow> string \<Rightarrow> ('z world_scheme, ImportResult \<times> backup_err, ImportResult) prog" where
  "wipe_first rc opts t =
     (if io_Full opts
      then try_as (\<lambda>(n, e). store_failed (no_import\<lparr>im_Deleted := n\<rparr>) e) (wipe (folding rc) t) (\<lambda>n. ok (no_import\<lparr>im_Deleted := n\<rparr>))
      else ok no_import)"

definition import_target :: "Subjects \<Rightarrow> ImportOptions \<Rightarrow> string" where
  "import_target subj opts = default_text (io_TenantID opts) (TenantID subj)"

text \<open>What \<^verbatim>\<open>Import\<close> does after its three gates.\<close>

definition import_load :: "Recorder \<Rightarrow> Subjects \<Rightarrow> Backup \<Rightarrow> ImportOptions \<Rightarrow> ('z world_scheme, ImportResult \<times> backup_err, ImportResult) prog" where
  "import_load rc subj b opts =
     (let t = import_target subj opts; mode = (if io_Mode opts = ModeOverwrite then ModeOverwrite else ModeSkip) in
      try_in (wipe_first rc opts t) (\<lambda>res. do {
        b \<leftarrow> (if bk_TenantID b \<noteq> [] \<and> bk_TenantID b \<noteq> t then remap b else State_Monad.return b);
        w \<leftarrow> State_Monad.get;
        try_in (restore_all t mode (wall w) b res) (\<lambda>res. do {
          Emit (folding rc) (attached rc) (import_event subj t OutcomeOK [] [(''mode'', AStr mode), (''full'', ABool (io_Full opts)),
            (''cross_tenant'', ABool (t \<noteq> TenantID subj)),
            (''assets'', AInt (case map_of (im_Imported res) ''assets'' of None \<Rightarrow> 0 | Some n \<Rightarrow> n))]);
          ok res
        })
      }))"

definition Import :: "Recorder \<Rightarrow> Subjects \<Rightarrow> Backup \<Rightarrow> ImportOptions \<Rightarrow> ('z world_scheme, ImportResult \<times> backup_err, ImportResult) prog" where
  "Import rc subj b opts =
     (case RequireTenant subj (TenantID subj) of Inl e \<Rightarrow> fail_with (no_import, BkSvc e) | Inr _ \<Rightarrow>
      case (if import_target subj opts \<noteq> TenantID subj \<or> io_Full opts then RequirePlatformAdmin subj else Inr ()) of
        Inl e \<Rightarrow> do {
          Emit (folding rc) (attached rc) (import_event subj (TenantID subj) OutcomeRefused ''platform-admin required'' []);
          fail_with (no_import, BkSvc e)
        }
      | Inr _ \<Rightarrow>
      case Backup_Validate b of Inl e \<Rightarrow> fail_with (no_import, e) | Inr _ \<Rightarrow> import_load rc subj b opts)"

end
