(* ===== verification/Scheduler.thy ===== *)
theory Scheduler
  imports Flow Strconv
begin

text \<open>
  \<^verbatim>\<open>internal/scheduler\<close>: the lifecycle worker. A sweep evaluates every condition of a tenant (a warranty, a license,
  a policy, a stock), expires lapsed licenses and policies, and publishes an event for a condition whose state
  differs from the one it recorded last. The report, which the Go code passes by pointer, is threaded through
  as a value. The context is never cancelled during a sweep. \<^verbatim>\<open>Run\<close>, which repeats \<^verbatim>\<open>SweepAll\<close> on a
  ticker, is with the other workers in \<^verbatim>\<open>Workers\<close>.
\<close>

section \<open>The worker\<close>

abbreviation StateSoon :: string where "StateSoon \<equiv> ''soon''"
abbreviation StateExpired :: string where "StateExpired \<equiv> ''expired''"
abbreviation StateLow :: string where "StateLow \<equiv> ''low''"
abbreviation StateOK :: string where "StateOK \<equiv> ''ok''"

record SoonWindows =
  win_Warranty :: int
  win_License :: int
  win_Insurance :: int

record Report =
  rp_TenantID :: string
  WarrantyExpiring :: int
  LicenseEvents :: int
  LicensesExpired :: int
  InsuranceEvents :: int
  InsuranceExpired :: int
  rp_LowStock :: int
  Errors :: int

record SchedService =
  sched_rec :: Recorder
  windows :: SoonWindows

definition sched_New :: "Recorder \<Rightarrow> SoonWindows \<Rightarrow> SchedService" where
  "sched_New rc win = \<lparr>sched_rec = rc, windows = \<lparr>
     win_Warranty = (if win_Warranty win \<le> 0 then 30 * nanos_per_day else win_Warranty win),
     win_License = (if win_License win \<le> 0 then 30 * nanos_per_day else win_License win),
     win_Insurance = (if win_Insurance win \<le> 0 then 30 * nanos_per_day else win_Insurance win)\<rparr>\<rparr>"

definition shouldNotify :: "string \<Rightarrow> string \<Rightarrow> string \<Rightarrow> Report \<Rightarrow> ('z world_scheme, bool \<times> Report) state" where
  "shouldNotify tenantID key st rep = do {
     prev \<leftarrow> GetNotifyState tenantID key;
     if (case prev of Inr y \<Rightarrow> y_LastState y = st | Inl _ \<Rightarrow> False) then State_Monad.return (False, rep)
     else do {
       w \<leftarrow> State_Monad.get;
       r \<leftarrow> UpsertNotifyState \<lparr>y_ID = [], y_TenantID = tenantID, y_ConditionKey = key, y_LastNotifiedAt = wall w, y_LastState = st\<rparr>;
       case r of
         Inl _ \<Rightarrow> State_Monad.return (False, rep\<lparr>Errors := Errors rep + 1\<rparr>)
       | Inr _ \<Rightarrow> State_Monad.return (st \<noteq> StateOK, rep)
     }
   }"

text \<open>\<^verbatim>\<open>if s.shouldNotify(...) { s.pub.Publish(...); rep.X++ }\<close>\<close>

definition alert :: "string \<Rightarrow> string \<Rightarrow> string \<Rightarrow> string \<Rightarrow> any tab \<Rightarrow> (Report \<Rightarrow> Report) \<Rightarrow> Report \<Rightarrow> ('z world_scheme, Report) state" where
  "alert tenantID key st typ payload count rep = do {
     out \<leftarrow> shouldNotify tenantID key st rep;
     if fst out then do { Publish tenantID typ payload; State_Monad.return (count (snd out)) }
     else State_Monad.return (snd out)
   }"

text \<open>The state of something that ends at \<open>ends\<close>.\<close>

definition due_state :: "int \<Rightarrow> gotime \<Rightarrow> gotime \<Rightarrow> string" where
  "due_state window now ends = (if ends < now then StateExpired else if time_sub ends now \<le> window then StateSoon else StateOK)"

text \<open>A loop over a slice that updates the report.\<close>

primrec each_row :: "('a \<Rightarrow> 'r \<Rightarrow> ('s, 'r) state) \<Rightarrow> 'a list \<Rightarrow> 'r \<Rightarrow> ('s, 'r) state" where
  "each_row f [] rep = State_Monad.return rep"
| "each_row f (x # xs) rep = do { rep' \<leftarrow> f x rep; each_row f xs rep' }"

text \<open>\<^verbatim>\<open>rows, err := s.st.AllX(...); if err != nil { rep.Errors++; return }\<close> and then the loop.\<close>

definition sweep_rows :: "('z world_scheme, repo_err, 'a list) prog \<Rightarrow> ('a \<Rightarrow> Report \<Rightarrow> ('z world_scheme, Report) state) \<Rightarrow> Report \<Rightarrow> ('z world_scheme, Report) state" where
  "sweep_rows fetch body rep = do {
     r \<leftarrow> fetch;
     case r of Inl _ \<Rightarrow> State_Monad.return (rep\<lparr>Errors := Errors rep + 1\<rparr>) | Inr rows \<Rightarrow> each_row body rows rep
   }"

definition warranty_row :: "SchedService \<Rightarrow> string \<Rightarrow> gotime \<Rightarrow> Asset \<Rightarrow> Report \<Rightarrow> ('z world_scheme, Report) state" where
  "warranty_row svc tenantID now a rep =
     (case a_PurchaseDate a of
        None \<Rightarrow> State_Monad.return rep
      | Some bought \<Rightarrow>
          if a_WarrantyMonths a \<le> 0 \<or> a_Status a = AssetArchived then State_Monad.return rep
          else let exp = AddMonths bought (a_WarrantyMonths a) in
            alert tenantID (''warranty:'' @ a_ID a) (due_state (win_Warranty (windows svc)) now exp) ''asset.warranty.expiring''
              (WarrantyExpiringPayload (a_ID a) (a_AssetTag a) exp) (\<lambda>r. r\<lparr>WarrantyExpiring := WarrantyExpiring r + 1\<rparr>) rep)"

definition sweepWarranty :: "SchedService \<Rightarrow> string \<Rightarrow> gotime \<Rightarrow> Report \<Rightarrow> ('z world_scheme, Report) state" where
  "sweepWarranty svc tenantID now = sweep_rows (AllAssets tenantID) (warranty_row svc tenantID now)"

definition sched_event :: "string \<Rightarrow> string \<Rightarrow> string \<Rightarrow> string \<Rightarrow> Event" where
  "sched_event tenantID typ kind i = \<lparr>e_TenantID = tenantID, e_EventType = typ, e_ActorKind = ActorSystem, e_ActorID = ''scheduler'',
     e_SubjectKind = kind, e_SubjectID = i, e_Outcome = OutcomeOK, e_Reason = [], e_Details = []\<rparr>"

text \<open>The expiry of a lapsed license.\<close>

definition expire_license :: "SchedService \<Rightarrow> string \<Rightarrow> gotime \<Rightarrow> License \<Rightarrow> Report \<Rightarrow> ('z world_scheme, Report) state" where
  "expire_license svc tenantID now l rep = do {
     r \<leftarrow> UpdateLicense (l\<lparr>i_Status := LicExpired, i_UpdatedAt := now\<rparr>);
     case r of
       Inl _ \<Rightarrow> State_Monad.return (rep\<lparr>Errors := Errors rep + 1\<rparr>)
     | Inr _ \<Rightarrow> do {
         Emit (folding (sched_rec svc)) (attached (sched_rec svc)) (sched_event tenantID ''license_expired'' ''license'' (i_ID l));
         State_Monad.return (rep\<lparr>LicensesExpired := LicensesExpired rep + 1\<rparr>)
       }
   }"

definition license_row :: "SchedService \<Rightarrow> string \<Rightarrow> gotime \<Rightarrow> License \<Rightarrow> Report \<Rightarrow> ('z world_scheme, Report) state" where
  "license_row svc tenantID now l rep =
     (case i_ValidTo l of
        None \<Rightarrow> State_Monad.return rep
      | Some until \<Rightarrow>
          if i_Status l = LicSuspended then State_Monad.return rep
          else let st = due_state (win_License (windows svc)) now until in do {
            rep' \<leftarrow> (if st = StateExpired \<and> i_Status l \<noteq> LicExpired then expire_license svc tenantID now l rep else State_Monad.return rep);
            alert tenantID (''license:'' @ i_ID l) st ''license.expiring'' (LicenseExpiringPayload (i_ID l) (i_Name l) until)
              (\<lambda>r. r\<lparr>LicenseEvents := LicenseEvents r + 1\<rparr>) rep'
          })"

definition sweepLicenses :: "SchedService \<Rightarrow> string \<Rightarrow> gotime \<Rightarrow> Report \<Rightarrow> ('z world_scheme, Report) state" where
  "sweepLicenses svc tenantID now = sweep_rows (AllLicenses tenantID) (license_row svc tenantID now)"

definition expire_policy :: "SchedService \<Rightarrow> string \<Rightarrow> gotime \<Rightarrow> InsurancePolicy \<Rightarrow> Report \<Rightarrow> ('z world_scheme, Report) state" where
  "expire_policy svc tenantID now p rep = do {
     r \<leftarrow> UpdateInsurance (p\<lparr>p_Status := InsExpired, p_UpdatedAt := now\<rparr>);
     case r of
       Inl _ \<Rightarrow> State_Monad.return (rep\<lparr>Errors := Errors rep + 1\<rparr>)
     | Inr _ \<Rightarrow> do {
         Emit (folding (sched_rec svc)) (attached (sched_rec svc)) (sched_event tenantID ''insurance_expired'' ''insurance'' (p_ID p));
         State_Monad.return (rep\<lparr>InsuranceExpired := InsuranceExpired rep + 1\<rparr>)
       }
   }"

definition policy_row :: "SchedService \<Rightarrow> string \<Rightarrow> gotime \<Rightarrow> InsurancePolicy \<Rightarrow> Report \<Rightarrow> ('z world_scheme, Report) state" where
  "policy_row svc tenantID now p rep =
     (case p_ValidTo p of
        None \<Rightarrow> State_Monad.return rep
      | Some until \<Rightarrow>
          if p_Status p = InsCancelled then State_Monad.return rep
          else let st = due_state (win_Insurance (windows svc)) now until in do {
            rep' \<leftarrow> (if st = StateExpired \<and> p_Status p \<noteq> InsExpired then expire_policy svc tenantID now p rep else State_Monad.return rep);
            alert tenantID (''insurance:'' @ p_ID p) st ''insurance.expiring'' (InsuranceExpiringPayload (p_ID p) (p_PolicyNumber p) until)
              (\<lambda>r. r\<lparr>InsuranceEvents := InsuranceEvents r + 1\<rparr>) rep'
          })"

definition sweepInsurance :: "SchedService \<Rightarrow> string \<Rightarrow> gotime \<Rightarrow> Report \<Rightarrow> ('z world_scheme, Report) state" where
  "sweepInsurance svc tenantID now = sweep_rows (AllInsurance tenantID) (policy_row svc tenantID now)"

definition stock_row :: "string \<Rightarrow> Consumable \<Rightarrow> Report \<Rightarrow> ('z world_scheme, Report) state" where
  "stock_row tenantID c rep =
     (if n_MinAmount c \<le> 0 then State_Monad.return rep
      else let st = (if n_Amount c \<le> n_MinAmount c then StateLow @ '':'' @ Itoa (n_Amount c) else StateOK) in
        alert tenantID (''low_stock:'' @ n_ID c) st ''consumable.low_stock'' (LowStockPayload (n_ID c) (n_Name c) (n_Amount c) (n_MinAmount c))
          (\<lambda>r. r\<lparr>rp_LowStock := rp_LowStock r + 1\<rparr>) rep)"

definition sweepConsumables :: "string \<Rightarrow> Report \<Rightarrow> ('z world_scheme, Report) state" where
  "sweepConsumables tenantID = sweep_rows (AllConsumables tenantID) (stock_row tenantID)"

definition zero_report :: Report where
  "zero_report = \<lparr>rp_TenantID = [], WarrantyExpiring = 0, LicenseEvents = 0, LicensesExpired = 0, InsuranceEvents = 0, InsuranceExpired = 0,
     rp_LowStock = 0, Errors = 0\<rparr>"

definition Sweep :: "SchedService \<Rightarrow> string \<Rightarrow> ('z world_scheme, Report) state" where
  "Sweep svc tenantID = do {
     w \<leftarrow> State_Monad.get;
     r1 \<leftarrow> sweepWarranty svc tenantID (wall w) (zero_report\<lparr>rp_TenantID := tenantID\<rparr>);
     r2 \<leftarrow> sweepLicenses svc tenantID (wall w) r1;
     r3 \<leftarrow> sweepInsurance svc tenantID (wall w) r2;
     sweepConsumables tenantID r3
   }"

primrec sweep_all :: "SchedService \<Rightarrow> string list \<Rightarrow> ('z world_scheme, Report list) state" where
  "sweep_all svc [] = State_Monad.return []"
| "sweep_all svc (t # ts) = do { r \<leftarrow> Sweep svc t; rs \<leftarrow> sweep_all svc ts; State_Monad.return (r # rs) }"

definition SweepAll :: "SchedService \<Rightarrow> ('z world_scheme, Report list) state" where
  "SweepAll svc = do {
     r \<leftarrow> TenantIDs;
     case r of Inl _ \<Rightarrow> State_Monad.return [] | Inr ids \<Rightarrow> sweep_all svc ids
   }"

end
