(* ===== verification/Scheduler_Laws.thy ===== *)
theory Scheduler_Laws
  imports Scheduler
begin

text \<open>
  What a sweep does, told without its loops: the conditions of the tenant, of which those whose state is not the
  recorded one are published, once; afterwards every condition is recorded, so a second sweep at the same time
  is silent, and no lapsed license or policy is left unexpired.
\<close>

section \<open>The recorded states\<close>

definition notify_match :: "string \<Rightarrow> string \<Rightarrow> NotifyState \<Rightarrow> bool" where
  "notify_match t key y \<longleftrightarrow> y_TenantID y = t \<and> y_ConditionKey y = key"

definition last_state :: "string \<Rightarrow> 'z mem_scheme \<Rightarrow> string \<Rightarrow> string option" where
  "last_state t w key = map_option y_LastState (find (notify_match t key) (vals (notify w)))"

lemma find_vals: "find (\<lambda>(k, v). P v) m = Some (k, x) \<Longrightarrow> find P (vals m) = Some x"
  by (induction m) (auto split: if_splits)

lemma find_vals_None: "find (\<lambda>(k, v). P v) m = None \<longleftrightarrow> find P (vals m) = None"
  by (induction m) auto

lemma find_key: "find (\<lambda>(k, v). P v) m = Some (k, x) \<Longrightarrow> k \<in> fst ` set m"
  by (induction m) (auto split: if_splits)

lemma find_replaced:
  assumes "find (\<lambda>(k, v). P v) m = Some (k, ex)" and "distinct (map fst m)" and "P v'"
  shows "find P (vals (AList.update k v' m)) = Some v'"
  using assms by (induction m) (auto split: if_splits)

lemma find_others:
  assumes "find (\<lambda>(k, v). P v) m = Some (k, ex)" and "\<And>v. P v \<Longrightarrow> \<not> Q v" and "P v'" and "distinct (map fst m)"
  shows "find Q (vals (AList.update k v' m)) = find Q (vals m)"
  using assms by (induction m) (auto split: if_splits dest: find_key)

lemma update_new: "k \<notin> fst ` set m \<Longrightarrow> AList.update k v m = m @ [(k, v)]"
  by (induction m) auto

lemma find_append: "find P (xs @ ys) = (case find P xs of None \<Rightarrow> find P ys | Some x \<Rightarrow> Some x)"
  by (induction xs) auto

section \<open>Fresh identifiers\<close>

definition minted_before :: "'z sys_scheme \<Rightarrow> string \<Rightarrow> bool" where
  "minted_before w k \<longleftrightarrow> (\<exists>b ms sq. k = id_text (hex_encode (id_bytes b ms sq)) \<and> 0 \<le> ms \<and> unat sq < 4096
     \<and> (ms < idLast w \<or> ms = idLast w \<and> sq \<le> idSeq w))"

definition later :: "'z sys_scheme \<Rightarrow> 'z sys_scheme \<Rightarrow> bool" where
  "later w w' \<longleftrightarrow> (ids_ok w \<longrightarrow> ids_ok w' \<and> (idLast w < idLast w' \<or> idLast w = idLast w' \<and> idSeq w \<le> idSeq w'))"

interpretation lt: io_relation later
  by unfold_locales (auto simp: later_def)

lemma later_NewID: "state_io_rel later NewID"
  unfolding state_io_rel_def
proof
  fix w :: "'a sys_scheme"
  show "later w (snd (run_state NewID w))"
    using NewID_stamp [OF surjective_pairing, of w] by (auto simp: later_def stamp_less_def)
qed

lemma later_frame: "idLast w' = idLast w \<Longrightarrow> idSeq w' = idSeq w \<Longrightarrow> later w w'"
  by (simp add: later_def ids_ok_def)

lemma later_last: "later w w' \<Longrightarrow> ids_ok w \<Longrightarrow> idLast w \<le> idLast w'"
  by (auto simp: later_def)

lemma minted_later: "minted_before w k \<Longrightarrow> later w w' \<Longrightarrow> ids_ok w \<Longrightarrow> minted_before w' k"
  unfolding minted_before_def later_def
  by (elim exE conjE) (intro exI conjI, assumption+, auto)

lemma new_id_fresh:
  assumes "run_state NewID w = (i, w')" and "ids_ok w" and "idLast w' < 2 ^ 48" and "minted_before w k"
  shows "k \<noteq> i" and "minted_before w' i"
proof -
  note st = NewID_stamp [OF assms(1,2)]
  obtain b where i: "i = id_text (hex_encode (id_bytes b (idLast w') (idSeq w')))"
    using NewID_run [OF assms(1)] by blast
  from assms(4) obtain c ms sq where k: "k = id_text (hex_encode (id_bytes c ms sq))" "0 \<le> ms" "unat sq < 4096"
    "ms < idLast w \<or> ms = idLast w \<and> sq \<le> idSeq w"
    by (auto simp: minted_before_def)
  have "k < i"
    unfolding k(1) i using k(2-4) assms(3) st by (intro id_text_less) (auto simp: ids_ok_def stamp_less_def)
  then show "k \<noteq> i" by simp
  show "minted_before w' i"
    using i st(2) by (auto simp: minted_before_def ids_ok_def)
qed

lemma new_id_minted:
  assumes "run_state NewID w = (i, w')" and "ids_ok w"
  shows "minted_before w' i"
  using NewID_run [OF assms(1)] NewID_stamp(2) [OF assms] by (auto simp: minted_before_def ids_ok_def)

text \<open>A state in which no failure is armed, and the notify rows are keyed by identifiers minted before.\<close>

definition calm :: "'z mem_scheme \<Rightarrow> bool" where
  "calm w \<longleftrightarrow> failNext w = {} \<and> ids_ok w \<and> distinct (map fst (notify w)) \<and> (\<forall>k\<in>fst ` set (notify w). minted_before w k)"

section \<open>One condition\<close>

text \<open>A condition: its key, its state, and the event that reports it.\<close>

type_synonym cond = "string \<times> string \<times> string \<times> any tab"

fun cond_event :: "string \<Rightarrow> cond \<Rightarrow> pub_event" where
  "cond_event t (key, st, typ, payload) = \<lparr>b_TenantID = t, b_Type = typ, b_Payload = payload\<rparr>"

fun unsaid :: "(string \<Rightarrow> string option) \<Rightarrow> cond \<Rightarrow> bool" where
  "unsaid s (key, st, typ, payload) \<longleftrightarrow> s key \<noteq> Some st \<and> st \<noteq> StateOK"

fun noted :: "cond \<Rightarrow> (string \<Rightarrow> string option) \<Rightarrow> (string \<Rightarrow> string option)" where
  "noted (key, st, typ, payload) s = s(key \<mapsto> st)"

primrec fresh_alerts :: "(string \<Rightarrow> string option) \<Rightarrow> cond list \<Rightarrow> cond list" where
  "fresh_alerts s [] = []"
| "fresh_alerts s (c # cs) = (if unsaid s c then [c] else []) @ fresh_alerts (noted c s) cs"

lemma fresh_alerts_append: "fresh_alerts s (cs @ ds) = fresh_alerts s cs @ fresh_alerts (fold noted cs s) ds"
  by (induction cs arbitrary: s) auto

definition alerted :: "string \<Rightarrow> cond list \<Rightarrow> 'z world_scheme \<Rightarrow> 'z world_scheme \<Rightarrow> bool" where
  "alerted t cs w w' \<longleftrightarrow> published w' = published w @ map (cond_event t) (fresh_alerts (last_state t w) cs)
     \<and> last_state t w' = fold noted cs (last_state t w) \<and> (\<forall>t'. t' \<noteq> t \<longrightarrow> last_state t' w' = last_state t' w)"

lemma alerted_Nil: "alerted t [] w w' \<longleftrightarrow> published w' = published w \<and> (\<forall>t'. last_state t' w' = last_state t' w)"
  by (auto simp: alerted_def)

lemma alerted_append: "alerted t cs w w1 \<Longrightarrow> alerted t ds w1 w' \<Longrightarrow> alerted t (cs @ ds) w w'"
  by (simp add: alerted_def fresh_alerts_append)

lemma upsert_run:
  assumes "failNext w = {}"
  shows "run_state (UpsertNotifyState y) w = (let y1 = y\<lparr>y_LastNotifiedAt := default_time (y_LastNotifiedAt y) (wall w)\<rparr> in
    case find (\<lambda>(k, ex). notify_match (y_TenantID y) (y_ConditionKey y) ex) (notify w) of
      Some (k, ex) \<Rightarrow> (Inr (), w\<lparr>notify := AList.update k (y1\<lparr>y_ID := y_ID ex\<rparr>) (notify w)\<rparr>)
    | None \<Rightarrow> (Inr (), (snd (run_state (fresh_id (y_ID y)) w))\<lparr>notify := AList.update (new_id (y_ID y) w) (y1\<lparr>y_ID := new_id (y_ID y) w\<rparr>) (notify w)\<rparr>))"
  using assms by (auto simp: UpsertNotifyState_def run_guarded Let_def notify_match_def split: option.split)

text \<open>The row of a condition is written in place or added under a fresh key; the other rows stay.\<close>

definition notify_put :: "string \<Rightarrow> string \<Rightarrow> NotifyState \<Rightarrow> NotifyState tab \<Rightarrow> NotifyState tab \<Rightarrow> bool" where
  "notify_put t key y m m' \<longleftrightarrow> notify_match t key y \<and>
     ((\<exists>k ex. find (\<lambda>(k, ex). notify_match t key ex) m = Some (k, ex) \<and> m' = AList.update k y m)
      \<or> (\<exists>k. find (\<lambda>(k, ex). notify_match t key ex) m = None \<and> k \<notin> fst ` set m \<and> m' = m @ [(k, y)]))"

lemma notify_put_find:
  assumes "notify_put t key y m m'" and "distinct (map fst m)"
  shows "find (notify_match t' key') (vals m') = (if t' = t \<and> key' = key then Some y else find (notify_match t' key') (vals m))"
proof -
  let ?P = "notify_match t key" and ?Q = "notify_match t' key'"
  have y: "?P y" using assms(1) by (simp add: notify_put_def)
  have dis: "?P v \<Longrightarrow> \<not> ?Q v" if "\<not> (t' = t \<and> key' = key)" for v
    using that by (auto simp: notify_match_def)
  from assms(1) consider (old) k ex where "find (\<lambda>(k, ex). ?P ex) m = Some (k, ex)" "m' = AList.update k y m"
    | (new) k where "find (\<lambda>(k, ex). ?P ex) m = None" "k \<notin> fst ` set m" "m' = m @ [(k, y)]"
    unfolding notify_put_def by blast
  then show ?thesis
  proof cases
    case old
    then show ?thesis
      using find_replaced [OF old(1) assms(2) y] find_others [OF old(1) dis y assms(2)] by auto
  next
    case new
    have "find ?P (vals m) = None" using new(1) find_vals_None [of ?P m] by simp
    then show ?thesis
      using new(3) y dis by (auto simp: find_append split: option.split)
  qed
qed

lemma notify_put_last:
  assumes "notify_put t key y (notify w) (notify w')" and "distinct (map fst (notify w))"
  shows "last_state t w' = (last_state t w)(key \<mapsto> y_LastState y)" and "t' \<noteq> t \<Longrightarrow> last_state t' w' = last_state t' w"
  by (auto simp: last_state_def fun_eq_iff notify_put_find [OF assms])

text \<open>Only identifiers were drawn and notify rows written.\<close>

definition notes_only :: "'z mem_scheme \<Rightarrow> 'z mem_scheme \<Rightarrow> bool" where
  "notes_only w w' \<longleftrightarrow> (\<exists>r l s n. w' = w\<lparr>rnd := r, idLast := l, idSeq := s, notify := n\<rparr>)"

lemma calm_step:
  assumes "calm w" and "later w w'" and "failNext w' = failNext w" and "distinct (map fst (notify w'))"
    and "fst ` set (notify w') \<subseteq> insert k (fst ` set (notify w))" and "minted_before w' k"
  shows "calm w'"
proof -
  have io: "ids_ok w" using assms(1) by (simp add: calm_def)
  have "minted_before w' j" if "j \<in> fst ` set (notify w')" for j
  proof (cases "j = k")
    case False
    then have "minted_before w j" using that assms(1,5) unfolding calm_def by blast
    then show ?thesis using assms(2) io by (rule minted_later)
  qed (use assms(6) in simp)
  then show ?thesis using assms(1-4) by (simp add: calm_def later_def)
qed

lemma upsert_ok:
  assumes "run_state (UpsertNotifyState y) w = (r, w')" and "y_ID y = []" and "calm w" and "idLast w' < 2 ^ 48"
  shows "r = Inr () \<and> (\<exists>y'. y_LastState y' = y_LastState y \<and> notify_put (y_TenantID y) (y_ConditionKey y) y' (notify w) (notify w'))
    \<and> calm w' \<and> notes_only w w' \<and> later w w'"
proof -
  let ?P = "notify_match (y_TenantID y) (y_ConditionKey y)"
  have fn: "failNext w = {}" and io: "ids_ok w" and dist: "distinct (map fst (notify w))" using assms(3) by (simp_all add: calm_def)
  note run = assms(1) [unfolded upsert_run [OF fn] Let_def assms(2)]
  have y: "?P (y\<lparr>y_LastNotifiedAt := a, y_ID := b\<rparr>)" for a b by (simp add: notify_match_def)
  show ?thesis
  proof (cases "find (\<lambda>(k, ex). ?P ex) (notify w)")
    case (Some kx)
    obtain k ex where kx: "kx = (k, ex)" by force
    let ?y = "y\<lparr>y_LastNotifiedAt := default_time (y_LastNotifiedAt y) (wall w), y_ID := y_ID ex\<rparr>"
    have w': "w' = w\<lparr>notify := AList.update k ?y (notify w)\<rparr>" "r = Inr ()" using run Some kx by auto
    have put: "notify_put (y_TenantID y) (y_ConditionKey y) ?y (notify w) (notify w')"
      using Some kx y w'(1) by (auto simp: notify_put_def)
    have lt: "later w w'" by (rule later_frame) (simp_all add: w'(1))
    have k: "k \<in> fst ` set (notify w)" using Some kx find_key by metis
    then have "minted_before w' k" using assms(3) io by (auto simp: calm_def intro: minted_later [OF _ lt])
    then have "calm w'"
      using k by (intro calm_step [OF assms(3) lt]) (auto simp: w'(1) distinct_update [OF dist] dom_update)
    moreover have "notes_only w w'"
      unfolding notes_only_def w'(1) by (intro exI [of _ "rnd w"] exI [of _ "idLast w"] exI [of _ "idSeq w"] exI) simp
    ultimately show ?thesis using put w'(2) lt by (intro conjI exI [of _ ?y]) simp_all
  next
    case None
    let ?i = "new_id [] w"
    let ?y = "y\<lparr>y_LastNotifiedAt := default_time (y_LastNotifiedAt y) (wall w), y_ID := ?i\<rparr>"
    define v where "v = snd (run_state NewID w)"
    have v: "run_state NewID w = (?i, v)" by (simp add: v_def)
    have w': "w' = v\<lparr>notify := AList.update ?i ?y (notify w)\<rparr>" "r = Inr ()"
      using run None by (auto simp: v_def fresh_id_def)
    have nv: "notify v = notify w" "failNext v = failNext w" by (simp_all add: v_def)
    have lt: "later w w'"
      using lt.io_run [OF later_NewID v] by (simp add: w'(1) later_def ids_ok_def)
    have "idLast v < 2 ^ 48" using assms(4) w'(1) by simp
    then have new: "?i \<notin> fst ` set (notify w)"
      using assms(3) new_id_fresh(1) [OF v io] unfolding calm_def by metis
    then have put: "notify_put (y_TenantID y) (y_ConditionKey y) ?y (notify w) (notify w')"
      using None y by (auto simp: notify_put_def w'(1) update_new)
    have "minted_before w' ?i"
      using new_id_minted [OF v io] by (simp add: w'(1) minted_before_def)
    then have "calm w'"
      by (intro calm_step [OF assms(3) lt]) (auto simp: w'(1) nv distinct_update [OF dist] dom_update)
    moreover have "notes_only w w'"
      unfolding notes_only_def w'(1) v_def by (intro exI) simp
    ultimately show ?thesis using put w'(2) lt by (intro conjI exI [of _ ?y]) simp_all
  qed
qed

text \<open>What one alert does, in a calm state.\<close>

lemma get_notify:
  assumes "calm w"
  shows "run_state (GetNotifyState t key) w = (case find (notify_match t key) (vals (notify w)) of None \<Rightarrow> Inl RNotFound | Some y \<Rightarrow> Inr y, w)"
  using assms by (auto simp: GetNotifyState_def run_guarded calm_def notify_match_def [abs_def] split: option.split)

lemma later_upsert: "state_io_rel later (UpsertNotifyState y)"
  unfolding UpsertNotifyState_def state_io_rel_def
  using lt.io_run [OF later_NewID run_NewID]
  by (auto simp: run_guarded later_frame Let_def fresh_id_def later_def ids_ok_def split: option.split)

lemma later_frame_op:
  assumes "\<And>w. idLast (snd (run_state m w)) = idLast w" and "\<And>w. idSeq (snd (run_state m w)) = idSeq w"
  shows "state_io_rel later m"
  using assms by (simp add: state_io_rel_def later_frame)

lemma later_Publish: "state_io_rel later (Publish t ty pl)"
  by (rule later_frame_op) (simp_all add: Publish_def)

lemma later_get: "state_io_rel later State_Monad.get"
  by (rule later_frame_op) simp_all

lemma later_GetNotify: "state_io_rel later (GetNotifyState t key)"
  by (rule later_frame_op) (auto simp: GetNotifyState_def run_guarded split: option.split)

lemma later_shouldNotify: "state_io_rel later (shouldNotify t key st rep)"
  unfolding shouldNotify_def by (intro lt.io_rules later_GetNotify later_upsert later_get)

lemma later_alert: "state_io_rel later (alert t key st typ pl f rep)"
  unfolding alert_def by (intro lt.io_rules later_shouldNotify later_Publish)

text \<open>The tables but the notify rows, the clock and the armed failures.\<close>

definition rest :: "'z mem_scheme \<Rightarrow> mem \<times> gotime" where
  "rest w = ((core w)\<lparr>notify := []\<rparr>, wall w)"

lemma rest_notes: "notes_only w w' \<Longrightarrow> rest w' = rest w"
  by (auto simp: notes_only_def rest_def)

lemma notes_only_published: "notes_only w w' \<Longrightarrow> published w' = published (w :: 'z world_scheme)"
  by (auto simp: notes_only_def)

lemma calm_published [simp]: "calm (w\<lparr>published := p\<rparr>) = calm (w :: 'z world_scheme)"
  by (simp add: calm_def ids_ok_def minted_before_def)

lemma last_state_published [simp]: "last_state t (w\<lparr>published := p\<rparr>) = last_state t (w :: 'z world_scheme)"
  by (simp add: last_state_def fun_eq_iff)

lemma alert_ok:
  assumes run: "run_state (alert t key st typ pl f rep) w = (rep', w')" and calm: "calm w" and "idLast w' < 2 ^ 48"
    and "\<And>r. Errors (f r) = Errors r"
  shows "calm w' \<and> alerted t [(key, st, typ, pl)] w w' \<and> Errors rep' = Errors rep \<and> rest w' = rest w"
proof (cases "last_state t w key = Some st")
  case True
  then have "run_state (shouldNotify t key st rep) w = ((False, rep), w)"
    by (auto simp: shouldNotify_def get_notify [OF calm] last_state_def)
  with run have "rep' = rep" "w' = w" by (auto simp: alert_def)
  with calm True show ?thesis by (auto simp: alerted_def fun_upd_idem)
next
  case False
  define y where "y = \<lparr>y_ID = [], y_TenantID = t, y_ConditionKey = key, y_LastNotifiedAt = wall w, y_LastState = st\<rparr>"
  obtain r v where up: "run_state (UpsertNotifyState y) w = (r, v)" by force
  have sn: "run_state (shouldNotify t key st rep) w = (case r of Inl _ \<Rightarrow> ((False, rep\<lparr>Errors := Errors rep + 1\<rparr>), v) | Inr _ \<Rightarrow> ((st \<noteq> StateOK, rep), v))"
    using False up by (auto simp: shouldNotify_def get_notify [OF calm] last_state_def y_def split: option.splits sum.splits)
  have "idLast v < 2 ^ 48"
    using run sn assms(3) by (cases r) (auto simp: alert_def Publish_def split: if_splits)
  from upsert_ok [OF up _ calm this] obtain y' where u: "r = Inr ()" "y_LastState y' = st" "notify_put t key y' (notify w) (notify v)"
    "calm v" "notes_only w v"
    by (auto simp: y_def)
  note ls = notify_put_last [OF u(3)] and dist = calm [unfolded calm_def]
  have w': "w' = (if st = StateOK then v else v\<lparr>published := published v @ [cond_event t (key, st, typ, pl)]\<rparr>)"
    "Errors rep' = Errors rep"
    using run sn u(1) assms(4) by (auto simp: alert_def Publish_def split: if_splits)
  have "calm w'" "rest w' = rest w" using w'(1) u(4) rest_notes [OF u(5)] by (auto simp: rest_def)
  moreover have "alerted t [(key, st, typ, pl)] w w'"
    using w'(1) False ls dist notes_only_published [OF u(5)] u(2) by (auto simp: alerted_def)
  ultimately show ?thesis using w'(2) by simp
qed

lemma tab_ok_ids: "tab_ok idf m \<Longrightarrow> distinct (map idf (vals m))"
proof -
  assume ok: "tab_ok idf m"
  then have "map idf (vals m) = map fst m" by (induction m) (auto simp: tab_ok_def)
  moreover have "distinct (map fst m)" using ok by (simp add: tab_ok_def)
  ultimately show ?thesis by (simp only:)
qed

section \<open>Rows that expire\<close>

text \<open>
  The table of licenses and the table of policies age the same way: \<open>lapsed now\<close> rows become expired ones. The
  loop works on rows it read before (\<open>shown l x\<close>: the row \<open>x\<close> that the store shows for the stored \<open>l\<close>);
  \<open>pending t now xs m\<close>: \<open>xs\<close> are rows of \<open>t\<close> still to visit, and every lapsed row of \<open>t\<close> is among them.
\<close>

locale expiring_rows =
  fixes idf tn :: "'v \<Rightarrow> string" and lapsed :: "gotime \<Rightarrow> 'v \<Rightarrow> bool" and became :: "gotime \<Rightarrow> 'v \<Rightarrow> 'v \<Rightarrow> bool"
    and shown :: "'v \<Rightarrow> 'v \<Rightarrow> bool"
  assumes became_row: "became now l l' \<Longrightarrow> \<not> lapsed now l' \<and> idf l' = idf l \<and> tn l' = tn l"
    and shown_row: "shown l x \<Longrightarrow> lapsed now x = lapsed now l \<and> idf x = idf l \<and> tn x = tn l"
begin

definition pending :: "string \<Rightarrow> gotime \<Rightarrow> 'v list \<Rightarrow> 'v tab \<Rightarrow> bool" where
  "pending t now xs m \<longleftrightarrow> distinct (map idf xs) \<and> distinct (map fst m)
     \<and> (\<forall>x\<in>set xs. \<exists>l. map_of m (idf x) = Some l \<and> shown l x \<and> tn l = t)
     \<and> (\<forall>k l. map_of m k = Some l \<longrightarrow> tn l = t \<longrightarrow> lapsed now l \<longrightarrow> k \<in> idf ` set xs)"

definition aged :: "gotime \<Rightarrow> 'v tab \<Rightarrow> 'v tab \<Rightarrow> bool" where
  "aged now m m' \<longleftrightarrow> map fst m' = map fst m \<and>
     (\<forall>k. map_of m' k = map_of m k \<or> (\<exists>l l'. map_of m k = Some l \<and> lapsed now l \<and> became now l l' \<and> map_of m' k = Some l'))"

lemma aged_refl: "aged now m m"
  by (simp add: aged_def)

lemma aged_trans:
  assumes "aged now m m1" and "aged now m1 m2"
  shows "aged now m m2"
  unfolding aged_def
proof (intro conjI allI)
  show "map fst m2 = map fst m" using assms by (simp add: aged_def)
  fix k
  show "map_of m2 k = map_of m k \<or> (\<exists>l l'. map_of m k = Some l \<and> lapsed now l \<and> became now l l' \<and> map_of m2 k = Some l')"
    using assms became_row unfolding aged_def by (metis option.inject)
qed

lemma pending_skip:
  assumes "pending t now (x # xs) m" and "\<not> lapsed now x"
  shows "pending t now xs m"
proof -
  obtain l0 where x: "map_of m (idf x) = Some l0" "shown l0 x" using assms(1) by (auto simp: pending_def)
  have "k \<in> idf ` set xs" if "map_of m k = Some l" "tn l = t" "lapsed now l" for k l
  proof -
    have "k \<in> idf ` set (x # xs)" using assms(1) that unfolding pending_def by blast
    moreover have "k \<noteq> idf x" using that x shown_row [OF x(2)] assms(2) by auto
    ultimately show ?thesis by auto
  qed
  with assms(1) show ?thesis by (auto simp: pending_def)
qed

lemma pending_expire:
  assumes "pending t now (x # xs) m" and "map_of m (idf x) = Some l" and "became now l l'"
  shows "pending t now xs (AList.update (idf x) l' m)"
  unfolding pending_def
proof (intro conjI ballI allI impI)
  have x: "idf x \<notin> idf ` set xs" "distinct (map idf xs)" "distinct (map fst m)" "distinct (map idf xs)"
    using assms(1) by (auto simp: pending_def)
  then show "distinct (map idf xs)" "distinct (map fst (AList.update (idf x) l' m))" by (simp_all add: distinct_update)
  show "\<exists>l. map_of (AList.update (idf x) l' m) (idf z) = Some l \<and> shown l z \<and> tn l = t" if "z \<in> set xs" for z
  proof -
    have "idf z \<noteq> idf x" using x(1) that by (metis imageI)
    then show ?thesis using assms(1) that by (auto simp: pending_def update_conv')
  qed
  show "k \<in> idf ` set xs" if "map_of (AList.update (idf x) l' m) k = Some j" "tn j = t" "lapsed now j" for k j
  proof -
    have k: "k \<noteq> idf x" using that became_row [OF assms(3)] by (auto simp: update_conv')
    then have "map_of m k = Some j" using that(1) by (simp add: update_conv')
    then have "k \<in> idf ` set (x # xs)" using assms(1) that(2,3) unfolding pending_def by blast
    then show ?thesis using k by auto
  qed
qed

lemma aged_expire:
  assumes "map_of m k = Some l" and "lapsed now l" and "became now l l'"
  shows "aged now m (AList.update k l' m)"
proof -
  have "k \<in> fst ` set m" using map_of_SomeD [OF assms(1)] by force
  with assms show ?thesis by (auto simp: aged_def update_conv' update_keys)
qed

lemma pending_start:
  assumes "tab_ok idf m" and "\<And>l. shown l (f l)"
  shows "pending t now (map f (paginate idf [] 0 (filter (\<lambda>l. tn l = t) (vals m)))) m"
proof -
  let ?rows = "paginate idf [] 0 (filter (\<lambda>l. tn l = t) (vals m))"
  have id: "idf (f l) = idf l" for l using shown_row [OF assms(2)] by simp
  have rows: "map_of m (idf l) = Some l \<and> tn l = t" if "l \<in> set ?rows" for l
    using that tab_ok_vals [OF assms(1)] by simp
  have "distinct (map idf (filter (\<lambda>l. tn l = t) (vals m)))"
    by (rule distinct_map_filter [OF tab_ok_ids [OF assms(1)]])
  then have "distinct (map idf (map f ?rows))"
    using distinct_paginate_all by (simp add: id comp_def)
  moreover have "k \<in> idf ` f ` set ?rows" if "map_of m k = Some l" "tn l = t" for k l
  proof -
    have "l \<in> set ?rows" using that vals_lookup [OF that(1)] by simp
    moreover have "k = idf (f l)" using tab_ok_lookup [OF assms(1) that(1)] id by simp
    ultimately show ?thesis by blast
  qed
  moreover have "\<exists>l. map_of m (idf x) = Some l \<and> shown l x \<and> tn l = t" if "x \<in> set (map f ?rows)" for x
  proof -
    from that obtain l where l: "l \<in> set ?rows" and x: "x = f l" unfolding set_map by blast
    show ?thesis unfolding x id using rows [OF l] assms(2) [of l] by blast
  qed
  moreover have "distinct (map fst m)" using assms(1) by (simp add: tab_ok_def)
  ultimately show ?thesis unfolding pending_def set_map by blast
qed

lemma pending_done: "pending t now [] m \<Longrightarrow> map_of m k = Some l \<Longrightarrow> tn l = t \<Longrightarrow> \<not> lapsed now l"
  by (auto simp: pending_def)

end

definition lapsed_license :: "gotime \<Rightarrow> License \<Rightarrow> bool" where
  "lapsed_license now l \<longleftrightarrow> (\<exists>v. i_ValidTo l = Some v \<and> v < now) \<and> i_Status l \<noteq> LicSuspended \<and> i_Status l \<noteq> LicExpired"

definition expired_license :: "gotime \<Rightarrow> License \<Rightarrow> License \<Rightarrow> bool" where
  "expired_license now l l' \<longleftrightarrow> l' = l\<lparr>i_Status := LicExpired, i_UpdatedAt := now\<rparr>"

definition lapsed_policy :: "gotime \<Rightarrow> InsurancePolicy \<Rightarrow> bool" where
  "lapsed_policy now p \<longleftrightarrow> (\<exists>v. p_ValidTo p = Some v \<and> v < now) \<and> p_Status p \<noteq> InsCancelled \<and> p_Status p \<noteq> InsExpired"

definition expired_policy :: "gotime \<Rightarrow> InsurancePolicy \<Rightarrow> InsurancePolicy \<Rightarrow> bool" where
  "expired_policy now p p' \<longleftrightarrow> (\<exists>n. p' = p\<lparr>p_Status := InsExpired, p_UpdatedAt := now, p_AssetCount := n\<rparr>)"

definition counted :: "InsurancePolicy \<Rightarrow> InsurancePolicy \<Rightarrow> bool" where
  "counted p x \<longleftrightarrow> (\<exists>n. x = p\<lparr>p_AssetCount := n\<rparr>)"

interpretation lic: expiring_rows i_ID i_TenantID lapsed_license expired_license "(=)"
  by unfold_locales (auto simp: lapsed_license_def expired_license_def)

interpretation pol: expiring_rows p_ID p_TenantID lapsed_policy expired_policy counted
  by unfold_locales (auto simp: lapsed_policy_def expired_policy_def counted_def)

section \<open>The loops\<close>

lemma each_row_ok:
  assumes step: "\<And>x xs rep w rep' w'. P (x # xs) w \<Longrightarrow> calm w \<Longrightarrow> run_state (body x rep) w = (rep', w') \<Longrightarrow> idLast w' < 2 ^ 48 \<Longrightarrow>
      calm w' \<and> P xs w' \<and> alerted t (conds x) w w' \<and> Errors rep' = Errors rep \<and> F w w'"
    and later: "\<And>x rep. state_io_rel later (body x rep)"
    and F: "\<And>w. F w w" "\<And>u v w. F u v \<Longrightarrow> F v w \<Longrightarrow> F u w"
    and "run_state (each_row body xs rep) w = (rep', w')" and "P xs w" and "calm w" and "idLast w' < 2 ^ 48"
  shows "calm w' \<and> P [] w' \<and> alerted t (concat (map conds xs)) w w' \<and> Errors rep' = Errors rep \<and> F w w'"
  using assms(5-8)
proof (induction xs arbitrary: rep w)
  case Nil
  then show ?case using F(1) by (auto simp: alerted_Nil)
next
  case (Cons x xs)
  obtain r1 w1 where b: "run_state (body x rep) w = (r1, w1)" by force
  with Cons.prems(1) have tl: "run_state (each_row body xs r1) w1 = (rep', w')" by simp
  have "state_io_rel later (each_row body xs r1)" for r1
    by (induction xs arbitrary: r1) (auto intro: lt.io_rules later)
  from lt.io_run [OF this tl] have "later w1 w'" .
  moreover have "later w w1" by (rule lt.io_run [OF later b])
  ultimately have "idLast w1 < 2 ^ 48"
    using Cons.prems(3,4) by (auto simp: later_def calm_def)
  note s = step [OF Cons.prems(2,3) b this]
  with Cons.IH [OF tl _ _ Cons.prems(4)] show ?case
    using alerted_append [of t "conds x" w w1] F(2) by auto
qed

lemma later_Emit: "state_io_rel later (Emit uni b e)"
proof -
  have "state_io_rel later (Record uni e)"
    unfolding Record_def Let_def
    by (intro lt.io_rules later_NewID later_get; rule later_frame_op) simp_all
  then show ?thesis unfolding Emit_def by (intro lt.io_rules)
qed

text \<open>An audit record changes no table, no clock and no recorded state.\<close>

lemma Emit_ok:
  assumes run: "run_state (Emit uni b e) w = ((), w')" and "calm w"
  shows "calm w' \<and> alerted t [] w w' \<and> rest w' = rest w"
proof -
  have fr: "notify w' = notify w" "failNext w' = failNext w" "published w' = published w" "rest w' = rest w"
    using run by (auto simp: Emit_def Record_def Let_def rest_def split: if_splits sum.splits prod.splits)
  have lt: "later w w'" by (rule lt.io_run [OF later_Emit run])
  have "calm w'"
    using assms(2) lt fr(1,2) unfolding calm_def by (metis later_def minted_later)
  with fr show ?thesis by (simp add: alerted_Nil last_state_def fun_eq_iff)
qed

section \<open>The conditions of a tenant\<close>

definition due_cond :: "string \<Rightarrow> int \<Rightarrow> gotime \<Rightarrow> gotime \<Rightarrow> string \<Rightarrow> any tab \<Rightarrow> cond" where
  "due_cond key window now ends typ payload = (key, due_state window now ends, typ, payload)"

definition warranty_conds :: "SchedService \<Rightarrow> gotime \<Rightarrow> Asset \<Rightarrow> cond list" where
  "warranty_conds svc now a = (case a_PurchaseDate a of None \<Rightarrow> [] | Some bought \<Rightarrow>
     if a_WarrantyMonths a \<le> 0 \<or> a_Status a = AssetArchived then []
     else [due_cond (''warranty:'' @ a_ID a) (win_Warranty (windows svc)) now (AddMonths bought (a_WarrantyMonths a)) ''asset.warranty.expiring''
       (WarrantyExpiringPayload (a_ID a) (a_AssetTag a) (AddMonths bought (a_WarrantyMonths a)))])"

definition license_conds :: "SchedService \<Rightarrow> gotime \<Rightarrow> License \<Rightarrow> cond list" where
  "license_conds svc now l = (case i_ValidTo l of None \<Rightarrow> [] | Some until \<Rightarrow>
     if i_Status l = LicSuspended then []
     else [due_cond (''license:'' @ i_ID l) (win_License (windows svc)) now until ''license.expiring'' (LicenseExpiringPayload (i_ID l) (i_Name l) until)])"

definition policy_conds :: "SchedService \<Rightarrow> gotime \<Rightarrow> InsurancePolicy \<Rightarrow> cond list" where
  "policy_conds svc now p = (case p_ValidTo p of None \<Rightarrow> [] | Some until \<Rightarrow>
     if p_Status p = InsCancelled then []
     else [due_cond (''insurance:'' @ p_ID p) (win_Insurance (windows svc)) now until ''insurance.expiring''
       (InsuranceExpiringPayload (p_ID p) (p_PolicyNumber p) until)])"

definition stock_conds :: "Consumable \<Rightarrow> cond list" where
  "stock_conds c = (if n_MinAmount c \<le> 0 then [] else
     [(''low_stock:'' @ n_ID c, if n_Amount c \<le> n_MinAmount c then StateLow @ '':'' @ Itoa (n_Amount c) else StateOK,
       ''consumable.low_stock'', LowStockPayload (n_ID c) (n_Name c) (n_Amount c) (n_MinAmount c))])"

definition tenant_rows :: "('v \<Rightarrow> string) \<Rightarrow> ('v \<Rightarrow> string) \<Rightarrow> string \<Rightarrow> 'v tab \<Rightarrow> 'v list" where
  "tenant_rows idf tn t m = paginate idf [] 0 (filter (\<lambda>v. tn v = t) (vals m))"

definition conditions :: "SchedService \<Rightarrow> string \<Rightarrow> 'z mem_scheme \<Rightarrow> cond list" where
  "conditions svc t w =
     concat (map (warranty_conds svc (wall w)) (tenant_rows a_ID a_TenantID t (assets w)))
     @ concat (map (license_conds svc (wall w)) (tenant_rows i_ID i_TenantID t (licenses w)))
     @ concat (map (policy_conds svc (wall w)) (tenant_rows p_ID p_TenantID t (insurance w)))
     @ concat (map stock_conds (tenant_rows n_ID n_TenantID t (consumables w)))"

section \<open>The four sweeps\<close>

definition rest_same :: "'z mem_scheme \<Rightarrow> 'z mem_scheme \<Rightarrow> bool" where
  "rest_same w w' \<longleftrightarrow> rest w' = rest w"

lemma warranty_row_ok:
  assumes "run_state (warranty_row svc t now a rep) w = (rep', w')" and "calm w" and "idLast w' < 2 ^ 48"
  shows "calm w' \<and> alerted t (warranty_conds svc now a) w w' \<and> Errors rep' = Errors rep \<and> rest_same w w'"
  using assms alert_ok [OF _ assms(2,3)]
  by (auto simp: warranty_row_def warranty_conds_def due_cond_def rest_same_def alerted_Nil Let_def split: option.splits if_splits)

lemma stock_row_ok:
  assumes "run_state (stock_row t c rep) w = (rep', w')" and "calm w" and "idLast w' < 2 ^ 48"
  shows "calm w' \<and> alerted t (stock_conds c) w w' \<and> Errors rep' = Errors rep \<and> rest_same w w'"
proof (cases "n_MinAmount c \<le> 0")
  case True
  then show ?thesis using assms by (simp add: stock_row_def stock_conds_def rest_same_def alerted_Nil)
next
  case False
  then show ?thesis
    using alert_ok [OF assms(1) [unfolded stock_row_def Let_def if_not_P [OF False]] assms(2,3)] by (simp add: stock_conds_def rest_same_def)
qed

lemma later_rows: "state_io_rel later (warranty_row svc t now a rep)" "state_io_rel later (stock_row t c rep)"
  unfolding warranty_row_def stock_row_def Let_def by (intro lt.io_rules later_alert)+

lemma quiet_phase:
  assumes "\<And>x rep w rep' w'. run_state (body x rep) w = (rep', w') \<Longrightarrow> calm w \<Longrightarrow> idLast w' < 2 ^ 48 \<Longrightarrow>
      calm w' \<and> alerted t (conds x) w w' \<and> Errors rep' = Errors rep \<and> rest_same w w'"
    and "\<And>x rep. state_io_rel later (body x rep)"
    and "run_state (each_row body xs rep) w = (rep', w')" and "calm w" and "idLast w' < 2 ^ 48"
  shows "calm w' \<and> alerted t (concat (map conds xs)) w w' \<and> Errors rep' = Errors rep \<and> rest_same w w'"
  using each_row_ok [of "\<lambda>_ _. True" body t conds rest_same, OF _ assms(2) _ _ assms(3)] assms(1,4,5)
  by (simp add: rest_same_def)

lemma warranty_phase:
  assumes "run_state (sweepWarranty svc t now rep) w = (rep', w')" and "calm w" and "idLast w' < 2 ^ 48"
  shows "calm w' \<and> alerted t (concat (map (warranty_conds svc now) (tenant_rows a_ID a_TenantID t (assets w)))) w w'
    \<and> Errors rep' = Errors rep \<and> rest_same w w'"
proof -
  have fill: "warranty_conds svc now (fillAsset n a) = warranty_conds svc now a" for n a
    by (simp add: warranty_conds_def fillAsset_def split: option.split)
  have "run_state (each_row (warranty_row svc t now) (map (fillAsset (wall w)) (tenant_rows a_ID a_TenantID t (assets w))) rep) w = (rep', w')"
    using assms(1,2) by (simp add: sweepWarranty_def sweep_rows_def AllAssets_def run_guarded calm_def tenant_rows_def)
  from quiet_phase [of "warranty_row svc t now" t "warranty_conds svc now", OF warranty_row_ok later_rows(1) this assms(2,3)] show ?thesis by (simp add: fill comp_def)
qed

lemma stock_phase:
  assumes "run_state (sweepConsumables t rep) w = (rep', w')" and "calm w" and "idLast w' < 2 ^ 48"
  shows "calm w' \<and> alerted t (concat (map stock_conds (tenant_rows n_ID n_TenantID t (consumables w)))) w w'
    \<and> Errors rep' = Errors rep \<and> rest_same w w'"
proof -
  have "run_state (each_row (stock_row t) (tenant_rows n_ID n_TenantID t (consumables w)) rep) w = (rep', w')"
    using assms(1,2) by (simp add: sweepConsumables_def sweep_rows_def AllConsumables_def run_guarded calm_def tenant_rows_def)
  from quiet_phase [of "stock_row t" t stock_conds, OF stock_row_ok later_rows(2) this assms(2,3)] show ?thesis .
qed

text \<open>Expiring a row that is in the table, in a calm state.\<close>

lemma UpdateLicense_run:
  assumes "calm w" and "map_of (licenses w) (i_ID l) = Some l"
  shows "run_state (UpdateLicense (l\<lparr>i_Status := st, i_UpdatedAt := tm\<rparr>)) w
    = (Inr (), w\<lparr>licenses := AList.update (i_ID l) (l\<lparr>i_Status := st, i_UpdatedAt := wall w\<rparr>) (licenses w)\<rparr>)"
proof -
  have "l\<lparr>i_Status := st, i_UpdatedAt := tm, i_CreatedAt := i_CreatedAt l, i_UpdatedAt := wall w\<rparr> = l\<lparr>i_Status := st, i_UpdatedAt := wall w\<rparr>"
    by (cases l) simp
  with assms show ?thesis by (simp add: UpdateLicense_def run_guarded calm_def Let_def)
qed

lemma UpdateInsurance_run:
  assumes "calm w" and "rows_ok p_ID policy_clash (insurance w)" and "map_of (insurance w) (p_ID x) = Some p" and "counted p x"
  shows "run_state (UpdateInsurance (x\<lparr>p_Status := st, p_UpdatedAt := tm\<rparr>)) w
    = (Inr (), w\<lparr>insurance := AList.update (p_ID x) (x\<lparr>p_Status := st, p_UpdatedAt := wall w\<rparr>) (insurance w)\<rparr>)"
proof -
  from assms(4) obtain n where x: "x = p\<lparr>p_AssetCount := n\<rparr>" by (auto simp: counted_def)
  have eq: "x\<lparr>p_Status := st, p_UpdatedAt := tm, p_CreatedAt := p_CreatedAt p, p_UpdatedAt := wall w\<rparr> = x\<lparr>p_Status := st, p_UpdatedAt := wall w\<rparr>"
    unfolding x by (cases p) simp
  have "\<not> policy_clash other p" if "other \<in> set (vals (insurance w))" "p_ID other \<noteq> p_ID x" for other
    using insurance_tab.rows_ok_clash [OF assms(2) that(1) vals_lookup [OF assms(3)]] that(2) rows_ok_lookup [OF assms(2,3)] by simp
  then have "\<not> list_ex (\<lambda>other. \<not> (p_ID other = p_ID x \<or> p_TenantID other \<noteq> p_TenantID x)
      \<and> (p_PolicyNumber other = p_PolicyNumber x \<or> p_Name other = p_Name x)) (vals (insurance w))"
    by (auto simp: list_ex_iff policy_clash_def x simp del: set_map)
  then show ?thesis
    using assms(1,3) eq by (simp add: UpdateInsurance_def run_guarded calm_def Let_def x)
qed

definition license_aged :: "gotime \<Rightarrow> 'z mem_scheme \<Rightarrow> 'z mem_scheme \<Rightarrow> bool" where
  "license_aged now w w' \<longleftrightarrow> lic.aged now (licenses w) (licenses w') \<and> wall w' = wall w \<and> (fst (rest w'))\<lparr>licenses := []\<rparr> = (fst (rest w))\<lparr>licenses := []\<rparr>"

definition policy_aged :: "gotime \<Rightarrow> 'z mem_scheme \<Rightarrow> 'z mem_scheme \<Rightarrow> bool" where
  "policy_aged now w w' \<longleftrightarrow> pol.aged now (insurance w) (insurance w') \<and> wall w' = wall w \<and> (fst (rest w'))\<lparr>insurance := []\<rparr> = (fst (rest w))\<lparr>insurance := []\<rparr>"

lemma rest_tables:
  assumes "rest w' = rest w"
  shows "licenses w' = licenses w" "insurance w' = insurance w" "assets w' = assets w" "consumables w' = consumables w" "wall w' = wall w"
  using assms by (simp_all add: rest_def core_def)

lemma aged_rest:
  "rest w' = rest w \<Longrightarrow> license_aged now w w'" "rest w' = rest w \<Longrightarrow> policy_aged now w w'"
  using rest_tables [of w' w] by (simp_all add: license_aged_def policy_aged_def lic.aged_refl pol.aged_refl)

lemma license_aged_tables:
  assumes "license_aged now w w'"
  shows "insurance w' = insurance w" "consumables w' = consumables w" "assets w' = assets w" "wall w' = wall w"
  using assms by (simp_all add: license_aged_def rest_def core_def)

lemma policy_aged_tables:
  assumes "policy_aged now w w'"
  shows "licenses w' = licenses w" "consumables w' = consumables w" "assets w' = assets w" "wall w' = wall w"
  using assms by (simp_all add: policy_aged_def rest_def core_def)

lemma expire_license_ok:
  assumes "run_state (expire_license svc t now l rep) w = (rep', w')" and "calm w" and "wall w = now"
    and "lic.pending t now (l # ls) (licenses w)" and "lapsed_license now l"
  shows "calm w' \<and> alerted t [] w w' \<and> Errors rep' = Errors rep \<and> lic.pending t now ls (licenses w') \<and> license_aged now w w'"
proof -
  have l: "map_of (licenses w) (i_ID l) = Some l" using assms(4) by (auto simp: lic.pending_def)
  let ?l = "l\<lparr>i_Status := LicExpired, i_UpdatedAt := wall w\<rparr>"
  let ?w = "w\<lparr>licenses := AList.update (i_ID l) ?l (licenses w)\<rparr>"
  have e: "run_state (Emit (folding (sched_rec svc)) (attached (sched_rec svc)) (sched_event t ''license_expired'' ''license'' (i_ID l))) ?w = ((), w')"
    and rep: "Errors rep' = Errors rep"
    using assms(1) UpdateLicense_run [OF assms(2) l, where st = LicExpired and tm = now] by (auto simp: expire_license_def split: prod.splits)
  have "calm ?w" using assms(2) by (simp add: calm_def ids_ok_def minted_before_def)
  note em = Emit_ok [OF e this, of t]
  have ex: "expired_license now l ?l" using assms(3) by (simp add: expired_license_def)
  have "licenses w' = AList.update (i_ID l) ?l (licenses w)" using em rest_tables(1) [of w' ?w] by simp
  then have "lic.pending t now ls (licenses w')" "lic.aged now (licenses w) (licenses w')"
    using lic.pending_expire [OF assms(4) l ex] lic.aged_expire [OF l assms(5) ex] by simp_all
  moreover have "(fst (rest w'))\<lparr>licenses := []\<rparr> = (fst (rest w))\<lparr>licenses := []\<rparr>" "wall w' = wall w"
    using em by (simp_all add: rest_def)
  ultimately show ?thesis
    using em rep by (simp add: license_aged_def alerted_Nil last_state_def fun_eq_iff)
qed

lemma expire_policy_ok:
  assumes "run_state (expire_policy svc t now x rep) w = (rep', w')" and "calm w" and "wall w = now"
    and "pol.pending t now (x # xs) (insurance w)" and "lapsed_policy now x" and "rows_ok p_ID policy_clash (insurance w)"
  shows "calm w' \<and> alerted t [] w w' \<and> Errors rep' = Errors rep \<and> pol.pending t now xs (insurance w') \<and> policy_aged now w w'
    \<and> rows_ok p_ID policy_clash (insurance w')"
proof -
  obtain p where p: "map_of (insurance w) (p_ID x) = Some p" and c: "counted p x" "p_TenantID p = t"
    using assms(4) by (auto simp: pol.pending_def)
  let ?p = "x\<lparr>p_Status := InsExpired, p_UpdatedAt := wall w\<rparr>"
  let ?w = "w\<lparr>insurance := AList.update (p_ID x) ?p (insurance w)\<rparr>"
  have e: "run_state (Emit (folding (sched_rec svc)) (attached (sched_rec svc)) (sched_event t ''insurance_expired'' ''insurance'' (p_ID x))) ?w = ((), w')"
    and rep: "Errors rep' = Errors rep"
    using assms(1) UpdateInsurance_run [OF assms(2,6) p c(1), where st = InsExpired and tm = now] by (auto simp: expire_policy_def split: prod.splits)
  have "calm ?w" using assms(2) by (simp add: calm_def ids_ok_def minted_before_def)
  note em = Emit_ok [OF e this, of t]
  have ex: "expired_policy now p ?p"
  proof -
    from c(1) obtain n where "x = p\<lparr>p_AssetCount := n\<rparr>" by (auto simp: counted_def)
    then have "?p = p\<lparr>p_Status := InsExpired, p_UpdatedAt := now, p_AssetCount := n\<rparr>" using assms(3) by (cases p) simp
    then show ?thesis unfolding expired_policy_def by blast
  qed
  have lp: "lapsed_policy now p" using assms(5) c(1) by (auto simp: lapsed_policy_def counted_def)
  have tab: "insurance w' = AList.update (p_ID x) ?p (insurance w)" using em rest_tables(2) [of w' ?w] by simp
  then have "pol.pending t now xs (insurance w')" "pol.aged now (insurance w) (insurance w')"
    using pol.pending_expire [OF assms(4) p ex] pol.aged_expire [OF p lp ex] by simp_all
  moreover have "rows_ok p_ID policy_clash (insurance w')"
  proof -
    have "policy_clash y ?p = policy_clash y p" for y using c(1) by (auto simp: policy_clash_def counted_def)
    then have "\<not> policy_clash y ?p" if "y \<in> set (vals (insurance w))" "p_ID y \<noteq> p_ID x" for y
      using insurance_tab.rows_ok_clash [OF assms(6) that(1) vals_lookup [OF p]] that(2) rows_ok_lookup [OF assms(6) p] by metis
    then have "tab_rel p_ID p_TenantID policy_clash t (insurance w) (insurance w')"
      unfolding tab using p c by (intro insurance_tab.rel_replace [OF p]) (auto simp: counted_def simp del: set_map)
    with assms(6) show ?thesis by (simp add: tab_rel_def)
  qed
  moreover have "(fst (rest w'))\<lparr>insurance := []\<rparr> = (fst (rest w))\<lparr>insurance := []\<rparr>" "wall w' = wall w"
    using em by (simp_all add: rest_def)
  ultimately show ?thesis
    using em rep by (simp add: policy_aged_def alerted_Nil last_state_def fun_eq_iff)
qed

lemma later_Update: "state_io_rel later (UpdateLicense l)" "state_io_rel later (UpdateInsurance p)"
  by (rule later_frame_op; auto simp: UpdateLicense_def UpdateInsurance_def run_guarded Let_def split: option.split)+

lemma later_expiring: "state_io_rel later (license_row svc t now l rep)" "state_io_rel later (policy_row svc t now p rep)"
  unfolding license_row_def expire_license_def policy_row_def expire_policy_def Let_def
  by (intro lt.io_rules later_alert later_Update later_Emit)+

lemma license_aged_trans: "license_aged now u v \<Longrightarrow> license_aged now v w \<Longrightarrow> license_aged now u w"
  unfolding license_aged_def by (metis lic.aged_trans)

lemma policy_aged_trans: "policy_aged now u v \<Longrightarrow> policy_aged now v w \<Longrightarrow> policy_aged now u w"
  unfolding policy_aged_def by (metis pol.aged_trans)

lemma due_expired: "due_state win now v = StateExpired \<longleftrightarrow> v < now"
  by (simp add: due_state_def)

lemma license_row_ok:
  assumes run: "run_state (license_row svc t now l rep) w = (rep', w')" and "calm w" and "wall w = now"
    and pend: "lic.pending t now (l # ls) (licenses w)" and "idLast w' < 2 ^ 48"
  shows "calm w' \<and> alerted t (license_conds svc now l) w w' \<and> Errors rep' = Errors rep \<and> lic.pending t now ls (licenses w') \<and> license_aged now w w'"
proof (cases "i_ValidTo l = None \<or> i_Status l = LicSuspended")
  case True
  then have "rep' = rep" "w' = w" "license_conds svc now l = []" "\<not> lapsed_license now l"
    using run by (auto simp: license_row_def license_conds_def lapsed_license_def split: option.splits)
  then show ?thesis using assms(2) lic.pending_skip [OF pend] aged_rest(1) [of w w] by (simp add: alerted_Nil)
next
  case False
  then obtain v where v: "i_ValidTo l = Some v" "i_Status l \<noteq> LicSuspended" by auto
  let ?alert = "alert t (''license:'' @ i_ID l) (due_state (win_License (windows svc)) now v) ''license.expiring''
    (LicenseExpiringPayload (i_ID l) (i_Name l) v) (\<lambda>r. r\<lparr>LicenseEvents := LicenseEvents r + 1\<rparr>)"
  have lap: "lapsed_license now l \<longleftrightarrow> v < now \<and> i_Status l \<noteq> LicExpired" using v by (auto simp: lapsed_license_def)
  obtain r1 w1 where x: "run_state (if lapsed_license now l then expire_license svc t now l rep else State_Monad.return rep) w = (r1, w1)" by force
  then have a: "run_state (?alert r1) w1 = (rep', w')" using run v by (simp add: license_row_def Let_def due_expired lap)
  have "calm w1 \<and> alerted t [] w w1 \<and> Errors r1 = Errors rep \<and> lic.pending t now ls (licenses w1) \<and> license_aged now w w1"
    using x expire_license_ok [OF _ assms(2,3) pend] lic.pending_skip [OF pend] assms(2) aged_rest(1) [of w w]
    by (cases "lapsed_license now l") (auto simp: alerted_Nil)
  moreover from this have "calm w1" by simp
  note alert_ok [OF a this assms(5)]
  ultimately show ?thesis
    using license_aged_trans [of now w w1 w'] aged_rest(1) [of w' w1 now] rest_tables(1) [of w' w1] alerted_append [of t "[]" w w1]
    by (auto simp: license_conds_def v due_cond_def)
qed

lemma policy_row_ok:
  assumes run: "run_state (policy_row svc t now p rep) w = (rep', w')" and "calm w" and "wall w = now"
    and pend: "pol.pending t now (p # ps) (insurance w)" and rows: "rows_ok p_ID policy_clash (insurance w)" and "idLast w' < 2 ^ 48"
  shows "calm w' \<and> alerted t (policy_conds svc now p) w w' \<and> Errors rep' = Errors rep \<and> pol.pending t now ps (insurance w') \<and> policy_aged now w w'
    \<and> rows_ok p_ID policy_clash (insurance w')"
proof (cases "p_ValidTo p = None \<or> p_Status p = InsCancelled")
  case True
  then have "rep' = rep" "w' = w" "policy_conds svc now p = []" "\<not> lapsed_policy now p"
    using run by (auto simp: policy_row_def policy_conds_def lapsed_policy_def split: option.splits)
  then show ?thesis using assms(2) pol.pending_skip [OF pend] aged_rest(2) [of w w] rows by (simp add: alerted_Nil)
next
  case False
  then obtain v where v: "p_ValidTo p = Some v" "p_Status p \<noteq> InsCancelled" by auto
  let ?alert = "alert t (''insurance:'' @ p_ID p) (due_state (win_Insurance (windows svc)) now v) ''insurance.expiring''
    (InsuranceExpiringPayload (p_ID p) (p_PolicyNumber p) v) (\<lambda>r. r\<lparr>InsuranceEvents := InsuranceEvents r + 1\<rparr>)"
  have lap: "lapsed_policy now p \<longleftrightarrow> v < now \<and> p_Status p \<noteq> InsExpired" using v by (auto simp: lapsed_policy_def)
  obtain r1 w1 where x: "run_state (if lapsed_policy now p then expire_policy svc t now p rep else State_Monad.return rep) w = (r1, w1)" by force
  then have a: "run_state (?alert r1) w1 = (rep', w')" using run v by (simp add: policy_row_def Let_def due_expired lap)
  have "calm w1 \<and> alerted t [] w w1 \<and> Errors r1 = Errors rep \<and> pol.pending t now ps (insurance w1) \<and> policy_aged now w w1
    \<and> rows_ok p_ID policy_clash (insurance w1)"
    using x expire_policy_ok [OF _ assms(2,3) pend _ rows] pol.pending_skip [OF pend] assms(2) aged_rest(2) [of w w] rows
    by (cases "lapsed_policy now p") (auto simp: alerted_Nil)
  moreover from this have "calm w1" by simp
  note alert_ok [OF a this assms(6)]
  ultimately show ?thesis
    using policy_aged_trans [of now w w1 w'] aged_rest(2) [of w' w1 now] rest_tables(2) [of w' w1] alerted_append [of t "[]" w w1]
    by (auto simp: policy_conds_def v due_cond_def)
qed

lemma license_phase:
  assumes "run_state (sweepLicenses svc t now rep) w = (rep', w')" and "calm w" and "wall w = now" and "tab_ok i_ID (licenses w)"
    and "idLast w' < 2 ^ 48"
  shows "calm w' \<and> alerted t (concat (map (license_conds svc now) (tenant_rows i_ID i_TenantID t (licenses w)))) w w'
    \<and> Errors rep' = Errors rep \<and> license_aged now w w' \<and> lic.pending t now [] (licenses w')"
proof -
  let ?P = "\<lambda>xs w. lic.pending t now xs (licenses w) \<and> wall w = now"
  let ?rows = "tenant_rows i_ID i_TenantID t (licenses w)"
  have run: "run_state (each_row (license_row svc t now) ?rows rep) w = (rep', w')"
    using assms(1,2) by (simp add: sweepLicenses_def sweep_rows_def AllLicenses_def run_guarded calm_def tenant_rows_def)
  have start: "?P ?rows w"
    using lic.pending_start [OF assms(4), of "\<lambda>l. l" t now] assms(3) by (simp add: tenant_rows_def)
  have "calm w' \<and> ?P [] w' \<and> alerted t (concat (map (license_conds svc now) ?rows)) w w' \<and> Errors rep' = Errors rep \<and> license_aged now w w'"
  proof (rule each_row_ok [of ?P, OF _ later_expiring(1) aged_rest(1) [OF refl] license_aged_trans run start assms(2,5)])
    fix x xs rep and w :: "'a world_scheme" and rep' w'
    assume "?P (x # xs) w" "calm w" "run_state (license_row svc t now x rep) w = (rep', w')" "idLast w' < 2 ^ 48"
    then show "calm w' \<and> ?P xs w' \<and> alerted t (license_conds svc now x) w w' \<and> Errors rep' = Errors rep \<and> license_aged now w w'"
      using license_row_ok [of svc t now x rep w rep' w' xs] by (auto simp: license_aged_def)
  qed
  then show ?thesis by simp
qed

lemma policy_phase:
  assumes "run_state (sweepInsurance svc t now rep) w = (rep', w')" and "calm w" and "wall w = now"
    and "rows_ok p_ID policy_clash (insurance w)" and "idLast w' < 2 ^ 48"
  shows "calm w' \<and> alerted t (concat (map (policy_conds svc now) (tenant_rows p_ID p_TenantID t (insurance w)))) w w'
    \<and> Errors rep' = Errors rep \<and> policy_aged now w w' \<and> pol.pending t now [] (insurance w')"
proof -
  let ?P = "\<lambda>xs w. (pol.pending t now xs (insurance w) \<and> rows_ok p_ID policy_clash (insurance w)) \<and> wall w = now"
  let ?rows = "map (fillInsurance w) (tenant_rows p_ID p_TenantID t (insurance w))"
  have fill: "policy_conds svc now (fillInsurance w p) = policy_conds svc now p" for p
    by (simp add: policy_conds_def fillInsurance_def split: option.split)
  have run: "run_state (each_row (policy_row svc t now) ?rows rep) w = (rep', w')"
    using assms(1,2) by (simp add: sweepInsurance_def sweep_rows_def AllInsurance_def run_guarded calm_def tenant_rows_def Let_def)
  have "counted p (fillInsurance w p)" for p by (auto simp: counted_def fillInsurance_def)
  then have start: "?P ?rows w"
    using pol.pending_start [of "insurance w" "fillInsurance w" t now] assms(3,4) by (simp add: tenant_rows_def rows_ok_def)
  have "calm w' \<and> ?P [] w' \<and> alerted t (concat (map (policy_conds svc now) ?rows)) w w' \<and> Errors rep' = Errors rep \<and> policy_aged now w w'"
  proof (rule each_row_ok [of ?P, OF _ later_expiring(2) aged_rest(2) [OF refl] policy_aged_trans run start assms(2,5)])
    fix x xs rep and w :: "'a world_scheme" and rep' w'
    assume "?P (x # xs) w" "calm w" "run_state (policy_row svc t now x rep) w = (rep', w')" "idLast w' < 2 ^ 48"
    then show "calm w' \<and> ?P xs w' \<and> alerted t (policy_conds svc now x) w w' \<and> Errors rep' = Errors rep \<and> policy_aged now w w'"
      using policy_row_ok [of svc t now x rep w rep' w' xs] by (auto simp: policy_aged_def)
  qed
  then show ?thesis by (simp add: fill comp_def)
qed

section \<open>The whole sweep\<close>

lemma later_phase:
  assumes "state_io_rel later fetch" and "\<And>x rep. state_io_rel later (body x rep)"
  shows "state_io_rel later (sweep_rows fetch body rep)"
proof -
  have "state_io_rel later (each_row body xs rep)" for xs rep
    by (induction xs arbitrary: rep) (auto intro: lt.io_rules assms(2))
  then show ?thesis unfolding sweep_rows_def by (intro lt.io_rules assms(1))
qed

lemma later_fetch: "state_io_rel later (AllAssets t)" "state_io_rel later (AllLicenses t)" "state_io_rel later (AllInsurance t)" "state_io_rel later (AllConsumables t)"
  by (rule later_frame_op; simp add: AllAssets_def AllLicenses_def AllInsurance_def AllConsumables_def run_guarded Let_def)+

lemma later_sweeps:
  "state_io_rel later (sweepWarranty svc t now rep)" "state_io_rel later (sweepLicenses svc t now rep)"
  "state_io_rel later (sweepInsurance svc t now rep)" "state_io_rel later (sweepConsumables t rep)"
  unfolding sweepWarranty_def sweepLicenses_def sweepInsurance_def sweepConsumables_def
  by (intro later_phase later_fetch later_rows later_expiring)+

lemma Sweep_ok:
  assumes run: "run_state (Sweep svc t) w = (rep, w')" and "calm w" and "mem_ok w" and bound: "idLast w' < 2 ^ 48"
  shows "calm w' \<and> alerted t (conditions svc t w) w w' \<and> Errors rep = 0 \<and> wall w' = wall w \<and> assets w' = assets w \<and> consumables w' = consumables w
    \<and> lic.aged (wall w) (licenses w) (licenses w') \<and> pol.aged (wall w) (insurance w) (insurance w')
    \<and> lic.pending t (wall w) [] (licenses w') \<and> pol.pending t (wall w) [] (insurance w')"
proof -
  from run obtain r1 w1 r2 w2 r3 w3 where
    1: "run_state (sweepWarranty svc t (wall w) (zero_report\<lparr>rp_TenantID := t\<rparr>)) w = (r1, w1)"
    and 2: "run_state (sweepLicenses svc t (wall w) r1) w1 = (r2, w2)"
    and 3: "run_state (sweepInsurance svc t (wall w) r2) w2 = (r3, w3)"
    and 4: "run_state (sweepConsumables t r3) w3 = (rep, w')"
    by (auto simp: Sweep_def split: prod.splits)
  note lt = lt.io_run [OF later_sweeps(1) 1] lt.io_run [OF later_sweeps(2) 2] lt.io_run [OF later_sweeps(3) 3] lt.io_run [OF later_sweeps(4) 4]
  have io: "ids_ok w" using assms(2) by (simp add: calm_def)
  have b: "idLast w1 < 2 ^ 48" "idLast w2 < 2 ^ 48" "idLast w3 < 2 ^ 48"
    using lt io bound by (auto simp: later_def)
  note p1 = warranty_phase [OF 1 assms(2) b(1)]
  have r1: "rest w1 = rest w" using p1 by (simp add: rest_same_def)
  have "tab_ok i_ID (licenses w1)" using assms(3) rest_tables(1) [OF r1] by (simp add: mem_ok_def rows_ok_def)
  then have p2: "calm w2 \<and> alerted t (concat (map (license_conds svc (wall w)) (tenant_rows i_ID i_TenantID t (licenses w1)))) w1 w2
    \<and> Errors r2 = Errors r1 \<and> license_aged (wall w) w1 w2 \<and> lic.pending t (wall w) [] (licenses w2)"
    using license_phase [OF 2 _ rest_tables(5) [OF r1] _ b(2)] p1 by simp
  note t2 = license_aged_tables [of "wall w" w1 w2]
  have "rows_ok p_ID policy_clash (insurance w2)" using assms(3) rest_tables(2) [OF r1] t2(1) p2 by (simp add: mem_ok_def)
  then have p3: "calm w3 \<and> alerted t (concat (map (policy_conds svc (wall w)) (tenant_rows p_ID p_TenantID t (insurance w2)))) w2 w3
    \<and> Errors r3 = Errors r2 \<and> policy_aged (wall w) w2 w3 \<and> pol.pending t (wall w) [] (insurance w3)"
    using policy_phase [OF 3 _ _ _ b(3)] p2 t2(4) rest_tables(5) [OF r1] by simp
  note t3 = policy_aged_tables [of "wall w" w2 w3]
  have p4: "calm w' \<and> alerted t (concat (map stock_conds (tenant_rows n_ID n_TenantID t (consumables w3)))) w3 w'
    \<and> Errors rep = Errors r3 \<and> rest w' = rest w3"
    using stock_phase [OF 4 _ bound] p3 by (simp add: rest_same_def)
  have la: "license_aged (wall w) w1 w2" and pa: "policy_aged (wall w) w2 w3" using p2 p3 by simp_all
  note eqs = rest_tables [OF r1] t2 [OF la] t3 [OF pa] rest_tables [of w' w3]
  have a2: "alerted t (concat (map (license_conds svc (wall w)) (tenant_rows i_ID i_TenantID t (licenses w)))) w1 w2"
    and a3: "alerted t (concat (map (policy_conds svc (wall w)) (tenant_rows p_ID p_TenantID t (insurance w)))) w2 w3"
    and a4: "alerted t (concat (map stock_conds (tenant_rows n_ID n_TenantID t (consumables w)))) w3 w'"
    using p2 p3 p4 eqs by simp_all
  have "alerted t (conditions svc t w) w w'"
    unfolding conditions_def by (rule alerted_append [OF conjunct1 [OF conjunct2 [OF p1]] alerted_append [OF a2 alerted_append [OF a3 a4]]])
  moreover have "lic.aged (wall w) (licenses w) (licenses w')" "pol.aged (wall w) (insurance w) (insurance w')"
    "lic.pending t (wall w) [] (licenses w')" "pol.pending t (wall w) [] (insurance w')"
    using la pa p2 p3 p4 eqs by (simp_all add: license_aged_def policy_aged_def)
  moreover have "wall w' = wall w" "assets w' = assets w" "consumables w' = consumables w" "Errors rep = 0"
    using p1 p2 p3 p4 eqs by (simp_all add: zero_report_def)
  ultimately show ?thesis using p4 by blast
qed

subsection \<open>Every condition has a key of its own\<close>

lemma fresh_alerts_distinct: "distinct (map fst cs) \<Longrightarrow> fresh_alerts s cs = filter (unsaid s) cs"
proof (induction cs arbitrary: s)
  case (Cons c cs)
  obtain k st ty pl where c: "c = (k, st, ty, pl)" by (cases c)
  have "unsaid (noted c s) d = unsaid s d" if "d \<in> set cs" for d
    using Cons.prems that c by (cases d) (force simp: image_iff)
  then show ?case using Cons by (simp cong: filter_cong)
qed simp

lemma fold_noted_other: "k \<notin> fst ` set cs \<Longrightarrow> fold noted cs s k = s k"
proof (induction cs arbitrary: s)
  case (Cons c cs)
  then show ?case by (cases c) simp
qed simp

lemma fold_noted: "distinct (map fst cs) \<Longrightarrow> c \<in> set cs \<Longrightarrow> fold noted cs s (fst c) = Some (fst (snd c))"
proof (induction cs arbitrary: s)
  case (Cons d cs)
  then show ?case by (cases "c = d"; cases d) (auto simp: fold_noted_other)
qed simp

lemma cond_keys:
  assumes "\<And>x. conds x = [] \<or> map fst (conds x) = [pre @ idf x]"
  shows "map fst (concat (map conds rows)) = map (\<lambda>x. pre @ idf x) (filter (\<lambda>x. conds x \<noteq> []) rows)"
proof (induction rows)
  case (Cons x xs)
  then show ?case using assms [of x] by auto
qed simp

lemma distinct_cond_keys:
  assumes "\<And>x. conds x = [] \<or> map fst (conds x) = [pre @ idf x]" and "distinct (map idf rows)"
  shows "distinct (map fst (concat (map conds rows)))" and "k \<in> fst ` set (concat (map conds rows)) \<Longrightarrow> prefix pre k"
proof -
  have "distinct (map idf (filter (\<lambda>x. conds x \<noteq> []) rows))" by (rule distinct_map_filter [OF assms(2)])
  then show "distinct (map fst (concat (map conds rows)))"
    unfolding cond_keys [of conds pre idf, OF assms(1)] by (auto simp: distinct_map inj_on_def)
  show "k \<in> fst ` set (concat (map conds rows)) \<Longrightarrow> prefix pre k"
    unfolding set_map [symmetric] cond_keys [of conds pre idf, OF assms(1)] by auto
qed

lemma distinct_tenant_rows: "tab_ok idf m \<Longrightarrow> distinct (map idf (tenant_rows idf tn t m))"
  unfolding tenant_rows_def by (intro distinct_paginate_all distinct_map_filter tab_ok_ids)

lemma disjoint_keys:
  assumes "\<And>k. k \<in> fst ` set xs \<Longrightarrow> prefix p k" and "\<And>k. k \<in> fst ` set ys \<Longrightarrow> prefix q k" and "\<not> prefix p q" and "\<not> prefix q p"
  shows "fst ` set xs \<inter> fst ` set ys = {}"
proof -
  have "False" if "k \<in> fst ` set xs" "k \<in> fst ` set ys" for k
    using prefix_same_cases [OF assms(1) [OF that(1)] assms(2) [OF that(2)]] assms(3,4) by blast
  then show ?thesis by blast
qed

lemma distinct_conditions:
  assumes "mem_ok w"
  shows "distinct (map fst (conditions svc t w))"
proof -
  have tabs: "tab_ok a_ID (assets w)" "tab_ok i_ID (licenses w)" "tab_ok p_ID (insurance w)" "tab_ok n_ID (consumables w)"
    using assms by (simp_all add: mem_ok_def rows_ok_def)
  have ks: "warranty_conds svc now a = [] \<or> map fst (warranty_conds svc now a) = [''warranty:'' @ a_ID a]"
    "license_conds svc now l = [] \<or> map fst (license_conds svc now l) = [''license:'' @ i_ID l]"
    "policy_conds svc now p = [] \<or> map fst (policy_conds svc now p) = [''insurance:'' @ p_ID p]"
    "stock_conds c = [] \<or> map fst (stock_conds c) = [''low_stock:'' @ n_ID c]" for now a l p c
    by (auto simp: warranty_conds_def license_conds_def policy_conds_def stock_conds_def due_cond_def split: option.splits)
  define A where "A = concat (map (warranty_conds svc (wall w)) (tenant_rows a_ID a_TenantID t (assets w)))"
  define B where "B = concat (map (license_conds svc (wall w)) (tenant_rows i_ID i_TenantID t (licenses w)))"
  define C where "C = concat (map (policy_conds svc (wall w)) (tenant_rows p_ID p_TenantID t (insurance w)))"
  define D where "D = concat (map stock_conds (tenant_rows n_ID n_TenantID t (consumables w)))"
  have d: "distinct (map fst A)" "distinct (map fst B)" "distinct (map fst C)" "distinct (map fst D)"
    unfolding A_def B_def C_def D_def
    by (rule distinct_cond_keys(1) [OF ks(1) distinct_tenant_rows [OF tabs(1)]] distinct_cond_keys(1) [OF ks(2) distinct_tenant_rows [OF tabs(2)]]
      distinct_cond_keys(1) [OF ks(3) distinct_tenant_rows [OF tabs(3)]] distinct_cond_keys(1) [OF ks(4) distinct_tenant_rows [OF tabs(4)]])+
  have p: "k \<in> fst ` set A \<Longrightarrow> prefix ''warranty:'' k" "k \<in> fst ` set B \<Longrightarrow> prefix ''license:'' k"
    "k \<in> fst ` set C \<Longrightarrow> prefix ''insurance:'' k" "k \<in> fst ` set D \<Longrightarrow> prefix ''low_stock:'' k" for k
    unfolding A_def B_def C_def D_def
    by (erule distinct_cond_keys(2) [OF ks(1) distinct_tenant_rows [OF tabs(1)]] distinct_cond_keys(2) [OF ks(2) distinct_tenant_rows [OF tabs(2)]]
      distinct_cond_keys(2) [OF ks(3) distinct_tenant_rows [OF tabs(3)]] distinct_cond_keys(2) [OF ks(4) distinct_tenant_rows [OF tabs(4)]])+
  have "fst ` set A \<inter> fst ` set B = {}" "fst ` set A \<inter> fst ` set C = {}" "fst ` set A \<inter> fst ` set D = {}"
    by (rule disjoint_keys [OF p(1) p(2)] disjoint_keys [OF p(1) p(3)] disjoint_keys [OF p(1) p(4)]; simp)+
  moreover have "fst ` set B \<inter> fst ` set C = {}" "fst ` set B \<inter> fst ` set D = {}" "fst ` set C \<inter> fst ` set D = {}"
    by (rule disjoint_keys [OF p(2) p(3)] disjoint_keys [OF p(2) p(4)] disjoint_keys [OF p(3) p(4)]; simp)+
  ultimately have "distinct (map fst (A @ B @ C @ D))"
    using d by (simp add: image_Un Int_Un_distrib)
  then show ?thesis by (simp add: conditions_def A_def B_def C_def D_def)
qed

subsection \<open>What a sweep publishes\<close>


subsection \<open>A second sweep\<close>

lemma license_conds_aged: "lapsed_license now l \<Longrightarrow> expired_license now l l' \<Longrightarrow> license_conds svc now l' = license_conds svc now l"
  by (auto simp: license_conds_def lapsed_license_def expired_license_def)

lemma policy_conds_aged: "lapsed_policy now p \<Longrightarrow> expired_policy now p p' \<Longrightarrow> policy_conds svc now p' = policy_conds svc now p"
  by (auto simp: policy_conds_def lapsed_policy_def expired_policy_def)

lemma set_tenant_rows: "distinct (map fst m) \<Longrightarrow> set (tenant_rows idf tn t m) = {v. tn v = t \<and> (\<exists>k. map_of m k = Some v)}"
  by (force simp: tenant_rows_def map_of_eq_Some_iff)

context expiring_rows
begin

lemma aged_conds:
  assumes "aged now m m'" and "distinct (map fst m)" and "\<And>l l'. lapsed now l \<Longrightarrow> became now l l' \<Longrightarrow> conds l' = conds l"
  shows "set (concat (map conds (tenant_rows idf tn t m'))) \<subseteq> set (concat (map conds (tenant_rows idf tn t m)))"
proof
  fix c
  assume "c \<in> set (concat (map conds (tenant_rows idf tn t m')))"
  moreover have "distinct (map fst m')" using assms(1,2) by (simp add: aged_def)
  ultimately obtain l' k where l': "c \<in> set (conds l')" "tn l' = t" "map_of m' k = Some l'"
    by (auto simp: set_tenant_rows simp del: map_of_eq_Some_iff)
  have "\<exists>l. map_of m k = Some l \<and> tn l = t \<and> conds l' = conds l"
  proof (cases "map_of m' k = map_of m k")
    case False
    then obtain l where "map_of m k = Some l" "lapsed now l" "became now l l'"
      using assms(1) l'(3) unfolding aged_def by (metis option.inject)
    then show ?thesis using assms(3) became_row l'(2) by metis
  qed (use l' in metis)
  then obtain l where "map_of m k = Some l" "tn l = t" "c \<in> set (conds l)" using l'(1) by auto
  then show "c \<in> set (concat (map conds (tenant_rows idf tn t m)))"
    using assms(2) by (auto simp: set_tenant_rows simp del: map_of_eq_Some_iff)
qed

end

lemma conditions_kept:
  assumes "lic.aged (wall w) (licenses w) (licenses w')" and "pol.aged (wall w) (insurance w) (insurance w')"
    and "wall w' = wall w" and "assets w' = assets w" and "consumables w' = consumables w" and "mem_ok w"
  shows "set (conditions svc t w') \<subseteq> set (conditions svc t w)"
proof -
  have d: "distinct (map fst (licenses w))" "distinct (map fst (insurance w))"
    using assms(6) by (simp_all add: mem_ok_def rows_ok_def tab_ok_def)
  have "set (concat (map (license_conds svc (wall w)) (tenant_rows i_ID i_TenantID t (licenses w'))))
      \<subseteq> set (concat (map (license_conds svc (wall w)) (tenant_rows i_ID i_TenantID t (licenses w))))"
    by (rule lic.aged_conds [OF assms(1) d(1)]) (rule license_conds_aged)
  moreover have "set (concat (map (policy_conds svc (wall w)) (tenant_rows p_ID p_TenantID t (insurance w'))))
      \<subseteq> set (concat (map (policy_conds svc (wall w)) (tenant_rows p_ID p_TenantID t (insurance w))))"
    by (rule pol.aged_conds [OF assms(2) d(2)]) (rule policy_conds_aged)
  ultimately show ?thesis unfolding conditions_def assms(3-5) set_append by blast
qed

definition mem_kept :: "'z mem_scheme \<Rightarrow> 'z mem_scheme \<Rightarrow> bool" where
  "mem_kept w w' \<longleftrightarrow> (mem_ok w \<longrightarrow> mem_ok w')"

interpretation mk: io_relation mem_kept
  by unfold_locales (auto simp: mem_kept_def)

lemma mk_owned: "state_io_rel (owned t) m \<Longrightarrow> state_io_rel mem_kept m"
  by (erule state_io_rel_mono) (auto simp: mem_kept_def owned_def intro: owned_rows_mem_ok)

lemma mk_scoped: "state_io_rel (scoped t) m \<Longrightarrow> state_io_rel mem_kept m"
  by (erule state_io_rel_mono) (auto simp: mem_kept_def scoped_def intro: owned_rows_mem_ok)

lemma mk_upsert: "state_io_rel mem_kept (UpsertNotifyState y)"
  by (auto simp: state_io_rel_def UpsertNotifyState_def run_guarded Let_def mem_kept_def mem_ok_def split: option.split)

lemma mk_alert: "state_io_rel mem_kept (alert t key st ty pl f rep)"
  unfolding alert_def shouldNotify_def
  by (intro mk.io_rules mk_upsert mk_scoped [OF scoped_Publish] mk_scoped [OF scoped_get] mk_owned [OF owned_reads(25)])

lemma mk_phase:
  assumes "state_io_rel mem_kept fetch" and "\<And>x rep. state_io_rel mem_kept (body x rep)"
  shows "state_io_rel mem_kept (sweep_rows fetch body rep)"
proof -
  have "state_io_rel mem_kept (each_row body xs rep)" for xs rep
    by (induction xs arbitrary: rep) (auto intro: mk.io_rules assms(2))
  then show ?thesis unfolding sweep_rows_def by (intro mk.io_rules assms(1))
qed

lemma mk_Sweep: "state_io_rel mem_kept (Sweep svc t)"
  unfolding Sweep_def sweepWarranty_def sweepLicenses_def sweepInsurance_def sweepConsumables_def warranty_row_def license_row_def
    policy_row_def stock_row_def expire_license_def expire_policy_def Let_def
  by (intro mk.io_rules mk_phase mk_alert owned_reads [THEN mk_owned] owned_updates(6) [OF refl, THEN mk_owned] owned_updates(7) [OF refl, THEN mk_owned]
    mk_scoped [OF scoped_Emit [OF refl]] mk_scoped [OF scoped_get])

text \<open>
  C21: sweeping is idempotent. A second sweep of the same tenant, nothing having happened in between, publishes
  nothing, and no license or policy of the tenant whose validity is over is left with a status other than expired
  (suspended licenses and cancelled policies keep theirs); every other row of the two tables is unchanged.
\<close>

theorem sweep_idempotent:
  assumes "run_state (Sweep svc t) w = (rep, w')" and "run_state (Sweep svc t) w' = (rep2, w'')"
    and "calm w" and "mem_ok w" and "idLast w'' < 2 ^ 48"
  shows "published w'' = published w'
    \<and> (\<forall>k l. map_of (licenses w') k = Some l \<longrightarrow> i_TenantID l = t \<longrightarrow> \<not> lapsed_license (wall w) l)
    \<and> (\<forall>k p. map_of (insurance w') k = Some p \<longrightarrow> p_TenantID p = t \<longrightarrow> \<not> lapsed_policy (wall w) p)
    \<and> (\<forall>k l. map_of (licenses w) k = Some l \<longrightarrow> \<not> lapsed_license (wall w) l \<longrightarrow> map_of (licenses w') k = Some l)
    \<and> (\<forall>k p. map_of (insurance w) k = Some p \<longrightarrow> \<not> lapsed_policy (wall w) p \<longrightarrow> map_of (insurance w') k = Some p)"
proof -
  have "state_io_rel later (Sweep svc t :: ('a world_scheme, _) state)"
    unfolding Sweep_def by (intro lt.io_rules later_get later_sweeps)
  then have "later w' w''" "later w w'" using lt.io_run assms(1,2) by blast+
  then have "idLast w' < 2 ^ 48" using assms(3,5) by (auto simp: later_def calm_def)
  note one = Sweep_ok [OF assms(1,3,4) this]
  have m': "mem_ok w'" using mk.io_run [OF mk_Sweep assms(1)] assms(4) by (simp add: mem_kept_def)
  note two = Sweep_ok [OF assms(2) conjunct1 [OF one] m' assms(5)]
  note d = distinct_conditions [OF assms(4), of svc t] and d' = distinct_conditions [OF m', of svc t]
  have sub: "set (conditions svc t w') \<subseteq> set (conditions svc t w)"
    using one assms(4) by (intro conditions_kept) simp_all
  have "\<not> unsaid (last_state t w') c" if "c \<in> set (conditions svc t w')" for c
    using one fold_noted [OF d, of c] that sub by (cases c) (auto simp: alerted_def)
  then have "filter (unsaid (last_state t w')) (conditions svc t w') = []" by (simp add: filter_empty_conv)
  then have "published w'' = published w'" using two fresh_alerts_distinct [OF d'] by (simp add: alerted_def)
  moreover have "map_of (licenses w') k = Some l" if "map_of (licenses w) k = Some l" "\<not> lapsed_license (wall w) l" for k l
    using one that unfolding lic.aged_def by (metis option.inject)
  moreover have "map_of (insurance w') k = Some p" if "map_of (insurance w) k = Some p" "\<not> lapsed_policy (wall w) p" for k p
    using one that unfolding pol.aged_def by (metis option.inject)
  ultimately show ?thesis using one lic.pending_done pol.pending_done by blast
qed

subsection \<open>A concrete sweep\<close>

definition sched_demo :: SchedService where
  "sched_demo = sched_New \<lparr>attached = True, folding = (\<lambda>s. s)\<rparr> \<lparr>win_Warranty = 0, win_License = 0, win_Insurance = 7\<rparr>"

definition license_demo :: License where
  "license_demo = \<lparr>i_ID = ''L'', i_TenantID = ''t'', i_Name = ''editor'', i_SupplierID = [], i_PurchaseDate = None, i_PurchaseCost = 0, i_OrderNumber = [],
     i_ValidFrom = None, i_ValidTo = Some 3, i_Notes = [], i_Status = LicActive, i_Metadata = [], i_CreatedBy = [], i_CreatedAt = 1, i_UpdatedAt = 1\<rparr>"

definition sweep_demo :: world where
  "sweep_demo = world_demo\<lparr>licenses := [(''L'', license_demo)]\<rparr>"

lemma sweep_demo_ok: "calm sweep_demo" "mem_ok sweep_demo"
  by (simp_all add: calm_def sweep_demo_def world_demo_def ids_ok_def mem_ok_def rows_ok_def tab_ok_def clash_defs license_demo_def)

definition swept_demo :: "Report \<times> world" where
  "swept_demo = run_state (Sweep sched_demo ''t'') sweep_demo"

lemma swept_demo_time: "idLast (snd swept_demo) = 0" "idLast (snd (run_state (Sweep sched_demo ''t'') (snd swept_demo))) = 0"
  by code_simp+


theorem sweep_idempotent_witness:
  "published (snd (run_state (Sweep sched_demo ''t'') (snd swept_demo))) = published (snd swept_demo) \<and> length (published (snd swept_demo)) = 1"
proof -
  have "run_state (Sweep sched_demo ''t'') sweep_demo = (fst swept_demo, snd swept_demo)" by (simp add: swept_demo_def)
  from sweep_idempotent [OF this surjective_pairing sweep_demo_ok] swept_demo_time(2)
  have "published (snd (run_state (Sweep sched_demo ''t'') (snd swept_demo))) = published (snd swept_demo)" by simp
  moreover have "length (published (snd swept_demo)) = 1" by code_simp
  ultimately show ?thesis ..
qed

end
