(* ===== verification/Backup_Ids.thy ===== *)
theory Backup_Ids
  imports Backups Scheduler_Laws
begin

text \<open>
  The fresh ids a backup of another tenant gets. The abstract specification is \<open>rename \<rho>\<close>: one
  renaming applied to every id and every reference. \<open>remap\<close> mints ids while it walks the tables;
  it refines \<open>rename \<rho>\<close> for an injective \<open>\<rho>\<close> whose values are new.
\<close>

section \<open>The specification\<close>

definition rename :: "(string \<Rightarrow> string) \<Rightarrow> Backup \<Rightarrow> Backup" where
  "rename \<rho> b = b\<lparr>
     bk_Suppliers := map (\<lambda>s. s\<lparr>s_ID := \<rho> (s_ID s)\<rparr>) (bk_Suppliers b),
     bk_Locations := map (\<lambda>l. l\<lparr>l_ID := \<rho> (l_ID l), l_ParentID := \<rho> (l_ParentID l)\<rparr>) (bk_Locations b),
     bk_Categories := map (\<lambda>c. c\<lparr>c_ID := \<rho> (c_ID c), c_ParentID := \<rho> (c_ParentID c)\<rparr>) (bk_Categories b),
     bk_Assets := map (\<lambda>a. a\<lparr>a_ID := \<rho> (a_ID a), a_CategoryID := \<rho> (a_CategoryID a), a_SupplierID := \<rho> (a_SupplierID a),
       a_LocationID := \<rho> (a_LocationID a)\<rparr>) (bk_Assets b),
     bk_Assignments := map (\<lambda>g. g\<lparr>g_ID := \<rho> (g_ID g), g_AssetID := \<rho> (g_AssetID g)\<rparr>) (bk_Assignments b),
     bk_Consumables := map (\<lambda>c. c\<lparr>n_ID := \<rho> (n_ID c), n_CategoryID := \<rho> (n_CategoryID c), n_SupplierID := \<rho> (n_SupplierID c),
       n_LocationID := \<rho> (n_LocationID c)\<rparr>) (bk_Consumables b),
     bk_Licenses := map (\<lambda>l. l\<lparr>i_ID := \<rho> (i_ID l), i_SupplierID := \<rho> (i_SupplierID l)\<rparr>) (bk_Licenses b),
     bk_Insurance := map (\<lambda>p. p\<lparr>p_ID := \<rho> (p_ID p)\<rparr>) (bk_Insurance b),
     bk_PolicyAssets := map (\<lambda>q. q\<lparr>q_ID := \<rho> (q_ID q), q_PolicyID := \<rho> (q_PolicyID q), q_AssetID := \<rho> (q_AssetID q)\<rparr>) (bk_PolicyAssets b),
     bk_Documents := map (\<lambda>d. d\<lparr>d_ID := \<rho> (d_ID d), d_EntityID := \<rho> (d_EntityID d)\<rparr>) (bk_Documents b)\<rparr>"

text \<open>Every id and reference of a document.\<close>

definition backup_ids :: "Backup \<Rightarrow> string set" where
  "backup_ids b = s_ID ` set (bk_Suppliers b) \<union> (l_ID ` set (bk_Locations b) \<union> l_ParentID ` set (bk_Locations b))
     \<union> (c_ID ` set (bk_Categories b) \<union> c_ParentID ` set (bk_Categories b))
     \<union> (\<Union>a \<in> set (bk_Assets b). {a_ID a, a_CategoryID a, a_SupplierID a, a_LocationID a})
     \<union> (\<Union>g \<in> set (bk_Assignments b). {g_ID g, g_AssetID g})
     \<union> (\<Union>c \<in> set (bk_Consumables b). {n_ID c, n_CategoryID c, n_SupplierID c, n_LocationID c})
     \<union> (\<Union>l \<in> set (bk_Licenses b). {i_ID l, i_SupplierID l}) \<union> p_ID ` set (bk_Insurance b)
     \<union> (\<Union>q \<in> set (bk_PolicyAssets b). {q_ID q, q_PolicyID q, q_AssetID q})
     \<union> (\<Union>d \<in> set (bk_Documents b). {d_ID d, d_EntityID d})"

section \<open>The table of ids\<close>

definition ren :: "string tab \<Rightarrow> string \<Rightarrow> string" where
  "ren ids k = (if k = [] then [] else case map_of ids k of Some n \<Rightarrow> n | None \<Rightarrow> k)"

definition more_ids :: "string tab \<Rightarrow> string tab \<Rightarrow> bool" where
  "more_ids ids ids' \<longleftrightarrow> (\<forall>k n. map_of ids k = Some n \<longrightarrow> map_of ids' k = Some n)"

lemma more_ids_refl: "more_ids ids ids"
  by (simp add: more_ids_def)

lemma more_ids_trans: "more_ids a b \<Longrightarrow> more_ids b c \<Longrightarrow> more_ids a c"
  by (simp add: more_ids_def)

text \<open>The table is injective, and its values were minted since \<open>w0\<close>.\<close>

definition ids_good :: "'z sys_scheme \<Rightarrow> string tab \<Rightarrow> 'z sys_scheme \<Rightarrow> bool" where
  "ids_good w0 ids w \<longleftrightarrow> ids_ok w0 \<and> ids_ok w \<and> later w0 w \<and>
     (\<forall>k n. map_of ids k = Some n \<longrightarrow> n \<noteq> [] \<and> minted_before w n \<and> \<not> minted_before w0 n) \<and>
     (\<forall>k j n. map_of ids k = Some n \<longrightarrow> map_of ids j = Some n \<longrightarrow> k = j)"

definition covers_ids :: "string tab \<Rightarrow> string set \<Rightarrow> bool" where
  "covers_ids ids C \<longleftrightarrow> (\<forall>k \<in> C. k \<noteq> [] \<longrightarrow> map_of ids k \<noteq> None)"

lemma covers_more: "covers_ids ids C \<Longrightarrow> more_ids ids ids' \<Longrightarrow> covers_ids ids' C"
  unfolding covers_ids_def more_ids_def by (metis option.exhaust option.distinct(1))

text \<open>
  \<open>remaps m g C\<close>: run on a good table, \<open>m\<close> extends it to a good table that covers the ids \<open>C\<close>, and returns
  what \<open>g\<close> makes of the renaming that this table, or any later one, describes.
\<close>

definition remaps :: "(string tab \<Rightarrow> ('z sys_scheme, 'v \<times> string tab) state) \<Rightarrow> ((string \<Rightarrow> string) \<Rightarrow> 'v) \<Rightarrow> string set \<Rightarrow> bool" where
  "remaps m g C \<longleftrightarrow> (\<forall>ids. state_io_rel later (m ids)) \<and>
     (\<forall>w0 ids w r ids' w'. run_state (m ids) w = ((r, ids'), w') \<longrightarrow> ids_good w0 ids w \<longrightarrow> idLast w' < 2 ^ 48 \<longrightarrow>
        ids_good w0 ids' w' \<and> more_ids ids ids' \<and> covers_ids ids' C \<and> (\<forall>ids''. more_ids ids' ids'' \<longrightarrow> r = g (ren ids'')))"

lemma remaps_return: "remaps (\<lambda>ids. State_Monad.return (x, ids)) (\<lambda>\<rho>. x) {}"
  by (auto simp: remaps_def state_io_rel_def later_def more_ids_refl covers_ids_def)

lemma remaps_bind:
  assumes "remaps m g C" and "\<And>x. remaps (f x) (h x) (D x)" and "\<And>\<rho>. E \<subseteq> D (g \<rho>)"
  shows "remaps (\<lambda>ids. State_Monad.bind (m ids) (\<lambda>(x, ids'). f x ids')) (\<lambda>\<rho>. h (g \<rho>) \<rho>) (C \<union> E)"
proof -
  have lat: "state_io_rel later (State_Monad.bind (m ids) (\<lambda>(x, ids'). f x ids'))" for ids
    using assms(1,2) unfolding remaps_def by (auto intro!: lt.io_bind)
  have "ids_good w0 ids' w' \<and> more_ids ids ids' \<and> covers_ids ids' (C \<union> E) \<and> (\<forall>ids''. more_ids ids' ids'' \<longrightarrow> r = h (g (ren ids'')) (ren ids''))"
    if run: "run_state (State_Monad.bind (m ids) (\<lambda>(x, ids'). f x ids')) w = ((r, ids'), w')" and good: "ids_good w0 ids w" and last: "idLast w' < 2 ^ 48"
    for w0 ids w r ids' w'
  proof -
    obtain x ids1 w1 where 1: "run_state (m ids) w = ((x, ids1), w1)" by (metis prod.exhaust)
    then have 2: "run_state (f x ids1) w1 = ((r, ids'), w')" using run by simp
    have "later w w1" using assms(1) 1 lt.io_run unfolding remaps_def by blast
    then have "ids_ok w1" using good by (simp add: later_def ids_good_def)
    moreover have "later w1 w'" using assms(2) [of x] 2 lt.io_run unfolding remaps_def by blast
    ultimately have "idLast w1 < 2 ^ 48" using later_last [of w1 w'] last by simp
    then have m: "ids_good w0 ids1 w1" "more_ids ids ids1" "covers_ids ids1 C" "\<And>ids''. more_ids ids1 ids'' \<Longrightarrow> x = g (ren ids'')"
      using assms(1) 1 good unfolding remaps_def by blast+
    have f: "ids_good w0 ids' w'" "more_ids ids1 ids'" "covers_ids ids' (D x)" "\<And>ids''. more_ids ids' ids'' \<Longrightarrow> r = h x (ren ids'')"
      using assms(2) [of x] 2 m(1) last unfolding remaps_def by blast+
    have "covers_ids ids' E"
      using f(3) assms(3) [of "ren ids1"] m(4) [OF more_ids_refl] by (auto simp: covers_ids_def)
    moreover have "covers_ids ids' C" using covers_more [OF m(3) f(2)] .
    moreover have "r = h (g (ren ids'')) (ren ids'')" if "more_ids ids' ids''" for ids''
      using f(4) [OF that] m(4) [OF more_ids_trans [OF f(2) that]] by simp
    ultimately show ?thesis using f(1) more_ids_trans [OF m(2) f(2)] by (auto simp: covers_ids_def)
  qed
  then show ?thesis using lat unfolding remaps_def by blast
qed

lemma remaps_cong: "remaps m g C \<Longrightarrow> (\<And>\<rho>. g \<rho> = g' \<rho>) \<Longrightarrow> C' \<subseteq> C \<Longrightarrow> remaps m g' C'"
  unfolding remaps_def covers_ids_def by (simp add: subset_iff)

lemma fresh_mints:
  assumes "run_state NewID w = (n, w1)" and good: "ids_good w0 ids w" and "idLast w1 < 2 ^ 48" and "map_of ids old = None"
  shows "ids_good w0 (AList.update old n ids) w1"
proof -
  have io: "ids_ok w" "ids_ok w0" "later w0 w" using good by (simp_all add: ids_good_def)
  have lw: "later w w1" using lt.io_run [OF later_NewID assms(1)] .
  note fresh = new_id_fresh [OF assms(1) io(1) assms(3)]
  have mint: "minted_before w1 n" by (rule new_id_minted [OF assms(1) io(1)])
  have not0: "\<not> minted_before w0 n" using fresh(1) minted_later [OF _ io(3,2)] by blast
  have old: "k = old \<and> m = n \<or> m \<noteq> n \<and> map_of ids k = Some m" if "map_of (AList.update old n ids) k = Some m" for k m
    using that good fresh(1) by (auto simp: update_conv' ids_good_def split: if_splits)
  have "m \<noteq> [] \<and> minted_before w1 m \<and> \<not> minted_before w0 m" if "map_of (AList.update old n ids) k = Some m" for k m
    using old [OF that] NewID_nonempty [OF assms(1)] mint not0 good minted_later [OF _ lw io(1)] by (auto simp: ids_good_def)
  moreover have "k = j" if "map_of (AList.update old n ids) k = Some m" "map_of (AList.update old n ids) j = Some m" for k j m
    using old [OF that(1)] old [OF that(2)] good by (auto simp: ids_good_def)
  moreover have "later w0 w1" using lt.R_trans [OF io(3) lw] .
  ultimately show ?thesis using io lw unfolding ids_good_def by (auto simp: later_def)
qed

lemma remaps_fresh: "remaps (fresh old) (\<lambda>\<rho>. \<rho> old) {old}"
proof -
  have "state_io_rel later (fresh old ids)" for ids
    unfolding fresh_def by (intro lt.io_rules later_NewID)
  moreover have "ids_good w0 ids' w' \<and> more_ids ids ids' \<and> covers_ids ids' {old} \<and> (\<forall>ids''. more_ids ids' ids'' \<longrightarrow> r = ren ids'' old)"
    if run: "run_state (fresh old ids) w = ((r, ids'), w')" and good: "ids_good w0 ids w" and last: "idLast w' < 2 ^ 48" for w0 ids w r ids' w'
  proof (cases "old = [] \<or> map_of ids old \<noteq> None")
    case True
    then have "ids' = ids \<and> w' = w \<and> (\<forall>ids''. more_ids ids ids'' \<longrightarrow> r = ren ids'' old)"
      using run by (auto simp: fresh_def ren_def more_ids_def split: option.splits if_splits)
    then show ?thesis using good True by (auto simp: more_ids_refl covers_ids_def)
  next
    case False
    obtain n w1 where n: "run_state NewID w = (n, w1)" by force
    then have eq: "r = n" "ids' = AList.update old n ids" "w' = w1" using run False by (auto simp: fresh_def simp del: run_NewID)
    have "ids_good w0 ids' w'" using fresh_mints [OF n good] last False eq by simp
    then show ?thesis using False eq by (auto simp: more_ids_def covers_ids_def ren_def update_conv')
  qed
  ultimately show ?thesis unfolding remaps_def by blast
qed

lemma remaps_renew: "remaps (renew get put v) (\<lambda>\<rho>. put (\<rho> (get v)) v) {get v}"
  unfolding renew_def by (rule remaps_cong [OF remaps_bind [OF remaps_fresh remaps_return]]) auto

lemma remaps_rows:
  assumes "\<And>v. remaps (f v) (g v) (D v)"
  shows "remaps (remap_rows f vs) (\<lambda>\<rho>. map (\<lambda>v. g v \<rho>) vs) (\<Union>v \<in> set vs. D v)"
proof (induction vs)
  case Nil
  show ?case unfolding remap_rows.simps by (rule remaps_cong [OF remaps_return]) auto
next
  case (Cons v vs)
  show ?case unfolding remap_rows.simps
    by (rule remaps_cong [OF remaps_bind [OF assms remaps_bind [OF Cons remaps_return]]]) auto
qed

lemma remaps_renew_then:
  assumes "\<And>v. remaps (f v) (h v) (D v)" and "\<And>n. D (put n v) = D v"
  shows "remaps (\<lambda>ids. State_Monad.bind (renew get put v ids) (\<lambda>(v, ids). f v ids)) (\<lambda>\<rho>. h (put (\<rho> (get v)) v) \<rho>) (insert (get v) (D v))"
  by (rule remaps_cong [OF remaps_bind [OF remaps_renew assms(1), where E = "D v"]]) (simp_all add: assms(2))

lemma remaps_then:
  assumes "remaps m g C" and "\<And>x. remaps (f x) (h x) E"
  shows "remaps (\<lambda>ids. State_Monad.bind (m ids) (\<lambda>(x, ids'). f x ids')) (\<lambda>\<rho>. h (g \<rho>) \<rho>) (C \<union> E)"
  by (rule remaps_bind [OF assms]) simp

lemma remaps_asset:
  "remaps (remap_asset a) (\<lambda>\<rho>. a\<lparr>a_ID := \<rho> (a_ID a), a_CategoryID := \<rho> (a_CategoryID a), a_SupplierID := \<rho> (a_SupplierID a),
     a_LocationID := \<rho> (a_LocationID a)\<rparr>) {a_ID a, a_CategoryID a, a_SupplierID a, a_LocationID a}"
  unfolding remap_asset_def by (rule remaps_cong, (rule remaps_renew_then)+, rule remaps_renew) simp_all

lemma remaps_assignment:
  "remaps (remap_assignment g) (\<lambda>\<rho>. g\<lparr>g_ID := \<rho> (g_ID g), g_AssetID := \<rho> (g_AssetID g)\<rparr>) {g_ID g, g_AssetID g}"
  unfolding remap_assignment_def by (rule remaps_cong, (rule remaps_renew_then)+, rule remaps_renew) simp_all

lemma remaps_consumable:
  "remaps (remap_consumable c) (\<lambda>\<rho>. c\<lparr>n_ID := \<rho> (n_ID c), n_CategoryID := \<rho> (n_CategoryID c), n_SupplierID := \<rho> (n_SupplierID c),
     n_LocationID := \<rho> (n_LocationID c)\<rparr>) {n_ID c, n_CategoryID c, n_SupplierID c, n_LocationID c}"
  unfolding remap_consumable_def by (rule remaps_cong, (rule remaps_renew_then)+, rule remaps_renew) simp_all

lemma remaps_license:
  "remaps (remap_license l) (\<lambda>\<rho>. l\<lparr>i_ID := \<rho> (i_ID l), i_SupplierID := \<rho> (i_SupplierID l)\<rparr>) {i_ID l, i_SupplierID l}"
  unfolding remap_license_def by (rule remaps_cong, (rule remaps_renew_then)+, rule remaps_renew) simp_all

lemma remaps_cover:
  "remaps (remap_cover q) (\<lambda>\<rho>. q\<lparr>q_ID := \<rho> (q_ID q), q_PolicyID := \<rho> (q_PolicyID q), q_AssetID := \<rho> (q_AssetID q)\<rparr>)
     {q_ID q, q_PolicyID q, q_AssetID q}"
  unfolding remap_cover_def by (rule remaps_cong, (rule remaps_renew_then)+, rule remaps_renew) simp_all

lemma remaps_document:
  "remaps (remap_document d) (\<lambda>\<rho>. d\<lparr>d_ID := \<rho> (d_ID d), d_EntityID := \<rho> (d_EntityID d)\<rparr>) {d_ID d, d_EntityID d}"
  unfolding remap_document_def by (rule remaps_cong, (rule remaps_renew_then)+, rule remaps_renew) simp_all

lemma remaps_locations:
  "remaps (remap_locations locs) (\<lambda>\<rho>. map (\<lambda>l. l\<lparr>l_ID := \<rho> (l_ID l), l_ParentID := \<rho> (l_ParentID l)\<rparr>) locs)
     (l_ID ` set locs \<union> l_ParentID ` set locs)"
  unfolding remap_locations_def
  by (rule remaps_cong [OF remaps_bind [OF remaps_rows [OF remaps_renew] remaps_rows [OF remaps_renew], where E = "l_ParentID ` set locs"]]) auto

lemma remaps_categories:
  "remaps (remap_categories cats) (\<lambda>\<rho>. map (\<lambda>c. c\<lparr>c_ID := \<rho> (c_ID c), c_ParentID := \<rho> (c_ParentID c)\<rparr>) cats)
     (c_ID ` set cats \<union> c_ParentID ` set cats)"
  unfolding remap_categories_def
  by (rule remaps_cong [OF remaps_bind [OF remaps_rows [OF remaps_renew] remaps_rows [OF remaps_renew], where E = "c_ParentID ` set cats"]]) auto

lemmas remaps_table = remaps_rows [OF remaps_asset] remaps_rows [OF remaps_assignment] remaps_rows [OF remaps_consumable]
  remaps_rows [OF remaps_license] remaps_rows [OF remaps_cover] remaps_rows [OF remaps_document] remaps_locations remaps_categories
  remaps_rows [OF remaps_renew]

lemma remaps_tables: "remaps (remap_tables b) (\<lambda>\<rho>. rename \<rho> b) (backup_ids b)"
  unfolding remap_tables_def
  by (rule remaps_cong, (rule remaps_then, rule remaps_table)+, rule remaps_return) (auto simp: rename_def backup_ids_def)

text \<open>
  C38: the ids of a restore into another tenant. \<open>remap\<close> is a renaming of the whole document: the same
  function is applied to every id and every reference, so every reference still points to the
  row it pointed to; it is injective, so no two rows are merged; a blank reference stays blank;
  and every other id is replaced by one minted in this call, so that no row of the origin, or any
  other row that carries an id handed out before, can be hit. (The bound on the clock is the year
  10889, when the 48 bits of the timestamp overflow.)
\<close>

theorem remap_renames:
  assumes "run_state (remap b) w = (b', w')" and "ids_ok w" and "idLast w' < 2 ^ 48"
  shows "\<exists>\<rho>. b' = rename \<rho> b \<and> \<rho> [] = [] \<and> inj_on \<rho> (backup_ids b) \<and>
    (\<forall>k \<in> backup_ids b - {[]}. minted_before w' (\<rho> k) \<and> \<not> minted_before w (\<rho> k))"
proof -
  obtain ids where run: "run_state (remap_tables b []) w = ((b', ids), w')"
    using assms(1) by (auto simp: remap_def split: prod.splits)
  have "ids_good w [] w" using assms(2) by (simp add: ids_good_def lt.R_refl)
  then have good: "ids_good w ids w'" "covers_ids ids (backup_ids b)" "b' = rename (ren ids) b"
    using remaps_tables [of b] run assms(3) more_ids_refl unfolding remaps_def by blast+
  have val: "\<exists>n. map_of ids k = Some n \<and> ren ids k = n \<and> n \<noteq> [] \<and> minted_before w' n \<and> \<not> minted_before w n"
    if "k \<in> backup_ids b" "k \<noteq> []" for k
  proof -
    obtain n where "map_of ids k = Some n" using good(2) \<open>k \<in> backup_ids b\<close> \<open>k \<noteq> []\<close> by (auto simp: covers_ids_def)
    then show ?thesis using good(1) \<open>k \<noteq> []\<close> by (auto simp: ids_good_def ren_def)
  qed
  have blank: "ren ids [] = []" by (simp add: ren_def)
  have "inj_on (ren ids) (backup_ids b)"
  proof (rule inj_onI)
    fix k j
    assume k: "k \<in> backup_ids b" and j: "j \<in> backup_ids b" and eq: "ren ids k = ren ids j"
    show "k = j"
    proof (cases "k = [] \<or> j = []")
      case True
      then show ?thesis using val [OF k] val [OF j] eq blank by metis
    next
      case False
      then show ?thesis using val [OF k] val [OF j] eq good(1) by (auto simp: ids_good_def)
    qed
  qed
  then show ?thesis using good(3) val blank by (intro exI [of _ "ren ids"]) auto
qed

definition backup_demo :: Backup where
  "backup_demo = \<lparr>bk_SchemaVersion = SchemaVersion, bk_ExportedAt = 5, bk_TenantID = ''origin'',
     bk_Suppliers = [zero_supplier\<lparr>s_ID := ''s1'', s_TenantID := ''origin'', s_Name := ''acme''\<rparr>], bk_Locations = [], bk_Categories = [], bk_Assets = [],
     bk_Assignments = [], bk_Consumables = [], bk_Licenses = [license_demo\<lparr>i_TenantID := ''origin'', i_SupplierID := ''s1''\<rparr>],
     bk_Insurance = [], bk_PolicyAssets = [], bk_Documents = []\<rparr>"

definition remapped_demo :: "Backup \<times> world" where
  "remapped_demo = run_state (remap backup_demo) world_demo"

theorem remap_renames_witness:
  "\<exists>\<rho>. fst remapped_demo = rename \<rho> backup_demo \<and> inj_on \<rho> {''s1'', ''L''} \<and>
     map s_ID (bk_Suppliers (fst remapped_demo)) = [\<rho> ''s1''] \<and> map i_SupplierID (bk_Licenses (fst remapped_demo)) = [\<rho> ''s1''] \<and>
     \<not> minted_before world_demo (\<rho> ''s1'')"
proof -
  have last: "idLast (snd remapped_demo) = 0" by code_simp
  have ids: "backup_ids backup_demo = {''s1'', ''L''}" by (auto simp: backup_ids_def backup_demo_def license_demo_def zero_supplier_def)
  have "ids_ok world_demo" by (simp add: ids_ok_def world_demo_def)
  moreover have "run_state (remap backup_demo) world_demo = (fst remapped_demo, snd remapped_demo)" by (simp add: remapped_demo_def)
  ultimately obtain \<rho> where "fst remapped_demo = rename \<rho> backup_demo" "inj_on \<rho> {''s1'', ''L''}"
      "\<forall>k \<in> {''s1'', ''L''} - {[]}. minted_before (snd remapped_demo) (\<rho> k) \<and> \<not> minted_before world_demo (\<rho> k)"
    using remap_renames [of backup_demo world_demo "fst remapped_demo" "snd remapped_demo"] last unfolding ids by auto
  moreover from this have "\<not> minted_before world_demo (\<rho> ''s1'')" by auto
  ultimately show ?thesis by (intro exI [of _ \<rho>]) (simp add: rename_def backup_demo_def)
qed

end
