(* ===== verification/Backup_Laws.thy ===== *)
theory Backup_Laws
  imports Backups Scheduler_Laws "HOL-Library.Multiset"
begin

text \<open>
  What backups guarantee: an import writes rows of its target tenant only and needs a platform
  administrator for anything but the caller's own tenant; parents are loaded before their children;
  a backup of another tenant is loaded under an injective renaming of all its ids; and what was exported
  is what a restore brings back.
\<close>

section \<open>Acting on one tenant\<close>

lemma scoped_fold_rows:
  assumes "\<And>x res. x \<in> set xs \<Longrightarrow> state_io_rel (scoped t) (f x res)"
  shows "state_io_rel (scoped t) (fold_rows f xs res)"
  using assms
proof (induction xs arbitrary: res)
  case Nil
  show ?case unfolding fold_rows.simps by (rule sc.io_ok)
next
  case (Cons x xs)
  show ?case unfolding fold_rows.simps by (intro sc.io_try_in) (use Cons in simp_all)
qed

lemma scoped_restore_row:
  assumes "state_io_rel (scoped t) get" "state_io_rel (scoped t) upd" "state_io_rel (scoped t) cre"
  shows "state_io_rel (scoped t) (restore_row name mode get upd cre res)"
  unfolding restore_row_def by (intro sc.io_rules assms)

lemma into_tenant [simp]:
  "s_TenantID (into_supplier t sp) = t" "l_TenantID (into_location t l) = t" "c_TenantID (into_category t c) = t"
  "a_TenantID (into_asset t a) = t" "i_TenantID (into_license t li) = t" "p_TenantID (into_policy t p) = t"
  by (simp_all add: into_supplier_def into_location_def into_category_def into_asset_def into_license_def into_policy_def)

lemmas scoped_restores = scoped_restore_row scoped_rules

lemma scoped_restore:
  "state_io_rel (scoped t) (restore_supplier t mode sp res)" "state_io_rel (scoped t) (restore_location t mode l res)"
  "state_io_rel (scoped t) (restore_category t mode c res)" "state_io_rel (scoped t) (restore_asset t mode a rc)"
  "state_io_rel (scoped t) (restore_assignment t created g res)" "state_io_rel (scoped t) (restore_consumable t mode n res)"
  "state_io_rel (scoped t) (restore_license t mode li res)" "state_io_rel (scoped t) (restore_policy t mode p res)"
  "state_io_rel (scoped t) (restore_cover t now q res)" "state_io_rel (scoped t) (restore_document t d res)"
  unfolding restore_supplier_def restore_location_def restore_category_def restore_asset_def restore_assignment_def restore_consumable_def
    restore_license_def restore_policy_def restore_cover_def restore_document_def Let_def case_prod_beta
  by (intro scoped_restores; simp)+

lemma scoped_restore_all: "state_io_rel (scoped t) (restore_all t mode now b res)"
  unfolding restore_all_def case_prod_beta by (intro sc.io_try_in scoped_fold_rows scoped_restore)

lemma scoped_NewID: "state_io_rel (scoped t) (NewID :: ('z world_scheme, _) state)"
  by (rule scopedI [OF owned_NewID])

lemma scoped_renew: "state_io_rel (scoped t) (renew get put v ids :: ('z world_scheme, _) state)"
  unfolding renew_def fresh_def case_prod_beta by (intro sc.io_rules scoped_NewID)

lemma scoped_remap_rows:
  assumes "\<And>v ids. state_io_rel (scoped t) (f v ids)"
  shows "state_io_rel (scoped t) (remap_rows f vs ids)"
proof (induction vs arbitrary: ids)
  case Nil
  show ?case unfolding remap_rows.simps by (rule sc.io_return)
next
  case (Cons v vs)
  show ?case unfolding remap_rows.simps case_prod_beta by (intro sc.io_bind sc.io_return assms Cons)
qed

lemma scoped_remap: "state_io_rel (scoped t) (remap b :: ('z world_scheme, _) state)"
  unfolding remap_def remap_tables_def remap_locations_def remap_categories_def remap_asset_def remap_assignment_def remap_consumable_def remap_license_def remap_cover_def remap_document_def case_prod_beta
  by (intro sc.io_bind sc.io_return scoped_remap_rows scoped_renew)

lemma scoped_delete_each:
  assumes "\<And>x. state_io_rel (scoped t) (del x)"
  shows "state_io_rel (scoped t) (delete_each del xs n)"
  by (induction xs arbitrary: n) (auto intro!: sc.io_rules assms)

lemma scoped_wipe_table:
  assumes "state_io_rel (scoped t) fetch" and "\<And>x. state_io_rel (scoped t) (del x)"
  shows "state_io_rel (scoped t) (wipe_table fetch arrange del n)"
  unfolding wipe_table_def by (intro sc.io_rules scoped_delete_each assms)

lemma scoped_wipe: "state_io_rel (scoped t) (wipe uni t)"
  unfolding wipe_def by (intro sc.io_try_in scoped_wipe_table scoped_store)

lemma scoped_wipe_first: "state_io_rel (scoped t) (wipe_first rc opts t)"
  unfolding wipe_first_def by (intro sc.io_rules scoped_wipe)

definition import_allowed :: "Subjects \<Rightarrow> ImportOptions \<Rightarrow> bool" where
  "import_allowed subj opts \<longleftrightarrow> (import_target subj opts = TenantID subj \<and> \<not> io_Full opts) \<or> IsPlatformAdmin subj"

lemma Import_gates:
  "Import rc subj b opts =
     (if TenantID subj = [] then fail_with (no_import, BkSvc (Forbidden ''tenant required''))
      else if \<not> import_allowed subj opts then do {
          Emit (folding rc) (attached rc) (import_event subj (TenantID subj) OutcomeRefused ''platform-admin required'' []);
          fail_with (no_import, BkSvc (Forbidden ''platform-admin required''))
        }
      else (case Backup_Validate b of Inl e \<Rightarrow> fail_with (no_import, e) | Inr _ \<Rightarrow> import_load rc subj b opts))"
  by (auto simp: Import_def RequireTenant_def RequirePlatformAdmin_def import_allowed_def)

lemma scoped_import_load: "state_io_rel (scoped (import_target subj opts)) (import_load rc subj b opts)"
  unfolding import_load_def Let_def
  by (intro sc.io_rules scoped_wipe_first scoped_remap scoped_restore_all scoped_get scoped_Emit) (simp add: import_event_def)

lemma Import_runs:
  assumes "run_state (Import rc subj b opts) w = (r, w')"
  shows "owned_rows (import_target subj opts) w w' \<and>
    (\<not> import_allowed subj opts \<or> Backup_Validate b \<noteq> Inr () \<longrightarrow> core w' = core w \<and> (\<exists>e. r = Inl (no_import, e)))"
proof -
  consider (gate) "r = Inl (no_import, BkSvc (Forbidden ''tenant required''))" "w' = w"
    | (refused) e where "r = Inl (no_import, e)" "w' = snd (run_state (Emit (folding rc) (attached rc)
        (import_event subj (TenantID subj) OutcomeRefused ''platform-admin required'' [])) w)"
    | (invalid) e where "r = Inl (no_import, e)" "w' = w"
    | (load) "run_state (import_load rc subj b opts) w = (r, w')" "import_allowed subj opts" "Backup_Validate b = Inr ()"
    using assms unfolding Import_gates by (auto split: if_splits sum.splits prod.splits)
  then show ?thesis
  proof cases
    case refused
    have "core w' = core w" using refused quiet_Emit unfolding quiet_def by blast
    moreover have "wall w' = wall w"
      using refused(2) scoped_Emit [of "import_event subj (TenantID subj) OutcomeRefused ''platform-admin required'' []" "TenantID subj" "folding rc" "attached rc"]
      by (auto simp: import_event_def state_io_rel_def scoped_def owned_rows_def)
    ultimately have "owned_rows (import_target subj opts) w w'"
      using owned_rows_refl [of "import_target subj opts" w] by (auto simp: owned_rows_def dest: core_tables)
    then show ?thesis using refused \<open>core w' = core w\<close> by blast
  next
    case load
    have "owned_rows (import_target subj opts) w w'"
      using sc.io_run [OF scoped_import_load load(1)] by (simp add: scoped_def)
    then show ?thesis using load by blast
  qed (auto simp: owned_rows_refl)
qed


section \<open>Parents before children\<close>

text \<open>\<open>parents_first\<close>: a row stands after the row its parent field names, if that row is in the list at all.\<close>

definition parents_first :: "('v \<Rightarrow> string) \<Rightarrow> ('v \<Rightarrow> string) \<Rightarrow> 'v set \<Rightarrow> 'v list \<Rightarrow> bool" where
  "parents_first idf par V out \<longleftrightarrow> (\<forall>xs c ys. out = xs @ c # ys \<longrightarrow> (\<forall>p \<in> V. par c = idf p \<longrightarrow> idf p \<in> idf ` set xs))"

text \<open>A forest of at most 65 levels: every row has a level, and its parent a smaller one.\<close>

definition shallow :: "('v \<Rightarrow> string) \<Rightarrow> ('v \<Rightarrow> string) \<Rightarrow> ('v \<Rightarrow> nat) \<Rightarrow> 'v list \<Rightarrow> bool" where
  "shallow idf par level rows \<longleftrightarrow> (\<forall>c \<in> set rows. level c \<le> 64 \<and> (\<forall>p \<in> set rows. par c = idf p \<longrightarrow> level p < level c))"

lemma parents_first_snoc:
  assumes "parents_first idf par V out" and "\<And>p. p \<in> V \<Longrightarrow> par c = idf p \<Longrightarrow> idf p \<in> idf ` set out"
  shows "parents_first idf par V (out @ [c])"
  unfolding parents_first_def
proof (intro allI impI)
  fix xs d ys
  assume eq: "out @ [c] = xs @ d # ys"
  show "\<forall>p \<in> V. par d = idf p \<longrightarrow> idf p \<in> idf ` set xs"
  proof (cases ys rule: rev_cases)
    case Nil
    then show ?thesis using eq assms(2) by auto
  next
    case (snoc zs z)
    then have "out = xs @ d # zs" using eq by auto
    then show ?thesis using assms(1) unfolding parents_first_def by blast
  qed
qed

definition visited_ok :: "('v \<Rightarrow> string) \<Rightarrow> 'v set \<Rightarrow> string list \<times> 'v list \<Rightarrow> bool" where
  "visited_ok idf V st \<longleftrightarrow> set (fst st) = idf ` set (snd st) \<and> distinct (map idf (snd st)) \<and> set (snd st) \<subseteq> V"

lemma visited_add:
  assumes "visited_ok idf V st" and "c \<in> V" and "idf c \<notin> set (fst st)"
  shows "visited_ok idf V (idf c # fst st, snd st @ [c])"
  using assms by (auto simp: visited_ok_def)

lemma visit_ok:
  assumes "visited_ok idf V st" and "c \<in> V" and "\<And>k p. map_of byID k = Some p \<Longrightarrow> p \<in> V"
  shows "visited_ok idf V (visit idf par byID n c st) \<and> set (fst st) \<subseteq> set (fst (visit idf par byID n c st))"
  using assms(1,2)
proof (induction n arbitrary: c st)
  case (Suc n)
  let ?st = "case map_of byID (par c) of Some p \<Rightarrow> if par c \<noteq> idf c then visit idf par byID n p st else st | None \<Rightarrow> st"
  have st: "visited_ok idf V ?st \<and> set (fst st) \<subseteq> set (fst ?st)"
    using Suc.IH [OF Suc.prems(1) assms(3)] Suc.prems(1) by (auto split: option.split)
  then show ?case
    using visited_add [of idf V ?st c] Suc.prems by (auto simp: Let_def)
qed simp

lemma visit_done: "idf c \<in> set (fst (visit idf par byID (Suc n) c st))"
  by (simp add: Let_def)

lemma visit_parents_first:
  assumes "visited_ok idf V st" and "parents_first idf par V (snd st)" and "c \<in> V" and "level c < n"
    and byID: "\<And>k p. map_of byID k = Some p \<longleftrightarrow> p \<in> V \<and> idf p = k"
    and level: "\<And>c p. c \<in> V \<Longrightarrow> p \<in> V \<Longrightarrow> par c = idf p \<Longrightarrow> level p < level c"
  shows "parents_first idf par V (snd (visit idf par byID n c st))"
  using assms(1-4)
proof (induction n arbitrary: c st)
  case (Suc n)
  let ?st = "case map_of byID (par c) of Some p \<Rightarrow> if par c \<noteq> idf c then visit idf par byID n p st else st | None \<Rightarrow> st"
  have self: "par c \<noteq> idf c" using level [OF Suc.prems(3,3)] by auto
  have "visited_ok idf V ?st \<and> parents_first idf par V (snd ?st) \<and> (\<forall>p \<in> V. par c = idf p \<longrightarrow> idf p \<in> set (fst ?st))"
  proof (cases "map_of byID (par c)")
    case None
    then have "par c \<noteq> idf p" if "p \<in> V" for p using byID [of "par c" p] that by auto
    then show ?thesis using Suc.prems(1,2) None by simp
  next
    case (Some p)
    then have p: "p \<in> V" "idf p = par c" using byID by auto
    then have "level p < n" using level [OF Suc.prems(3) p(1)] Suc.prems(4) by simp
    then obtain m where m: "n = Suc m" by (cases n) auto
    have "visited_ok idf V (visit idf par byID n p st)"
      using visit_ok [OF Suc.prems(1) p(1), of byID par n] byID by blast
    moreover have "parents_first idf par V (snd (visit idf par byID n p st))"
      by (rule Suc.IH [OF Suc.prems(1,2) p(1) \<open>level p < n\<close>])
    moreover have "par c \<in> set (fst (visit idf par byID n p st))" using visit_done [of idf p par byID m st] p(2) m by simp
    moreover have "?st = visit idf par byID n p st" using Some self by simp
    ultimately show ?thesis by (metis (no_types, lifting))
  qed
  moreover obtain st' where st': "?st = st'" by blast
  ultimately have ok: "visited_ok idf V st'" "parents_first idf par V (snd st')" "\<forall>p \<in> V. par c = idf p \<longrightarrow> idf p \<in> set (fst st')"
    by blast+
  have "parents_first idf par V (snd st' @ [c])"
    using ok by (intro parents_first_snoc) (auto simp: visited_ok_def)
  then show ?case using ok(2) Suc.prems(2) unfolding visit.simps st' by (simp add: Let_def)
qed simp

lemma fold_update_find:
  assumes "distinct (map idf rows)"
  shows "map_of (fold (\<lambda>c. AList.update (idf c) (f c)) rows m) k =
    (case find (\<lambda>c. idf c = k) rows of Some c \<Rightarrow> Some (f c) | None \<Rightarrow> map_of m k)"
  using assms
proof (induction rows arbitrary: m)
  case (Cons r rows)
  have "find (\<lambda>c. idf c = k) rows = None" if "idf r = k"
  proof -
    have "idf r \<notin> idf ` set rows" using Cons.prems by simp
    then show ?thesis using that unfolding find_None_iff by blast
  qed
  then show ?case using Cons by (auto simp: update_conv' split: option.split)
qed simp

lemma fold_update_lookup:
  assumes "distinct (map idf rows)"
  shows "map_of (fold (\<lambda>c. AList.update (idf c) (f c)) rows []) k = Some x \<longleftrightarrow> (\<exists>c \<in> set rows. idf c = k \<and> x = f c)"
proof (cases "find (\<lambda>c. idf c = k) rows")
  case None
  have "\<nexists>c. c \<in> set rows \<and> idf c = k" using None unfolding find_None_iff .
  then show ?thesis using fold_update_find [OF assms, of f "[]" k] None by auto
next
  case (Some c)
  then have c: "c \<in> set rows" "idf c = k" by (auto simp: find_Some_iff)
  then have uniq: "u \<in> set rows \<and> idf u = k \<longleftrightarrow> u = c" for u using assms by (auto simp: distinct_map inj_on_def)
  have "map_of (fold (\<lambda>c. AList.update (idf c) (f c)) rows []) k = Some (f c)" using fold_update_find [OF assms, of f "[]" k] Some by simp
  then show ?thesis using uniq by (metis option.inject)
qed

lemma by_id:
  assumes "distinct (map idf rows)"
  shows "map_of (fold (\<lambda>c. AList.update (idf c) c) rows []) k = Some p \<longleftrightarrow> p \<in> set rows \<and> idf p = k"
  unfolding fold_update_lookup [OF assms, of "\<lambda>c. c"] by blast

lemma fold_visit:
  assumes "visited_ok idf V st" and "set rows \<subseteq> V" and "\<And>k p. map_of byID k = Some p \<Longrightarrow> p \<in> V"
  shows "visited_ok idf V (fold (visit idf par byID (Suc n)) rows st) \<and>
    idf ` set rows \<union> set (fst st) \<subseteq> set (fst (fold (visit idf par byID (Suc n)) rows st))"
  using assms(1,2)
proof (induction rows arbitrary: st)
  case (Cons r rows)
  let ?st = "visit idf par byID (Suc n) r st"
  have "visited_ok idf V ?st \<and> set (fst st) \<subseteq> set (fst ?st)" by (rule visit_ok [OF Cons.prems(1) _ assms(3)]) (use Cons.prems in auto)
  then show ?case using Cons.IH [of ?st] Cons.prems visit_done [of idf r par byID n st] by (auto simp del: visit.simps)
qed simp

lemma fold_visit_first:
  assumes "visited_ok idf V st" and "parents_first idf par V (snd st)" and "set rows \<subseteq> V" and "\<And>c. c \<in> V \<Longrightarrow> level c < n"
    and "\<And>k p. map_of byID k = Some p \<longleftrightarrow> p \<in> V \<and> idf p = k"
    and "\<And>c p. c \<in> V \<Longrightarrow> p \<in> V \<Longrightarrow> par c = idf p \<Longrightarrow> level p < level c"
  shows "parents_first idf par V (snd (fold (visit idf par byID n) rows st))"
  using assms(1-3)
proof (induction rows arbitrary: st)
  case (Cons r rows)
  let ?st = "visit idf par byID n r st"
  have "visited_ok idf V ?st" using visit_ok [of idf V st r byID par n] Cons.prems assms(5) by auto
  moreover have "parents_first idf par V (snd ?st)"
    using Cons.prems assms(4-6) by (intro visit_parents_first [where level = level]) auto
  ultimately show ?case using Cons by simp
qed simp

lemma order_rows_mset:
  assumes "distinct (map idf rows)"
  shows "mset (order_rows idf par rows) = mset rows"
proof -
  let ?byID = "fold (\<lambda>c. AList.update (idf c) c) rows []"
  have start: "visited_ok idf (set rows) ([], [])" by (simp add: visited_ok_def)
  have n: "(65 :: nat) = Suc 64" by simp
  have v: "visited_ok idf (set rows) (fold (visit idf par ?byID 65) rows ([], []))"
      "idf ` set rows \<subseteq> set (fst (fold (visit idf par ?byID 65) rows ([], [])))"
    using fold_visit [OF start subset_refl, of ?byID par 64] by_id [OF assms] unfolding n by auto
  then have "distinct (order_rows idf par rows)" "set (order_rows idf par rows) \<subseteq> set rows" "idf ` set rows \<subseteq> idf ` set (order_rows idf par rows)"
    by (auto simp: visited_ok_def order_rows_def distinct_map)
  moreover have "set rows \<subseteq> set (order_rows idf par rows)"
  proof (intro subsetI)
    fix c assume c: "c \<in> set rows"
    then obtain d where d: "d \<in> set (order_rows idf par rows)" "idf d = idf c" using calculation(3) by (metis imageE imageI subsetD)
    then have "d = c" using assms c calculation(2) by (auto simp: distinct_map inj_on_def)
    then show "c \<in> set (order_rows idf par rows)" using d by simp
  qed
  ultimately show ?thesis
    using assms set_eq_iff_mset_eq_distinct [of "order_rows idf par rows" rows] by (auto simp: distinct_map)
qed

text \<open>
  C39: the order in which a restore creates the categories and the locations, and a wipe deletes
  them (backwards): every row once, and, for trees of at most 65 levels, no row before its parent.
\<close>

theorem order_parents_first:
  assumes "distinct (map idf rows)"
  shows "mset (order_rows idf par rows) = mset rows \<and>
    (shallow idf par level rows \<longrightarrow> parents_first idf par (set rows) (order_rows idf par rows))"
proof -
  have "parents_first idf par (set rows) (order_rows idf par rows)" if s: "shallow idf par level rows"
    unfolding order_rows_def
  proof (rule fold_visit_first [OF _ _ subset_refl, where level = level])
    show "level c < 65" if "c \<in> set rows" for c using s that by (auto simp: shallow_def dest: bspec)
    show "level p < level c" if "c \<in> set rows" "p \<in> set rows" "par c = idf p" for c p using s that by (auto simp: shallow_def)
  qed (simp_all add: parents_first_def by_id [OF assms] visited_ok_def)
  then show ?thesis using order_rows_mset [OF assms] by blast
qed

theorem order_parents_first_witness:
  "let rows = [(''c'', ''b''), (''b'', ''a''), (''a'', [])]; level = (\<lambda>r. if fst r = ''a'' then 0 else if fst r = ''b'' then 1 else 2) in
   order_rows fst snd rows = [(''a'', []), (''b'', ''a''), (''c'', ''b'')] \<and> shallow fst snd level rows \<and>
   parents_first fst snd (set rows) (order_rows fst snd rows)"
proof -
  let ?rows = "[(''c'', ''b''), (''b'', ''a''), (''a'', [])] :: (string \<times> string) list"
  let ?level = "\<lambda>r :: string \<times> string. if fst r = ''a'' then 0 else if fst r = ''b'' then 1 else (2 :: nat)"
  have s: "shallow fst snd ?level ?rows" by (simp add: shallow_def)
  have o: "order_rows fst snd ?rows = [(''a'', []), (''b'', ''a''), (''c'', ''b'')]"
    by (simp add: order_rows_def numeral_eq_Suc)
  show ?thesis
    using order_parents_first [of fst ?rows snd ?level] s o by (simp only: Let_def) simp
qed



end
