(* ===== verification/Backup_Restore.thy ===== *)
theory Backup_Restore
  imports Backup_Laws
begin

text \<open>
  Export followed by import. \<open>snapshot t w\<close> is the document an export of tenant \<open>t\<close> returns in a state \<open>w\<close>
  in which no failure is armed. The locale \<open>restoring\<close> is the contract of one import loop: a row
  that is not in the table and clashes with none is stored; it is interpreted for the ten loops.
\<close>

section \<open>What an export returns\<close>

definition tenant_list :: "('v \<Rightarrow> string) \<Rightarrow> ('v \<Rightarrow> string) \<Rightarrow> string \<Rightarrow> 'v tab \<Rightarrow> 'v list" where
  "tenant_list idf tn t m = paginate idf [] 0 (filter (\<lambda>v. tn v = t) (vals m))"

definition papers :: "'z mem_scheme \<Rightarrow> string \<Rightarrow> string \<Rightarrow> string \<Rightarrow> Document list" where
  "papers w t entity i = paginate d_ID [] 0 (filter (\<lambda>d. d_TenantID d = t \<and> d_EntityType d = entity \<and> d_EntityID d = i) (vals (documents w)))"

definition history :: "'z mem_scheme \<Rightarrow> string \<Rightarrow> string \<Rightarrow> Assignment list" where
  "history w t i = rev (sort_key g_AssignedAt (sort_key g_ID (filter (\<lambda>g. g_TenantID g = t \<and> g_AssetID g = i) (vals (assignments w)))))"

definition covered :: "'z mem_scheme \<Rightarrow> string \<Rightarrow> string \<Rightarrow> PolicyAsset list" where
  "covered w t i = paginate q_ID [] 0 (filter (\<lambda>q. q_TenantID q = t \<and> q_PolicyID q = i) (vals (policyAssets w)))"

lemma calm_reads:
  assumes "failNext w = {}"
  shows "run_state (ListSuppliers uni t no_filter) w = (Inr (tenant_list s_ID s_TenantID t (suppliers w)), w)"
    and "run_state (ListLocations t) w = (Inr (map (fillLocation w) (tenant_list l_ID l_TenantID t (locations w))), w)"
    and "run_state (ListCategories t) w = (Inr (map (fillCategory w) (tenant_list c_ID c_TenantID t (categories w))), w)"
    and "run_state (AllAssets t) w = (Inr (map (fillAsset (wall w)) (tenant_list a_ID a_TenantID t (assets w))), w)"
    and "run_state (AllConsumables t) w = (Inr (tenant_list n_ID n_TenantID t (consumables w)), w)"
    and "run_state (AllLicenses t) w = (Inr (tenant_list i_ID i_TenantID t (licenses w)), w)"
    and "run_state (AllInsurance t) w = (Inr (map (fillInsurance w) (tenant_list p_ID p_TenantID t (insurance w))), w)"
    and "run_state (ListAssignments t i 0) w = (Inr (history w t i), w)"
    and "run_state (ListDocuments t entity i) w = (Inr (papers w t entity i), w)"
    and "run_state (ListPolicyAssets t i) w = (Inr (covered w t i), w)"
  using assms
  by (simp_all add: run_guarded tenant_list_def papers_def history_def covered_def ListSuppliers_def matchSuppliers_def no_filter_def ToLower_def is_ascii_def
    ListLocations_def ListCategories_def AllAssets_def AllConsumables_def AllLicenses_def AllInsurance_def ListAssignments_def ListDocuments_def ListPolicyAssets_def)

lemma export_loops:
  assumes "failNext w = {}"
  shows "run_state (export_assets t as) w = (Inr (concat (map (history w t) (map a_ID as)), concat (map (papers w t EntityAsset) (map a_ID as))), w)"
    and "run_state (export_documents t entity ids) w = (Inr (concat (map (papers w t entity) ids)), w)"
    and "run_state (export_covers t ids) w = (Inr (concat (map (covered w t) ids)), w)"
proof -
  show "run_state (export_assets t as) w = (Inr (concat (map (history w t) (map a_ID as)), concat (map (papers w t EntityAsset) (map a_ID as))), w)"
    by (induction as) (simp_all add: run_try_as run_try_in calm_reads [OF assms])
  show "run_state (export_documents t entity ids) w = (Inr (concat (map (papers w t entity) ids)), w)"
    by (induction ids) (simp_all add: run_try_as run_try_in calm_reads [OF assms])
  show "run_state (export_covers t ids) w = (Inr (concat (map (covered w t) ids)), w)"
    by (induction ids) (simp_all add: run_try_as run_try_in calm_reads [OF assms])
qed

definition snapshot :: "string \<Rightarrow> 'z mem_scheme \<Rightarrow> Backup" where
  "snapshot t w = \<lparr>bk_SchemaVersion = SchemaVersion, bk_ExportedAt = wall w, bk_TenantID = t,
     bk_Suppliers = map scrubSupplier (tenant_list s_ID s_TenantID t (suppliers w)),
     bk_Locations = map scrubLocation (tenant_list l_ID l_TenantID t (locations w)),
     bk_Categories = map (\<lambda>c. c\<lparr>c_AssetCount := 0, c_ChildCount := 0\<rparr>) (tenant_list c_ID c_TenantID t (categories w)),
     bk_Assets = map (\<lambda>a. a\<lparr>a_BookValue := 0\<rparr>) (tenant_list a_ID a_TenantID t (assets w)),
     bk_Assignments = concat (map (history w t) (map a_ID (tenant_list a_ID a_TenantID t (assets w)))),
     bk_Consumables = tenant_list n_ID n_TenantID t (consumables w),
     bk_Licenses = tenant_list i_ID i_TenantID t (licenses w),
     bk_Insurance = map (\<lambda>p. p\<lparr>p_AssetCount := 0\<rparr>) (tenant_list p_ID p_TenantID t (insurance w)),
     bk_PolicyAssets = concat (map (covered w t) (map p_ID (tenant_list p_ID p_TenantID t (insurance w)))),
     bk_Documents = concat (map (papers w t EntityAsset) (map a_ID (tenant_list a_ID a_TenantID t (assets w)))) @
       concat (map (papers w t EntityConsumable) (map n_ID (tenant_list n_ID n_TenantID t (consumables w)))) @
       concat (map (papers w t EntityLicense) (map i_ID (tenant_list i_ID i_TenantID t (licenses w))))\<rparr>"

lemma computed_fields [simp]:
  "scrubLocation (fillLocation w l) = scrubLocation l"
  "(fillCategory w c)\<lparr>c_AssetCount := 0, c_ChildCount := 0\<rparr> = c\<lparr>c_AssetCount := 0, c_ChildCount := 0\<rparr>"
  "(fillAsset now a)\<lparr>a_BookValue := 0\<rparr> = a\<lparr>a_BookValue := 0\<rparr>"
  "(fillInsurance w p)\<lparr>p_AssetCount := 0\<rparr> = p\<lparr>p_AssetCount := 0\<rparr>"
  "a_ID (fillAsset now a) = a_ID a" "p_ID (fillInsurance w p) = p_ID p"
  by (simp_all add: scrubLocation_def fillLocation_def fillCategory_def fillAsset_def fillInsurance_def)

lemma Export_run:
  assumes "failNext w = {}" and "RequireTenant subj (TenantID subj) = Inr ()"
  shows "fst (run_state (Export rc subj) w) = Inr (snapshot (TenantID subj) w)"
  using assms
  by (simp add: Export_def in_tenant_def run_try_as run_try_in calm_reads export_loops snapshot_def Let_def comp_def split: prod.split)

section \<open>One import loop\<close>

definition load_rows :: "('v \<Rightarrow> string) \<Rightarrow> ('v \<Rightarrow> 'v) \<Rightarrow> 'v list \<Rightarrow> 'v tab \<Rightarrow> 'v tab" where
  "load_rows idf f vs m = fold (\<lambda>v. AList.update (idf v) (f v)) vs m"

definition loadable :: "('v \<Rightarrow> string) \<Rightarrow> ('v \<Rightarrow> bool) \<Rightarrow> ('v \<Rightarrow> 'v \<Rightarrow> bool) \<Rightarrow> ('v \<Rightarrow> 'v) \<Rightarrow> 'v list \<Rightarrow> bool" where
  "loadable idf fit clash f vs \<longleftrightarrow> distinct (map idf vs) \<and> (\<forall>v \<in> set vs. idf v \<noteq> [] \<and> fit v) \<and>
     (\<forall>u \<in> set vs. \<forall>v \<in> set vs. idf u \<noteq> idf v \<longrightarrow> \<not> clash (f u) (f v))"

locale restoring =
  fixes tbl :: "'z world_scheme \<Rightarrow> 'v tab" and put :: "'v tab \<Rightarrow> 'z world_scheme \<Rightarrow> 'z world_scheme"
    and idf :: "'v \<Rightarrow> string" and clash :: "'v \<Rightarrow> 'v \<Rightarrow> bool" and fit :: "'v \<Rightarrow> bool" and stored :: "gotime \<Rightarrow> 'v \<Rightarrow> 'v"
    and step :: "'v \<Rightarrow> 'r \<Rightarrow> ('z world_scheme, 'e, 'r) prog" and mark :: "'v \<Rightarrow> 'r \<Rightarrow> 'r"
  assumes tbl_put: "tbl (put m w) = m" and put_put: "put m (put m' w) = put m w" and put_tbl: "put (tbl w) w = w"
    and put_failNext: "failNext (put m w) = failNext w" and put_wall: "wall (put m w) = wall w"
    and step_new: "failNext w = {} \<Longrightarrow> idf v \<noteq> [] \<Longrightarrow> fit v \<Longrightarrow> map_of (tbl w) (idf v) = None \<Longrightarrow>
      (\<forall>y \<in> set (vals (tbl w)). \<not> clash y (stored (wall w) v)) \<Longrightarrow>
      run_state (step v res) w = (Inr (mark v res), put (AList.update (idf v) (stored (wall w) v) (tbl w)) w)"
begin

lemma loop_stores:
  assumes "failNext w = {}" and "distinct (map idf vs)" and "\<forall>v \<in> set vs. idf v \<noteq> [] \<and> fit v \<and> map_of (tbl w) (idf v) = None"
    and "\<forall>v \<in> set vs. \<forall>y \<in> set (vals (tbl w)). \<not> clash y (stored (wall w) v)"
    and "\<forall>v \<in> set vs. \<forall>u \<in> set vs. idf u \<noteq> idf v \<longrightarrow> \<not> clash (stored (wall w) u) (stored (wall w) v)"
  shows "run_state (fold_rows step vs res) w = (Inr (fold mark vs res), put (load_rows idf (stored (wall w)) vs (tbl w)) w)"
  using assms
proof (induction vs arbitrary: w res)
  case Nil
  show ?case by (simp add: load_rows_def put_tbl)
next
  case (Cons v vs)
  let ?w = "put (AList.update (idf v) (stored (wall w) v) (tbl w)) w"
  have run: "run_state (step v res) w = (Inr (mark v res), ?w)" using Cons.prems by (intro step_new) auto
  have new: "set (vals (tbl ?w)) \<subseteq> insert (stored (wall w) v) (set (vals (tbl w)))"
    using set_vals_update [of "idf v" "stored (wall w) v" "tbl w"] by (simp add: tbl_put)
  have "run_state (fold_rows step vs (mark v res)) ?w = (Inr (fold mark vs (mark v res)), put (load_rows idf (stored (wall ?w)) vs (tbl ?w)) ?w)"
  proof (rule Cons.IH)
    show "failNext ?w = {}" using Cons.prems(1) by (simp add: put_failNext)
    show "distinct (map idf vs)" using Cons.prems(2) by simp
    show "\<forall>u \<in> set vs. idf u \<noteq> [] \<and> fit u \<and> map_of (tbl ?w) (idf u) = None"
    proof
      fix u assume u: "u \<in> set vs"
      then have "idf u \<noteq> idf v" using Cons.prems(2) by (auto simp: image_iff)
      then show "idf u \<noteq> [] \<and> fit u \<and> map_of (tbl ?w) (idf u) = None" using Cons.prems(3) u by (simp add: tbl_put update_conv')
    qed
    show "\<forall>u \<in> set vs. \<forall>y \<in> set (vals (tbl ?w)). \<not> clash y (stored (wall ?w) u)"
    proof (intro ballI)
      fix u y assume u: "u \<in> set vs" and y: "y \<in> set (vals (tbl ?w))"
      then have "idf v \<noteq> idf u" using Cons.prems(2) by (auto simp: image_iff)
      then have "\<not> clash (stored (wall w) v) (stored (wall w) u)" using Cons.prems(5) u by simp
      moreover have "\<not> clash z (stored (wall w) u)" if "z \<in> set (vals (tbl w))" for z using Cons.prems(4) u that by (simp del: set_map)
      ultimately show "\<not> clash y (stored (wall ?w) u)" using new y unfolding put_wall by blast
    qed
    show "\<forall>u \<in> set vs. \<forall>x \<in> set vs. idf x \<noteq> idf u \<longrightarrow> \<not> clash (stored (wall ?w) x) (stored (wall ?w) u)"
      using Cons.prems(5) by (simp add: put_wall)
  qed
  then show ?case using run by (simp add: run_try_in load_rows_def tbl_put put_put put_wall)
qed

lemma loop_fills:
  assumes "failNext w = {}" and "tbl w = []" and "loadable idf fit clash (stored (wall w)) vs"
  shows "run_state (fold_rows step vs res) w = (Inr (fold mark vs res), put (load_rows idf (stored (wall w)) vs []) w)"
  using loop_stores [of w vs res] assms by (auto simp: loadable_def)

end

section \<open>The ten loops\<close>

text \<open>What the store makes of a row it creates.\<close>

definition supplier_saved :: "gotime \<Rightarrow> Supplier \<Rightarrow> Supplier" where
  "supplier_saved now s = s\<lparr>s_Status := default_text (s_Status s) SupActive, s_CreatedAt := default_time (s_CreatedAt s) now, s_UpdatedAt := now\<rparr>"

definition location_saved :: "gotime \<Rightarrow> Location \<Rightarrow> Location" where
  "location_saved now l = l\<lparr>l_Status := default_text (l_Status l) LocActive, l_CreatedAt := default_time (l_CreatedAt l) now, l_UpdatedAt := now\<rparr>"

definition category_saved :: "gotime \<Rightarrow> Category \<Rightarrow> Category" where
  "category_saved now c = c\<lparr>c_CreatedAt := default_time (c_CreatedAt c) now, c_UpdatedAt := now\<rparr>"

definition assignment_saved :: "gotime \<Rightarrow> Assignment \<Rightarrow> Assignment" where
  "assignment_saved now g = g\<lparr>g_Action := default_text (g_Action g) ActionAssigned, g_AssignedAt := default_time (g_AssignedAt g) now\<rparr>"

definition consumable_saved :: "gotime \<Rightarrow> Consumable \<Rightarrow> Consumable" where
  "consumable_saved now n = n\<lparr>n_CreatedAt := default_time (n_CreatedAt n) now, n_UpdatedAt := now\<rparr>"

definition license_saved :: "gotime \<Rightarrow> License \<Rightarrow> License" where
  "license_saved now l = l\<lparr>i_Status := default_text (i_Status l) LicActive, i_CreatedAt := default_time (i_CreatedAt l) now, i_UpdatedAt := now\<rparr>"

definition policy_saved :: "gotime \<Rightarrow> InsurancePolicy \<Rightarrow> InsurancePolicy" where
  "policy_saved now p = p\<lparr>p_Status := default_text (p_Status p) InsActive, p_CreatedAt := default_time (p_CreatedAt p) now, p_UpdatedAt := now\<rparr>"

definition cover_saved :: "gotime \<Rightarrow> PolicyAsset \<Rightarrow> PolicyAsset" where
  "cover_saved now q = q\<lparr>q_CreatedAt := default_time (q_CreatedAt q) now\<rparr>"

definition document_saved :: "gotime \<Rightarrow> Document \<Rightarrow> Document" where
  "document_saved now d = d\<lparr>d_CreatedAt := default_time (d_CreatedAt d) now\<rparr>"

text \<open>Whether a document row may be loaded into tenant \<open>t\<close>.\<close>

definition portable :: "string \<Rightarrow> Document \<Rightarrow> bool" where
  "portable t d \<longleftrightarrow> (d_PaperlessDocumentID d \<noteq> [] \<and> d_TenantID d = t \<and> d_StorageKey d = PaperlessKeyPrefix @ d_PaperlessDocumentID d) \<or>
     prefix (''tenants/'' @ t @ ''/'') (d_StorageKey d)"

definition same_object :: "Document \<Rightarrow> Document \<Rightarrow> bool" where
  "same_object x y \<longleftrightarrow> d_StorageKey x = d_StorageKey y"

lemmas step_simps = restore_row_def run_guarded run_try_as list_ex_iff clash_defs Let_def

interpretation rs_suppliers: restoring suppliers "\<lambda>m w. w\<lparr>suppliers := m\<rparr>" s_ID supplier_clash "\<lambda>_. True"
  "\<lambda>now v. supplier_saved now (into_supplier t v)" "restore_supplier t mode" "\<lambda>_. imported ''suppliers''" for t mode
  by unfold_locales (auto simp: step_simps restore_supplier_def GetSupplier_def CreateSupplier_def supplier_saved_def into_supplier_def scrubSupplier_def)

interpretation rs_locations: restoring locations "\<lambda>m w. w\<lparr>locations := m\<rparr>" l_ID location_clash "\<lambda>_. True"
  "\<lambda>now v. location_saved now (into_location t v)" "restore_location t mode" "\<lambda>_. imported ''locations''" for t mode
  by unfold_locales (auto simp: step_simps restore_location_def GetLocation_def CreateLocation_def location_saved_def into_location_def scrubLocation_def)

interpretation rs_categories: restoring categories "\<lambda>m w. w\<lparr>categories := m\<rparr>" c_ID sibling_clash "\<lambda>_. True"
  "\<lambda>now v. category_saved now (into_category t v)" "restore_category t mode" "\<lambda>_. imported ''categories''" for t mode
  by unfold_locales (auto simp: step_simps restore_category_def GetCategory_def CreateCategory_def category_saved_def into_category_def)

interpretation rs_assets: restoring assets "\<lambda>m w. w\<lparr>assets := m\<rparr>" a_ID tag_clash "\<lambda>a. a_AssetTag a \<noteq> []"
  "\<lambda>now v. asset_saved (into_asset t v) now" "restore_asset t mode" "\<lambda>v (res, created). (imported ''assets'' res, a_ID v # created)" for t mode
  by unfold_locales (auto simp: step_simps restore_asset_def GetAsset_def CreateAsset_def asset_saved_def into_asset_def asset_tag_taken_def)

interpretation rs_assignments: restoring assignments "\<lambda>m w. w\<lparr>assignments := m\<rparr>" g_ID no_clash "\<lambda>g. g_AssetID g \<in> set created"
  "\<lambda>now v. assignment_saved now (v\<lparr>g_TenantID := t\<rparr>)" "restore_assignment t created" "\<lambda>_. imported ''assignments''" for t created
  by unfold_locales (auto simp: step_simps restore_assignment_def InsertAssignment_def assignment_saved_def)

interpretation rs_consumables: restoring consumables "\<lambda>m w. w\<lparr>consumables := m\<rparr>" n_ID no_clash "\<lambda>_. True"
  "\<lambda>now v. consumable_saved now (v\<lparr>n_TenantID := t\<rparr>)" "restore_consumable t mode" "\<lambda>_. imported ''consumables''" for t mode
  by unfold_locales (auto simp: step_simps restore_consumable_def GetConsumable_def CreateConsumable_def consumable_saved_def)

interpretation rs_licenses: restoring licenses "\<lambda>m w. w\<lparr>licenses := m\<rparr>" i_ID no_clash "\<lambda>_. True"
  "\<lambda>now v. license_saved now (into_license t v)" "restore_license t mode" "\<lambda>_. imported ''licenses''" for t mode
  by unfold_locales (auto simp: step_simps restore_license_def GetLicense_def CreateLicense_def license_saved_def into_license_def)

interpretation rs_policies: restoring insurance "\<lambda>m w. w\<lparr>insurance := m\<rparr>" p_ID policy_clash "\<lambda>_. True"
  "\<lambda>now v. policy_saved now (into_policy t v)" "restore_policy t mode" "\<lambda>_. imported ''insurance_policies''" for t mode
  by unfold_locales (auto simp: step_simps restore_policy_def GetInsurance_def CreateInsurance_def policy_saved_def into_policy_def)

interpretation rs_covers: restoring policyAssets "\<lambda>m w. w\<lparr>policyAssets := m\<rparr>" q_ID cover_clash "\<lambda>_. True"
  "\<lambda>now v. cover_saved now (v\<lparr>q_TenantID := t, q_CreatedAt := default_time (q_CreatedAt v) at0\<rparr>)" "restore_cover t at0" "\<lambda>_. imported ''policy_assets''" for t at0
  by unfold_locales (auto simp: step_simps restore_cover_def AddPolicyAsset_def cover_saved_def)

interpretation rs_documents: restoring documents "\<lambda>m w. w\<lparr>documents := m\<rparr>" d_ID same_object "portable t"
  "\<lambda>now v. document_saved now (v\<lparr>d_TenantID := t\<rparr>)" "restore_document t" "\<lambda>_. imported ''documents''" for t
  by unfold_locales (auto simp: step_simps restore_document_def GetDocument_def InsertDocument_def document_saved_def portable_def same_object_def)

section \<open>Restoring into an empty store\<close>

definition empty_store :: "'z mem_scheme \<Rightarrow> bool" where
  "empty_store w \<longleftrightarrow> failNext w = {} \<and> assets w = [] \<and> assignments w = [] \<and> documents w = [] \<and> categories w = [] \<and> suppliers w = [] \<and>
     locations w = [] \<and> consumables w = [] \<and> licenses w = [] \<and> insurance w = [] \<and> policyAssets w = []"

text \<open>The tables after loading a document.\<close>

definition loaded :: "string \<Rightarrow> gotime \<Rightarrow> Backup \<Rightarrow> 'z world_scheme \<Rightarrow> 'z world_scheme" where
  "loaded t now b w = w\<lparr>
     suppliers := load_rows s_ID (\<lambda>v. supplier_saved now (into_supplier t v)) (bk_Suppliers b) [],
     locations := load_rows l_ID (\<lambda>v. location_saved now (into_location t v)) (orderLocations (bk_Locations b)) [],
     categories := load_rows c_ID (\<lambda>v. category_saved now (into_category t v)) (orderCategories (bk_Categories b)) [],
     assets := load_rows a_ID (\<lambda>v. asset_saved (into_asset t v) now) (bk_Assets b) [],
     assignments := load_rows g_ID (\<lambda>v. assignment_saved now (v\<lparr>g_TenantID := t\<rparr>)) (bk_Assignments b) [],
     consumables := load_rows n_ID (\<lambda>v. consumable_saved now (v\<lparr>n_TenantID := t\<rparr>)) (bk_Consumables b) [],
     licenses := load_rows i_ID (\<lambda>v. license_saved now (into_license t v)) (bk_Licenses b) [],
     insurance := load_rows p_ID (\<lambda>v. policy_saved now (into_policy t v)) (bk_Insurance b) [],
     policyAssets := load_rows q_ID (\<lambda>v. cover_saved now (v\<lparr>q_TenantID := t, q_CreatedAt := default_time (q_CreatedAt v) now\<rparr>)) (bk_PolicyAssets b) [],
     documents := load_rows d_ID (\<lambda>v. document_saved now (v\<lparr>d_TenantID := t\<rparr>)) (bk_Documents b) []\<rparr>"

definition document_ok :: "string \<Rightarrow> gotime \<Rightarrow> Backup \<Rightarrow> bool" where
  "document_ok t now b \<longleftrightarrow>
     loadable s_ID (\<lambda>_. True) supplier_clash (\<lambda>v. supplier_saved now (into_supplier t v)) (bk_Suppliers b) \<and>
     loadable l_ID (\<lambda>_. True) location_clash (\<lambda>v. location_saved now (into_location t v)) (orderLocations (bk_Locations b)) \<and>
     loadable c_ID (\<lambda>_. True) sibling_clash (\<lambda>v. category_saved now (into_category t v)) (orderCategories (bk_Categories b)) \<and>
     loadable a_ID (\<lambda>a. a_AssetTag a \<noteq> []) tag_clash (\<lambda>v. asset_saved (into_asset t v) now) (bk_Assets b) \<and>
     loadable g_ID (\<lambda>g. g_AssetID g \<in> a_ID ` set (bk_Assets b)) no_clash (\<lambda>v. assignment_saved now (v\<lparr>g_TenantID := t\<rparr>)) (bk_Assignments b) \<and>
     loadable n_ID (\<lambda>_. True) no_clash (\<lambda>v. consumable_saved now (v\<lparr>n_TenantID := t\<rparr>)) (bk_Consumables b) \<and>
     loadable i_ID (\<lambda>_. True) no_clash (\<lambda>v. license_saved now (into_license t v)) (bk_Licenses b) \<and>
     loadable p_ID (\<lambda>_. True) policy_clash (\<lambda>v. policy_saved now (into_policy t v)) (bk_Insurance b) \<and>
     loadable q_ID (\<lambda>_. True) cover_clash (\<lambda>v. cover_saved now (v\<lparr>q_TenantID := t, q_CreatedAt := default_time (q_CreatedAt v) now\<rparr>)) (bk_PolicyAssets b) \<and>
     loadable d_ID (portable t) same_object (\<lambda>v. document_saved now (v\<lparr>d_TenantID := t\<rparr>)) (bk_Documents b)"

lemma created_all:
  "snd (fold (\<lambda>v (res, created). (imported ''assets'' res, a_ID v # created)) vs (res, cs)) = rev (map a_ID vs) @ cs"
  by (induction vs arbitrary: res cs) simp_all

lemma returns_try:
  assumes "run_state m w = (Inr x, w1)" and "\<exists>r. run_state (f x) w1 = (Inr r, w2)"
  shows "\<exists>r. run_state (try_in m f) w = (Inr r, w2)"
  using assms by (simp add: run_try_in)

lemma returns_pair:
  assumes "run_state m w = (Inr (fold (\<lambda>v (res, created). (imported ''assets'' res, a_ID v # created)) vs (res, [])), w1)"
    and "\<And>res cs. set cs = a_ID ` set vs \<Longrightarrow> \<exists>r. run_state (f (res, cs)) w1 = (Inr r, w2)"
  shows "\<exists>r. run_state (try_in m f) w = (Inr r, w2)"
proof -
  let ?x = "fold (\<lambda>v (res, created). (imported ''assets'' res, a_ID v # created)) vs (res, [])"
  have "set (snd ?x) = a_ID ` set vs" using created_all [of vs res "[]"] by simp
  then have "\<exists>r. run_state (f (fst ?x, snd ?x)) w1 = (Inr r, w2)" by (rule assms(2))
  then show ?thesis using assms(1) by (intro returns_try [OF assms(1)]) simp
qed

lemma restore_all_loads:
  assumes "empty_store w" and ok: "document_ok t (wall w) b"
  shows "\<exists>res'. run_state (restore_all t mode (wall w) b res) w = (Inr res', loaded t (wall w) b w)"
proof -
  note e = assms(1) [unfolded empty_store_def]
  note l = ok [unfolded document_ok_def]
  show ?thesis
    unfolding restore_all_def
    apply (rule returns_try, rule rs_suppliers.loop_fills; (simp add: e l)?)
    apply (rule returns_try, rule rs_locations.loop_fills; (simp add: e l)?)
    apply (rule returns_try, rule rs_categories.loop_fills; (simp add: e l)?)
    apply (rule returns_pair, rule rs_assets.loop_fills; (simp add: e l)?)
    apply (rule returns_try, rule rs_assignments.loop_fills; (simp add: e l)?)
    apply (rule returns_try, rule rs_consumables.loop_fills; (simp add: e l)?)
    apply (rule returns_try, rule rs_licenses.loop_fills; (simp add: e l)?)
    apply (rule returns_try, rule rs_policies.loop_fills; (simp add: e l)?)
    apply (rule returns_try, rule rs_covers.loop_fills; (simp add: e l)?)
    apply (subst rs_documents.loop_fills; (simp add: e l loaded_def)?)
    done
qed

section \<open>A snapshot can be loaded\<close>

lemma set_tenant_list [simp]: "set (tenant_list idf tn t m) = {v \<in> set (vals m). tn v = t}"
  by (simp add: tenant_list_def)

lemma distinct_some_rows: "tab_ok idf m \<Longrightarrow> distinct (map idf (filter P (vals m)))"
  by (intro distinct_map_filter tab_ok_ids)

lemma distinct_sorted: "distinct (map idf (sort_key k xs)) = distinct (map idf xs)"
  by (rule mset_eq_imp_distinct_iff) simp

lemma distinct_tenant_list: "tab_ok idf m \<Longrightarrow> distinct (map idf (tenant_list idf tn t m))"
  unfolding tenant_list_def by (intro distinct_paginate_all distinct_some_rows)

lemma loadable_rows:
  assumes "rows_ok idf clash m" and "\<And>v. idf (h v) = idf v" and "\<forall>v \<in> set (map h (tenant_list idf tn t m)). idf v \<noteq> [] \<and> fit v"
    and "\<And>u v. tn u = t \<Longrightarrow> tn v = t \<Longrightarrow> clash (f (h u)) (f (h v)) \<Longrightarrow> clash u v"
  shows "loadable idf fit clash f (map h (tenant_list idf tn t m))"
proof -
  have "idf \<circ> h = idf" using assms(2) by auto
  then have "distinct (map idf (map h (tenant_list idf tn t m)))"
    using distinct_tenant_list [of idf m tn t] assms(1) by (simp add: rows_ok_def)
  moreover have "\<not> clash (f u) (f v)" if u: "u \<in> set (map h (tenant_list idf tn t m))" and v: "v \<in> set (map h (tenant_list idf tn t m))" and ne: "idf u \<noteq> idf v" for u v
  proof -
    obtain u0 v0 where uv: "u = h u0" "v = h v0" "u0 \<in> set (vals m)" "v0 \<in> set (vals m)" "tn u0 = t" "tn v0 = t"
      using u v unfolding set_map [of h] set_tenant_list by blast
    then have "\<not> clash u0 v0" using assms(1,2) ne unfolding rows_ok_def by metis
    then show ?thesis using assms(4) uv by blast
  qed
  ultimately show ?thesis using assms(3) unfolding loadable_def by blast
qed

lemma loadable_perm:
  assumes "mset ys = mset xs" and "loadable idf fit clash f xs"
  shows "loadable idf fit clash f ys"
proof -
  have "mset (map idf ys) = mset (map idf xs)" using assms(1) by simp
  then have "distinct (map idf ys) = distinct (map idf xs)" by (rule mset_eq_imp_distinct_iff)
  then show ?thesis using assms(2) mset_eq_setD [OF assms(1)] by (simp add: loadable_def)
qed

lemma tab_ok_inj: "tab_ok idf m \<Longrightarrow> u \<in> set (vals m) \<Longrightarrow> v \<in> set (vals m) \<Longrightarrow> idf u = idf v \<Longrightarrow> u = v"
  using tab_ok_vals [of idf m u] tab_ok_vals [of idf m v] by (simp del: set_map)

lemma distinct_groups:
  assumes "tab_ok idf m" and "distinct xs" and "\<And>x. distinct (map idf (f x))" and "\<And>x v. v \<in> set (f x) \<Longrightarrow> v \<in> set (vals m) \<and> key v = x"
  shows "distinct (map idf (concat (map f xs)))"
  using assms(2)
proof (induction xs)
  case (Cons x xs)
  have "idf ` set (f x) \<inter> idf ` set (concat (map f xs)) = {}"
  proof (rule ccontr)
    assume "idf ` set (f x) \<inter> idf ` set (concat (map f xs)) \<noteq> {}"
    then obtain u v y where "u \<in> set (f x)" "v \<in> set (f y)" "y \<in> set xs" "idf u = idf v" by auto
    then have "x = y" using assms(4) [of u x] assms(4) [of v y] tab_ok_inj [OF assms(1), of u v] by auto
    then show False using \<open>y \<in> set xs\<close> Cons.prems by simp
  qed
  then show ?case using Cons assms(3) by simp
qed simp

lemma history_facts:
  "set (history w t i) = {g \<in> set (vals (assignments w)). g_TenantID g = t \<and> g_AssetID g = i}"
  "tab_ok g_ID (assignments w) \<Longrightarrow> distinct (map g_ID (history w t i))"
  using distinct_some_rows [of g_ID "assignments w"] by (auto simp: history_def rev_map [symmetric] distinct_sorted)

lemma covered_facts:
  "set (covered w t i) = {q \<in> set (vals (policyAssets w)). q_TenantID q = t \<and> q_PolicyID q = i}"
  "tab_ok q_ID (policyAssets w) \<Longrightarrow> distinct (map q_ID (covered w t i))"
  unfolding covered_def by (auto intro!: distinct_paginate_all distinct_some_rows)

lemma papers_facts:
  "set (papers w t e i) = {d \<in> set (vals (documents w)). d_TenantID d = t \<and> d_EntityType d = e \<and> d_EntityID d = i}"
  "tab_ok d_ID (documents w) \<Longrightarrow> distinct (map d_ID (papers w t e i))"
  unfolding papers_def by (auto intro!: distinct_paginate_all distinct_some_rows)

text \<open>The entities a backup covers, and its documents as one list.\<close>

definition entities :: "string \<Rightarrow> 'z mem_scheme \<Rightarrow> (string \<times> string) list" where
  "entities t w = map (Pair EntityAsset) (map a_ID (tenant_list a_ID a_TenantID t (assets w))) @
     map (Pair EntityConsumable) (map n_ID (tenant_list n_ID n_TenantID t (consumables w))) @
     map (Pair EntityLicense) (map i_ID (tenant_list i_ID i_TenantID t (licenses w)))"

lemma snapshot_documents: "bk_Documents (snapshot t w) = concat (map (\<lambda>(e, i). papers w t e i) (entities t w))"
  by (simp add: snapshot_def entities_def comp_def)

lemma distinct_entities:
  assumes "mem_ok w"
  shows "distinct (entities t w)"
proof -
  have "distinct (map a_ID (tenant_list a_ID a_TenantID t (assets w)))" "distinct (map n_ID (tenant_list n_ID n_TenantID t (consumables w)))"
      "distinct (map i_ID (tenant_list i_ID i_TenantID t (licenses w)))"
    using assms by (auto simp: mem_ok_def rows_ok_def intro!: distinct_tenant_list)
  then show ?thesis unfolding entities_def by (auto simp: distinct_map inj_on_def)
qed

text \<open>
  What a restore relies on beyond the tables being well formed: no row sits under a blank id, and the
  documents of the tenant are its own objects, each recorded once.
\<close>

definition named_rows :: "'z mem_scheme \<Rightarrow> bool" where
  "named_rows w \<longleftrightarrow> map_of (assignments w) [] = None \<and> map_of (consumables w) [] = None \<and> map_of (licenses w) [] = None \<and>
     map_of (policyAssets w) [] = None \<and> map_of (documents w) [] = None"

definition docs_portable :: "string \<Rightarrow> 'z mem_scheme \<Rightarrow> bool" where
  "docs_portable t w \<longleftrightarrow> (\<forall>d \<in> set (vals (documents w)). d_TenantID d = t \<longrightarrow> portable t d \<and>
     (\<forall>e \<in> set (vals (documents w)). d_TenantID e = t \<longrightarrow> d_StorageKey e = d_StorageKey d \<longrightarrow> d_ID e = d_ID d))"

lemma named_id: "tab_ok idf m \<Longrightarrow> map_of m [] = None \<Longrightarrow> v \<in> set (vals m) \<Longrightarrow> idf v \<noteq> []"
  using tab_ok_vals [of idf m v] by (auto simp del: set_map)

lemmas saved_defs = supplier_saved_def location_saved_def category_saved_def asset_saved_def assignment_saved_def consumable_saved_def
  license_saved_def policy_saved_def cover_saved_def document_saved_def into_supplier_def into_location_def into_category_def into_asset_def
  into_license_def into_policy_def scrubSupplier_def scrubLocation_def

lemma validated_rows:
  assumes "Backup_Validate b = Inr ()"
  shows "\<forall>a \<in> set (bk_Assets b). a_ID a \<noteq> [] \<and> a_AssetTag a \<noteq> []" "\<forall>s \<in> set (bk_Suppliers b). s_ID s \<noteq> []" "\<forall>l \<in> set (bk_Locations b). l_ID l \<noteq> []"
    "\<forall>c \<in> set (bk_Categories b). c_ID c \<noteq> []" "\<forall>p \<in> set (bk_Insurance b). p_ID p \<noteq> []"
  using assms by (auto simp: Backup_Validate_def list_ex_iff split: if_splits)

lemma snapshot_loads:
  assumes ok: "mem_ok w" and names: "named_rows w" and docs: "docs_portable t w" and valid: "Backup_Validate (snapshot t w) = Inr ()"
  shows "document_ok t now (snapshot t w)"
proof -
  note r = ok [unfolded mem_ok_def]
  note val = validated_rows [OF valid]
  have tabs: "tab_ok g_ID (assignments w)" "tab_ok n_ID (consumables w)" "tab_ok i_ID (licenses w)" "tab_ok q_ID (policyAssets w)" "tab_ok d_ID (documents w)"
    using r by (simp_all add: rows_ok_def)
  have "map_of (assignments w) [] = None" "map_of (consumables w) [] = None" "map_of (licenses w) [] = None"
      "map_of (policyAssets w) [] = None" "map_of (documents w) [] = None"
    using names by (simp_all add: named_rows_def)
  note nid = named_id [OF tabs(1) this(1)] named_id [OF tabs(2) this(2)] named_id [OF tabs(3) this(3)] named_id [OF tabs(4) this(4)]
    named_id [OF tabs(5) this(5)]
  have sup: "loadable s_ID (\<lambda>_. True) supplier_clash (\<lambda>v. supplier_saved now (into_supplier t v)) (bk_Suppliers (snapshot t w))"
    unfolding snapshot_def Backup.simps by (rule loadable_rows) (use r val(2) in \<open>simp_all add: snapshot_def clash_defs saved_defs\<close>)
  have loc: "loadable l_ID (\<lambda>_. True) location_clash (\<lambda>v. location_saved now (into_location t v)) (bk_Locations (snapshot t w))"
    unfolding snapshot_def Backup.simps by (rule loadable_rows) (use r val(3) in \<open>simp_all add: snapshot_def clash_defs saved_defs\<close>)
  have cat: "loadable c_ID (\<lambda>_. True) sibling_clash (\<lambda>v. category_saved now (into_category t v)) (bk_Categories (snapshot t w))"
    unfolding snapshot_def Backup.simps by (rule loadable_rows) (use r val(4) in \<open>simp_all add: snapshot_def clash_defs saved_defs\<close>)
  have ast: "loadable a_ID (\<lambda>a. a_AssetTag a \<noteq> []) tag_clash (\<lambda>v. asset_saved (into_asset t v) now) (bk_Assets (snapshot t w))"
    unfolding snapshot_def Backup.simps by (rule loadable_rows) (use r val(1) in \<open>simp_all add: snapshot_def clash_defs saved_defs\<close>)
  have con: "loadable n_ID (\<lambda>_. True) no_clash (\<lambda>v. consumable_saved now (v\<lparr>n_TenantID := t\<rparr>)) (bk_Consumables (snapshot t w))"
    using distinct_tenant_list [OF tabs(2)] nid(2) by (auto simp: snapshot_def loadable_def clash_defs simp del: set_map)
  have lic: "loadable i_ID (\<lambda>_. True) no_clash (\<lambda>v. license_saved now (into_license t v)) (bk_Licenses (snapshot t w))"
    using distinct_tenant_list [OF tabs(3)] nid(3) by (auto simp: snapshot_def loadable_def clash_defs simp del: set_map)
  have pol: "loadable p_ID (\<lambda>_. True) policy_clash (\<lambda>v. policy_saved now (into_policy t v)) (bk_Insurance (snapshot t w))"
    unfolding snapshot_def Backup.simps by (rule loadable_rows) (use r val(5) in \<open>simp_all add: snapshot_def clash_defs saved_defs\<close>)
  have dist: "distinct (map a_ID (tenant_list a_ID a_TenantID t (assets w)))" "distinct (map p_ID (tenant_list p_ID p_TenantID t (insurance w)))"
    using r by (auto simp: rows_ok_def intro!: distinct_tenant_list)
  have "distinct (map g_ID (bk_Assignments (snapshot t w)))"
    unfolding snapshot_def Backup.simps
    by (rule distinct_groups [OF tabs(1) dist(1), where key = g_AssetID]) (auto simp: history_facts tabs)
  moreover have "set (bk_Assignments (snapshot t w)) \<subseteq> {g \<in> set (vals (assignments w)). g_AssetID g \<in> a_ID ` set (bk_Assets (snapshot t w))}"
    by (fastforce simp: snapshot_def history_facts image_image)
  ultimately have asg: "loadable g_ID (\<lambda>g. g_AssetID g \<in> a_ID ` set (bk_Assets (snapshot t w))) no_clash
      (\<lambda>v. assignment_saved now (v\<lparr>g_TenantID := t\<rparr>)) (bk_Assignments (snapshot t w))"
    using nid(1) unfolding loadable_def by (auto simp: clash_defs simp del: set_map)
  have "distinct (map q_ID (bk_PolicyAssets (snapshot t w)))"
    unfolding snapshot_def Backup.simps
    by (rule distinct_groups [OF tabs(4) dist(2), where key = q_PolicyID]) (auto simp: covered_facts tabs)
  moreover have "set (bk_PolicyAssets (snapshot t w)) \<subseteq> set (vals (policyAssets w))" by (auto simp: snapshot_def covered_facts)
  moreover have "\<not> cover_clash u v" if "u \<in> set (vals (policyAssets w))" "v \<in> set (vals (policyAssets w))" "q_ID u \<noteq> q_ID v" for u v
    using r that unfolding rows_ok_def by blast
  ultimately have cov: "loadable q_ID (\<lambda>_. True) cover_clash
      (\<lambda>v. cover_saved now (v\<lparr>q_TenantID := t, q_CreatedAt := default_time (q_CreatedAt v) now\<rparr>)) (bk_PolicyAssets (snapshot t w))"
    using nid(4) unfolding loadable_def by (simp add: cover_saved_def cover_clash_def del: set_map) blast
  have "distinct (map d_ID (bk_Documents (snapshot t w)))"
    unfolding snapshot_documents
    by (rule distinct_groups [OF tabs(5) distinct_entities [OF ok], where key = "\<lambda>d. (d_EntityType d, d_EntityID d)"]) (auto simp: papers_facts tabs)
  moreover have "set (bk_Documents (snapshot t w)) \<subseteq> {d \<in> set (vals (documents w)). d_TenantID d = t}"
    unfolding snapshot_documents by (auto simp: papers_facts)
  ultimately have doc: "loadable d_ID (portable t) same_object (\<lambda>v. document_saved now (v\<lparr>d_TenantID := t\<rparr>)) (bk_Documents (snapshot t w))"
    using nid(5) docs unfolding loadable_def docs_portable_def
    by (auto simp: document_saved_def same_object_def subset_iff simp del: set_map)
  have perm: "mset (orderLocations (bk_Locations (snapshot t w))) = mset (bk_Locations (snapshot t w))"
      "mset (orderCategories (bk_Categories (snapshot t w))) = mset (bk_Categories (snapshot t w))"
    using loc cat unfolding loadable_def orderLocations_def orderCategories_def by (auto intro: order_rows_mset)
  show ?thesis
    unfolding document_ok_def
    using sup loadable_perm [OF perm(1) loc] loadable_perm [OF perm(2) cat] ast asg con lic pol cov doc by blast
qed

section \<open>The round trip\<close>

text \<open>\<open>restored P f m m'\<close>: the table \<open>m'\<close> holds exactly the rows of \<open>m\<close> with \<open>P\<close>, each as \<open>f\<close> of what it was.\<close>

definition restored :: "('v \<Rightarrow> bool) \<Rightarrow> ('v \<Rightarrow> 'v) \<Rightarrow> 'v tab \<Rightarrow> 'v tab \<Rightarrow> bool" where
  "restored P f m m' \<longleftrightarrow> (\<forall>i. map_of m' i = (case map_of m i of Some v \<Rightarrow> if P v then Some (f v) else None | None \<Rightarrow> None))"

lemma option_eqI: "(\<And>x. a = Some x \<longleftrightarrow> b = Some x) \<Longrightarrow> a = b"
  by (cases a; cases b) auto

lemma restored_load:
  assumes "tab_ok idf m" and "distinct (map idf vs)" and "set vs = h ` {v \<in> set (vals m). P v}"
    and "\<And>v. idf (h v) = idf v" and "\<And>v. P v \<Longrightarrow> g (h v) = f v"
  shows "restored P f m (load_rows idf g vs [])"
  unfolding restored_def
proof
  fix i
  have look: "map_of (load_rows idf g vs []) i = Some x \<longleftrightarrow> (\<exists>v \<in> set (vals m). P v \<and> idf v = i \<and> x = f v)" for x
    unfolding load_rows_def fold_update_lookup [OF assms(2)] assms(3) using assms(4,5) by (auto simp del: set_map)
  have row: "v \<in> set (vals m) \<and> idf v = i \<longleftrightarrow> map_of m i = Some v" for v
    using tab_ok_vals [OF assms(1), of v] tab_ok_lookup [OF assms(1), of i v] by (auto simp del: set_map)
  have "map_of (load_rows idf g vs []) i = Some x \<longleftrightarrow> (case map_of m i of Some v \<Rightarrow> if P v then Some (f v) else None | None \<Rightarrow> None) = Some x" for x
  proof (cases "map_of m i")
    case None
    then have "\<not> (v \<in> set (vals m) \<and> idf v = i)" for v using row [of v] by simp
    then show ?thesis using look [of x] None by auto
  next
    case (Some v)
    then have "u \<in> set (vals m) \<and> idf u = i \<longleftrightarrow> u = v" for u using row [of u] by auto
    then have "map_of (load_rows idf g vs []) i = Some x \<longleftrightarrow> P v \<and> x = f v" unfolding look by metis
    then show ?thesis using Some by auto
  qed
  then show "map_of (load_rows idf g vs []) i = (case map_of m i of Some v \<Rightarrow> if P v then Some (f v) else None | None \<Rightarrow> None)"
    by (rule option_eqI)
qed

text \<open>The documents an export covers: those of an asset, a consumable or a license of the tenant.\<close>

definition attached_to :: "string \<Rightarrow> 'z mem_scheme \<Rightarrow> Document \<Rightarrow> bool" where
  "attached_to t w d \<longleftrightarrow> (d_EntityType d = EntityAsset \<and> has_row a_TenantID (assets w) t (d_EntityID d)) \<or>
     (d_EntityType d = EntityConsumable \<and> has_row n_TenantID (consumables w) t (d_EntityID d)) \<or>
     (d_EntityType d = EntityLicense \<and> has_row i_TenantID (licenses w) t (d_EntityID d))"

lemma tenant_ids:
  assumes "tab_ok idf m"
  shows "i \<in> idf ` {v \<in> set (vals m). tn v = t} \<longleftrightarrow> has_row tn m t i"
proof -
  have "v \<in> set (vals m) \<and> idf v = i \<longleftrightarrow> map_of m i = Some v" for v
    using tab_ok_vals [OF assms, of v] tab_ok_lookup [OF assms, of i v] by (auto simp del: set_map)
  then have "(\<exists>v. v \<in> set (vals m) \<and> tn v = t \<and> idf v = i) \<longleftrightarrow> has_row tn m t i" unfolding has_row_def by metis
  then show ?thesis by (auto simp del: set_map)
qed

lemma tenant_keys: "tab_ok idf m \<Longrightarrow> set (map idf (tenant_list idf tn t m)) = {i. has_row tn m t i}"
  using tenant_ids [of idf m _ tn t] unfolding set_map [of idf] set_tenant_list by blast

definition restored_rows :: "string \<Rightarrow> gotime \<Rightarrow> 'z world_scheme \<Rightarrow> 'y world_scheme \<Rightarrow> bool" where
  "restored_rows t now w v \<longleftrightarrow>
     restored (\<lambda>s. s_TenantID s = t) (\<lambda>s. supplier_saved now (scrubSupplier s)) (suppliers w) (suppliers v) \<and>
     restored (\<lambda>l. l_TenantID l = t) (\<lambda>l. location_saved now (scrubLocation l)) (locations w) (locations v) \<and>
     restored (\<lambda>c. c_TenantID c = t) (\<lambda>c. category_saved now (c\<lparr>c_AssetCount := 0, c_ChildCount := 0\<rparr>)) (categories w) (categories v) \<and>
     restored (\<lambda>a. a_TenantID a = t) (\<lambda>a. asset_saved (a\<lparr>a_BookValue := 0\<rparr>) now) (assets w) (assets v) \<and>
     restored (\<lambda>g. g_TenantID g = t \<and> has_row a_TenantID (assets w) t (g_AssetID g)) (assignment_saved now) (assignments w) (assignments v) \<and>
     restored (\<lambda>n. n_TenantID n = t) (consumable_saved now) (consumables w) (consumables v) \<and>
     restored (\<lambda>l. i_TenantID l = t) (license_saved now) (licenses w) (licenses v) \<and>
     restored (\<lambda>p. p_TenantID p = t) (\<lambda>p. policy_saved now (p\<lparr>p_AssetCount := 0\<rparr>)) (insurance w) (insurance v) \<and>
     restored (\<lambda>q. q_TenantID q = t \<and> has_row p_TenantID (insurance w) t (q_PolicyID q)) (cover_saved now) (policyAssets w) (policyAssets v) \<and>
     restored (\<lambda>d. d_TenantID d = t \<and> attached_to t w d) (document_saved now) (documents w) (documents v)"

lemma into_own:
  "s_TenantID s = t \<Longrightarrow> into_supplier t (scrubSupplier s) = scrubSupplier s" "l_TenantID l = t \<Longrightarrow> into_location t (scrubLocation l) = scrubLocation l"
  "c_TenantID c = t \<Longrightarrow> into_category t (c\<lparr>c_AssetCount := 0, c_ChildCount := 0\<rparr>) = c\<lparr>c_AssetCount := 0, c_ChildCount := 0\<rparr>"
  "a_TenantID a = t \<Longrightarrow> asset_saved (into_asset t (a\<lparr>a_BookValue := 0\<rparr>)) now = asset_saved (a\<lparr>a_BookValue := 0\<rparr>) now"
  "g_TenantID g = t \<Longrightarrow> g\<lparr>g_TenantID := t\<rparr> = g" "n_TenantID n = t \<Longrightarrow> n\<lparr>n_TenantID := t\<rparr> = n"
  "i_TenantID i = t \<Longrightarrow> license_saved now (into_license t i) = license_saved now i"
  "p_TenantID p = t \<Longrightarrow> policy_saved now (into_policy t (p\<lparr>p_AssetCount := 0\<rparr>)) = policy_saved now (p\<lparr>p_AssetCount := 0\<rparr>)"
  "q_TenantID q = t \<Longrightarrow> cover_saved now (q\<lparr>q_TenantID := t, q_CreatedAt := default_time (q_CreatedAt q) now\<rparr>) = cover_saved now q"
  "d_TenantID d = t \<Longrightarrow> d\<lparr>d_TenantID := t\<rparr> = d"
  by (auto simp: saved_defs default_text_def default_time_def)

lemma scrub_ids [simp]: "s_ID (scrubSupplier s) = s_ID s" "l_ID (scrubLocation l) = l_ID l"
  by (simp_all add: scrubSupplier_def scrubLocation_def)

lemma snapshot_restored:
  assumes ok: "mem_ok w" and doc: "document_ok t now (snapshot t w)"
  shows "restored_rows t now w (loaded t now (snapshot t w) v)"
proof -
  note l = doc [unfolded document_ok_def loadable_def]
  have tabs: "tab_ok a_ID (assets w)" "tab_ok g_ID (assignments w)" "tab_ok d_ID (documents w)" "tab_ok c_ID (categories w)" "tab_ok s_ID (suppliers w)"
      "tab_ok l_ID (locations w)" "tab_ok n_ID (consumables w)" "tab_ok i_ID (licenses w)" "tab_ok p_ID (insurance w)" "tab_ok q_ID (policyAssets w)"
    using ok by (simp_all add: mem_ok_def rows_ok_def)
  have "distinct (map l_ID (bk_Locations (snapshot t w)))" "distinct (map c_ID (bk_Categories (snapshot t w)))"
    using distinct_tenant_list [OF tabs(6), of l_TenantID t] distinct_tenant_list [OF tabs(4), of c_TenantID t]
    by (simp_all add: snapshot_def comp_def scrubLocation_def)
  then have sets: "set (orderLocations (bk_Locations (snapshot t w))) = set (bk_Locations (snapshot t w))"
      "set (orderCategories (bk_Categories (snapshot t w))) = set (bk_Categories (snapshot t w))"
    unfolding orderLocations_def orderCategories_def using order_rows_mset mset_eq_setD by blast+
  have docs: "set (bk_Documents (snapshot t w)) = {d \<in> set (vals (documents w)). d_TenantID d = t \<and> attached_to t w d}"
  proof -
    have "set (entities t w) = {(e, i). (e = EntityAsset \<and> has_row a_TenantID (assets w) t i) \<or>
        (e = EntityConsumable \<and> has_row n_TenantID (consumables w) t i) \<or> (e = EntityLicense \<and> has_row i_TenantID (licenses w) t i)}"
      unfolding entities_def set_append set_map [of "Pair _"] tenant_keys [OF tabs(1)] tenant_keys [OF tabs(7)] tenant_keys [OF tabs(8)]
      by auto
    then show ?thesis unfolding snapshot_documents by (auto simp: papers_facts attached_to_def)
  qed
  have asgs: "set (bk_Assignments (snapshot t w)) = {g \<in> set (vals (assignments w)). g_TenantID g = t \<and> has_row a_TenantID (assets w) t (g_AssetID g)}"
    unfolding snapshot_def Backup.simps set_concat set_map [of "history w t"] tenant_keys [OF tabs(1)] by (auto simp: history_facts)
  have covs: "set (bk_PolicyAssets (snapshot t w)) = {q \<in> set (vals (policyAssets w)). q_TenantID q = t \<and> has_row p_TenantID (insurance w) t (q_PolicyID q)}"
    unfolding snapshot_def Backup.simps set_concat set_map [of "covered w t"] tenant_keys [OF tabs(9)] by (auto simp: covered_facts)
  have rows: "set (bk_Suppliers (snapshot t w)) = scrubSupplier ` {v \<in> set (vals (suppliers w)). s_TenantID v = t}"
      "set (bk_Locations (snapshot t w)) = scrubLocation ` {v \<in> set (vals (locations w)). l_TenantID v = t}"
      "set (bk_Categories (snapshot t w)) = (\<lambda>c. c\<lparr>c_AssetCount := 0, c_ChildCount := 0\<rparr>) ` {v \<in> set (vals (categories w)). c_TenantID v = t}"
      "set (bk_Assets (snapshot t w)) = (\<lambda>a. a\<lparr>a_BookValue := 0\<rparr>) ` {v \<in> set (vals (assets w)). a_TenantID v = t}"
      "set (bk_Consumables (snapshot t w)) = {v \<in> set (vals (consumables w)). n_TenantID v = t}"
      "set (bk_Licenses (snapshot t w)) = {v \<in> set (vals (licenses w)). i_TenantID v = t}"
      "set (bk_Insurance (snapshot t w)) = (\<lambda>p. p\<lparr>p_AssetCount := 0\<rparr>) ` {v \<in> set (vals (insurance w)). p_TenantID v = t}"
    by (simp_all add: snapshot_def)
  note rows = rows asgs covs docs
  have dist: "distinct (map s_ID (bk_Suppliers (snapshot t w)))" "distinct (map l_ID (orderLocations (bk_Locations (snapshot t w))))"
      "distinct (map c_ID (orderCategories (bk_Categories (snapshot t w))))" "distinct (map a_ID (bk_Assets (snapshot t w)))"
      "distinct (map g_ID (bk_Assignments (snapshot t w)))" "distinct (map n_ID (bk_Consumables (snapshot t w)))"
      "distinct (map i_ID (bk_Licenses (snapshot t w)))" "distinct (map p_ID (bk_Insurance (snapshot t w)))"
      "distinct (map q_ID (bk_PolicyAssets (snapshot t w)))" "distinct (map d_ID (bk_Documents (snapshot t w)))"
    using l by blast+
  have r1: "restored (\<lambda>s. s_TenantID s = t) (\<lambda>s. supplier_saved now (scrubSupplier s)) (suppliers w) (load_rows s_ID (\<lambda>v. supplier_saved now (into_supplier t v)) (bk_Suppliers (snapshot t w)) [])"
    by (rule restored_load [OF tabs(5) dist(1), where h = "scrubSupplier"]) (simp_all add: sets rows into_own del: set_map)
  have r2: "restored (\<lambda>l. l_TenantID l = t) (\<lambda>l. location_saved now (scrubLocation l)) (locations w) (load_rows l_ID (\<lambda>v. location_saved now (into_location t v)) (orderLocations (bk_Locations (snapshot t w))) [])"
    by (rule restored_load [OF tabs(6) dist(2), where h = "scrubLocation"]) (simp_all add: sets rows into_own del: set_map)
  have r3: "restored (\<lambda>c. c_TenantID c = t) (\<lambda>c. category_saved now (c\<lparr>c_AssetCount := 0, c_ChildCount := 0\<rparr>)) (categories w) (load_rows c_ID (\<lambda>v. category_saved now (into_category t v)) (orderCategories (bk_Categories (snapshot t w))) [])"
    by (rule restored_load [OF tabs(4) dist(3), where h = "\<lambda>c. c\<lparr>c_AssetCount := 0, c_ChildCount := 0\<rparr>"]) (simp_all add: sets rows into_own del: set_map)
  have r4: "restored (\<lambda>a. a_TenantID a = t) (\<lambda>a. asset_saved (a\<lparr>a_BookValue := 0\<rparr>) now) (assets w) (load_rows a_ID (\<lambda>v. asset_saved (into_asset t v) now) (bk_Assets (snapshot t w)) [])"
    by (rule restored_load [OF tabs(1) dist(4), where h = "\<lambda>a. a\<lparr>a_BookValue := 0\<rparr>"]) (simp_all add: sets rows into_own del: set_map)
  have r5: "restored (\<lambda>g. g_TenantID g = t \<and> has_row a_TenantID (assets w) t (g_AssetID g)) (assignment_saved now) (assignments w) (load_rows g_ID (\<lambda>v. assignment_saved now (v\<lparr>g_TenantID := t\<rparr>)) (bk_Assignments (snapshot t w)) [])"
    by (rule restored_load [OF tabs(2) dist(5), where h = "\<lambda>g. g"]) (simp_all add: sets rows into_own del: set_map)
  have r6: "restored (\<lambda>n. n_TenantID n = t) (consumable_saved now) (consumables w) (load_rows n_ID (\<lambda>v. consumable_saved now (v\<lparr>n_TenantID := t\<rparr>)) (bk_Consumables (snapshot t w)) [])"
    by (rule restored_load [OF tabs(7) dist(6), where h = "\<lambda>n. n"]) (simp_all add: sets rows into_own del: set_map)
  have r7: "restored (\<lambda>l. i_TenantID l = t) (license_saved now) (licenses w) (load_rows i_ID (\<lambda>v. license_saved now (into_license t v)) (bk_Licenses (snapshot t w)) [])"
    by (rule restored_load [OF tabs(8) dist(7), where h = "\<lambda>l. l"]) (simp_all add: sets rows into_own del: set_map)
  have r8: "restored (\<lambda>p. p_TenantID p = t) (\<lambda>p. policy_saved now (p\<lparr>p_AssetCount := 0\<rparr>)) (insurance w) (load_rows p_ID (\<lambda>v. policy_saved now (into_policy t v)) (bk_Insurance (snapshot t w)) [])"
    by (rule restored_load [OF tabs(9) dist(8), where h = "\<lambda>p. p\<lparr>p_AssetCount := 0\<rparr>"]) (simp_all add: sets rows into_own del: set_map)
  have r9: "restored (\<lambda>q. q_TenantID q = t \<and> has_row p_TenantID (insurance w) t (q_PolicyID q)) (cover_saved now) (policyAssets w) (load_rows q_ID (\<lambda>v. cover_saved now (v\<lparr>q_TenantID := t, q_CreatedAt := default_time (q_CreatedAt v) now\<rparr>)) (bk_PolicyAssets (snapshot t w)) [])"
    by (rule restored_load [OF tabs(10) dist(9), where h = "\<lambda>q. q"]) (simp_all add: sets rows into_own del: set_map)
  have r10: "restored (\<lambda>d. d_TenantID d = t \<and> attached_to t w d) (document_saved now) (documents w) (load_rows d_ID (\<lambda>v. document_saved now (v\<lparr>d_TenantID := t\<rparr>)) (bk_Documents (snapshot t w)) [])"
    by (rule restored_load [OF tabs(3) dist(10), where h = "\<lambda>d. d"]) (simp_all add: sets rows into_own del: set_map)
  show ?thesis unfolding restored_rows_def loaded_def using r1 r2 r3 r4 r5 r6 r7 r8 r9 r10 by simp
qed

text \<open>
  C36: the round trip of a backup. What a tenant exports and imports into an empty store, in either
  mode, is what the tenant had: every supplier, location, category, asset, consumable, license and
  policy under its id, the history of its assets, the cover of its policies, and the documents of
  its assets, consumables and licenses, and nothing else; contact data is gone, counters and book
  values are recomputed on reading, and the store stamps the time of the restore.
\<close>

theorem backup_roundtrip:
  assumes "run_state (Export rc subj) w = (Inr b, w1)" and "failNext w = {}" and "mem_ok w" and "named_rows w"
    and "docs_portable (TenantID subj) w" and "Backup_Validate b = Inr ()" and "empty_store v"
    and "TenantID subj' = TenantID subj" and "io_TenantID opts = []" and "\<not> io_Full opts"
    and "run_state (Import rc' subj' b opts) v = (r, v')"
  shows "(\<exists>res. r = Inr res) \<and> restored_rows (TenantID subj) (wall v) w v'"
proof -
  let ?t = "TenantID subj"
  have req: "RequireTenant subj ?t = Inr ()"
    using assms(1) by (cases "RequireTenant subj ?t") (simp_all add: Export_def in_tenant_def)
  then have t: "?t \<noteq> []" by (auto simp: RequireTenant_def)
  have b: "b = snapshot ?t w" using Export_run [OF assms(2) req, of rc] assms(1) by simp
  have doc: "document_ok ?t (wall v) b"
    using snapshot_loads [OF assms(3-5)] assms(6) unfolding b by simp
  have gates: "import_target subj' opts = ?t" "import_allowed subj' opts" "bk_TenantID b = ?t"
    using assms(8-10) by (simp_all add: import_target_def import_allowed_def default_text_def b snapshot_def)
  let ?mode = "if io_Mode opts = ModeOverwrite then ModeOverwrite else ModeSkip"
  obtain res where load: "run_state (restore_all ?t ?mode (wall v) b no_import) v = (Inr res, loaded ?t (wall v) b v)"
    using restore_all_loads [OF assms(7) doc] by blast
  have "run_state (import_load rc' subj' b opts) v = (r, v')"
    using assms(11) t gates(2) assms(6,8) by (simp add: Import_gates)
  then have "r = Inr res" and v': "\<exists>e. run_state (Emit (folding rc') (attached rc') e) (loaded ?t (wall v) b v) = ((), v')"
    using load gates(1,3) assms(10) by (auto simp: import_load_def wipe_first_def Let_def run_try_in split: prod.splits)
  obtain e where "run_state (Emit (folding rc') (attached rc') e) (loaded ?t (wall v) b v) = ((), v')" using v' ..
  then have "core v' = core (loaded ?t (wall v) b v)" using quiet_Emit unfolding quiet_def by (metis snd_conv)
  note tables = core_tables [OF this]
  have "restored_rows ?t (wall v) w (loaded ?t (wall v) b v)"
    using snapshot_restored [OF assms(3)] doc unfolding b by blast
  then have "restored_rows ?t (wall v) w v'" unfolding restored_rows_def tables .
  then show ?thesis using \<open>r = Inr res\<close> by blast
qed

subsection \<open>A concrete round trip\<close>

definition kept_demo :: world where
  "kept_demo = world_demo\<lparr>licenses := [(''L'', license_demo)],
     suppliers := [(''s1'', zero_supplier\<lparr>s_ID := ''s1'', s_TenantID := ''t'', s_Name := ''acme'', s_Email := ''sealed''\<rparr>)]\<rparr>"

definition quiet_rec :: Recorder where
  "quiet_rec = \<lparr>attached = True, folding = (\<lambda>s. s)\<rparr>"

definition own_import :: ImportOptions where
  "own_import = \<lparr>io_Mode = ModeSkip, io_TenantID = [], io_Full = False\<rparr>"

definition restored_demo :: "(ImportResult \<times> backup_err + ImportResult) \<times> world" where
  "restored_demo = run_state (Import quiet_rec alice (snapshot ''t'' kept_demo) own_import) world_demo"

lemma kept_demo_ok:
  "failNext kept_demo = {}" "mem_ok kept_demo" "named_rows kept_demo" "docs_portable (TenantID alice) kept_demo" "empty_store world_demo"
  by (simp_all add: kept_demo_def world_demo_def mem_ok_def rows_ok_def tab_ok_def named_rows_def docs_portable_def empty_store_def license_demo_def)

theorem backup_roundtrip_witness:
  "\<exists>res. fst restored_demo = Inr res \<and> restored_rows ''t'' 5 kept_demo (snd restored_demo) \<and>
     map_of (licenses (snd restored_demo)) ''L'' = Some (license_saved 5 license_demo) \<and>
     map_option s_Email (map_of (suppliers (snd restored_demo)) ''s1'') = Some []"
proof -
  have t: "TenantID alice = ''t''" "RequireTenant alice ''t'' = Inr ()" "wall world_demo = 5"
    by (simp_all add: alice_def RequireTenant_def world_demo_def)
  have ex: "run_state (Export quiet_rec alice) kept_demo = (Inr (snapshot ''t'' kept_demo), snd (run_state (Export quiet_rec alice) kept_demo))"
    using Export_run [OF kept_demo_ok(1), of alice quiet_rec] t by (metis prod.collapse)
  have valid: "Backup_Validate (snapshot ''t'' kept_demo) = Inr ()" by code_simp
  have opts: "io_TenantID own_import = []" "\<not> io_Full own_import" by (simp_all add: own_import_def)
  have im: "run_state (Import quiet_rec alice (snapshot ''t'' kept_demo) own_import) world_demo = (fst restored_demo, snd restored_demo)"
    by (simp add: restored_demo_def)
  have rows: "(\<exists>res. fst restored_demo = Inr res) \<and> restored_rows ''t'' 5 kept_demo (snd restored_demo)"
    using backup_roundtrip [OF ex kept_demo_ok(1-4) valid kept_demo_ok(5) refl opts im] t by simp
  then have "map_of (licenses (snd restored_demo)) ''L'' = Some (license_saved 5 license_demo)"
      "map_option s_Email (map_of (suppliers (snd restored_demo)) ''s1'') = Some []"
    by (auto simp: restored_rows_def restored_def kept_demo_def license_demo_def supplier_saved_def scrubSupplier_def)
  then show ?thesis using rows by blast
qed


end
