(* ===== verification/Trees.thy ===== *)
theory Trees
  imports Flow
begin

text \<open>
  Trees kept as parent ids, as the categories and the locations are. Both packages have the same
  \<^verbatim>\<open>isAncestor\<close> and \<^verbatim>\<open>BuildTree\<close>, so they are written here once, for rows with an id and a parent id. The ancestor
  walk and the tree are proved against the parent relation, and the locale \<open>parent_tree\<close> shows how
  the checks of the services keep a table a forest.
\<close>

section \<open>The code\<close>

text \<open>\<^verbatim>\<open>isAncestor\<close>: the loop over the parents of \<open>candidate\<close>, with the ids already seen.\<close>

function anc_walk :: "('v \<Rightarrow> string) \<Rightarrow> 'v tab \<Rightarrow> string \<Rightarrow> string list \<Rightarrow> string \<Rightarrow> bool" where
  "anc_walk par nodes i seen cur =
     (if cur = [] \<or> cur \<in> set seen then False
      else case map_of nodes cur of
        None \<Rightarrow> False
      | Some n \<Rightarrow> if par n = i then True else anc_walk par nodes i (cur # seen) (par n))"
  by pat_completeness auto

termination
proof (relation "measure (\<lambda>(par, nodes, i, seen, cur). card (fst ` set nodes - set seen))")
  fix par :: "'v \<Rightarrow> string" and nodes :: "'v tab" and i seen cur n
  assume "\<not> (cur = [] \<or> cur \<in> set seen)" and n: "map_of nodes cur = Some n"
  then have "cur \<in> fst ` set nodes - set seen"
    by (force dest: map_of_SomeD)
  then have "fst ` set nodes - set (cur # seen) \<subset> fst ` set nodes - set seen"
    by auto
  then show "((par, nodes, i, cur # seen, par n), (par, nodes, i, seen, cur)) \<in> measure (\<lambda>(par, nodes, i, seen, cur). card (fst ` set nodes - set seen))"
    by (simp add: psubset_card_mono)
qed simp

declare anc_walk.simps [simp del]

definition isAncestor :: "('v \<Rightarrow> string) \<Rightarrow> 'v tab \<Rightarrow> string \<Rightarrow> string \<Rightarrow> bool" where
  "isAncestor par nodes i candidate = anc_walk par nodes i [] candidate"

text \<open>\<^verbatim>\<open>for _, r := range rows { nodes[r.ID] = &Node{Category: r} }\<close>\<close>

definition node_map :: "('v \<Rightarrow> string) \<Rightarrow> 'v list \<Rightarrow> 'v tab" where
  "node_map idf rows = foldl (\<lambda>m r. AList.update (idf r) r m) [] rows"

text \<open>
  The pointer graph \<^verbatim>\<open>BuildTree\<close> returns: for each node the ids of its children in the order they were
  appended, and the roots.
\<close>

record Forest =
  kids :: "string list tab"
  roots :: "string list"

definition nests :: "('v \<Rightarrow> string) \<Rightarrow> ('v \<Rightarrow> string) \<Rightarrow> 'v tab \<Rightarrow> 'v \<Rightarrow> bool" where
  "nests idf par nodes c \<longleftrightarrow> map_of nodes (par c) \<noteq> None \<and> par c \<noteq> idf c \<and> \<not> isAncestor par nodes (idf c) (par c)"

definition link_node :: "('v \<Rightarrow> string) \<Rightarrow> ('v \<Rightarrow> string) \<Rightarrow> 'v tab \<Rightarrow> Forest \<Rightarrow> 'v \<Rightarrow> Forest" where
  "link_node idf par nodes f c =
     (if nests idf par nodes c
      then f\<lparr>kids := AList.update (par c) ((case map_of (kids f) (par c) of None \<Rightarrow> [] | Some l \<Rightarrow> l) @ [idf c]) (kids f)\<rparr>
      else f\<lparr>roots := roots f @ [idf c]\<rparr>)"

definition BuildTree :: "('v \<Rightarrow> string) \<Rightarrow> ('v \<Rightarrow> string) \<Rightarrow> 'v list \<Rightarrow> Forest" where
  "BuildTree idf par rows = foldl (link_node idf par (node_map idf rows)) \<lparr>kids = map (\<lambda>(k, c). (k, [])) (node_map idf rows), roots = []\<rparr> rows"

section \<open>The ancestor walk\<close>

text \<open>An edge leads from the id of a row to the id of its parent.\<close>

definition parent_rel :: "('v \<Rightarrow> string) \<Rightarrow> 'v tab \<Rightarrow> (string \<times> string) set" where
  "parent_rel par nodes = {(a, b). a \<noteq> [] \<and> (\<exists>n. map_of nodes a = Some n \<and> par n = b)}"

text \<open>
  In a relation with at most one successor, a path that starts with the edge from \<open>x\<close> to \<open>p\<close> can be
  taken so that it does not leave \<open>x\<close> a second time.
\<close>

lemma avoid_source:
  assumes "single_valued R" and "(x, p) \<in> R" and "(y, i) \<in> R\<^sup>+"
  shows "(y, i) \<in> {(a, b) \<in> R. a \<noteq> x}\<^sup>+ \<or> p = i \<or> (p, i) \<in> {(a, b) \<in> R. a \<noteq> x}\<^sup>+"
  using assms(3)
proof (induction rule: converse_trancl_induct)
  case (base y)
  then show ?case using assms(1,2) by (cases "y = x") (auto dest: single_valuedD)
next
  case (step y z)
  then show ?case
    using assms(1,2) by (cases "y = x") (auto dest: single_valuedD intro: trancl_into_trancl2)
qed

lemma single_valued_parent: "single_valued {(a, b) \<in> parent_rel par nodes. a \<notin> S}"
  by (auto simp: single_valued_def parent_rel_def)

lemma anc_walk_iff: "anc_walk par nodes i seen cur \<longleftrightarrow> (cur, i) \<in> {(a, b) \<in> parent_rel par nodes. a \<notin> set seen}\<^sup>+"
proof (induction par nodes i seen cur rule: anc_walk.induct)
  case (1 par nodes i seen cur)
  let ?R = "\<lambda>S. {(a, b) \<in> parent_rel par nodes. a \<notin> S}"
  show ?case
  proof (cases "cur = [] \<or> cur \<in> set seen \<or> map_of nodes cur = None")
    case True
    then have "(cur, z) \<notin> ?R (set seen)" for z by (auto simp: parent_rel_def)
    then have "(cur, i) \<notin> (?R (set seen))\<^sup>+" by (meson tranclD)
    with True show ?thesis by (subst anc_walk.simps) (auto split: option.split)
  next
    case False
    then obtain n where n: "map_of nodes cur = Some n" by blast
    have edge: "(cur, par n) \<in> ?R (set seen)" using False n by (auto simp: parent_rel_def)
    have less: "{(a, b) \<in> ?R (set seen). a \<noteq> cur} = ?R (set (cur # seen))" by auto
    have "(cur, i) \<in> (?R (set seen))\<^sup>+ \<longleftrightarrow> par n = i \<or> (par n, i) \<in> (?R (set (cur # seen)))\<^sup>+"
    proof
      assume "(cur, i) \<in> (?R (set seen))\<^sup>+"
      then have "par n = i \<or> (par n, i) \<in> (?R (set seen))\<^sup>+"
        by (rule converse_tranclE) (use single_valuedD [OF single_valued_parent edge] in fast)+
      then show "par n = i \<or> (par n, i) \<in> (?R (set (cur # seen)))\<^sup>+"
        using avoid_source [OF single_valued_parent edge] unfolding less by blast
    next
      assume "par n = i \<or> (par n, i) \<in> (?R (set (cur # seen)))\<^sup>+"
      moreover have "(?R (set (cur # seen)))\<^sup>+ \<subseteq> (?R (set seen))\<^sup>+" by (rule trancl_mono_subset) auto
      ultimately show "(cur, i) \<in> (?R (set seen))\<^sup>+"
        using edge by (blast intro: trancl_into_trancl2)
    qed
    with False n 1 show ?thesis by (subst anc_walk.simps) simp
  qed
qed

lemma isAncestor_iff: "isAncestor par nodes i candidate \<longleftrightarrow> (candidate, i) \<in> (parent_rel par nodes)\<^sup>+"
  by (simp add: isAncestor_def anc_walk_iff)


section \<open>The tree that is built\<close>

lemma map_of_node_map:
  assumes "distinct (map idf rows)"
  shows "map_of (node_map idf rows) k = find (\<lambda>r. idf r = k) rows"
proof -
  have "map_of (foldl (\<lambda>m r. AList.update (idf r) r m) m rows) k =
      (case find (\<lambda>r. idf r = k) rows of Some r \<Rightarrow> Some r | None \<Rightarrow> map_of m k)" for m
    using assms
  proof (induction rows arbitrary: m)
    case (Cons a rows)
    have "idf a = k \<Longrightarrow> find (\<lambda>r. idf r = k) rows = None"
      using Cons.prems by (auto simp: find_None_iff) (metis imageI)
    with Cons show ?case by (cases "idf a = k") (simp_all add: update_conv split: option.split)
  qed simp
  from this [of "[]"] show ?thesis
    by (simp add: node_map_def split: option.split)
qed

lemma node_map_Some:
  assumes "distinct (map idf rows)"
  shows "map_of (node_map idf rows) k = Some r \<longleftrightarrow> r \<in> set rows \<and> idf r = k"
  using assms unfolding map_of_node_map [OF assms]
  by (induction rows) auto

lemma node_map_dom:
  assumes "distinct (map idf rows)"
  shows "map_of (node_map idf rows) k \<noteq> None \<longleftrightarrow> k \<in> idf ` set rows"
  using node_map_Some [OF assms, of k] by (auto simp: image_iff)

text \<open>What the linking loop leaves after the rows it has seen.\<close>

lemma link_loop:
  assumes "\<And>c. c \<in> set rows \<Longrightarrow> nests idf par nodes c \<Longrightarrow> map_of (kids f) (par c) \<noteq> None"
  shows "roots (foldl (link_node idf par nodes) f rows) = roots f @ map idf (filter (\<lambda>c. \<not> nests idf par nodes c) rows)
    \<and> map_of (kids (foldl (link_node idf par nodes) f rows)) p =
        map_option (\<lambda>l. l @ map idf (filter (\<lambda>c. nests idf par nodes c \<and> par c = p) rows)) (map_of (kids f) p)"
  using assms
proof (induction rows arbitrary: f)
  case Nil
  then show ?case by (simp add: option.map_ident)
next
  case (Cons c rows)
  let ?f = "link_node idf par nodes f c"
  have "map_of (kids ?f) (par d) \<noteq> None" if "d \<in> set rows" "nests idf par nodes d" for d
    using Cons.prems [of d] that by (auto simp: link_node_def update_conv)
  from Cons.IH [OF this] Cons.prems [of c] show ?case
    by (auto simp: link_node_def update_conv option.map_comp comp_def)
qed

definition child_rel :: "Forest \<Rightarrow> (string \<times> string) set" where
  "child_rel f = {(p, i). \<exists>l. map_of (kids f) p = Some l \<and> i \<in> set l}"

lemma BuildTree_shape:
  assumes "distinct (map idf rows)"
  shows "roots (BuildTree idf par rows) = map idf (filter (\<lambda>c. \<not> nests idf par (node_map idf rows) c) rows)"
    and "map_of (kids (BuildTree idf par rows)) p = (if p \<in> idf ` set rows
      then Some (map idf (filter (\<lambda>c. nests idf par (node_map idf rows) c \<and> par c = p) rows)) else None)"
proof -
  let ?n = "node_map idf rows"
  let ?f = "\<lparr>kids = map (\<lambda>(k, c). (k, [])) ?n, roots = []\<rparr>"
  have k: "map_of (kids ?f) q = map_option (\<lambda>_. []) (map_of ?n q)" for q
    by (simp add: map_of_map)
  have "map_of (kids ?f) (par c) \<noteq> None" if "nests idf par ?n c" for c
    using that k [of "par c"] by (simp add: nests_def)
  from link_loop [OF this, of rows] k node_map_dom [OF assms, of p]
  show "roots (BuildTree idf par rows) = map idf (filter (\<lambda>c. \<not> nests idf par ?n c) rows)"
    and "map_of (kids (BuildTree idf par rows)) p = (if p \<in> idf ` set rows
      then Some (map idf (filter (\<lambda>c. nests idf par ?n c \<and> par c = p) rows)) else None)"
    by (auto simp: BuildTree_def split: option.splits)
qed

lemma child_rel_BuildTree:
  assumes "distinct (map idf rows)"
  shows "child_rel (BuildTree idf par rows) = (\<lambda>c. (par c, idf c)) ` {c \<in> set rows. nests idf par (node_map idf rows) c}"
proof -
  have "par c \<in> idf ` set rows" if "nests idf par (node_map idf rows) c" for c
    using that node_map_dom [OF assms, of "par c"] by (simp add: nests_def)
  then show ?thesis
    by (force simp: child_rel_def BuildTree_shape(2) [OF assms] split: if_splits)
qed

lemma nested_edge:
  assumes "distinct (map idf rows)" and "[] \<notin> idf ` set rows" and "c \<in> set rows"
  shows "(idf c, par c) \<in> parent_rel par (node_map idf rows)"
  using assms(2,3) node_map_Some [OF assms(1), of "idf c" c] by (force simp: parent_rel_def)

text \<open>Children hang below their parents only, so no child is its own descendant.\<close>

lemma child_rel_acyclic:
  assumes "distinct (map idf rows)" and "[] \<notin> idf ` set rows"
  shows "acyclic (child_rel (BuildTree idf par rows))"
proof (rule acyclicI, intro allI notI)
  let ?C = "child_rel (BuildTree idf par rows)" and ?P = "parent_rel par (node_map idf rows)"
  fix x
  have sub: "?C\<inverse> \<subseteq> ?P"
    using nested_edge [OF assms] by (auto simp: child_rel_BuildTree [OF assms(1)])
  assume "(x, x) \<in> ?C\<^sup>+"
  then obtain z where z: "(x, z) \<in> ?C" "(z, x) \<in> ?C\<^sup>*"
    by (auto dest: tranclD)
  then obtain c where c: "c \<in> set rows" "nests idf par (node_map idf rows) c" "x = par c" "z = idf c"
    by (auto simp: child_rel_BuildTree [OF assms(1)])
  have "(x, z) \<in> (?C\<inverse>)\<^sup>*" using z(2) by (simp add: rtrancl_converse)
  then have "(par c, idf c) \<in> ?P\<^sup>*" using rtrancl_mono [OF sub] c(3,4) by auto
  then have "(par c, idf c) \<in> ?P\<^sup>+" using c(2) by (auto simp: nests_def rtrancl_eq_or_trancl)
  then show False using c(2) by (simp add: nests_def isAncestor_iff)
qed

lemma BuildTree_reaches:
  assumes "distinct (map idf rows)" and "[] \<notin> idf ` set rows" and "c \<in> set rows"
  shows "\<exists>r\<in>set (roots (BuildTree idf par rows)). (r, idf c) \<in> (child_rel (BuildTree idf par rows))\<^sup>*"
proof -
  let ?T = "BuildTree idf par rows"
  have "finite (child_rel ?T)" by (simp add: child_rel_BuildTree [OF assms(1)])
  then have "wf (child_rel ?T)" using child_rel_acyclic [OF assms(1,2)] by (rule finite_acyclic_wf)
  then have "\<forall>d\<in>set rows. idf d = x \<longrightarrow> (\<exists>r\<in>set (roots ?T). (r, x) \<in> (child_rel ?T)\<^sup>*)" for x
  proof (induction x rule: wf_induct_rule)
    case (less x)
    show ?case
    proof (intro ballI impI)
      fix d assume d: "d \<in> set rows" "idf d = x"
      show "\<exists>r\<in>set (roots ?T). (r, x) \<in> (child_rel ?T)\<^sup>*"
      proof (cases "nests idf par (node_map idf rows) d")
        case False
        then show ?thesis using d by (auto simp: BuildTree_shape(1) [OF assms(1)])
      next
        case True
        then have e: "(par d, x) \<in> child_rel ?T" using d by (auto simp: child_rel_BuildTree [OF assms(1)])
        have "par d \<in> idf ` set rows" using True node_map_dom [OF assms(1), of "par d"] by (simp add: nests_def)
        with less.IH [OF e] obtain r where "r \<in> set (roots ?T)" "(r, par d) \<in> (child_rel ?T)\<^sup>*" by auto
        with e show ?thesis by (meson rtrancl.rtrancl_into_rtrancl)
      qed
    qed
  qed
  with assms(3) show ?thesis by blast
qed


lemma BuildTree_once:
  fixes idf par :: "'v \<Rightarrow> string"
  defines "T \<equiv> BuildTree idf par"
  assumes "distinct (map idf rows)"
  shows "distinct (roots (T rows))" and "\<forall>p l. map_of (kids (T rows)) p = Some l \<longrightarrow> distinct l"
    and "single_valued ((child_rel (T rows))\<inverse>)" and "set (roots (T rows)) \<inter> Range (child_rel (T rows)) = {}"
    and "set (roots (T rows)) \<union> Range (child_rel (T rows)) = idf ` set rows"
proof -
  have inj: "c = d" if "c \<in> set rows" "d \<in> set rows" "idf c = idf d" for c d
    using that assms(2) by (auto simp: distinct_map inj_on_def)
  show "distinct (roots (T rows))" and "\<forall>p l. map_of (kids (T rows)) p = Some l \<longrightarrow> distinct l"
    unfolding T_def BuildTree_shape [OF assms(2)] using assms(2) by (auto intro: distinct_map_filter)
  show "single_valued ((child_rel (T rows))\<inverse>)" and "set (roots (T rows)) \<inter> Range (child_rel (T rows)) = {}"
    and "set (roots (T rows)) \<union> Range (child_rel (T rows)) = idf ` set rows"
    unfolding T_def child_rel_BuildTree [OF assms(2)] BuildTree_shape(1) [OF assms(2)] single_valued_def
    by (auto dest: inj)
qed

section \<open>Tables that are forests\<close>

text \<open>No row has the empty id, every parent is a row of the same tenant, following parents ends.\<close>

definition forest_ok :: "('v \<Rightarrow> string) \<Rightarrow> ('v \<Rightarrow> string) \<Rightarrow> 'v tab \<Rightarrow> bool" where
  "forest_ok tn par m \<longleftrightarrow> map_of m [] = None \<and> acyclic (parent_rel par m)
     \<and> (\<forall>k v. map_of m k = Some v \<longrightarrow> par v \<noteq> [] \<longrightarrow> (\<exists>p. map_of m (par v) = Some p \<and> tn p = tn v))"

lemma forest_update:
  assumes "forest_ok tn par m" and "i \<noteq> []" and "acyclic (parent_rel par (AList.update i v m))"
    and "par v \<noteq> [] \<Longrightarrow> \<exists>p. map_of m (par v) = Some p \<and> tn p = tn v" and "\<And>old. map_of m i = Some old \<Longrightarrow> tn v = tn old"
  shows "forest_ok tn par (AList.update i v m)"
proof -
  have "\<exists>p. map_of (AList.update i v m) (par u) = Some p \<and> tn p = tn u"
    if "map_of (AList.update i v m) k = Some u" "par u \<noteq> []" for k u
  proof -
    have "\<exists>p. map_of m (par u) = Some p \<and> tn p = tn u"
      using that assms(1,4) by (cases "k = i") (auto simp: update_conv forest_ok_def)
    then show ?thesis using assms(5) by (cases "par u = i") (auto simp: update_conv)
  qed
  then show ?thesis using assms(1-3) by (simp add: forest_ok_def update_conv)
qed

text \<open>What a listing for a tenant returns: its rows, with their computed fields filled in.\<close>

definition listing :: "('v \<Rightarrow> string) \<Rightarrow> ('v \<Rightarrow> string) \<Rightarrow> ('v \<Rightarrow> 'v) \<Rightarrow> string \<Rightarrow> 'v tab \<Rightarrow> 'v list" where
  "listing idf tn fill t m = map fill (paginate idf [] 0 (filter (\<lambda>v. tn v = t) (vals m)))"

lemma forest_parent: "forest_ok tn par m \<Longrightarrow> map_of m k = Some v \<Longrightarrow> par v \<noteq> [] \<Longrightarrow> \<exists>p. map_of m (par v) = Some p \<and> tn p = tn v"
  by (simp add: forest_ok_def)

lemma parent_rel_update:
  "parent_rel par (AList.update i v m) = {(a, b) \<in> parent_rel par m. a \<noteq> i} \<union> (if i = [] then {} else {(i, par v)})"
  by (auto simp: parent_rel_def update_conv split: if_splits)

lemma parent_rel_delete: "parent_rel par (AList.delete i m) \<subseteq> parent_rel par m"
  by (auto simp: parent_rel_def delete_conv restrict_map_def split: if_splits)

lemma acyclic_relink:
  assumes "acyclic R" and "(p, i) \<notin> R\<^sup>*" and "R' \<subseteq> insert (i, p) R"
  shows "acyclic R'"
  using assms by (meson acyclic_insert acyclic_subset)

text \<open>
  The contract between a tree table and its service: computed fields leave the id, the tenant and
  the parent of a row alone. Then the checks the services make on a listing are checks on the table.
\<close>

locale parent_tree =
  fixes idf tn par :: "'v \<Rightarrow> string" and fill :: "'w \<Rightarrow> 'v \<Rightarrow> 'v"
  assumes fill_idf [simp]: "idf (fill w v) = idf v"
    and fill_tn [simp]: "tn (fill w v) = tn v"
    and fill_par [simp]: "par (fill w v) = par v"
begin

lemma set_listing:
  assumes "tab_ok idf m"
  shows "set (listing idf tn (fill w) t m) = {fill w v |v. map_of m (idf v) = Some v \<and> tn v = t}"
proof -
  have "{v \<in> set (vals m). tn v = t} = {v. map_of m (idf v) = Some v \<and> tn v = t}"
    using tab_ok_vals [OF assms] by blast
  then show ?thesis
    by (auto simp only: listing_def set_map [of "fill w"] set_paginate_all set_filter)
qed

lemma listing_ids:
  assumes "tab_ok idf m"
  shows "distinct (map idf (listing idf tn (fill w) t m))"
    and "idf ` set (listing idf tn (fill w) t m) = {k. \<exists>v. map_of m k = Some v \<and> tn v = t}"
proof -
  have "map idf (vals m) = map fst m"
    using assms by (auto simp: tab_ok_def)
  then have "distinct (map idf (vals m))" using assms by (simp only: tab_ok_def)
  then have "distinct (map idf (filter (\<lambda>v. tn v = t) (vals m)))" by (rule distinct_map_filter)
  then show "distinct (map idf (listing idf tn (fill w) t m))"
    using distinct_paginate_all by (simp add: listing_def comp_def)
  have "idf ` set (listing idf tn (fill w) t m) = {idf v |v. map_of m (idf v) = Some v \<and> tn v = t}"
    unfolding set_listing [OF assms] by (auto simp: image_iff) (metis fill_idf)
  then show "idf ` set (listing idf tn (fill w) t m) = {k. \<exists>v. map_of m k = Some v \<and> tn v = t}"
    by (auto dest: tab_ok_lookup [OF assms]) (metis tab_ok_lookup [OF assms])
qed

lemma listing_node:
  assumes "tab_ok idf m"
  shows "map_of (node_map idf (listing idf tn (fill w) t m)) k = Some r
    \<longleftrightarrow> (\<exists>v. map_of m k = Some v \<and> tn v = t \<and> r = fill w v)"
  unfolding node_map_Some [OF listing_ids(1) [OF assms]] set_listing [OF assms]
  by (auto dest: tab_ok_lookup [OF assms])

text \<open>In a forest, an upward path from a row of the tenant stays among the rows the listing has.\<close>

lemma path_in_listing:
  assumes "tab_ok idf m" and "forest_ok tn par m" and "(a, i) \<in> (parent_rel par m)\<^sup>+"
    and "map_of m a = Some v" and "tn v = t"
  shows "(a, i) \<in> (parent_rel par (node_map idf (listing idf tn (fill w) t m)))\<^sup>+"
  using assms(3-5)
proof (induction arbitrary: v rule: converse_trancl_induct)
  case (base a)
  then show ?case by (intro r_into_trancl) (auto simp: parent_rel_def listing_node [OF assms(1)])
next
  case (step a z)
  then have z: "par v = z" and e: "(a, z) \<in> parent_rel par (node_map idf (listing idf tn (fill w) t m))"
    by (auto simp: parent_rel_def listing_node [OF assms(1)])
  from step.hyps(2) have "z \<noteq> []" by (auto simp: parent_rel_def dest: tranclD)
  with forest_parent [OF assms(2) step.prems(1)] z obtain p where "map_of m z = Some p" "tn p = t"
    using step.prems(2) by auto
  then have "(z, i) \<in> (parent_rel par (node_map idf (listing idf tn (fill w) t m)))\<^sup>+" by (rule step.IH)
  with e show ?case by (rule trancl_into_trancl2)
qed

lemma forest_insert:
  assumes "forest_ok tn par m" and "map_of m i = None" and "i \<noteq> []"
    and "par v \<noteq> [] \<Longrightarrow> \<exists>p. map_of m (par v) = Some p \<and> tn p = tn v"
  shows "forest_ok tn par (AList.update i v m)"
proof -
  have "b \<noteq> i" if "(a, b) \<in> parent_rel par m" for a b
    using that assms(1,2,3) by (cases "b = []") (auto simp: parent_rel_def dest: forest_parent)
  then have "(par v, i) \<notin> (parent_rel par m)\<^sup>*"
    using assms(2,3,4) by (metis option.distinct(1) rtranclE)
  moreover have "parent_rel par (AList.update i v m) \<subseteq> insert (i, par v) (parent_rel par m)"
    by (auto simp: parent_rel_update)
  ultimately have "acyclic (parent_rel par (AList.update i v m))"
    using assms(1) unfolding forest_ok_def by (elim conjE) (rule acyclic_relink)
  then show ?thesis by (rule forest_update [OF assms(1,3) _ assms(4)]) (simp_all add: assms(2))
qed

lemma forest_replace:
  assumes "tab_ok idf m" and "forest_ok tn par m" and "map_of m i = Some old" and "tn v = tn old"
    and "par v \<noteq> [] \<Longrightarrow> \<exists>p. map_of m (par v) = Some p \<and> tn p = tn v" and "par v \<noteq> i"
    and "par v \<noteq> [] \<Longrightarrow> \<not> isAncestor par (node_map idf (listing idf tn (fill w) (tn v) m)) i (par v)"
  shows "forest_ok tn par (AList.update i v m)"
proof -
  have "(par v, i) \<notin> (parent_rel par m)\<^sup>+"
  proof (cases "par v = []")
    case True
    then show ?thesis by (auto simp: parent_rel_def dest: tranclD)
  next
    case False
    with assms(5) obtain p where "map_of m (par v) = Some p" "tn p = tn v" by blast
    with path_in_listing [OF assms(1,2)] assms(7) False show ?thesis by (auto simp: isAncestor_iff)
  qed
  then have "(par v, i) \<notin> (parent_rel par m)\<^sup>*" using assms(6) by (auto simp: rtrancl_eq_or_trancl)
  moreover have "parent_rel par (AList.update i v m) \<subseteq> insert (i, par v) (parent_rel par m)"
    by (auto simp: parent_rel_update)
  ultimately have "acyclic (parent_rel par (AList.update i v m))"
    using assms(2) unfolding forest_ok_def by (elim conjE) (rule acyclic_relink)
  moreover have "i \<noteq> []" using assms(2,3) by (auto simp: forest_ok_def)
  ultimately show ?thesis by (intro forest_update [OF assms(2) _ _ assms(5)]) (simp_all add: assms(3,4))
qed

lemma forest_delete:
  assumes "forest_ok tn par m" and "tab_ok idf m" and "map_of m i = Some old"
    and "\<And>v. v \<in> set (vals m) \<Longrightarrow> tn v = tn old \<Longrightarrow> par v \<noteq> i"
  shows "forest_ok tn par (AList.delete i m)"
proof -
  have "acyclic (parent_rel par (AList.delete i m))"
    using assms(1) parent_rel_delete [of par i m] by (auto simp: forest_ok_def intro: acyclic_subset)
  moreover have "par v \<noteq> i" if "map_of m k = Some v" "par v \<noteq> []" for k v
    using forest_parent [OF assms(1) that] assms(3) assms(4) [OF vals_lookup [OF that(1)]] by auto
  ultimately show ?thesis
    using assms(1) by (auto simp: forest_ok_def delete_conv restrict_map_def split: if_splits)
qed

end

end
