(* ===== verification/Categories.thy ===== *)
theory Categories
  imports Trees
begin

text \<open>
  \<^verbatim>\<open>internal/categories/categories.go\<close>: the category tree of a tenant. The service keeps the table a forest
  (\<open>Trees\<close>), and the tree it builds shows every category of the tenant once.
\<close>

section \<open>The service\<close>

record CategoryInput =
  k_Name :: string
  k_Description :: string
  k_ParentID :: string
  k_Icon :: string
  k_Tags :: "string tab"

definition category_mapErr :: "repo_err \<Rightarrow> svc_err" where
  "category_mapErr e = (case e of RNotFound \<Rightarrow> NotFound | RConflict \<Rightarrow> Conflict | RNotEmpty \<Rightarrow> InUse | _ \<Rightarrow> StoreErr e)"

definition category_validate :: "CategoryInput \<Rightarrow> svc_err + unit" where
  "category_validate inp =
     (if TrimSpace (k_Name inp) = [] \<or> length (k_Name inp) > 200 then Inl (Validation ''name is required (max 200)'')
      else if length (k_Tags inp) > 64 then Inl (Validation ''too many tags'')
      else Inr ())"

definition Categories_isAncestor :: "Category tab \<Rightarrow> string \<Rightarrow> string \<Rightarrow> bool" where
  "Categories_isAncestor = isAncestor c_ParentID"

definition Categories_BuildTree :: "Category list \<Rightarrow> Forest" where
  "Categories_BuildTree = BuildTree c_ID c_ParentID"

definition Categories_Get :: "Subjects \<Rightarrow> string \<Rightarrow> ('z world_scheme, svc_err, Category) prog" where
  "Categories_Get subj i = in_tenant subj (try_as category_mapErr (GetCategory (TenantID subj) i) ok)"

definition Categories_Create :: "Recorder \<Rightarrow> Subjects \<Rightarrow> CategoryInput \<Rightarrow> ('z world_scheme, svc_err, Category) prog" where
  "Categories_Create rc subj inp = in_tenant subj (
     case category_validate inp of Inl e \<Rightarrow> fail_with e | Inr _ \<Rightarrow>
     try_in (exists_or (k_ParentID inp) ''parent_id does not exist'' (GetCategory (TenantID subj) (k_ParentID inp))) (\<lambda>_. do {
       w \<leftarrow> State_Monad.get;
       i \<leftarrow> NewID;
       let c = zero_category\<lparr>c_ID := i, c_TenantID := TenantID subj, c_Name := TrimSpace (k_Name inp), c_Description := k_Description inp,
         c_ParentID := k_ParentID inp, c_Icon := k_Icon inp, c_Tags := k_Tags inp, c_CreatedBy := ActorID subj,
         c_CreatedAt := wall w, c_UpdatedAt := wall w\<rparr>;
       try_as category_mapErr (CreateCategory c) (\<lambda>_. do {
         emit rc subj ''category_created'' ''category'' i [];
         Categories_Get subj i
       })
     }))"

definition Categories_List :: "Recorder \<Rightarrow> Subjects \<Rightarrow> ('z world_scheme, svc_err, Category list) prog" where
  "Categories_List rc subj = in_tenant subj (
     try_as StoreErr (ListCategories (TenantID subj)) (\<lambda>rows. ok (sort_key (\<lambda>r. ToLower (folding rc) (c_Name r)) rows)))"

definition Categories_Tree :: "Recorder \<Rightarrow> Subjects \<Rightarrow> ('z world_scheme, svc_err, Category tab \<times> Forest) prog" where
  "Categories_Tree rc subj = try_in (Categories_List rc subj) (\<lambda>rows. ok (node_map c_ID rows, Categories_BuildTree rows))"

text \<open>The parent check of \<^verbatim>\<open>Update\<close>.\<close>

definition check_parent :: "Subjects \<Rightarrow> string \<Rightarrow> string \<Rightarrow> ('z world_scheme, svc_err, unit) prog" where
  "check_parent subj i parent =
     (if parent = [] then ok ()
      else if parent = i then fail_with (Validation ''a category cannot be its own parent'')
      else try_as (\<lambda>_. Validation ''parent_id does not exist'') (GetCategory (TenantID subj) parent) (\<lambda>_.
           try_as StoreErr (ListCategories (TenantID subj)) (\<lambda>rows.
           if Categories_isAncestor (node_map c_ID rows) i parent then fail_with (Validation ''parent_id would create a cycle'') else ok ())))"

definition Categories_Update :: "Recorder \<Rightarrow> Subjects \<Rightarrow> string \<Rightarrow> CategoryInput \<Rightarrow> ('z world_scheme, svc_err, Category) prog" where
  "Categories_Update rc subj i inp = in_tenant subj (
     case category_validate inp of Inl e \<Rightarrow> fail_with e | Inr _ \<Rightarrow>
     try_as category_mapErr (GetCategory (TenantID subj) i) (\<lambda>c0.
     try_in (check_parent subj i (k_ParentID inp)) (\<lambda>_. do {
       w \<leftarrow> State_Monad.get;
       let c = c0\<lparr>c_Name := TrimSpace (k_Name inp), c_Description := k_Description inp, c_ParentID := k_ParentID inp,
         c_Icon := k_Icon inp, c_Tags := k_Tags inp, c_UpdatedAt := wall w\<rparr>;
       try_as category_mapErr (UpdateCategory c) (\<lambda>_. do {
         emit rc subj ''category_updated'' ''category'' i [];
         Categories_Get subj i
       })
     })))"

definition Categories_Delete :: "Recorder \<Rightarrow> Subjects \<Rightarrow> string \<Rightarrow> ('z world_scheme, svc_err, unit) prog" where
  "Categories_Delete rc subj i = in_tenant subj (
     try_as category_mapErr (GetCategory (TenantID subj) i) (\<lambda>_.
     try_in (refuse_used (CountChildCategories (TenantID subj) i)) (\<lambda>_.
     try_in (refuse_used (CountAssetsByCategory (TenantID subj) i)) (\<lambda>_.
     try_as category_mapErr (DeleteCategory (TenantID subj) i) (\<lambda>_. do {
       emit rc subj ''category_deleted'' ''category'' i [];
       ok ()
     })))))"



section \<open>Acting for the caller's tenant\<close>

lemma GetCategory_tenant: "run_state (GetCategory t i) w = (Inr c, w') \<Longrightarrow> c_TenantID c = t \<and> (tab_ok c_ID (categories w) \<longrightarrow> c_ID c = i)"
  by (auto dest!: GetCategory_found dest: tab_ok_lookup simp: fillCategory_def)

lemma scoped_with_category:
  assumes "\<And>c. c_TenantID c = t \<Longrightarrow> state_io_rel (scoped t) (f c)"
  shows "state_io_rel (scoped t) (try_as g (GetCategory t i) f)"
  by (rule sc.io_try_as_val) (auto intro: scoped_rules assms dest: GetCategory_tenant)

lemma scoped_check_parent: "state_io_rel (scoped (TenantID subj)) (check_parent subj i p)"
  unfolding check_parent_def by (intro scoped_rules)

lemma scoped_Categories_Get: "state_io_rel (scoped (TenantID subj)) (Categories_Get subj i)"
  unfolding Categories_Get_def by (intro scoped_in_tenant scoped_rules)

lemmas category_rules = scoped_in_tenant scoped_exists_or scoped_with_category scoped_check_parent scoped_Categories_Get
  scoped_kit scoped_rules

lemma scoped_Categories:
  "state_io_rel (scoped (TenantID subj)) (Categories_Create rc subj inp)"
  "state_io_rel (scoped (TenantID subj)) (Categories_Update rc subj i inp)"
  "state_io_rel (scoped (TenantID subj)) (Categories_Delete rc subj i)"
  "state_io_rel (scoped (TenantID subj)) (Categories_List rc subj)"
  "state_io_rel (scoped (TenantID subj)) (Categories_Tree rc subj)"
  unfolding Categories_Create_def Categories_Update_def Categories_Delete_def Categories_Tree_def Categories_List_def Let_def
  by (intro category_rules; simp)+

section \<open>The table stays a forest\<close>

interpretation cats: parent_tree c_ID c_TenantID c_ParentID "fillCategory :: 'z mem_scheme \<Rightarrow> Category \<Rightarrow> Category"
  by unfold_locales (simp_all add: fillCategory_def)

definition cats_ok :: "mem \<Rightarrow> bool" where
  "cats_ok c \<longleftrightarrow> tab_ok c_ID (categories c) \<and> forest_ok c_TenantID c_ParentID (categories c)"

lemma ListCategories_listing:
  "run_state (ListCategories t) w = (Inr rows, w') \<Longrightarrow> rows = listing c_ID c_TenantID (fillCategory (core w)) t (categories w)"
  by (auto simp: ListCategories_def run_guarded listing_def fillCategory_def Let_def split: if_splits)

lemma leads_CreateCategory:
  assumes "c_ID r \<noteq> []"
  shows "leads (\<lambda>c. cats_ok c \<and> refers c_TenantID (categories c) (c_TenantID r) (c_ParentID r)) (CreateCategory r) cats_ok"
  by (rule leadsI) (auto simp: CreateCategory_def run_guarded cats_ok_def refers_def has_row_def Let_def assms
    intro!: tab_ok_update cats.forest_insert split: if_splits)

text \<open>What the checks of \<^verbatim>\<open>Update\<close> establish of the new parent.\<close>

definition parent_fits :: "string \<Rightarrow> string \<Rightarrow> string \<Rightarrow> mem \<Rightarrow> bool" where
  "parent_fits t i p c \<longleftrightarrow> p \<noteq> i \<and> has_row c_TenantID (categories c) t p
     \<and> \<not> isAncestor c_ParentID (node_map c_ID (listing c_ID c_TenantID (fillCategory c) t (categories c))) i p"

lemma check_parent_fits:
  assumes "run_state (check_parent subj i p) w = (Inr u, w')" and "p \<noteq> []"
  shows "parent_fits (TenantID subj) i p (core w)"
  using assms by (auto simp: check_parent_def parent_fits_def Categories_isAncestor_def has_row_def elim!: try_as_Inr
    dest!: GetCategory_found ListCategories_listing split: if_splits)

lemma quiet_check_parent: "quiet (check_parent subj i p)"
  unfolding check_parent_def by (intro quiet_rules)

lemma forest_root:
  "forest_ok tn par m \<Longrightarrow> map_of m i = Some old \<Longrightarrow> i \<noteq> []"
  by (auto simp: forest_ok_def)

lemma leads_UpdateCategory:
  "leads (\<lambda>c. cats_ok c \<and> (c_ParentID r \<noteq> [] \<longrightarrow> parent_fits (c_TenantID r) (c_ID r) (c_ParentID r) c)) (UpdateCategory r) cats_ok"
proof (rule leadsI)
  fix w w' :: "'z world_scheme" and res
  assume run: "run_state (UpdateCategory r) w = (res, w')"
    and J: "cats_ok (core w) \<and> (c_ParentID r \<noteq> [] \<longrightarrow> parent_fits (c_TenantID r) (c_ID r) (c_ParentID r) (core w))"
  then have ok: "tab_ok c_ID (categories w)" "forest_ok c_TenantID c_ParentID (categories w)"
    by (simp_all add: cats_ok_def)
  from run show "cats_ok (core w')"
  proof (cases rule: UpdateCategory_outcome)
    case (updated ex)
    let ?v = "r\<lparr>c_CreatedAt := c_CreatedAt ex, c_UpdatedAt := wall w\<rparr>"
    have "forest_ok c_TenantID c_ParentID (AList.update (c_ID r) ?v (categories w))"
    proof (rule cats.forest_replace [OF ok updated(2)])
      show "c_ParentID ?v \<noteq> c_ID r"
        using J forest_root [OF ok(2) updated(2)] by (cases "c_ParentID r = []") (auto simp: parent_fits_def)
    qed (use J updated(3) in \<open>auto simp: parent_fits_def has_row_def\<close>)
    then show ?thesis using ok(1) updated(4) by (simp add: cats_ok_def tab_ok_update)
  qed (use J in \<open>auto intro: same_core\<close>)
qed

lemma leads_DeleteCategory: "leads cats_ok (DeleteCategory t i) cats_ok"
proof (rule leadsI)
  fix w w' :: "'z world_scheme" and res
  assume run: "run_state (DeleteCategory t i) w = (res, w')" and J: "cats_ok (core w)"
  then have ok: "tab_ok c_ID (categories w)" "forest_ok c_TenantID c_ParentID (categories w)"
    by (simp_all add: cats_ok_def)
  from run show "cats_ok (core w')"
  proof (cases rule: DeleteCategory_outcome)
    case (deleted ex)
    have "forest_ok c_TenantID c_ParentID (AList.delete i (categories w))"
      by (rule cats.forest_delete [OF ok(2,1) deleted(2)]) (use deleted(3,4) in auto)
    then show ?thesis using ok(1) deleted(6) by (simp add: cats_ok_def tab_ok_delete)
  qed (use J in \<open>auto intro: same_core\<close>)
qed

lemma quiet_Categories_Get: "quiet (Categories_Get subj i)"
  unfolding Categories_Get_def by (intro quiet_kit)

lemma leads_Categories_Create: "leads cats_ok (Categories_Create rc subj inp) cats_ok"
  unfolding Categories_Create_def Let_def try_in_def
  by (intro leads_rules leads_exists leads_read leads_write quiet_kit quiet_Categories_Get leads_pre [OF leads_CreateCategory])
    (auto simp: zero_category_def)

lemma leads_Categories_Update: "leads cats_ok (Categories_Update rc subj i inp) cats_ok"
  unfolding Categories_Update_def Let_def try_in_def
proof (intro leads_rules leads_check [where F = "\<lambda>x c. c_TenantID x = TenantID subj \<and> (tab_ok c_ID (categories c) \<longrightarrow> c_ID x = i)"])
  fix c0 :: Category
  let ?J = "\<lambda>c. cats_ok c \<and> c_TenantID c0 = TenantID subj \<and> (tab_ok c_ID (categories c) \<longrightarrow> c_ID c0 = i)"
  show "leads ?J (try_as (\<lambda>e. e) (check_parent subj i (k_ParentID inp)) (\<lambda>_. do {
       w \<leftarrow> State_Monad.get;
       try_as category_mapErr (UpdateCategory (c0\<lparr>c_Name := TrimSpace (k_Name inp), c_Description := k_Description inp, c_ParentID := k_ParentID inp,
         c_Icon := k_Icon inp, c_Tags := k_Tags inp, c_UpdatedAt := wall w\<rparr>)) (\<lambda>_. do {
         emit rc subj ''category_updated'' ''category'' i [];
         Categories_Get subj i
       })
     })) cats_ok"
    by (rule leads_check [where F = "\<lambda>_ c. k_ParentID inp \<noteq> [] \<longrightarrow> parent_fits (TenantID subj) i (k_ParentID inp) c"])
      (auto simp: cats_ok_def check_parent_fits
        intro!: leads_read leads_write quiet_check_parent quiet_kit quiet_Categories_Get leads_pre [OF leads_UpdateCategory])
qed (auto intro: quiet_reads dest: GetCategory_tenant)

lemma leads_Categories_Delete: "leads cats_ok (Categories_Delete rc subj i) cats_ok"
  unfolding Categories_Delete_def try_in_def
  by (intro leads_rules leads_try leads_write quiet_kit leads_DeleteCategory)


section \<open>What the tree shows\<close>

text \<open>
  C9: \<^verbatim>\<open>BuildTree\<close> shows every row exactly once: each id is a root or the child of exactly one node, no list
  of children repeats an id, nothing is its own descendant, and every id hangs below some root, however
  broken the parent ids of the rows are.
\<close>

theorem category_tree_complete:
  assumes "distinct (map c_ID rows)" and "[] \<notin> c_ID ` set rows"
  shows "(\<forall>c\<in>set rows. \<exists>r\<in>set (roots (Categories_BuildTree rows)). (r, c_ID c) \<in> (child_rel (Categories_BuildTree rows))\<^sup>*)
    \<and> acyclic (child_rel (Categories_BuildTree rows))
    \<and> distinct (roots (Categories_BuildTree rows))
    \<and> (\<forall>p l. map_of (kids (Categories_BuildTree rows)) p = Some l \<longrightarrow> distinct l)
    \<and> single_valued ((child_rel (Categories_BuildTree rows))\<inverse>)
    \<and> set (roots (Categories_BuildTree rows)) \<inter> Range (child_rel (Categories_BuildTree rows)) = {}
    \<and> set (roots (Categories_BuildTree rows)) \<union> Range (child_rel (Categories_BuildTree rows)) = c_ID ` set rows"
  unfolding Categories_BuildTree_def
  using BuildTree_reaches [OF assms] child_rel_acyclic [OF assms] BuildTree_once [OF assms(1)]
  by blast

theorem category_tree_complete_witness:
  "(let a = zero_category\<lparr>c_ID := ''a'', c_ParentID := ''b''\<rparr>; b = zero_category\<lparr>c_ID := ''b'', c_ParentID := ''a''\<rparr>;
        c = zero_category\<lparr>c_ID := ''c'', c_ParentID := ''gone''\<rparr>; d = zero_category\<lparr>c_ID := ''d'', c_ParentID := ''c''\<rparr>;
        f = Categories_BuildTree [a, b, c, d]
    in roots f = [''a'', ''b'', ''c''] \<and> map_of (kids f) ''c'' = Some [''d'']
       \<and> set (roots f) \<union> Range (child_rel f) = {''a'', ''b'', ''c'', ''d''})"
proof -
  let ?rows = "[zero_category\<lparr>c_ID := ''a'', c_ParentID := ''b''\<rparr>, zero_category\<lparr>c_ID := ''b'', c_ParentID := ''a''\<rparr>,
    zero_category\<lparr>c_ID := ''c'', c_ParentID := ''gone''\<rparr>, zero_category\<lparr>c_ID := ''d'', c_ParentID := ''c''\<rparr>]"
  have "set (roots (Categories_BuildTree ?rows)) \<union> Range (child_rel (Categories_BuildTree ?rows)) = c_ID ` set ?rows"
    using category_tree_complete [of ?rows] by (simp add: zero_category_def)
  moreover have "roots (Categories_BuildTree ?rows) = [''a'', ''b'', ''c''] \<and> map_of (kids (Categories_BuildTree ?rows)) ''c'' = Some [''d'']"
    by code_simp
  ultimately show ?thesis by (simp add: Let_def)
qed

text \<open>
  C11: a parent that is the category itself, or that lies below it in the tree, is refused and nothing
  changes. The ancestor walk that finds it ends on every table, also on one whose parent ids loop.
\<close>

theorem category_cycle_refused:
  assumes "failNext w = {}" and "cats_ok (core w)" and "TenantID subj \<noteq> []" and "category_validate inp = Inr ()"
    and "has_row c_TenantID (categories w) (TenantID subj) i" and "has_row c_TenantID (categories w) (TenantID subj) (k_ParentID inp)"
    and "(k_ParentID inp, i) \<in> (parent_rel c_ParentID (categories w))\<^sup>*"
  shows "\<exists>msg. run_state (Categories_Update rc subj i inp) w = (Inl (Validation msg), w)"
proof -
  have ok: "tab_ok c_ID (categories w)" "forest_ok c_TenantID c_ParentID (categories w)"
    using assms(2) by (simp_all add: cats_ok_def)
  obtain c p where c: "map_of (categories w) i = Some c" "c_TenantID c = TenantID subj"
    and p: "map_of (categories w) (k_ParentID inp) = Some p" "c_TenantID p = TenantID subj"
    using assms(5,6) by (auto simp: has_row_def)
  have ne: "k_ParentID inp \<noteq> []" using ok(2) p(1) by (auto simp: forest_ok_def)
  have get: "run_state (GetCategory (TenantID subj) j) w = (Inr (fillCategory w d), w)"
    if "map_of (categories w) j = Some d" "c_TenantID d = TenantID subj" for j d
    using assms(1) that by (simp add: GetCategory_def run_guarded)
  have rows: "run_state (ListCategories (TenantID subj)) w = (Inr (listing c_ID c_TenantID (fillCategory w) (TenantID subj) (categories w)), w)"
    using assms(1) by (simp add: ListCategories_def run_guarded listing_def)
  have "\<exists>msg. run_state (check_parent subj i (k_ParentID inp)) w = (Inl (Validation msg), w)"
  proof (cases "k_ParentID inp = i")
    case True
    then show ?thesis using ne by (simp add: check_parent_def)
  next
    case False
    with assms(7) have "(k_ParentID inp, i) \<in> (parent_rel c_ParentID (categories w))\<^sup>+" by (simp add: rtrancl_eq_or_trancl)
    from cats.path_in_listing [OF ok this p] have "Categories_isAncestor
        (node_map c_ID (listing c_ID c_TenantID (fillCategory w) (TenantID subj) (categories w))) i (k_ParentID inp)"
      by (simp add: Categories_isAncestor_def isAncestor_iff)
    then show ?thesis using ne False by (simp add: check_parent_def run_try_as get [OF p] rows)
  qed
  then show ?thesis
    using assms(3,4) by (auto simp: Categories_Update_def in_tenant_eq run_try_as run_try_in get [OF c])
qed

definition tree_demo :: world where
  "tree_demo = world_demo\<lparr>categories := [(''a'', zero_category\<lparr>c_ID := ''a'', c_TenantID := ''t''\<rparr>),
     (''bb'', zero_category\<lparr>c_ID := ''bb'', c_TenantID := ''t'', c_ParentID := ''a''\<rparr>)]\<rparr>"

lemma tree_demo_edges: "parent_rel c_ParentID (categories tree_demo) = {(''a'', []), (''bb'', ''a'')}"
  by (auto simp: parent_rel_def tree_demo_def zero_category_def split: if_splits)

lemma tree_demo_ok: "cats_ok (core tree_demo)"
proof -
  have "{(''a'', []), (''bb'', ''a'')} \<subseteq> (measure length)\<inverse>" by simp
  then have "acyclic (parent_rel c_ParentID (categories tree_demo))"
    unfolding tree_demo_edges by (meson acyclic_converse acyclic_subset wf_acyclic wf_measure)
  then show ?thesis
    by (auto simp: cats_ok_def forest_ok_def) (auto simp: tree_demo_def zero_category_def tab_ok_def split: if_splits)
qed

theorem category_cycle_refused_witness:
  "\<exists>msg. run_state (Categories_Update \<lparr>attached = True, folding = (\<lambda>s. s)\<rparr> alice ''a''
     \<lparr>k_Name = ''Laptops'', k_Description = [], k_ParentID = ''bb'', k_Icon = [], k_Tags = []\<rparr>) tree_demo = (Inl (Validation msg), tree_demo)"
proof (rule category_cycle_refused)
  show "cats_ok (core tree_demo)" by (rule tree_demo_ok)
  show "failNext tree_demo = {}" by code_simp
  show "TenantID alice \<noteq> []" by code_simp
  show "category_validate \<lparr>k_Name = ''Laptops'', k_Description = [], k_ParentID = ''bb'', k_Icon = [], k_Tags = []\<rparr> = Inr ()" by code_simp
  have "map_of (categories tree_demo) ''a'' = Some (zero_category\<lparr>c_ID := ''a'', c_TenantID := ''t''\<rparr>)"
    "map_of (categories tree_demo) ''bb'' = Some (zero_category\<lparr>c_ID := ''bb'', c_TenantID := ''t'', c_ParentID := ''a''\<rparr>)"
    by (simp_all add: tree_demo_def)
  moreover have "TenantID alice = ''t''" by code_simp
  ultimately show "has_row c_TenantID (categories tree_demo) (TenantID alice) ''a''"
    and "has_row c_TenantID (categories tree_demo) (TenantID alice) (k_ParentID \<lparr>k_Name = ''Laptops'', k_Description = [], k_ParentID = ''bb'', k_Icon = [], k_Tags = []\<rparr>)"
    by (simp_all add: has_row_def zero_category_def)
  show "(k_ParentID \<lparr>k_Name = ''Laptops'', k_Description = [], k_ParentID = ''bb'', k_Icon = [], k_Tags = []\<rparr>, ''a'')
      \<in> (parent_rel c_ParentID (categories tree_demo))\<^sup>*"
    unfolding tree_demo_edges by auto
qed

end
