(* ===== verification/Sealed.thy ===== *)
theory Sealed
  imports Memstore
begin

text \<open>
  \<^verbatim>\<open>internal/sealed/sealed.go\<close>: the envelope that keeps contact data encrypted at rest, and the handling of
  settings objects with credential fields. AES-256-GCM is a parameter, a record of its two functions;
  \<open>aead_ok\<close> states the contract of an AEAD cipher that \<^verbatim>\<open>cipher.AEAD\<close> documents: opening what was sealed under the
  same key, nonce and associated data gives it back, and nothing else opens. Base64 is modelled in
  full. Bytes and strings are character lists.
\<close>

section \<open>Base64\<close>

definition b64_alphabet :: string where
  "b64_alphabet = ''ABCDEFGHIJKLMNOPQRSTUVWXYZabcdefghijklmnopqrstuvwxyz0123456789+/''"

definition b64_char :: "nat \<Rightarrow> char" where
  "b64_char n = b64_alphabet ! n"

primrec b64_pos :: "string \<Rightarrow> char \<Rightarrow> nat option" where
  "b64_pos [] c = None"
| "b64_pos (x # xs) c = (if x = c then Some 0 else map_option Suc (b64_pos xs c))"

definition b64_val :: "char \<Rightarrow> nat option" where
  "b64_val c = b64_pos b64_alphabet c"

abbreviation byte :: "char \<Rightarrow> nat" where
  "byte c \<equiv> of_char c"

abbreviation pad_char :: char where
  "pad_char \<equiv> CHR ''=''"

text \<open>\<^verbatim>\<open>base64.StdEncoding.EncodeToString\<close>\<close>

fun b64_encode :: "string \<Rightarrow> string" where
  "b64_encode [] = []"
| "b64_encode [x] = [b64_char (byte x div 4), b64_char (byte x mod 4 * 16), pad_char, pad_char]"
| "b64_encode [x, y] = (let n = (byte x * 256 + byte y) * 4 in
     [b64_char (n div 4096), b64_char (n div 64 mod 64), b64_char (n mod 64), pad_char])"
| "b64_encode (x # y # z # rest) = (let n = (byte x * 256 + byte y) * 256 + byte z in
     [b64_char (n div 262144), b64_char (n div 4096 mod 64), b64_char (n div 64 mod 64), b64_char (n mod 64)] @ b64_encode rest)"

definition b64_two :: "char \<Rightarrow> char \<Rightarrow> string option" where
  "b64_two a b = (case (b64_val a, b64_val b) of
     (Some p, Some q) \<Rightarrow> Some [char_of ((p * 64 + q) div 16)]
   | _ \<Rightarrow> None)"

definition b64_three :: "char \<Rightarrow> char \<Rightarrow> char \<Rightarrow> string option" where
  "b64_three a b c = (case (b64_val a, b64_val b, b64_val c) of
     (Some p, Some q, Some r) \<Rightarrow> (let n = (p * 64 + q) * 64 + r in Some [char_of (n div 1024), char_of (n div 4)])
   | _ \<Rightarrow> None)"

definition b64_four :: "char \<Rightarrow> char \<Rightarrow> char \<Rightarrow> char \<Rightarrow> string option" where
  "b64_four a b c d = (case (b64_val a, b64_val b, b64_val c, b64_val d) of
     (Some p, Some q, Some r, Some s) \<Rightarrow> (let n = ((p * 64 + q) * 64 + r) * 64 + s in
       Some [char_of (n div 65536), char_of (n div 256), char_of n])
   | _ \<Rightarrow> None)"

text \<open>
  \<^verbatim>\<open>DecodeString\<close> of \<^verbatim>\<open>StdEncoding\<close> (\<open>padded\<close>) and \<^verbatim>\<open>RawStdEncoding\<close>: line breaks are skipped, the last group may be short,
  the unused bits of a short group are ignored.
\<close>

fun b64_groups :: "bool \<Rightarrow> string \<Rightarrow> string option" where
  "b64_groups padded [] = Some []"
| "b64_groups padded [a] = None"
| "b64_groups padded [a, b] = (if padded then None else b64_two a b)"
| "b64_groups padded [a, b, c] = (if padded then None else b64_three a b c)"
| "b64_groups padded (a # b # c # d # rest) =
     (if padded \<and> d = pad_char \<and> rest = [] then (if c = pad_char then b64_two a b else b64_three a b c)
      else case b64_four a b c d of
        None \<Rightarrow> None
      | Some bs \<Rightarrow> map_option (\<lambda>r. bs @ r) (b64_groups padded rest))"

definition b64_decode :: "bool \<Rightarrow> string \<Rightarrow> string option" where
  "b64_decode padded s = b64_groups padded (filter (\<lambda>c. c \<noteq> CHR 0x0A \<and> c \<noteq> CHR 0x0D) s)"

subsection \<open>Decoding what was encoded\<close>

lemma b64_pos_nth: "distinct xs \<Longrightarrow> n < length xs \<Longrightarrow> b64_pos xs (xs ! n) = Some n"
  by (induction xs arbitrary: n) (auto simp: nth_Cons' split: nat.split)

lemma b64_alphabet_facts:
  "length b64_alphabet = 64" "distinct b64_alphabet" "CHR 0x0A \<notin> set b64_alphabet" "CHR 0x0D \<notin> set b64_alphabet" "pad_char \<notin> set b64_alphabet"
  by code_simp+

lemma b64_val_char [simp]: "n < 64 \<Longrightarrow> b64_val (b64_char n) = Some n"
  by (simp add: b64_val_def b64_char_def b64_pos_nth b64_alphabet_facts)

lemma b64_char_plain [simp]:
  assumes "n < 64"
  shows "b64_char n \<noteq> CHR 0x0A" "b64_char n \<noteq> CHR 0x0D" "b64_char n \<noteq> pad_char"
proof -
  have "b64_char n \<in> set b64_alphabet"
    using assms by (simp add: b64_char_def b64_alphabet_facts)
  then show "b64_char n \<noteq> CHR 0x0A" "b64_char n \<noteq> CHR 0x0D" "b64_char n \<noteq> pad_char"
    using b64_alphabet_facts(3-5) by metis+
qed

lemma byte_less [simp]: "byte c < 256"
  using of_char_mod_256 [of c] by (metis mod_less_divisor zero_less_numeral)

lemma sextets:
  "(n :: nat) div 262144 * 64 + n div 4096 mod 64 = n div 4096" "(n :: nat) div 4096 * 64 + n div 64 mod 64 = n div 64"
  "(n :: nat) div 64 * 64 + n mod 64 = n"
proof -
  have "n div 262144 = n div 4096 div 64" "n div 4096 = n div 64 div 64"
    by (simp_all flip: div_mult2_eq)
  then show "n div 262144 * 64 + n div 4096 mod 64 = n div 4096" "n div 4096 * 64 + n div 64 mod 64 = n div 64"
    by (simp_all only: div_mult_mod_eq)
qed (simp add: div_mult_mod_eq)

lemma char_of_byte: "m mod 256 = byte c \<Longrightarrow> char_of (m :: nat) = c"
  by (simp add: char_of_eq_iff take_bit_eq_mod)

lemma low_byte: "c < 256 \<Longrightarrow> (q * 256 + c) div 256 = (q :: nat)" "c < 256 \<Longrightarrow> (q * 256 + c) mod 256 = (c :: nat)"
  by simp_all

lemma byte_digits:
  fixes a b c :: nat
  assumes "a < 256" and "b < 256" and "c < 256"
  shows "(a * 256 + b) * 256 + c < 16777216" "((a * 256 + b) * 256 + c) div 65536 = a"
    "((a * 256 + b) * 256 + c) div 256 mod 256 = b" "((a * 256 + b) * 256 + c) mod 256 = c"
    "(a * 256 + b) * 4 < 262144" "(a * 256 + b) * 4 div 1024 = a"
proof -
  have "m div 65536 = m div 256 div 256" for m :: nat by (simp flip: div_mult2_eq)
  then show "((a * 256 + b) * 256 + c) div 65536 = a" by (simp only: low_byte assms)
  show "((a * 256 + b) * 256 + c) div 256 mod 256 = b" "((a * 256 + b) * 256 + c) mod 256 = c"
    by (simp_all only: low_byte assms)
  show "(a * 256 + b) * 256 + c < 16777216" "(a * 256 + b) * 4 < 262144" "(a * 256 + b) * 4 div 1024 = a"
    using assms by simp_all
qed

lemma b64_four_encode:
  fixes x y z :: char
  defines "n \<equiv> (byte x * 256 + byte y) * 256 + byte z"
  shows "b64_four (b64_char (n div 262144)) (b64_char (n div 4096 mod 64)) (b64_char (n div 64 mod 64)) (b64_char (n mod 64)) = Some [x, y, z]"
proof -
  have n: "n < 16777216" "n div 65536 = byte x" "n div 256 mod 256 = byte y" "n mod 256 = byte z"
    unfolding n_def by (simp_all only: byte_digits byte_less)
  then have "n div 262144 < 64" by simp
  then show ?thesis
    using n by (simp add: b64_four_def sextets char_of_byte)
qed

lemma b64_three_encode:
  fixes x y :: char
  defines "n \<equiv> (byte x * 256 + byte y) * 4"
  shows "b64_three (b64_char (n div 4096)) (b64_char (n div 64 mod 64)) (b64_char (n mod 64)) = Some [x, y]"
proof -
  have n: "n < 262144" "n div 1024 = byte x"
    unfolding n_def by (simp_all only: byte_digits(5,6) [of _ _ 0] byte_less zero_less_numeral)
  moreover have "n div 4 mod 256 = byte y"
    unfolding n_def by (simp add: low_byte)
  moreover have "n div 4096 < 64" using n by simp
  ultimately show ?thesis
    by (simp add: b64_three_def sextets char_of_byte)
qed

lemma b64_two_encode: "b64_two (b64_char (byte x div 4)) (b64_char (byte x mod 4 * 16)) = Some [x]"
proof -
  have "byte x div 4 < 64" using byte_less [of x] by (simp only: less_mult_imp_div_less)
  moreover have "byte x mod 4 * 16 < 64" by (simp add: mult.commute)
  moreover have "(byte x div 4 * 64 + byte x mod 4 * 16) div 16 = byte x" by presburger
  ultimately show ?thesis
    by (simp add: b64_two_def char_of_byte)
qed

lemma b64_groups_encode: "b64_groups True (b64_encode s) = Some s"
proof (induction s rule: b64_encode.induct)
  case (4 x y z rest)
  then show ?case
    using b64_four_encode [of x y z] by (simp add: Let_def)
qed (use b64_two_encode b64_three_encode in \<open>simp_all add: Let_def\<close>)

lemma b64_encode_plain: "filter (\<lambda>c. c \<noteq> CHR 0x0A \<and> c \<noteq> CHR 0x0D) (b64_encode s) = b64_encode s"
proof (induction s rule: b64_encode.induct)
  case (2 x)
  have "byte x div 4 < 64" using byte_less [of x] by (simp only: less_mult_imp_div_less)
  moreover have "byte x mod 4 * 16 < 64" by (simp add: mult.commute)
  ultimately show ?case by simp
next
  case (3 x y)
  have "(byte x * 256 + byte y) * 4 div 4096 < 64"
    using byte_digits(5) [of "byte x" "byte y" 0] by simp
  then show ?case by (simp add: Let_def)
next
  case (4 x y z rest)
  have "((byte x * 256 + byte y) * 256 + byte z) div 262144 < 64"
    using byte_digits(1) [of "byte x" "byte y" "byte z"] by simp
  with 4 show ?case by (simp add: Let_def)
qed simp

lemma b64_roundtrip [simp]: "b64_decode True (b64_encode s) = Some s"
  by (simp add: b64_decode_def b64_encode_plain b64_groups_encode)

lemma b64_encode_Nil_iff [simp]: "b64_encode s = [] \<longleftrightarrow> s = []"
  by (cases s rule: b64_encode.cases) (simp_all add: Let_def)

section \<open>The envelope\<close>

record AEAD =
  gcm_seal :: "string \<Rightarrow> string \<Rightarrow> string \<Rightarrow> string \<Rightarrow> string"
  gcm_open :: "string \<Rightarrow> string \<Rightarrow> string \<Rightarrow> string \<Rightarrow> string option"

text \<open>Arguments: key, nonce, plaintext (ciphertext), associated data. The overhead of GCM is its 16-byte tag.\<close>

definition aead_ok :: "AEAD \<Rightarrow> bool" where
  "aead_ok g \<longleftrightarrow>
     (\<forall>k n p ad. gcm_open g k n (gcm_seal g k n p ad) ad = Some p)
     \<and> (\<forall>k n p ad. length (gcm_seal g k n p ad) = length p + 16)
     \<and> (\<forall>k n c ad p. gcm_open g k n c ad = Some p \<longrightarrow> c = gcm_seal g k n p ad)"

definition MaxSettingsBytes :: nat where
  "MaxSettingsBytes = 8192"

definition NonceSize :: nat where
  "NonceSize = 12"

definition Overhead :: nat where
  "Overhead = 16"

definition ErrKEK :: svc_err where
  "ErrKEK = SealErr ''sealed: KEK must be 32 bytes''"

definition ErrTampered :: svc_err where
  "ErrTampered = SealErr ''sealed: ciphertext rejected''"

definition ErrTooLarge :: svc_err where
  "ErrTooLarge = SealErr ''sealed: settings exceed 8 KiB''"

record Envelope =
  gcm :: AEAD
  kek :: string

definition NewEnvelope :: "AEAD \<Rightarrow> string \<Rightarrow> svc_err + Envelope" where
  "NewEnvelope g key = (if length key \<noteq> 32 then Inl ErrKEK else Inr \<lparr>gcm = g, kek = key\<rparr>)"

text \<open>\<^verbatim>\<open>decodeKEK\<close>: padded base64, raw base64, or the 32 bytes themselves.\<close>

definition decodeKEK :: "string \<Rightarrow> svc_err + string" where
  "decodeKEK raw =
     (let trimmed = TrimSpace raw in
      case b64_decode True trimmed of
        Some b \<Rightarrow> if length b = 32 then Inr b
          else (case b64_decode False trimmed of
            Some b' \<Rightarrow> if length b' = 32 then Inr b' else if length raw = 32 then Inr raw else Inl ErrKEK
          | None \<Rightarrow> if length raw = 32 then Inr raw else Inl ErrKEK)
      | None \<Rightarrow> (case b64_decode False trimmed of
            Some b' \<Rightarrow> if length b' = 32 then Inr b' else if length raw = 32 then Inr raw else Inl ErrKEK
          | None \<Rightarrow> if length raw = 32 then Inr raw else Inl ErrKEK))"

text \<open>\<^verbatim>\<open>io.ReadFull(randReader, b)\<close>: the random source does not fail.\<close>

definition rand_bytes :: "nat \<Rightarrow> ('z sys_scheme, string) state" where
  "rand_bytes n = do { b \<leftarrow> read_rand n; State_Monad.return (map (\<lambda>x. char_of (unat x)) b) }"

definition sealed_layout :: "Envelope \<Rightarrow> string \<Rightarrow> string \<Rightarrow> string \<Rightarrow> string \<Rightarrow> string \<Rightarrow> string" where
  "sealed_layout e dek n1 n2 plaintext ad =
     n1 @ gcm_seal (gcm e) (kek e) n1 dek ad @ n2 @ gcm_seal (gcm e) dek n2 plaintext ad"

definition Seal :: "Envelope \<Rightarrow> string \<Rightarrow> string \<Rightarrow> ('z sys_scheme, svc_err, string) prog" where
  "Seal e plaintext ad =
     (if length plaintext > MaxSettingsBytes then fail_with ErrTooLarge
      else do {
        dek \<leftarrow> rand_bytes 32;
        n1 \<leftarrow> rand_bytes NonceSize;
        n2 \<leftarrow> rand_bytes NonceSize;
        ok (sealed_layout e dek n1 n2 plaintext ad)
      })"

definition Open :: "Envelope \<Rightarrow> string \<Rightarrow> string \<Rightarrow> svc_err + string" where
  "Open e blob ad =
     (let ns = NonceSize; wrapLen = 32 + Overhead in
      if length blob < ns + wrapLen + ns + 16 then Inl ErrTampered
      else case gcm_open (gcm e) (kek e) (take ns blob) (take wrapLen (drop ns blob)) ad of
        None \<Rightarrow> Inl ErrTampered
      | Some dek \<Rightarrow>
          let rest = drop (ns + wrapLen) blob in
          case gcm_open (gcm e) dek (take ns rest) (drop ns rest) ad of
            None \<Rightarrow> Inl ErrTampered
          | Some pt \<Rightarrow> Inr pt)"

definition ADContact :: "string \<Rightarrow> string \<Rightarrow> string \<Rightarrow> string" where
  "ADContact kind i field = ''contact:'' @ kind @ '':'' @ i @ '':'' @ field"

definition SealString :: "Envelope \<Rightarrow> string \<Rightarrow> string \<Rightarrow> ('z sys_scheme, svc_err, string) prog" where
  "SealString e s ad = (if s = [] then ok [] else try_in (Seal e s ad) (\<lambda>ct. ok (b64_encode ct)))"

definition OpenString :: "Envelope \<Rightarrow> string \<Rightarrow> string \<Rightarrow> svc_err + string" where
  "OpenString e enc ad =
     (if enc = [] then Inr []
      else case b64_decode True enc of
        None \<Rightarrow> Inl ErrTampered
      | Some ct \<Rightarrow> Open e ct ad)"

subsection \<open>Opening what was sealed\<close>

lemma aead_okD:
  assumes "aead_ok g"
  shows "gcm_open g k n (gcm_seal g k n p ad) ad = Some p" "length (gcm_seal g k n p ad) = length p + 16"
    "gcm_open g k n c ad = Some p \<Longrightarrow> c = gcm_seal g k n p ad"
  using assms by (auto simp: aead_ok_def)

lemma run_rand_bytes:
  "run_state (rand_bytes n) w = (map (\<lambda>x. char_of (unat x)) (map (rnd w) [0..<n]), w\<lparr>rnd := (\<lambda>i. rnd w (i + n))\<rparr>)"
  by (simp add: rand_bytes_def read_rand_def)

lemma Seal_outcome:
  assumes "run_state (Seal e s ad) w = (r, w')"
  obtains (large) "length s > MaxSettingsBytes" "r = Inl ErrTooLarge" "w' = w"
    | (sealed) dek n1 n2 f where "length s \<le> MaxSettingsBytes" "length dek = 32" "length n1 = NonceSize" "length n2 = NonceSize"
        "r = Inr (sealed_layout e dek n1 n2 s ad)" "w' = w\<lparr>rnd := f\<rparr>"
proof (cases "length s > MaxSettingsBytes")
  case True
  then show ?thesis using assms large by (simp add: Seal_def)
next
  case False
  let ?b = "\<lambda>k n. map (\<lambda>x. char_of (unat x)) (map (\<lambda>i. rnd w (i + k)) [0..<n])"
  have "r = Inr (sealed_layout e (?b 0 32) (?b 32 NonceSize) (?b (NonceSize + 32) NonceSize) s ad)"
    and "\<exists>f. w' = w\<lparr>rnd := f\<rparr>"
    using False assms by (auto simp: Seal_def run_rand_bytes add.assoc simp del: map_map)
  with False show ?thesis
    by (elim exE) (rule sealed [of "?b 0 32" "?b 32 NonceSize" "?b (NonceSize + 32) NonceSize"]; simp)
qed

lemma Open_layout:
  assumes "aead_ok (gcm e)" and "length dek = 32" and "length n1 = NonceSize" and "length n2 = NonceSize"
  shows "Open e (sealed_layout e dek n1 n2 s ad) ad = Inr s"
  using assms by (simp add: Open_def sealed_layout_def Overhead_def aead_okD Let_def)

lemma SealString_opens:
  assumes "aead_ok (gcm e)" and "run_state (SealString e s ad) w = (Inr enc, w')"
  shows "OpenString e enc ad = Inr s"
proof (cases "s = []")
  case True
  then show ?thesis using assms(2) by (simp add: SealString_def OpenString_def)
next
  case False
  with assms(2) obtain ct where "run_state (Seal e s ad) w = (Inr ct, w')" and enc: "enc = b64_encode ct"
    by (auto simp: SealString_def elim!: try_in_Inr)
  then show ?thesis
  proof (cases rule: Seal_outcome)
    case (sealed dek n1 n2 f)
    then have "ct \<noteq> []" by (auto simp: sealed_layout_def NonceSize_def)
    then show ?thesis using sealed enc Open_layout [OF assms(1) sealed(2-4)] by (simp add: OpenString_def)
  qed simp
qed

lemma SealString_returns:
  assumes "length s \<le> MaxSettingsBytes"
  shows "\<exists>enc f. run_state (SealString e s ad) w = (Inr enc, w\<lparr>rnd := f\<rparr>)"
proof (cases "s = []")
  case True
  then show ?thesis by (intro exI [of _ "[]"] exI [of _ "rnd w"]) (simp add: SealString_def)
next
  case False
  obtain r w' where run: "run_state (Seal e s ad) w = (r, w')" by force
  then show ?thesis
  proof (cases rule: Seal_outcome)
    case (sealed dek n1 n2 f)
    with run False show ?thesis by (auto simp: SealString_def run_try_in)
  qed (use assms in simp)
qed

text \<open>
  C12: a sealed value opens to what was sealed, under the same key and associated data; sealing
  refuses only values above 8 KiB, and an empty value stays empty.
\<close>

theorem sealed_roundtrip:
  assumes "aead_ok (gcm e)"
  shows "(case run_state (SealString e s ad) w of
      (Inr enc, w') \<Rightarrow> length s \<le> MaxSettingsBytes \<and> OpenString e enc ad = Inr s \<and> (enc = [] \<longleftrightarrow> s = []) \<and> (\<exists>f. w' = w\<lparr>rnd := f\<rparr>)
    | (Inl err, w') \<Rightarrow> length s > MaxSettingsBytes \<and> err = ErrTooLarge \<and> w' = w)"
proof (cases "s = []")
  case True
  then show ?thesis by (auto simp: SealString_def OpenString_def MaxSettingsBytes_def intro: exI [of _ "rnd w"])
next
  case False
  obtain r w' where run: "run_state (Seal e s ad) w = (r, w')" by force
  then show ?thesis
  proof (cases rule: Seal_outcome)
    case large
    then show ?thesis using False run by (simp add: SealString_def run_try_in)
  next
    case (sealed dek n1 n2 f)
    then have "sealed_layout e dek n1 n2 s ad \<noteq> []" by (auto simp: sealed_layout_def NonceSize_def)
    with sealed False run show ?thesis
      using Open_layout [OF assms sealed(2-4)] by (auto simp: SealString_def run_try_in OpenString_def)
  qed
qed

text \<open>
  Only values that were sealed for exactly this owner and field open: what \<^verbatim>\<open>Open\<close> accepts is the
  layout \<^verbatim>\<open>Seal\<close> writes for that plaintext under the same key and associated data, so a ciphertext moved to
  another row or field, or altered in any byte, is rejected as tampered.
\<close>

theorem sealed_authentic:
  assumes "aead_ok (gcm e)"
  shows "(case Open e blob ad of
      Inr s \<Rightarrow> \<exists>dek n1 n2. length n1 = NonceSize \<and> length n2 = NonceSize \<and> length dek = 32 \<and> blob = sealed_layout e dek n1 n2 s ad
    | Inl err \<Rightarrow> err = ErrTampered \<and> \<not> (\<exists>s dek n1 n2. length n1 = NonceSize \<and> length n2 = NonceSize \<and> length dek = 32
        \<and> blob = sealed_layout e dek n1 n2 s ad))"
proof (cases "Open e blob ad")
  case (Inl err)
  then have "err = ErrTampered" by (auto simp: Open_def Let_def split: if_splits option.splits)
  with Inl show ?thesis using Open_layout [OF assms] by auto
next
  case (Inr s)
  let ?n1 = "take NonceSize blob" and ?wrapped = "take 48 (drop NonceSize blob)" and ?rest = "drop (NonceSize + 48) blob"
  from Inr obtain dek where len: "88 \<le> length blob" and o1: "gcm_open (gcm e) (kek e) ?n1 ?wrapped ad = Some dek"
    and o2: "gcm_open (gcm e) dek (take NonceSize ?rest) (drop NonceSize ?rest) ad = Some s"
    by (auto simp: Open_def Let_def Overhead_def NonceSize_def split: if_splits option.splits)
  note c1 = aead_okD(3) [OF assms o1] and c2 = aead_okD(3) [OF assms o2]
  have "length ?wrapped = length dek + 16" unfolding c1 by (rule aead_okD(2) [OF assms])
  then have "length dek = 32" using len by (simp add: NonceSize_def)
  moreover have "blob = ?n1 @ ?wrapped @ take NonceSize ?rest @ drop NonceSize ?rest"
    by (metis append_assoc append_take_drop_id drop_drop add.commute)
  ultimately have "length ?n1 = NonceSize \<and> length (take NonceSize ?rest) = NonceSize \<and> length dek = 32
      \<and> blob = sealed_layout e dek ?n1 (take NonceSize ?rest) s ad"
    using len c1 c2 by (simp add: sealed_layout_def NonceSize_def)
  then show ?thesis unfolding Inr sum.case by blast
qed


section \<open>Settings with credential fields\<close>

type_synonym Settings = "any tab"

definition Marker :: string where
  "Marker = ''__set__''"

text \<open>\<^verbatim>\<open>str, _ := v.(string)\<close>\<close>

definition as_str :: "any \<Rightarrow> string" where
  "as_str v = (case v of AStr s \<Rightarrow> s | _ \<Rightarrow> [])"

definition Redact :: "Settings \<Rightarrow> string list \<Rightarrow> Settings" where
  "Redact s secretFields = foldl (\<lambda>out f.
     case map_of out f of
       None \<Rightarrow> out
     | Some v \<Rightarrow> if as_str v \<noteq> [] then AList.update f (AStr Marker) out else AList.delete f out) s secretFields"

definition Public :: "Settings \<Rightarrow> string list \<Rightarrow> Settings" where
  "Public s secretFields = foldl (\<lambda>out f. AList.delete f out) s secretFields"

definition Merge :: "Settings \<Rightarrow> Settings \<Rightarrow> string list \<Rightarrow> Settings" where
  "Merge stored incoming secretFields = foldl (\<lambda>out f.
     let keep = (case map_of stored f of Some old \<Rightarrow> AList.update f old out | None \<Rightarrow> AList.delete f out) in
     case map_of incoming f of
       None \<Rightarrow> keep
     | Some v \<Rightarrow> if as_str v = Marker then keep else if as_str v = [] then AList.delete f out else out) incoming secretFields"

text \<open>\<^verbatim>\<open>strings.ReplaceAll\<close> for a non-empty \<open>old\<close>: left to right, without overlaps.\<close>

function ReplaceAll :: "string \<Rightarrow> string \<Rightarrow> string \<Rightarrow> string" where
  "ReplaceAll old new [] = []"
| "ReplaceAll old new (c # s) =
     (if old \<noteq> [] \<and> prefix old (c # s) then new @ ReplaceAll old new (drop (length old) (c # s)) else c # ReplaceAll old new s)"
  by pat_completeness auto
termination
  by (relation "measure (\<lambda>(old, new, s). length s)") (auto simp: neq_Nil_conv)

definition Redacted :: string where
  "Redacted = ''[REDACTED]''"

definition Scrub :: "string \<Rightarrow> Settings \<Rightarrow> string list \<Rightarrow> string" where
  "Scrub text0 stored secretFields =
     (let text = takeWhile (\<lambda>c. c \<noteq> CHR 0x0A \<and> c \<noteq> CHR 0x0D) text0;
          cleaned = foldl (\<lambda>t f. case map_of stored f of
              Some (AStr v) \<Rightarrow> if v \<noteq> [] then ReplaceAll (b64_encode v) Redacted (ReplaceAll v Redacted t) else t
            | _ \<Rightarrow> t) text secretFields
      in if length cleaned > 1024 then take 1024 cleaned else cleaned)"

subsection \<open>Redaction and merging\<close>

lemma Redact_lookup:
  "map_of (Redact s sf) f = (if f \<in> set sf
     then (case map_of s f of Some v \<Rightarrow> if as_str v \<noteq> [] then Some (AStr Marker) else None | None \<Rightarrow> None) else map_of s f)"
proof (induction sf rule: rev_induct)
  case (snoc g sf)
  then show ?case
    by (auto simp: Redact_def update_conv delete_conv restrict_map_def as_str_def Marker_def split: option.splits if_splits)
qed (simp add: Redact_def)

lemma Public_lookup: "map_of (Public s sf) f = (if f \<in> set sf then None else map_of s f)"
  by (induction sf rule: rev_induct) (auto simp: Public_def delete_conv restrict_map_def)

lemma Merge_lookup:
  "map_of (Merge stored incoming sf) f = (if f \<in> set sf
     then (case map_of incoming f of
        None \<Rightarrow> map_of stored f
      | Some v \<Rightarrow> if as_str v = Marker then map_of stored f else if as_str v = [] then None else Some v)
     else map_of incoming f)"
proof (induction sf rule: rev_induct)
  case (snoc g sf)
  then show ?case
    by (auto simp: Merge_def Let_def update_conv delete_conv restrict_map_def split: option.splits if_splits)
qed (simp add: Merge_def)

text \<open>
  C13: a client sees the marker instead of a credential, never its value, and the public form has no
  credential at all; sending the redacted settings back restores exactly the stored settings.
\<close>

theorem settings_redaction:
  "(\<forall>f\<in>set sf. map_of (Redact s sf) f \<in> {None, Some (AStr Marker)} \<and> map_of (Public s sf) f = None)
   \<and> (\<forall>f. f \<notin> set sf \<longrightarrow> map_of (Redact s sf) f = map_of s f \<and> map_of (Public s sf) f = map_of s f)
   \<and> map_of (Merge s (Redact s sf) sf) = map_of s"
  by (intro conjI ext) (auto simp: Redact_lookup Public_lookup Merge_lookup as_str_def split: option.splits)

theorem settings_redaction_witness:
  "(let s = [(''host'', AStr ''mx''), (''password'', AStr ''hunter2'')]; sf = [''password'']
    in map_of (Redact s sf) ''host'' = Some (AStr ''mx'') \<and> map_of (Public s sf) ''password'' = None
       \<and> map_of (Merge s (Redact s sf) sf) = map_of s)"
proof -
  note * = settings_redaction [where s = "[(''host'', AStr ''mx''), (''password'', AStr ''hunter2'')]" and sf = "[''password'']"]
  from * have "map_of (Redact [(''host'', AStr ''mx''), (''password'', AStr ''hunter2'')] [''password'']) ''host'' = Some (AStr ''mx'')" by simp
  with * show ?thesis by (simp add: Let_def)
qed

subsection \<open>Scrubbing\<close>

lemma sublist_around:
  assumes "sublist v (a @ m @ b)" and "set v \<inter> set m = {}" and "m \<noteq> []" and "v \<noteq> []"
  shows "sublist v a \<or> sublist v b"
proof -
  have head: "xs2 = []" if "prefix xs2 (m @ r)" "set xs2 \<subseteq> set v" for xs2 r
    using that assms(2,3) by (cases xs2; cases m) auto
  have tail: "xs1 = []" if "suffix xs1 m" "set xs1 \<subseteq> set v" for xs1
    using set_mono_suffix [OF that(1)] that(2) assms(2) by (cases xs1) auto
  have "sublist v m \<Longrightarrow> v = []"
    using set_mono_sublist [of v m] assms(2) by (cases v) auto
  with assms(1,4) consider "sublist v a" | "sublist v b"
      | xs1 xs2 where "v = xs1 @ xs2" "suffix xs1 a" "prefix xs2 (m @ b)"
      | xs1 xs2 where "v = xs1 @ xs2" "suffix xs1 m" "prefix xs2 b"
    unfolding sublist_append by blast
  then show ?thesis
  proof cases
    case (3 xs1 xs2)
    with head [of xs2 b] show ?thesis by auto
  next
    case (4 xs1 xs2)
    with tail [of xs1] show ?thesis by auto
  qed auto
qed

text \<open>Replacing never brings in a word that shares no character with the replacement.\<close>

lemma sublist_within: "sublist v (drop n s) \<Longrightarrow> sublist v (pre @ s)" "sublist v pre \<Longrightarrow> sublist v (pre @ s)"
  by (metis append_assoc append_take_drop_id sublist_append_leftI sublist_order.order_trans)
    (metis sublist_append_rightI sublist_order.order_trans)

lemma ReplaceAll_keeps_out:
  assumes "set v \<inter> set new = {}" and "new \<noteq> []" and "v \<noteq> []" and "sublist v (pre @ ReplaceAll old new s)"
  shows "sublist v (pre @ s)"
  using assms
proof (induction old new s arbitrary: pre rule: ReplaceAll.induct)
  case (2 old new c s)
  show ?case
  proof (cases "old \<noteq> [] \<and> prefix old (c # s)")
    case True
    let ?R = "ReplaceAll old new (drop (length old) (c # s))"
    have "sublist v pre \<or> sublist v ?R"
      using 2(6) True by (intro sublist_around [of v pre new ?R] 2(3-5)) simp
    moreover have "sublist v ?R \<Longrightarrow> sublist v (drop (length old) (c # s))"
      using 2(1) [OF True 2(3-5), of "[]"] by simp
    ultimately show ?thesis using sublist_within by metis
  next
    case False
    then show ?thesis using 2(2) [OF False 2(3-5), of "pre @ [c]"] 2(6) by auto
  qed
qed simp

lemma sublist_drop: "sublist v xs \<longleftrightarrow> (\<exists>k. prefix v (drop k xs))"
  unfolding sublist_altdef' by (metis append_take_drop_id suffix_def suffix_drop append_eq_conv_conj)

text \<open>What replacing leaves behind has no occurrence of the word, also not across what was there before.\<close>

lemma ReplaceAll_removes_gen:
  assumes "set old \<inter> set new = {}" and "new \<noteq> []" and "old \<noteq> []" and "\<And>k. k < length pre \<Longrightarrow> \<not> prefix old (drop k (pre @ s))"
  shows "\<not> sublist old (pre @ ReplaceAll old new s)"
  using assms
proof (induction old new s arbitrary: pre rule: ReplaceAll.induct)
  case (1 old new)
  have "\<not> prefix old (drop k pre)" for k
    using 1(3) 1(4) [of k] by (cases "k < length pre") auto
  then show ?case by (simp add: sublist_drop)
next
  case (2 old new c s)
  show ?case
  proof (cases "old \<noteq> [] \<and> prefix old (c # s)")
    case True
    let ?R = "ReplaceAll old new (drop (length old) (c # s))"
    have "\<not> prefix old (drop k pre)" for k
    proof
      assume p: "prefix old (drop k pre)"
      then have "k < length pre" using 2(5) by (cases "k < length pre") auto
      moreover from p this have "prefix old (drop k (pre @ c # s))" by (auto simp: prefix_def)
      ultimately show False using 2(6) by blast
    qed
    then have "\<not> sublist old pre" by (simp add: sublist_drop)
    moreover have "\<not> sublist old ?R"
      using 2(1) [OF True 2(3-5), of "[]"] by simp
    ultimately show ?thesis
      using sublist_around [of old pre new ?R] 2(3-5) True by auto
  next
    case False
    have "\<not> prefix old (drop k ((pre @ [c]) @ s))" if "k < length (pre @ [c])" for k
      using that 2(6) [of k] 2(5) False by (cases "k = length pre") auto
    from 2(2) [OF False 2(3-5) this] False show ?thesis by auto
  qed
qed

lemma ReplaceAll_removes: "set old \<inter> set new = {} \<Longrightarrow> new \<noteq> [] \<Longrightarrow> old \<noteq> [] \<Longrightarrow> \<not> sublist old (ReplaceAll old new s)"
  using ReplaceAll_removes_gen [of old new "[]" s] by simp

lemma scrub_loop:
  assumes "set v \<inter> set Redacted = {}" and "v \<noteq> []" and "\<not> sublist v t \<or> (\<exists>f\<in>set sf. map_of stored f = Some (AStr v))"
  shows "\<not> sublist v (foldl (\<lambda>t f. case map_of stored f of
      Some (AStr u) \<Rightarrow> if u \<noteq> [] then ReplaceAll (b64_encode u) Redacted (ReplaceAll u Redacted t) else t | _ \<Rightarrow> t) t sf)"
  using assms(3)
proof (induction sf arbitrary: t)
  case (Cons f sf)
  have ne: "Redacted \<noteq> []" by (simp add: Redacted_def)
  have out: "\<not> sublist v (ReplaceAll u Redacted x)" if "\<not> sublist v x" for u x
    using ReplaceAll_keeps_out [OF assms(1) ne assms(2), of "[]" u x] that by auto
  let ?t = "case map_of stored f of
      Some (AStr u) \<Rightarrow> if u \<noteq> [] then ReplaceAll (b64_encode u) Redacted (ReplaceAll u Redacted t) else t | _ \<Rightarrow> t"
  have "\<not> sublist v ?t" if "\<not> sublist v t \<or> map_of stored f = Some (AStr v)"
    using that out ReplaceAll_removes [OF assms(1) ne assms(2), of t] assms(2) by (auto split: option.splits any.splits)
  with Cons.prems have "\<not> sublist v ?t \<or> (\<exists>f\<in>set sf. map_of stored f = Some (AStr v))" by auto
  from Cons.IH [OF this] show ?case by simp
qed simp



text \<open>A cipher that meets the contract: the tag is made of the associated data.\<close>

definition demo_tag :: "string \<Rightarrow> string" where
  "demo_tag ad = take 16 (rev ad @ replicate 16 (CHR 0x00))"

definition demo_gcm :: AEAD where
  "demo_gcm = \<lparr>gcm_seal = (\<lambda>k n p ad. p @ demo_tag ad),
     gcm_open = (\<lambda>k n c ad. if 16 \<le> length c \<and> drop (length c - 16) c = demo_tag ad then Some (take (length c - 16) c) else None)\<rparr>"

definition demo_env :: Envelope where
  "demo_env = \<lparr>gcm = demo_gcm, kek = replicate 32 (CHR ''k'')\<rparr>"

lemma demo_aead: "aead_ok (gcm demo_env)"
proof -
  have "length (demo_tag ad) = 16" for ad by (simp add: demo_tag_def)
  then show ?thesis
    by (auto simp: aead_ok_def demo_env_def demo_gcm_def split: if_splits) (metis append_take_drop_id)
qed

theorem sealed_roundtrip_witness:
  "case run_state (SealString demo_env ''+359 2 123'' (ADContact ''supplier'' ''s1'' ''telephone''))
     \<lparr>wall = 0, rnd = (\<lambda>_. 0), idLast = 0, idSeq = 0\<rparr> of
     (Inr enc, _) \<Rightarrow> OpenString demo_env enc (ADContact ''supplier'' ''s1'' ''telephone'') = Inr ''+359 2 123''
   | (Inl _, _) \<Rightarrow> False"
  using sealed_roundtrip [OF demo_aead, where s = "''+359 2 123''" and ad = "ADContact ''supplier'' ''s1'' ''telephone''"
    and w = "\<lparr>wall = 0, rnd = (\<lambda>_. 0), idLast = 0, idSeq = 0\<rparr>"]
  by (auto simp: MaxSettingsBytes_def split: prod.splits sum.splits)

theorem sealed_authentic_witness:
  "case Open demo_env (sealed_layout demo_env (replicate 32 (CHR ''d'')) (replicate 12 (CHR ''1'')) (replicate 12 (CHR ''2'')) ''bob'' ''contact:a'') ''contact:b'' of
     Inr s \<Rightarrow> False | Inl err \<Rightarrow> err = ErrTampered"
proof -
  define blob where "blob = sealed_layout demo_env (replicate 32 (CHR ''d'')) (replicate 12 (CHR ''1'')) (replicate 12 (CHR ''2'')) ''bob'' ''contact:a''"
  have "Open demo_env blob ''contact:b'' = Inl ErrTampered"
    unfolding blob_def by code_simp
  with sealed_authentic [OF demo_aead, of blob "''contact:b''"] show ?thesis
    by (simp add: blob_def)
qed

end
