(* ===== verification/Suppliers.thy ===== *)
theory Suppliers
  imports Categories Sealed
begin

text \<open>
  \<^verbatim>\<open>internal/suppliers/suppliers.go\<close>: suppliers, whose contact fields are sealed at rest and opened for
  administrators only. \<open>ContactService\<close> is what the suppliers and the locations are wired with: the
  recorder and the envelope.
\<close>

section \<open>The service\<close>

record ContactService =
  rec :: Recorder
  env :: Envelope

record SupplierInput =
  z_Name :: string
  z_Code :: string
  z_Address :: string
  z_City :: string
  z_State :: string
  z_Country :: string
  z_PostalCode :: string
  z_ContactPerson :: string
  z_Telephone :: string
  z_Email :: string
  z_Website :: string
  z_Notes :: string
  z_Status :: string
  z_Tags :: "string tab"

definition supplier_mapErr :: "repo_err \<Rightarrow> svc_err" where
  "supplier_mapErr e = (case e of RNotFound \<Rightarrow> NotFound | RConflict \<Rightarrow> Conflict | RNotEmpty \<Rightarrow> InUse | _ \<Rightarrow> StoreErr e)"

definition supplier_validate :: "SupplierInput \<Rightarrow> svc_err + unit" where
  "supplier_validate inp =
     (if TrimSpace (z_Name inp) = [] \<or> length (z_Name inp) > 200 then Inl (Validation ''name is required (max 200)'')
      else if z_Status inp \<notin> {[], SupActive, SupInactive} then Inl (Validation ''status is invalid'')
      else if list_ex (\<lambda>f. length f > 512) [z_ContactPerson inp, z_Telephone inp, z_Email inp] then Inl (Validation ''contact field too long'')
      else if length (z_Tags inp) > 64 then Inl (Validation ''too many tags'')
      else Inr ())"

definition supplier_seal :: "Envelope \<Rightarrow> Supplier \<Rightarrow> ('z sys_scheme, svc_err, Supplier) prog" where
  "supplier_seal e sp =
     try_in (SealString e (s_ContactPerson sp) (ADContact ''supplier'' (s_ID sp) ''contact_person'')) (\<lambda>c.
     try_in (SealString e (s_Telephone sp) (ADContact ''supplier'' (s_ID sp) ''telephone'')) (\<lambda>t.
     try_in (SealString e (s_Email sp) (ADContact ''supplier'' (s_ID sp) ''email'')) (\<lambda>m.
     ok (sp\<lparr>s_ContactPerson := c, s_Telephone := t, s_Email := m\<rparr>))))"

text \<open>A value that does not open reads as empty.\<close>

definition open_or_blank :: "Envelope \<Rightarrow> string \<Rightarrow> string \<Rightarrow> string" where
  "open_or_blank e v ad = (case OpenString e v ad of Inr pt \<Rightarrow> pt | Inl _ \<Rightarrow> [])"

definition supplier_present :: "Envelope \<Rightarrow> Subjects \<Rightarrow> Supplier \<Rightarrow> Supplier" where
  "supplier_present e subj sp =
     (if \<not> IsAdmin subj then sp\<lparr>s_ContactPerson := [], s_Telephone := [], s_Email := []\<rparr>
      else sp\<lparr>s_ContactPerson := open_or_blank e (s_ContactPerson sp) (ADContact ''supplier'' (s_ID sp) ''contact_person''),
        s_Telephone := open_or_blank e (s_Telephone sp) (ADContact ''supplier'' (s_ID sp) ''telephone''),
        s_Email := open_or_blank e (s_Email sp) (ADContact ''supplier'' (s_ID sp) ''email'')\<rparr>)"

definition supplier_apply :: "Supplier \<Rightarrow> SupplierInput \<Rightarrow> Supplier" where
  "supplier_apply sp inp = sp\<lparr>s_Name := TrimSpace (z_Name inp), s_Code := z_Code inp, s_Address := z_Address inp, s_City := z_City inp,
     s_State := z_State inp, s_Country := z_Country inp, s_PostalCode := z_PostalCode inp,
     s_ContactPerson := TrimSpace (z_ContactPerson inp), s_Telephone := TrimSpace (z_Telephone inp), s_Email := TrimSpace (z_Email inp),
     s_Website := z_Website inp, s_Notes := z_Notes inp, s_Tags := z_Tags inp,
     s_Status := (if z_Status inp = [] then SupActive else z_Status inp)\<rparr>"

definition Suppliers_Create :: "ContactService \<Rightarrow> Subjects \<Rightarrow> SupplierInput \<Rightarrow> ('z world_scheme, svc_err, Supplier) prog" where
  "Suppliers_Create svc subj inp = in_tenant subj (
     case supplier_validate inp of Inl e \<Rightarrow> fail_with e | Inr _ \<Rightarrow> do {
       w \<leftarrow> State_Monad.get;
       i \<leftarrow> NewID;
       let sp = supplier_apply (zero_supplier\<lparr>s_ID := i, s_TenantID := TenantID subj, s_CreatedBy := ActorID subj,
         s_CreatedAt := wall w, s_UpdatedAt := wall w\<rparr>) inp;
       try_in (supplier_seal (env svc) sp) (\<lambda>sp.
       try_as supplier_mapErr (CreateSupplier sp) (\<lambda>_. do {
         emit (rec svc) subj ''supplier_created'' ''supplier'' (s_ID sp) [];
         ok (supplier_present (env svc) subj sp)
       }))
     })"

definition Suppliers_Get :: "ContactService \<Rightarrow> Subjects \<Rightarrow> string \<Rightarrow> ('z world_scheme, svc_err, Supplier) prog" where
  "Suppliers_Get svc subj i = in_tenant subj (
     try_as supplier_mapErr (GetSupplier (TenantID subj) i) (\<lambda>sp. ok (supplier_present (env svc) subj sp)))"

definition Suppliers_List :: "ContactService \<Rightarrow> Subjects \<Rightarrow> ListOpts \<Rightarrow> ('z world_scheme, svc_err, Supplier list) prog" where
  "Suppliers_List svc subj f = in_tenant subj (
     try_as StoreErr (ListSuppliers (folding (rec svc)) (TenantID subj) f) (\<lambda>rows. ok (map (supplier_present (env svc) subj) rows)))"

definition Suppliers_Update :: "ContactService \<Rightarrow> Subjects \<Rightarrow> string \<Rightarrow> SupplierInput \<Rightarrow> ('z world_scheme, svc_err, Supplier) prog" where
  "Suppliers_Update svc subj i inp = in_tenant subj (
     case supplier_validate inp of Inl e \<Rightarrow> fail_with e | Inr _ \<Rightarrow>
     try_as supplier_mapErr (GetSupplier (TenantID subj) i) (\<lambda>sp0. do {
       w \<leftarrow> State_Monad.get;
       let sp = (supplier_apply sp0 inp)\<lparr>s_UpdatedAt := wall w\<rparr>;
       try_in (supplier_seal (env svc) sp) (\<lambda>sp.
       try_as supplier_mapErr (UpdateSupplier sp) (\<lambda>_. do {
         emit (rec svc) subj ''supplier_updated'' ''supplier'' i [];
         ok (supplier_present (env svc) subj sp)
       }))
     }))"

definition Suppliers_Delete :: "ContactService \<Rightarrow> Subjects \<Rightarrow> string \<Rightarrow> ('z world_scheme, svc_err, unit) prog" where
  "Suppliers_Delete svc subj i = in_tenant subj (
     try_as supplier_mapErr (GetSupplier (TenantID subj) i) (\<lambda>_.
     try_in (refuse_used (CountAssetsBySupplier (TenantID subj) i)) (\<lambda>_.
     try_as supplier_mapErr (DeleteSupplier (TenantID subj) i) (\<lambda>_. do {
       emit (rec svc) subj ''supplier_deleted'' ''supplier'' i [];
       ok ()
     }))))"

section \<open>Acting for the caller's tenant\<close>

lemma quiet_SealString: "quiet (SealString e s ad :: ('z world_scheme, _, _) prog)"
  unfolding SealString_def Seal_def rand_bytes_def try_in_def
  by (intro quiet_rules) (simp_all add: quiet_def read_rand_def)

lemma scoped_SealString: "state_io_rel (scoped t) (SealString e s ad :: ('z world_scheme, _, _) prog)"
proof -
  have "state_io_rel (scoped t) (read_rand n :: ('z world_scheme, _) state)" for n
    by (auto simp: state_io_rel_def read_rand_def intro!: scoped_frame)
  then show ?thesis
    unfolding SealString_def Seal_def rand_bytes_def by (intro scoped_rules)
qed

lemma quiet_supplier_seal: "quiet (supplier_seal e sp :: ('z world_scheme, _, _) prog)"
  unfolding supplier_seal_def by (intro quiet_progs quiet_SealString)

lemma scoped_supplier_seal: "state_io_rel (scoped t) (supplier_seal e sp :: ('z world_scheme, _, _) prog)"
  unfolding supplier_seal_def by (intro scoped_rules scoped_SealString)

lemma supplier_seal_frame:
  assumes "run_state (supplier_seal e sp) w = (Inr sp', w')"
  shows "\<exists>c t m. sp' = sp\<lparr>s_ContactPerson := c, s_Telephone := t, s_Email := m\<rparr>"
  using assms by (auto simp: supplier_seal_def elim!: try_in_Inr) blast

lemma scoped_sealed_supplier:
  assumes "\<And>c x m. state_io_rel (scoped t) (f (sp\<lparr>s_ContactPerson := c, s_Telephone := x, s_Email := m\<rparr>))"
  shows "state_io_rel (scoped t) (try_in (supplier_seal e sp) f :: ('z world_scheme, _, _) prog)"
  unfolding try_in_def by (rule sc.io_try_as_val) (auto intro: scoped_supplier_seal assms dest!: supplier_seal_frame)

lemma scoped_with_supplier:
  assumes "\<And>sp. s_TenantID sp = t \<Longrightarrow> state_io_rel (scoped t) (f sp)"
  shows "state_io_rel (scoped t) (try_as g (GetSupplier t i) f)"
  by (rule sc.io_try_as_val) (auto intro: scoped_rules assms dest: GetSupplier_found)

lemma supplier_apply_frame [simp]: "s_ID (supplier_apply sp inp) = s_ID sp" "s_TenantID (supplier_apply sp inp) = s_TenantID sp"
  by (simp_all add: supplier_apply_def)

lemma scoped_Suppliers:
  "state_io_rel (scoped (TenantID subj)) (Suppliers_Create svc subj inp)"
  "state_io_rel (scoped (TenantID subj)) (Suppliers_Update svc subj i inp)"
  "state_io_rel (scoped (TenantID subj)) (Suppliers_Delete svc subj i)"
  "state_io_rel (scoped (TenantID subj)) (Suppliers_Get svc subj i)"
  "state_io_rel (scoped (TenantID subj)) (Suppliers_List svc subj f)"
  unfolding Suppliers_Create_def Suppliers_Update_def Suppliers_Delete_def Suppliers_Get_def Suppliers_List_def Let_def
  by (intro scoped_in_tenant scoped_sealed_supplier scoped_with_supplier scoped_kit scoped_rules; simp add: zero_supplier_def)+


section \<open>Contact data\<close>

lemma supplier_seal_returns:
  assumes "length (s_ContactPerson sp) \<le> MaxSettingsBytes" and "length (s_Telephone sp) \<le> MaxSettingsBytes" and "length (s_Email sp) \<le> MaxSettingsBytes"
  shows "\<exists>sp' f. run_state (supplier_seal e sp) w = (Inr sp', w\<lparr>rnd := f\<rparr>)"
proof -
  obtain c f1 where 1: "run_state (SealString e (s_ContactPerson sp) (ADContact ''supplier'' (s_ID sp) ''contact_person'')) w = (Inr c, w\<lparr>rnd := f1\<rparr>)"
    using SealString_returns [OF assms(1)] by blast
  obtain t f2 where 2: "run_state (SealString e (s_Telephone sp) (ADContact ''supplier'' (s_ID sp) ''telephone'')) (w\<lparr>rnd := f1\<rparr>) = (Inr t, w\<lparr>rnd := f1\<rparr>\<lparr>rnd := f2\<rparr>)"
    using SealString_returns [OF assms(2)] by blast
  obtain m f3 where 3: "run_state (SealString e (s_Email sp) (ADContact ''supplier'' (s_ID sp) ''email'')) (w\<lparr>rnd := f1\<rparr>\<lparr>rnd := f2\<rparr>) = (Inr m, w\<lparr>rnd := f1\<rparr>\<lparr>rnd := f2\<rparr>\<lparr>rnd := f3\<rparr>)"
    using SealString_returns [OF assms(3)] by blast
  show ?thesis unfolding supplier_seal_def run_try_in 1 prod.case sum.case 2 3 by auto
qed


lemma supplier_seal_opens:
  assumes "aead_ok (gcm e)" and "run_state (supplier_seal e sp) w = (Inr sp', w')"
  shows "supplier_present e subj sp' = (if IsAdmin subj then sp else sp\<lparr>s_ContactPerson := [], s_Telephone := [], s_Email := []\<rparr>)"
proof -
  from assms(2) obtain c t m w1 w2 where s:
    "run_state (SealString e (s_ContactPerson sp) (ADContact ''supplier'' (s_ID sp) ''contact_person'')) w = (Inr c, w1)"
    "run_state (SealString e (s_Telephone sp) (ADContact ''supplier'' (s_ID sp) ''telephone'')) w1 = (Inr t, w2)"
    "run_state (SealString e (s_Email sp) (ADContact ''supplier'' (s_ID sp) ''email'')) w2 = (Inr m, w')"
    "sp' = sp\<lparr>s_ContactPerson := c, s_Telephone := t, s_Email := m\<rparr>"
    by (auto simp: supplier_seal_def elim!: try_in_Inr)
  then show ?thesis
    using SealString_opens [OF assms(1) s(1)] SealString_opens [OF assms(1) s(2)] SealString_opens [OF assms(1) s(3)]
    by (simp add: supplier_present_def open_or_blank_def)
qed

lemma strip_front_length: "length (strip_front ps s) \<le> length s"
proof (induction ps s rule: strip_front.induct)
  case (1 ps s)
  show ?case
    by (subst strip_front.simps) (use 1 in \<open>fastforce split: option.split\<close>)
qed

lemma TrimSpace_length: "length (TrimSpace s) \<le> length s"
  using strip_front_length [of space_runes s] strip_front_length [of "map rev space_runes" "rev (strip_front space_runes s)"]
  by (simp add: TrimSpace_def Let_def)

lemma emit_failNext: "run_state (emit rc subj typ kind i details) w = ((), w') \<Longrightarrow> failNext w' = failNext w"
  by (auto simp: emit_def Emit_def Record_def Let_def split: sum.splits if_splits prod.splits)

text \<open>A valid request under an unused name is served.\<close>

lemma Suppliers_Create_returns:
  assumes "TenantID subj \<noteq> []" and "supplier_validate inp = Inr ()" and "failNext w = {}"
    and "\<And>s. s \<in> set (vals (suppliers w)) \<Longrightarrow> s_TenantID s = TenantID subj \<Longrightarrow> s_Name s \<noteq> TrimSpace (z_Name inp)"
    and "map_of (suppliers w) (new_id [] w) = None"
  shows "\<exists>sp w'. run_state (Suppliers_Create svc subj inp) w = (Inr sp, w') \<and> failNext w' = {}"
proof -
  let ?sp = "supplier_apply (zero_supplier\<lparr>s_ID := new_id [] w, s_TenantID := TenantID subj, s_CreatedBy := ActorID subj,
         s_CreatedAt := wall w, s_UpdatedAt := wall w\<rparr>) inp"
  let ?w1 = "snd (run_state NewID w)"
  have "length (z_ContactPerson inp) \<le> 512" "length (z_Telephone inp) \<le> 512" "length (z_Email inp) \<le> 512"
    using assms(2) by (auto simp: supplier_validate_def split: if_splits)
  then have "\<exists>sp' f. run_state (supplier_seal (env svc) ?sp) ?w1 = (Inr sp', ?w1\<lparr>rnd := f\<rparr>)"
    using TrimSpace_length [of "z_ContactPerson inp"] TrimSpace_length [of "z_Telephone inp"] TrimSpace_length [of "z_Email inp"]
    by (intro supplier_seal_returns) (auto simp: supplier_apply_def MaxSettingsBytes_def)
  then obtain sp1 f where seal: "run_state (supplier_seal (env svc) ?sp) ?w1 = (Inr sp1, ?w1\<lparr>rnd := f\<rparr>)" by blast
  from supplier_seal_frame [OF seal] have i: "s_ID sp1 = new_id [] w" "s_TenantID sp1 = TenantID subj" "s_Name sp1 = TrimSpace (z_Name inp)"
    by (auto simp: supplier_apply_def)
  obtain w2 where create: "run_state (CreateSupplier sp1) (?w1\<lparr>rnd := f\<rparr>) = (Inr (), w2)" and fn: "failNext w2 = {}"
    using assms(3,4,5) i by (auto simp: CreateSupplier_def run_guarded Let_def list_ex_iff)
  obtain w3 where e: "run_state (emit (rec svc) subj ''supplier_created'' ''supplier'' (s_ID sp1) []) w2 = ((), w3)"
    by (rule run_unit)
  show ?thesis
    using assms(1,2) seal create e emit_failNext [OF e] fn
    by (auto simp: Suppliers_Create_def in_tenant_eq Let_def run_try_in run_try_as)
qed

text \<open>
  C15: the contact data of a supplier that was created is stored sealed; reading the supplier gives an
  administrator the trimmed contact data of the request and anyone else three empty fields.
\<close>

theorem supplier_contact_roundtrip:
  assumes "aead_ok (gcm (env svc))" and "run_state (Suppliers_Create svc subj inp) w = (Inr sp, w')"
    and "TenantID reader = TenantID subj" and "failNext w' = {}"
  shows "\<exists>got. run_state (Suppliers_Get svc reader (s_ID sp)) w' = (Inr got, w')
    \<and> s_Name got = TrimSpace (z_Name inp) \<and> s_TenantID got = TenantID subj
    \<and> (s_ContactPerson got, s_Telephone got, s_Email got) = (if IsAdmin reader
         then (TrimSpace (z_ContactPerson inp), TrimSpace (z_Telephone inp), TrimSpace (z_Email inp)) else ([], [], []))"
proof -
  have t: "TenantID subj \<noteq> []" using assms(2) by (auto simp: Suppliers_Create_def in_tenant_eq split: if_splits)
  let ?sp = "supplier_apply (zero_supplier\<lparr>s_ID := new_id [] w, s_TenantID := TenantID subj, s_CreatedBy := ActorID subj,
         s_CreatedAt := wall w, s_UpdatedAt := wall w\<rparr>) inp"
  from assms(2) t obtain sp1 w1 w2 w3 where seal: "run_state (supplier_seal (env svc) ?sp) w1 = (Inr sp1, w2)"
    and create: "run_state (CreateSupplier sp1) w2 = (Inr (), w3)"
    and rest: "run_state (do { emit (rec svc) subj ''supplier_created'' ''supplier'' (s_ID sp1) [];
         ok (supplier_present (env svc) subj sp1) } :: (_, svc_err, _) prog) w3 = (Inr sp, w')"
    by (auto simp: Suppliers_Create_def in_tenant_eq Let_def split: sum.splits elim!: try_in_Inr try_as_Inr)
  from supplier_seal_frame [OF seal] have i: "s_ID sp1 = new_id [] w" "s_TenantID sp1 = TenantID subj" "s_Name sp1 = TrimSpace (z_Name inp)"
    by (auto simp: supplier_apply_def)
  obtain w4 where e: "run_state (emit (rec svc) subj ''supplier_created'' ''supplier'' (s_ID sp1) []) w3 = ((), w4)"
    by (rule run_unit)
  with rest have "w4 = w'" "s_ID sp = new_id [] w" using i by (auto simp: supplier_present_def)
  with e quiet_emit have "core w' = core w3" by (metis quiet_def snd_conv)
  then have "suppliers w' = suppliers w3" by (rule core_tables(6))
  moreover from create i(1) obtain st c u where "map_of (suppliers w3) (s_ID sp1) = Some (sp1\<lparr>s_ID := new_id [] w, s_Status := st, s_CreatedAt := c, s_UpdatedAt := u\<rparr>)"
    by (auto simp: CreateSupplier_def run_guarded Let_def update_conv split: if_splits)
  ultimately have "map_of (suppliers w') (s_ID sp) = Some (sp1\<lparr>s_ID := new_id [] w, s_Status := st, s_CreatedAt := c, s_UpdatedAt := u\<rparr>)"
    using i(1) \<open>s_ID sp = new_id [] w\<close> by simp
  then have get: "run_state (Suppliers_Get svc reader (s_ID sp)) w' =
      (Inr (supplier_present (env svc) reader (sp1\<lparr>s_ID := new_id [] w, s_Status := st, s_CreatedAt := c, s_UpdatedAt := u\<rparr>)), w')"
    using t i(2) assms(3,4) by (simp add: Suppliers_Get_def in_tenant_eq GetSupplier_def run_guarded run_try_as)
  moreover have "supplier_present (env svc) reader (sp1\<lparr>s_ID := new_id [] w, s_Status := st, s_CreatedAt := c, s_UpdatedAt := u\<rparr>)
      = (supplier_present (env svc) reader sp1)\<lparr>s_Status := st, s_CreatedAt := c, s_UpdatedAt := u\<rparr>"
    using i(1) by (simp add: supplier_present_def)
  ultimately show ?thesis
    using supplier_seal_opens [OF assms(1) seal, of reader] by (auto simp: supplier_apply_def zero_supplier_def)
qed

definition contacts_demo :: ContactService where
  "contacts_demo = \<lparr>rec = \<lparr>attached = True, folding = (\<lambda>s. s)\<rparr>, env = demo_env\<rparr>"

definition acme :: SupplierInput where
  "acme = \<lparr>z_Name = ''Acme'', z_Code = [], z_Address = [], z_City = [], z_State = [], z_Country = [], z_PostalCode = [],
     z_ContactPerson = [], z_Telephone = ''112'', z_Email = [], z_Website = [], z_Notes = [], z_Status = [], z_Tags = []\<rparr>"

theorem supplier_contact_roundtrip_witness:
  "\<exists>sp w' got. run_state (Suppliers_Create contacts_demo alice acme) world_demo = (Inr sp, w')
     \<and> run_state (Suppliers_Get contacts_demo (alice\<lparr>ActorKind := ActorSystem\<rparr>) (s_ID sp)) w' = (Inr got, w') \<and> s_Telephone got = ''112''"
proof -
  have v: "supplier_validate acme = Inr ()" by code_simp
  have "TenantID alice \<noteq> []" "failNext world_demo = {}" "suppliers world_demo = []"
    by (simp_all add: alice_def world_demo_def)
  then obtain sp w' where o: "run_state (Suppliers_Create contacts_demo alice acme) world_demo = (Inr sp, w')" "failNext w' = {}"
    using Suppliers_Create_returns [OF _ v, of alice world_demo contacts_demo] by auto
  have "aead_ok (gcm (env contacts_demo))" by (simp add: contacts_demo_def demo_aead)
  from supplier_contact_roundtrip [OF this o(1) _ o(2), of "alice\<lparr>ActorKind := ActorSystem\<rparr>"]
  have "\<exists>got. run_state (Suppliers_Get contacts_demo (alice\<lparr>ActorKind := ActorSystem\<rparr>) (s_ID sp)) w' = (Inr got, w') \<and> s_Telephone got = TrimSpace ''112''"
    by (auto simp: IsAdmin_def acme_def)
  moreover have "TrimSpace ''112'' = ''112''" by code_simp
  ultimately show ?thesis using o(1) by auto
qed

end
