(* ===== verification/Locations.thy ===== *)
theory Locations
  imports Suppliers
begin

text \<open>
  \<^verbatim>\<open>internal/locations/locations.go\<close>: the location tree of a tenant, with materialised paths and sealed contact
  fields. The checks are those of the categories, in another order, so the table stays a forest for
  the same reasons.
\<close>

section \<open>The service\<close>

record LocationInput =
  o_Name :: string
  o_Code :: string
  o_Description :: string
  o_ParentID :: string
  o_Address :: string
  o_City :: string
  o_State :: string
  o_Country :: string
  o_PostalCode :: string
  o_Contact :: string
  o_Phone :: string
  o_Email :: string
  o_Status :: string
  o_Tags :: "string tab"

definition location_mapErr :: "repo_err \<Rightarrow> svc_err" where
  "location_mapErr e = (case e of RNotFound \<Rightarrow> NotFound | RConflict \<Rightarrow> Conflict | RNotEmpty \<Rightarrow> InUse | _ \<Rightarrow> StoreErr e)"

definition location_validate :: "LocationInput \<Rightarrow> svc_err + unit" where
  "location_validate inp =
     (if TrimSpace (o_Name inp) = [] \<or> length (o_Name inp) > 200 then Inl (Validation ''name is required (max 200)'')
      else if o_Status inp \<notin> {[], LocActive, LocPlanned, LocDecommissioned} then Inl (Validation ''status is invalid'')
      else if list_ex (\<lambda>f. length f > 512) [o_Contact inp, o_Phone inp, o_Email inp] then Inl (Validation ''contact field too long'')
      else if length (o_Tags inp) > 64 then Inl (Validation ''too many tags'')
      else Inr ())"

definition location_seal :: "Envelope \<Rightarrow> Location \<Rightarrow> ('z sys_scheme, svc_err, Location) prog" where
  "location_seal e l =
     try_in (SealString e (l_Contact l) (ADContact ''location'' (l_ID l) ''contact'')) (\<lambda>c.
     try_in (SealString e (l_Phone l) (ADContact ''location'' (l_ID l) ''phone'')) (\<lambda>p.
     try_in (SealString e (l_Email l) (ADContact ''location'' (l_ID l) ''email'')) (\<lambda>m.
     ok (l\<lparr>l_Contact := c, l_Phone := p, l_Email := m\<rparr>))))"

definition location_present :: "Envelope \<Rightarrow> Subjects \<Rightarrow> Location \<Rightarrow> Location" where
  "location_present e subj l =
     (if \<not> IsAdmin subj then l\<lparr>l_Contact := [], l_Phone := [], l_Email := []\<rparr>
      else l\<lparr>l_Contact := open_or_blank e (l_Contact l) (ADContact ''location'' (l_ID l) ''contact''),
        l_Phone := open_or_blank e (l_Phone l) (ADContact ''location'' (l_ID l) ''phone''),
        l_Email := open_or_blank e (l_Email l) (ADContact ''location'' (l_ID l) ''email'')\<rparr>)"

definition location_apply :: "Location \<Rightarrow> LocationInput \<Rightarrow> Location" where
  "location_apply l inp = l\<lparr>l_Name := TrimSpace (o_Name inp), l_Code := o_Code inp, l_Description := o_Description inp, l_ParentID := o_ParentID inp,
     l_Address := o_Address inp, l_City := o_City inp, l_State := o_State inp, l_Country := o_Country inp, l_PostalCode := o_PostalCode inp,
     l_Contact := TrimSpace (o_Contact inp), l_Phone := TrimSpace (o_Phone inp), l_Email := TrimSpace (o_Email inp),
     l_Status := (if o_Status inp = [] then LocActive else o_Status inp), l_Tags := o_Tags inp\<rparr>"

text \<open>The path below a parent row.\<close>

definition path_under :: "Location \<Rightarrow> string \<Rightarrow> string" where
  "path_under p name = (if l_Path p = [] then l_Name p else l_Path p) @ '' / '' @ name"

definition location_path :: "string \<Rightarrow> string \<Rightarrow> string \<Rightarrow> ('z world_scheme, svc_err, string) prog" where
  "location_path tenantID parentID name =
     (if parentID = [] then ok name
      else try_as (\<lambda>_. Validation ''parent_id does not exist'') (GetLocation tenantID parentID) (\<lambda>p. ok (path_under p name)))"

definition Locations_isAncestor :: "Location tab \<Rightarrow> string \<Rightarrow> string \<Rightarrow> bool" where
  "Locations_isAncestor = isAncestor l_ParentID"

definition Locations_BuildTree :: "Location list \<Rightarrow> Forest" where
  "Locations_BuildTree = BuildTree l_ID l_ParentID"

definition Locations_Get :: "ContactService \<Rightarrow> Subjects \<Rightarrow> string \<Rightarrow> ('z world_scheme, svc_err, Location) prog" where
  "Locations_Get svc subj i = in_tenant subj (
     try_as location_mapErr (GetLocation (TenantID subj) i) (\<lambda>l. ok (location_present (env svc) subj l)))"

definition Locations_Create :: "ContactService \<Rightarrow> Subjects \<Rightarrow> LocationInput \<Rightarrow> ('z world_scheme, svc_err, Location) prog" where
  "Locations_Create svc subj inp = in_tenant subj (
     case location_validate inp of Inl e \<Rightarrow> fail_with e | Inr _ \<Rightarrow> do {
       w \<leftarrow> State_Monad.get;
       i \<leftarrow> NewID;
       let l = location_apply (zero_location\<lparr>l_ID := i, l_TenantID := TenantID subj, l_CreatedBy := ActorID subj,
         l_CreatedAt := wall w, l_UpdatedAt := wall w\<rparr>) inp;
       try_in (location_path (TenantID subj) (l_ParentID l) (l_Name l)) (\<lambda>path.
       try_in (location_seal (env svc) (l\<lparr>l_Path := path\<rparr>)) (\<lambda>l.
       try_as location_mapErr (CreateLocation l) (\<lambda>_. do {
         emit (rec svc) subj ''location_created'' ''location'' (l_ID l) [];
         Locations_Get svc subj (l_ID l)
       })))
     })"

definition Locations_List :: "ContactService \<Rightarrow> Subjects \<Rightarrow> ('z world_scheme, svc_err, Location list) prog" where
  "Locations_List svc subj = in_tenant subj (
     try_as StoreErr (ListLocations (TenantID subj)) (\<lambda>rows.
     ok (sort_key (\<lambda>l. ToLower (folding (rec svc)) (l_Path l)) (map (location_present (env svc) subj) rows))))"

definition Locations_Tree :: "ContactService \<Rightarrow> Subjects \<Rightarrow> ('z world_scheme, svc_err, Location tab \<times> Forest) prog" where
  "Locations_Tree svc subj = try_in (Locations_List svc subj) (\<lambda>rows. ok (node_map l_ID rows, Locations_BuildTree rows))"

text \<open>The cycle check of \<^verbatim>\<open>Update\<close>; the existence of the parent is checked when the path is computed.\<close>

definition check_cycle :: "Subjects \<Rightarrow> string \<Rightarrow> string \<Rightarrow> ('z world_scheme, svc_err, unit) prog" where
  "check_cycle subj i parent =
     (if parent = [] then ok ()
      else if parent = i then fail_with (Validation ''a location cannot be its own parent'')
      else try_as StoreErr (ListLocations (TenantID subj)) (\<lambda>rows.
           if Locations_isAncestor (node_map l_ID rows) i parent then fail_with (Validation ''parent_id would create a cycle'') else ok ()))"

definition Locations_Update :: "ContactService \<Rightarrow> Subjects \<Rightarrow> string \<Rightarrow> LocationInput \<Rightarrow> ('z world_scheme, svc_err, Location) prog" where
  "Locations_Update svc subj i inp = in_tenant subj (
     case location_validate inp of Inl e \<Rightarrow> fail_with e | Inr _ \<Rightarrow>
     try_as location_mapErr (GetLocation (TenantID subj) i) (\<lambda>l0.
     try_in (check_cycle subj i (o_ParentID inp)) (\<lambda>_.
     let l1 = location_apply l0 inp in
     try_in (location_path (TenantID subj) (l_ParentID l1) (l_Name l1)) (\<lambda>path. do {
       w \<leftarrow> State_Monad.get;
       try_in (location_seal (env svc) (l1\<lparr>l_Path := path, l_UpdatedAt := wall w\<rparr>)) (\<lambda>l.
       try_as location_mapErr (UpdateLocation l) (\<lambda>_. do {
         emit (rec svc) subj ''location_updated'' ''location'' i [];
         Locations_Get svc subj i
       }))
     }))))"

definition Locations_Delete :: "ContactService \<Rightarrow> Subjects \<Rightarrow> string \<Rightarrow> ('z world_scheme, svc_err, unit) prog" where
  "Locations_Delete svc subj i = in_tenant subj (
     try_as location_mapErr (GetLocation (TenantID subj) i) (\<lambda>_.
     try_in (refuse_used (CountChildLocations (TenantID subj) i)) (\<lambda>_.
     try_in (refuse_used (CountAssetsByLocation (TenantID subj) i)) (\<lambda>_.
     try_as location_mapErr (DeleteLocation (TenantID subj) i) (\<lambda>_. do {
       emit (rec svc) subj ''location_deleted'' ''location'' i [];
       ok ()
     })))))"

section \<open>Acting for the caller's tenant\<close>

lemma quiet_location_seal: "quiet (location_seal e l :: ('z world_scheme, _, _) prog)"
  unfolding location_seal_def by (intro quiet_progs quiet_SealString)

lemma scoped_location_seal: "state_io_rel (scoped t) (location_seal e l :: ('z world_scheme, _, _) prog)"
  unfolding location_seal_def by (intro scoped_rules scoped_SealString)

lemma location_seal_frame:
  assumes "run_state (location_seal e l) w = (Inr l', w')"
  shows "\<exists>c p m. l' = l\<lparr>l_Contact := c, l_Phone := p, l_Email := m\<rparr>"
  using assms by (auto simp: location_seal_def elim!: try_in_Inr) blast

lemma scoped_sealed_location:
  assumes "\<And>c x m. state_io_rel (scoped t) (f (l\<lparr>l_Contact := c, l_Phone := x, l_Email := m\<rparr>))"
  shows "state_io_rel (scoped t) (try_in (location_seal e l) f :: ('z world_scheme, _, _) prog)"
  unfolding try_in_def by (rule sc.io_try_as_val) (auto intro: scoped_location_seal assms dest!: location_seal_frame)

lemma GetLocation_tenant: "run_state (GetLocation t i) w = (Inr l, w') \<Longrightarrow> l_TenantID l = t \<and> (tab_ok l_ID (locations w) \<longrightarrow> l_ID l = i)"
  by (auto dest!: GetLocation_found dest: tab_ok_lookup simp: fillLocation_def)

lemma scoped_with_location:
  assumes "\<And>l. l_TenantID l = t \<Longrightarrow> state_io_rel (scoped t) (f l)"
  shows "state_io_rel (scoped t) (try_as g (GetLocation t i) f)"
  by (rule sc.io_try_as_val) (auto intro: scoped_rules assms dest: GetLocation_tenant)

lemma location_apply_frame [simp]: "l_ID (location_apply l inp) = l_ID l" "l_TenantID (location_apply l inp) = l_TenantID l"
  "l_ParentID (location_apply l inp) = o_ParentID inp" "l_Name (location_apply l inp) = TrimSpace (o_Name inp)"
  by (simp_all add: location_apply_def)

lemma scoped_location_parts:
  "state_io_rel (scoped t) (location_path t p name)"
  "state_io_rel (scoped (TenantID subj)) (check_cycle subj i p)"
  "state_io_rel (scoped (TenantID subj)) (Locations_Get svc subj i)"
  unfolding location_path_def check_cycle_def Locations_Get_def by (intro scoped_in_tenant scoped_rules)+

lemma scoped_Locations:
  "state_io_rel (scoped (TenantID subj)) (Locations_Create svc subj inp)"
  "state_io_rel (scoped (TenantID subj)) (Locations_Update svc subj i inp)"
  "state_io_rel (scoped (TenantID subj)) (Locations_Delete svc subj i)"
  "state_io_rel (scoped (TenantID subj)) (Locations_List svc subj)"
  "state_io_rel (scoped (TenantID subj)) (Locations_Tree svc subj)"
  unfolding Locations_Create_def Locations_Update_def Locations_Delete_def Locations_Tree_def Locations_List_def Let_def
  by (intro scoped_in_tenant scoped_sealed_location scoped_with_location scoped_location_parts scoped_kit scoped_rules;
      simp add: zero_location_def)+

section \<open>The table stays a forest\<close>

interpretation locs: parent_tree l_ID l_TenantID l_ParentID "fillLocation :: 'z mem_scheme \<Rightarrow> Location \<Rightarrow> Location"
  by unfold_locales (simp_all add: fillLocation_def)

definition locs_ok :: "mem \<Rightarrow> bool" where
  "locs_ok c \<longleftrightarrow> tab_ok l_ID (locations c) \<and> forest_ok l_TenantID l_ParentID (locations c)"

lemma ListLocations_listing:
  "run_state (ListLocations t) w = (Inr rows, w') \<Longrightarrow> rows = listing l_ID l_TenantID (fillLocation (core w)) t (locations w)"
  by (auto simp: ListLocations_def run_guarded listing_def fillLocation_def Let_def split: if_splits)

lemma leads_CreateLocation:
  assumes "l_ID r \<noteq> []"
  shows "leads (\<lambda>c. locs_ok c \<and> refers l_TenantID (locations c) (l_TenantID r) (l_ParentID r)) (CreateLocation r) locs_ok"
  by (rule leadsI) (auto simp: CreateLocation_def run_guarded locs_ok_def refers_def has_row_def Let_def assms
    intro!: tab_ok_update locs.forest_insert split: if_splits)

definition no_cycle :: "string \<Rightarrow> string \<Rightarrow> string \<Rightarrow> mem \<Rightarrow> bool" where
  "no_cycle t i p c \<longleftrightarrow> p \<noteq> [] \<longrightarrow> p \<noteq> i
     \<and> \<not> isAncestor l_ParentID (node_map l_ID (listing l_ID l_TenantID (fillLocation c) t (locations c))) i p"

lemma check_cycle_clear:
  assumes "run_state (check_cycle subj i p) w = (Inr u, w')"
  shows "no_cycle (TenantID subj) i p (core w)"
  using assms by (auto simp: check_cycle_def no_cycle_def Locations_isAncestor_def elim!: try_as_Inr
    dest!: ListLocations_listing split: if_splits)

lemma location_path_refers:
  assumes "run_state (location_path t p name) w = (Inr path, w')"
  shows "refers l_TenantID (locations w) t p \<and> (if p = [] then path = name
    else \<exists>l. map_of (locations w) p = Some l \<and> path = path_under l name)"
  using assms by (auto simp: location_path_def refers_def has_row_def path_under_def fillLocation_def
    elim!: try_as_Inr dest!: GetLocation_found split: if_splits)

lemma quiet_location_parts: "quiet (check_cycle subj i p)" "quiet (location_path t p name)" "quiet (Locations_Get svc subj i)"
  unfolding check_cycle_def location_path_def Locations_Get_def by (intro quiet_kit)+

lemma leads_UpdateLocation:
  "leads (\<lambda>c. locs_ok c \<and> refers l_TenantID (locations c) (l_TenantID r) (l_ParentID r)
     \<and> no_cycle (l_TenantID r) (l_ID r) (l_ParentID r) c) (UpdateLocation r) locs_ok"
proof (rule leadsI)
  fix w w' :: "'z world_scheme" and res
  assume run: "run_state (UpdateLocation r) w = (res, w')"
    and J: "locs_ok (core w) \<and> refers l_TenantID (locations (core w)) (l_TenantID r) (l_ParentID r)
      \<and> no_cycle (l_TenantID r) (l_ID r) (l_ParentID r) (core w)"
  then have ok: "tab_ok l_ID (locations w)" "forest_ok l_TenantID l_ParentID (locations w)"
    by (simp_all add: locs_ok_def)
  from run show "locs_ok (core w')"
  proof (cases rule: UpdateLocation_outcome)
    case (updated ex)
    let ?v = "r\<lparr>l_CreatedAt := l_CreatedAt ex, l_UpdatedAt := wall w\<rparr>"
    have "forest_ok l_TenantID l_ParentID (AList.update (l_ID r) ?v (locations w))"
    proof (rule locs.forest_replace [OF ok updated(2)])
      show "l_ParentID ?v \<noteq> l_ID r"
        using J forest_root [OF ok(2) updated(2)] by (cases "l_ParentID r = []") (auto simp: no_cycle_def)
    qed (use J updated(3) in \<open>auto simp: no_cycle_def refers_def has_row_def\<close>)
    then show ?thesis using ok(1) updated(4) by (simp add: locs_ok_def tab_ok_update)
  qed (use J in \<open>auto intro: same_core\<close>)
qed

lemma leads_DeleteLocation: "leads locs_ok (DeleteLocation t i) locs_ok"
proof (rule leadsI)
  fix w w' :: "'z world_scheme" and res
  assume run: "run_state (DeleteLocation t i) w = (res, w')" and J: "locs_ok (core w)"
  then have ok: "tab_ok l_ID (locations w)" "forest_ok l_TenantID l_ParentID (locations w)"
    by (simp_all add: locs_ok_def)
  from run show "locs_ok (core w')"
  proof (cases rule: DeleteLocation_outcome)
    case (deleted ex)
    have "forest_ok l_TenantID l_ParentID (AList.delete i (locations w))"
      by (rule locs.forest_delete [OF ok(2,1) deleted(2)]) (use deleted(3,4) in auto)
    then show ?thesis using ok(1) deleted(6) by (simp add: locs_ok_def tab_ok_delete)
  qed (use J in \<open>auto intro: same_core\<close>)
qed

text \<open>Sealing leaves everything but the contact fields alone.\<close>

lemma leads_sealed:
  assumes "\<And>c. J c \<Longrightarrow> K c" and "\<And>c x m. leads J (f (l\<lparr>l_Contact := c, l_Phone := x, l_Email := m\<rparr>)) K"
  shows "leads J (try_as g (location_seal e l) f) K"
proof (rule leads_check [where F = "\<lambda>x c. \<exists>a b d. x = l\<lparr>l_Contact := a, l_Phone := b, l_Email := d\<rparr>"])
  fix x
  show "leads (\<lambda>c. J c \<and> (\<exists>a b d. x = l\<lparr>l_Contact := a, l_Phone := b, l_Email := d\<rparr>)) (f x) K"
  proof (cases "\<exists>a b d. x = l\<lparr>l_Contact := a, l_Phone := b, l_Email := d\<rparr>")
    case True
    with assms(2) show ?thesis by (auto intro: leads_pre)
  qed (simp add: leads_def)
qed (auto intro: quiet_location_seal assms(1) dest: location_seal_frame)

lemma leads_with_path:
  assumes "\<And>c. J c \<Longrightarrow> K c" and "\<And>x. leads (\<lambda>c. J c \<and> refers l_TenantID (locations c) t p) (f x) K"
  shows "leads J (try_as g (location_path t p name) f) K"
  by (rule leads_check [where F = "\<lambda>_ c. refers l_TenantID (locations c) t p"])
    (use assms in \<open>auto intro: quiet_location_parts dest: location_path_refers\<close>)

lemma leads_Locations_Create: "leads locs_ok (Locations_Create svc subj inp) locs_ok"
  unfolding Locations_Create_def Let_def try_in_def
  by (intro leads_rules leads_with_path leads_sealed leads_read leads_write quiet_kit quiet_location_parts leads_pre [OF leads_CreateLocation])
    (auto simp: zero_location_def)

lemma leads_Locations_Delete: "leads locs_ok (Locations_Delete svc subj i) locs_ok"
  unfolding Locations_Delete_def try_in_def
  by (intro leads_rules leads_try leads_write quiet_kit leads_DeleteLocation)

lemma leads_Locations_Update: "leads locs_ok (Locations_Update svc subj i inp) locs_ok"
  unfolding Locations_Update_def Let_def try_in_def
proof (intro leads_rules leads_check [where F = "\<lambda>x c. l_TenantID x = TenantID subj \<and> (tab_ok l_ID (locations c) \<longrightarrow> l_ID x = i)"])
  fix l0 :: Location
  let ?J = "\<lambda>c. locs_ok c \<and> l_TenantID l0 = TenantID subj \<and> (tab_ok l_ID (locations c) \<longrightarrow> l_ID l0 = i)"
  show "leads ?J (try_as (\<lambda>e. e) (check_cycle subj i (o_ParentID inp)) (\<lambda>_.
     try_as (\<lambda>e. e) (location_path (TenantID subj) (l_ParentID (location_apply l0 inp)) (l_Name (location_apply l0 inp))) (\<lambda>path. do {
       w \<leftarrow> State_Monad.get;
       try_as (\<lambda>e. e) (location_seal (env svc) ((location_apply l0 inp)\<lparr>l_Path := path, l_UpdatedAt := wall w\<rparr>)) (\<lambda>l.
       try_as location_mapErr (UpdateLocation l) (\<lambda>_. do {
         emit (rec svc) subj ''location_updated'' ''location'' i [];
         Locations_Get svc subj i
       }))
     }))) locs_ok"
    by (rule leads_check [where F = "\<lambda>_ c. no_cycle (TenantID subj) i (o_ParentID inp) c"],
        rule quiet_location_parts, simp, erule check_cycle_clear,
        intro leads_with_path leads_sealed leads_read leads_write quiet_kit quiet_location_parts leads_pre [OF leads_UpdateLocation])
      (auto simp: locs_ok_def)
qed (auto intro: quiet_reads dest: GetLocation_tenant)

section \<open>Paths\<close>

text \<open>
  A new location has the path of its parent's row, or the parent's name where that row has no
  path, followed by its own name; a new root has its name as its path.
\<close>

theorem location_path_built:
  assumes "run_state (Locations_Create svc subj inp) w = (Inr l, w')"
  shows "l_ParentID l = o_ParentID inp \<and> l_Name l = TrimSpace (o_Name inp)
    \<and> (if o_ParentID inp = [] then l_Path l = TrimSpace (o_Name inp)
       else \<exists>p. map_of (locations w) (o_ParentID inp) = Some p \<and> l_TenantID p = TenantID subj \<and> l_Path l = path_under p (TrimSpace (o_Name inp)))"
proof -
  let ?l = "location_apply (zero_location\<lparr>l_ID := new_id [] w, l_TenantID := TenantID subj, l_CreatedBy := ActorID subj,
         l_CreatedAt := wall w, l_UpdatedAt := wall w\<rparr>) inp"
  from assms obtain path w1 l1 w2 w3 where
    path: "run_state (location_path (TenantID subj) (o_ParentID inp) (TrimSpace (o_Name inp))) (snd (run_state NewID w)) = (Inr path, w1)"
    and seal: "run_state (location_seal (env svc) (?l\<lparr>l_Path := path\<rparr>)) w1 = (Inr l1, w2)"
    and create: "run_state (CreateLocation l1) w2 = (Inr (), w3)"
    and rest: "run_state (do { emit (rec svc) subj ''location_created'' ''location'' (l_ID l1) []; Locations_Get svc subj (l_ID l1) }) w3 = (Inr l, w')"
    by (auto simp: Locations_Create_def in_tenant_eq Let_def split: sum.splits if_splits elim!: try_in_Inr try_as_Inr)
  from location_seal_frame [OF seal] have l1: "l_ID l1 \<noteq> []" "l_Path l1 = path" "l_ParentID l1 = o_ParentID inp" "l_Name l1 = TrimSpace (o_Name inp)"
    by auto
  have row: "\<exists>r. map_of (locations w3) (l_ID l1) = Some r \<and> l_Path r = path \<and> l_ParentID r = o_ParentID inp \<and> l_Name r = TrimSpace (o_Name inp)"
    using create l1 by (cases rule: CreateLocation_outcome) (auto simp: update_conv)
  obtain w4 where e: "run_state (emit (rec svc) subj ''location_created'' ''location'' (l_ID l1) []) w3 = ((), w4)"
    by (rule run_unit)
  then have "locations w4 = locations w3" using quiet_emit by (metis core_tables(7) quiet_def snd_conv)
  moreover from rest e have "run_state (Locations_Get svc subj (l_ID l1)) w4 = (Inr l, w')" by simp
  ultimately have "l_Path l = path" "l_ParentID l = o_ParentID inp" "l_Name l = TrimSpace (o_Name inp)"
    using row by (auto simp: Locations_Get_def in_tenant_eq location_present_def fillLocation_def elim!: try_as_Inr dest!: GetLocation_found split: if_splits)
  then show ?thesis
    using location_path_refers [OF path] by (auto simp: refers_def has_row_def)
qed

definition site :: "string \<Rightarrow> string \<Rightarrow> LocationInput" where
  "site name parent = \<lparr>o_Name = name, o_Code = [], o_Description = [], o_ParentID = parent, o_Address = [], o_City = [], o_State = [],
     o_Country = [], o_PostalCode = [], o_Contact = [], o_Phone = [], o_Email = [], o_Status = [], o_Tags = []\<rparr>"

definition site_demo :: world where
  "site_demo = world_demo\<lparr>locations := [(''l1'', zero_location\<lparr>l_ID := ''l1'', l_TenantID := ''t'', l_Name := ''HQ'', l_Path := ''HQ''\<rparr>)]\<rparr>"

theorem location_path_built_witness:
  "\<exists>l w'. run_state (Locations_Create contacts_demo alice (site ''Room'' ''l1'')) site_demo = (Inr l, w') \<and> l_Path l = ''HQ / Room''"
proof -
  define out where "out = run_state (Locations_Create contacts_demo alice (site ''Room'' ''l1'')) site_demo"
  have "(case fst out of Inr l \<Rightarrow> True | Inl _ \<Rightarrow> False)" unfolding out_def by code_simp
  then obtain l w' where o: "out = (Inr l, w')" by (cases out) (auto split: sum.splits)
  from location_path_built [OF o [unfolded out_def]] have "l_Path l = path_under (zero_location\<lparr>l_ID := ''l1'', l_TenantID := ''t'', l_Name := ''HQ'', l_Path := ''HQ''\<rparr>) (TrimSpace ''Room'')"
    by (simp add: site_def site_demo_def)
  moreover have "TrimSpace ''Room'' = ''Room''" by code_simp
  ultimately show ?thesis using o unfolding out_def by (auto simp: path_under_def)
qed

text \<open>
  Renaming a location leaves the paths of the locations below it as they were: here \<^verbatim>\<open>Room\<close> still has the path
  \<^verbatim>\<open>HQ / Room\<close> after its parent became \<^verbatim>\<open>Office\<close>.
\<close>

lemma location_path_stale:
  "(let w1 = snd (run_state (Locations_Update contacts_demo alice ''l1'' (site ''Office'' []))
          (site_demo\<lparr>locations := locations site_demo @ [(''l2'', zero_location\<lparr>l_ID := ''l2'', l_TenantID := ''t'', l_ParentID := ''l1'', l_Name := ''Room'', l_Path := ''HQ / Room''\<rparr>)]\<rparr>))
    in map (\<lambda>l. (l_Name l, l_Path l)) (vals (locations w1)) = [(''Office'', ''Office''), (''Room'', ''HQ / Room'')])"
  by code_simp

end
