(* ===== verification/Consumables.thy ===== *)
theory Consumables
  imports Locations
begin

text \<open>\<^verbatim>\<open>internal/consumables/consumables.go\<close>: consumables with an amount, a threshold and a low-stock flag.\<close>

section \<open>The service\<close>

record ConsumableInput =
  m_Name :: string
  m_Description :: string
  m_CategoryID :: string
  m_SupplierID :: string
  m_LocationID :: string
  m_ModelName :: string
  m_ModelNumber :: string
  m_Amount :: int
  m_MinAmount :: int
  m_PurchaseDate :: "gotime option"
  m_PurchaseCost :: real
  m_OrderNumber :: string
  m_Notes :: string
  m_Tags :: "string tab"

record ConsumableView =
  nv_Consumable :: Consumable
  nv_LowStock :: bool

definition IsLowStock :: "Consumable \<Rightarrow> bool" where
  "IsLowStock c \<longleftrightarrow> n_MinAmount c > 0 \<and> n_Amount c \<le> n_MinAmount c"

definition consumable_mapErr :: "repo_err \<Rightarrow> svc_err" where
  "consumable_mapErr e = (case e of RNotFound \<Rightarrow> NotFound | _ \<Rightarrow> StoreErr e)"

definition consumable_view :: "Consumable \<Rightarrow> ConsumableView" where
  "consumable_view c = \<lparr>nv_Consumable = c, nv_LowStock = IsLowStock c\<rparr>"

definition consumable_validate :: "ConsumableInput \<Rightarrow> svc_err + unit" where
  "consumable_validate inp =
     (if TrimSpace (m_Name inp) = [] \<or> length (m_Name inp) > 200 then Inl (Validation ''name is required (max 200)'')
      else if m_Amount inp < 0 \<or> m_MinAmount inp < 0 \<or> m_PurchaseCost inp < 0 then Inl (Validation ''numeric fields out of range'')
      else if length (m_Tags inp) > 64 then Inl (Validation ''too many tags'')
      else Inr ())"

definition consumable_checkRefs :: "string \<Rightarrow> ConsumableInput \<Rightarrow> ('z mem_scheme, svc_err, unit) prog" where
  "consumable_checkRefs tenantID inp =
     try_in (exists_or (m_CategoryID inp) ''category_id does not exist'' (GetCategory tenantID (m_CategoryID inp))) (\<lambda>_.
     try_in (exists_or (m_SupplierID inp) ''supplier_id does not exist'' (GetSupplier tenantID (m_SupplierID inp))) (\<lambda>_.
     exists_or (m_LocationID inp) ''location_id does not exist'' (GetLocation tenantID (m_LocationID inp))))"

definition consumable_apply :: "Consumable \<Rightarrow> ConsumableInput \<Rightarrow> Consumable" where
  "consumable_apply c inp = c\<lparr>n_Name := TrimSpace (m_Name inp), n_Description := m_Description inp, n_CategoryID := m_CategoryID inp,
     n_SupplierID := m_SupplierID inp, n_LocationID := m_LocationID inp, n_ModelName := m_ModelName inp, n_ModelNumber := m_ModelNumber inp,
     n_Amount := m_Amount inp, n_MinAmount := m_MinAmount inp, n_PurchaseDate := m_PurchaseDate inp, n_PurchaseCost := m_PurchaseCost inp,
     n_OrderNumber := m_OrderNumber inp, n_Notes := m_Notes inp, n_Tags := m_Tags inp\<rparr>"

definition Consumables_Create :: "Recorder \<Rightarrow> Subjects \<Rightarrow> ConsumableInput \<Rightarrow> ('z world_scheme, svc_err, ConsumableView) prog" where
  "Consumables_Create rc subj inp = in_tenant subj (
     case consumable_validate inp of Inl e \<Rightarrow> fail_with e | Inr _ \<Rightarrow>
     try_in (consumable_checkRefs (TenantID subj) inp) (\<lambda>_. do {
       w \<leftarrow> State_Monad.get;
       i \<leftarrow> NewID;
       let c = consumable_apply (zero_consumable\<lparr>n_ID := i, n_TenantID := TenantID subj, n_CreatedBy := ActorID subj,
         n_CreatedAt := wall w, n_UpdatedAt := wall w\<rparr>) inp;
       try_as consumable_mapErr (CreateConsumable c) (\<lambda>_. do {
         emit rc subj ''consumable_created'' ''consumable'' (n_ID c) [];
         ok (consumable_view c)
       })
     }))"

definition Consumables_Get :: "Subjects \<Rightarrow> string \<Rightarrow> ('z world_scheme, svc_err, ConsumableView) prog" where
  "Consumables_Get subj i = in_tenant subj (
     try_as consumable_mapErr (GetConsumable (TenantID subj) i) (\<lambda>c. ok (consumable_view c)))"

definition Consumables_List :: "Recorder \<Rightarrow> Subjects \<Rightarrow> ListOpts \<Rightarrow> ('z world_scheme, svc_err, ConsumableView list) prog" where
  "Consumables_List rc subj f = in_tenant subj (
     try_as StoreErr (ListConsumables (folding rc) (TenantID subj) f) (\<lambda>rows. ok (map consumable_view rows)))"

definition Consumables_Update :: "Recorder \<Rightarrow> Subjects \<Rightarrow> string \<Rightarrow> ConsumableInput \<Rightarrow> ('z world_scheme, svc_err, ConsumableView) prog" where
  "Consumables_Update rc subj i inp = in_tenant subj (
     case consumable_validate inp of Inl e \<Rightarrow> fail_with e | Inr _ \<Rightarrow>
     try_in (consumable_checkRefs (TenantID subj) inp) (\<lambda>_.
     try_as consumable_mapErr (GetConsumable (TenantID subj) i) (\<lambda>c0. do {
       w \<leftarrow> State_Monad.get;
       let c = (consumable_apply c0 inp)\<lparr>n_UpdatedAt := wall w\<rparr>;
       try_as consumable_mapErr (UpdateConsumable c) (\<lambda>_. do {
         emit rc subj ''consumable_updated'' ''consumable'' i [];
         ok (consumable_view c)
       })
     })))"

definition Consumables_Delete :: "Recorder \<Rightarrow> Subjects \<Rightarrow> string \<Rightarrow> ('z world_scheme, svc_err, unit) prog" where
  "Consumables_Delete rc subj i = in_tenant subj (
     try_as consumable_mapErr (DeleteConsumable (TenantID subj) i) (\<lambda>_. do {
       emit rc subj ''consumable_deleted'' ''consumable'' i [];
       ok ()
     }))"

section \<open>Acting for the caller's tenant\<close>

lemma GetConsumable_found:
  assumes "run_state (GetConsumable t i) w = (Inr n, w')"
  shows "w' = w \<and> map_of (consumables w) i = Some n \<and> n_TenantID n = t"
  using assms by (auto simp: GetConsumable_def run_guarded split: if_splits option.splits)

lemma scoped_consumable_checkRefs: "state_io_rel (scoped t) (consumable_checkRefs t inp)"
  unfolding consumable_checkRefs_def by (intro scoped_rules scoped_exists_or)

lemma quiet_consumable_checkRefs: "quiet (consumable_checkRefs t inp)"
  unfolding consumable_checkRefs_def by (intro quiet_progs)

lemma scoped_with_consumable:
  assumes "\<And>n. n_TenantID n = t \<Longrightarrow> state_io_rel (scoped t) (f n)"
  shows "state_io_rel (scoped t) (try_as g (GetConsumable t i) f)"
  by (rule sc.io_try_as_val) (auto intro: scoped_rules assms dest: GetConsumable_found)

lemma consumable_apply_frame [simp]: "n_ID (consumable_apply c inp) = n_ID c" "n_TenantID (consumable_apply c inp) = n_TenantID c"
  by (simp_all add: consumable_apply_def)

lemma scoped_Consumables:
  "state_io_rel (scoped (TenantID subj)) (Consumables_Create rc subj inp)"
  "state_io_rel (scoped (TenantID subj)) (Consumables_Update rc subj i inp)"
  "state_io_rel (scoped (TenantID subj)) (Consumables_Delete rc subj i)"
  "state_io_rel (scoped (TenantID subj)) (Consumables_Get subj i)"
  "state_io_rel (scoped (TenantID subj)) (Consumables_List rc subj f)"
  unfolding Consumables_Create_def Consumables_Update_def Consumables_Delete_def Consumables_Get_def Consumables_List_def Let_def
  by (intro scoped_in_tenant scoped_consumable_checkRefs scoped_with_consumable scoped_kit scoped_rules; simp add: zero_consumable_def)+

end
