(* ===== verification/Licenses.thy ===== *)
theory Licenses
  imports Locations
begin

text \<open>\<^verbatim>\<open>internal/licenses/licenses.go\<close>: software licenses with a validity period.\<close>

section \<open>The service\<close>

record LicenseInput =
  j_Name :: string
  j_SupplierID :: string
  j_PurchaseDate :: "gotime option"
  j_PurchaseCost :: real
  j_OrderNumber :: string
  j_ValidFrom :: "gotime option"
  j_ValidTo :: "gotime option"
  j_Notes :: string
  j_Status :: string
  j_Metadata :: "string tab"

definition license_mapErr :: "repo_err \<Rightarrow> svc_err" where
  "license_mapErr e = (case e of RNotFound \<Rightarrow> NotFound | _ \<Rightarrow> StoreErr e)"

text \<open>\<^verbatim>\<open>from != nil && to != nil && to.Before(*from)\<close>\<close>

definition ends_early :: "gotime option \<Rightarrow> gotime option \<Rightarrow> bool" where
  "ends_early from to \<longleftrightarrow> (case (from, to) of (Some f, Some t) \<Rightarrow> t < f | _ \<Rightarrow> False)"

definition license_validate :: "LicenseInput \<Rightarrow> svc_err + unit" where
  "license_validate inp =
     (if TrimSpace (j_Name inp) = [] \<or> length (j_Name inp) > 200 then Inl (Validation ''name is required (max 200)'')
      else if j_Status inp \<notin> {[], LicActive, LicExpired, LicSuspended} then Inl (Validation ''status is invalid'')
      else if j_PurchaseCost inp < 0 then Inl (Validation ''purchase_cost out of range'')
      else if ends_early (j_ValidFrom inp) (j_ValidTo inp) then Inl (Validation ''valid_to precedes valid_from'')
      else if length (j_Metadata inp) > 64 then Inl (Validation ''too many metadata entries'')
      else Inr ())"

definition license_apply :: "License \<Rightarrow> LicenseInput \<Rightarrow> License" where
  "license_apply l inp = l\<lparr>i_Name := TrimSpace (j_Name inp), i_SupplierID := j_SupplierID inp, i_PurchaseDate := j_PurchaseDate inp,
     i_PurchaseCost := j_PurchaseCost inp, i_OrderNumber := j_OrderNumber inp, i_ValidFrom := j_ValidFrom inp, i_ValidTo := j_ValidTo inp,
     i_Notes := j_Notes inp, i_Metadata := j_Metadata inp, i_Status := (if j_Status inp = [] then LicActive else j_Status inp)\<rparr>"

definition checkSupplier :: "string \<Rightarrow> string \<Rightarrow> ('z mem_scheme, svc_err, unit) prog" where
  "checkSupplier tenantID i = exists_or i ''supplier_id does not exist'' (GetSupplier tenantID i)"

definition Licenses_Create :: "Recorder \<Rightarrow> Subjects \<Rightarrow> LicenseInput \<Rightarrow> ('z world_scheme, svc_err, License) prog" where
  "Licenses_Create rc subj inp = in_tenant subj (
     case license_validate inp of Inl e \<Rightarrow> fail_with e | Inr _ \<Rightarrow>
     try_in (checkSupplier (TenantID subj) (j_SupplierID inp)) (\<lambda>_. do {
       w \<leftarrow> State_Monad.get;
       i \<leftarrow> NewID;
       let l = license_apply (zero_license\<lparr>i_ID := i, i_TenantID := TenantID subj, i_CreatedBy := ActorID subj,
         i_CreatedAt := wall w, i_UpdatedAt := wall w\<rparr>) inp;
       try_as license_mapErr (CreateLicense l) (\<lambda>_. do {
         emit rc subj ''license_created'' ''license'' (i_ID l) [];
         ok l
       })
     }))"

definition Licenses_Get :: "Subjects \<Rightarrow> string \<Rightarrow> ('z world_scheme, svc_err, License) prog" where
  "Licenses_Get subj i = in_tenant subj (try_as license_mapErr (GetLicense (TenantID subj) i) ok)"

definition Licenses_List :: "Recorder \<Rightarrow> Subjects \<Rightarrow> ListOpts \<Rightarrow> ('z world_scheme, svc_err, License list) prog" where
  "Licenses_List rc subj f = in_tenant subj (try_as StoreErr (ListLicenses (folding rc) (TenantID subj) f) ok)"

definition Licenses_Update :: "Recorder \<Rightarrow> Subjects \<Rightarrow> string \<Rightarrow> LicenseInput \<Rightarrow> ('z world_scheme, svc_err, License) prog" where
  "Licenses_Update rc subj i inp = in_tenant subj (
     case license_validate inp of Inl e \<Rightarrow> fail_with e | Inr _ \<Rightarrow>
     try_in (checkSupplier (TenantID subj) (j_SupplierID inp)) (\<lambda>_.
     try_as license_mapErr (GetLicense (TenantID subj) i) (\<lambda>l0. do {
       w \<leftarrow> State_Monad.get;
       let l = (license_apply l0 inp)\<lparr>i_UpdatedAt := wall w\<rparr>;
       try_as license_mapErr (UpdateLicense l) (\<lambda>_. do {
         emit rc subj ''license_updated'' ''license'' i [];
         ok l
       })
     })))"

definition Licenses_Delete :: "Recorder \<Rightarrow> Subjects \<Rightarrow> string \<Rightarrow> ('z world_scheme, svc_err, unit) prog" where
  "Licenses_Delete rc subj i = in_tenant subj (
     try_as license_mapErr (DeleteLicense (TenantID subj) i) (\<lambda>_. do {
       emit rc subj ''license_deleted'' ''license'' i [];
       ok ()
     }))"

section \<open>Acting for the caller's tenant\<close>

lemma GetLicense_found:
  assumes "run_state (GetLicense t i) w = (Inr l, w')"
  shows "w' = w \<and> map_of (licenses w) i = Some l \<and> i_TenantID l = t"
  using assms by (auto simp: GetLicense_def run_guarded split: if_splits option.splits)

lemma scoped_checkSupplier: "state_io_rel (scoped t) (checkSupplier t i)"
  unfolding checkSupplier_def by (intro scoped_rules scoped_exists_or)

lemma quiet_checkSupplier: "quiet (checkSupplier t i)"
  unfolding checkSupplier_def by (intro quiet_progs)

lemma scoped_with_license:
  assumes "\<And>l. i_TenantID l = t \<Longrightarrow> state_io_rel (scoped t) (f l)"
  shows "state_io_rel (scoped t) (try_as g (GetLicense t i) f)"
  by (rule sc.io_try_as_val) (auto intro: scoped_rules assms dest: GetLicense_found)

lemma license_apply_frame [simp]: "i_ID (license_apply l inp) = i_ID l" "i_TenantID (license_apply l inp) = i_TenantID l"
  by (simp_all add: license_apply_def)

lemma scoped_Licenses:
  "state_io_rel (scoped (TenantID subj)) (Licenses_Create rc subj inp)"
  "state_io_rel (scoped (TenantID subj)) (Licenses_Update rc subj i inp)"
  "state_io_rel (scoped (TenantID subj)) (Licenses_Delete rc subj i)"
  "state_io_rel (scoped (TenantID subj)) (Licenses_Get subj i)"
  "state_io_rel (scoped (TenantID subj)) (Licenses_List rc subj f)"
  unfolding Licenses_Create_def Licenses_Update_def Licenses_Delete_def Licenses_Get_def Licenses_List_def Let_def
  by (intro scoped_in_tenant scoped_checkSupplier scoped_with_license scoped_kit scoped_rules; simp add: zero_license_def)+

end
