(* ===== verification/Insurance.thy ===== *)
theory Insurance
  imports Licenses
begin

text \<open>\<^verbatim>\<open>internal/insurance/insurance.go\<close>: insurance policies and the assets they cover.\<close>

section \<open>The service\<close>

record PolicyInput =
  h_Name :: string
  h_PolicyNumber :: string
  h_Provider :: string
  h_CoverageType :: string
  h_PremiumAmount :: real
  h_Deductible :: real
  h_CoverageLimit :: real
  h_ValidFrom :: "gotime option"
  h_ValidTo :: "gotime option"
  h_Status :: string
  h_Notes :: string
  h_Metadata :: "string tab"

definition policy_mapErr :: "repo_err \<Rightarrow> svc_err" where
  "policy_mapErr e = (case e of RNotFound \<Rightarrow> NotFound | RConflict \<Rightarrow> Conflict | _ \<Rightarrow> StoreErr e)"

definition policy_validate :: "PolicyInput \<Rightarrow> svc_err + unit" where
  "policy_validate inp =
     (if TrimSpace (h_Name inp) = [] \<or> length (h_Name inp) > 200 then Inl (Validation ''name is required (max 200)'')
      else if TrimSpace (h_PolicyNumber inp) = [] \<or> length (h_PolicyNumber inp) > 100 then Inl (Validation ''policy_number is required (max 100)'')
      else if h_CoverageType inp \<notin> {[], ''all_risk'', ''fire_theft'', ''liability'', ''equipment_breakdown'', ''cyber''}
        then Inl (Validation ''coverage_type is invalid'')
      else if h_Status inp \<notin> {[], InsActive, InsExpired, InsCancelled} then Inl (Validation ''status is invalid'')
      else if h_PremiumAmount inp < 0 \<or> h_Deductible inp < 0 \<or> h_CoverageLimit inp < 0 then Inl (Validation ''amounts out of range'')
      else if ends_early (h_ValidFrom inp) (h_ValidTo inp) then Inl (Validation ''valid_to precedes valid_from'')
      else if length (h_Metadata inp) > 64 then Inl (Validation ''too many metadata entries'')
      else Inr ())"

definition policy_apply :: "InsurancePolicy \<Rightarrow> PolicyInput \<Rightarrow> InsurancePolicy" where
  "policy_apply p inp = p\<lparr>p_Name := TrimSpace (h_Name inp), p_PolicyNumber := TrimSpace (h_PolicyNumber inp), p_Provider := h_Provider inp,
     p_CoverageType := h_CoverageType inp, p_PremiumAmount := h_PremiumAmount inp, p_Deductible := h_Deductible inp,
     p_CoverageLimit := h_CoverageLimit inp, p_ValidFrom := h_ValidFrom inp, p_ValidTo := h_ValidTo inp, p_Notes := h_Notes inp,
     p_Metadata := h_Metadata inp, p_Status := (if h_Status inp = [] then InsActive else h_Status inp)\<rparr>"

definition Insurance_Get :: "Subjects \<Rightarrow> string \<Rightarrow> ('z world_scheme, svc_err, InsurancePolicy) prog" where
  "Insurance_Get subj i = in_tenant subj (try_as policy_mapErr (GetInsurance (TenantID subj) i) ok)"

definition Insurance_Create :: "Recorder \<Rightarrow> Subjects \<Rightarrow> PolicyInput \<Rightarrow> ('z world_scheme, svc_err, InsurancePolicy) prog" where
  "Insurance_Create rc subj inp = in_tenant subj (
     case policy_validate inp of Inl e \<Rightarrow> fail_with e | Inr _ \<Rightarrow> do {
       w \<leftarrow> State_Monad.get;
       i \<leftarrow> NewID;
       let p = policy_apply (zero_insurance\<lparr>p_ID := i, p_TenantID := TenantID subj, p_CreatedBy := ActorID subj,
         p_CreatedAt := wall w, p_UpdatedAt := wall w\<rparr>) inp;
       try_as policy_mapErr (CreateInsurance p) (\<lambda>_. do {
         emit rc subj ''insurance_created'' ''insurance'' (p_ID p) [];
         Insurance_Get subj (p_ID p)
       })
     })"

definition Insurance_List :: "Recorder \<Rightarrow> Subjects \<Rightarrow> ListOpts \<Rightarrow> ('z world_scheme, svc_err, InsurancePolicy list) prog" where
  "Insurance_List rc subj f = in_tenant subj (try_as StoreErr (ListInsurance (folding rc) (TenantID subj) f) ok)"

definition Insurance_Update :: "Recorder \<Rightarrow> Subjects \<Rightarrow> string \<Rightarrow> PolicyInput \<Rightarrow> ('z world_scheme, svc_err, InsurancePolicy) prog" where
  "Insurance_Update rc subj i inp = in_tenant subj (
     case policy_validate inp of Inl e \<Rightarrow> fail_with e | Inr _ \<Rightarrow>
     try_as policy_mapErr (GetInsurance (TenantID subj) i) (\<lambda>p0. do {
       w \<leftarrow> State_Monad.get;
       let p = (policy_apply p0 inp)\<lparr>p_UpdatedAt := wall w\<rparr>;
       try_as policy_mapErr (UpdateInsurance p) (\<lambda>_. do {
         emit rc subj ''insurance_updated'' ''insurance'' i [];
         Insurance_Get subj i
       })
     }))"

definition Insurance_Delete :: "Recorder \<Rightarrow> Subjects \<Rightarrow> string \<Rightarrow> ('z world_scheme, svc_err, unit) prog" where
  "Insurance_Delete rc subj i = in_tenant subj (
     try_as policy_mapErr (DeleteInsurance (TenantID subj) i) (\<lambda>_. do {
       emit rc subj ''insurance_deleted'' ''insurance'' i [];
       ok ()
     }))"

definition Insurance_ListPolicyAssets :: "Subjects \<Rightarrow> string \<Rightarrow> ('z world_scheme, svc_err, PolicyAsset list) prog" where
  "Insurance_ListPolicyAssets subj policyID = in_tenant subj (
     try_as policy_mapErr (GetInsurance (TenantID subj) policyID) (\<lambda>_.
     try_as StoreErr (ListPolicyAssets (TenantID subj) policyID) ok))"

definition AddAssetToPolicy :: "Recorder \<Rightarrow> Subjects \<Rightarrow> string \<Rightarrow> string \<Rightarrow> real \<Rightarrow> string \<Rightarrow> ('z world_scheme, svc_err, PolicyAsset) prog" where
  "AddAssetToPolicy rc subj policyID assetID coveredValue notes = in_tenant subj (
     if assetID = [] then fail_with (Validation ''asset_id is required'')
     else if coveredValue < 0 then fail_with (Validation ''covered_value out of range'')
     else try_as policy_mapErr (GetInsurance (TenantID subj) policyID) (\<lambda>_.
     try_as (\<lambda>e. if e = RNotFound then Validation ''asset_id does not exist'' else StoreErr e) (GetAsset (TenantID subj) assetID) (\<lambda>a. do {
       w \<leftarrow> State_Monad.get;
       i \<leftarrow> NewID;
       let pa = \<lparr>q_ID = i, q_TenantID = TenantID subj, q_PolicyID = policyID, q_AssetID = assetID, q_CoveredValue = coveredValue,
         q_Notes = notes, q_AssetTag = a_AssetTag a, q_AssetName = a_Name a, q_ModelName = a_ModelName a,
         q_CreatedBy = ActorID subj, q_CreatedAt = wall w\<rparr>;
       try_as policy_mapErr (AddPolicyAsset pa) (\<lambda>_. do {
         emit rc subj ''policy_asset_added'' ''policy_asset'' (q_ID pa) [(''policy_id'', AStr policyID), (''asset_id'', AStr assetID)];
         ok pa
       })
     })))"

definition RemoveAssetFromPolicy :: "Recorder \<Rightarrow> Subjects \<Rightarrow> string \<Rightarrow> string \<Rightarrow> ('z world_scheme, svc_err, unit) prog" where
  "RemoveAssetFromPolicy rc subj policyID assetID = in_tenant subj (
     try_as policy_mapErr (RemovePolicyAsset (TenantID subj) policyID assetID) (\<lambda>_. do {
       emit rc subj ''policy_asset_removed'' ''policy_asset'' (policyID @ ''/'' @ assetID)
         [(''policy_id'', AStr policyID), (''asset_id'', AStr assetID)];
       ok ()
     }))"

section \<open>Acting for the caller's tenant\<close>

lemma GetInsurance_found:
  assumes "run_state (GetInsurance t i) w = (Inr p, w')"
  shows "w' = w \<and> (\<exists>p0. map_of (insurance w) i = Some p0 \<and> p_TenantID p0 = t \<and> p = fillInsurance w p0)"
  using assms by (auto simp: GetInsurance_def run_guarded split: if_splits option.splits)

lemma scoped_with_policy:
  assumes "\<And>p. p_TenantID p = t \<Longrightarrow> state_io_rel (scoped t) (f p)"
  shows "state_io_rel (scoped t) (try_as g (GetInsurance t i) f)"
proof (rule sc.io_try_as_val)
  fix p and w w' :: "'a world_scheme"
  assume "run_state (GetInsurance t i) w = (Inr p, w')"
  then have "p_TenantID p = t" by (auto dest!: GetInsurance_found simp: fillInsurance_def)
  then show "state_io_rel (scoped t) (f p)" by (rule assms)
qed (intro scoped_rules)

lemma policy_apply_frame [simp]: "p_ID (policy_apply p inp) = p_ID p" "p_TenantID (policy_apply p inp) = p_TenantID p"
  by (simp_all add: policy_apply_def)

lemma scoped_Insurance_Get: "state_io_rel (scoped (TenantID subj)) (Insurance_Get subj i)"
  unfolding Insurance_Get_def by (intro scoped_in_tenant scoped_rules)

lemma scoped_Insurance:
  "state_io_rel (scoped (TenantID subj)) (Insurance_Create rc subj inp)"
  "state_io_rel (scoped (TenantID subj)) (Insurance_Update rc subj i inp)"
  "state_io_rel (scoped (TenantID subj)) (Insurance_Delete rc subj i)"
  "state_io_rel (scoped (TenantID subj)) (Insurance_List rc subj f)"
  "state_io_rel (scoped (TenantID subj)) (Insurance_ListPolicyAssets subj i)"
  "state_io_rel (scoped (TenantID subj)) (AddAssetToPolicy rc subj i j v notes)"
  "state_io_rel (scoped (TenantID subj)) (RemoveAssetFromPolicy rc subj i j)"
  unfolding Insurance_Create_def Insurance_Update_def Insurance_Delete_def Insurance_List_def Insurance_ListPolicyAssets_def
    AddAssetToPolicy_def RemoveAssetFromPolicy_def Let_def
  by (intro scoped_in_tenant scoped_with_policy scoped_with_asset scoped_Insurance_Get scoped_kit scoped_rules; simp add: zero_insurance_def)+

lemma quiet_Insurance_Get: "quiet (Insurance_Get subj i)"
  unfolding Insurance_Get_def by (intro quiet_kit)

end
