(* ===== verification/Documents.thy ===== *)
theory Documents
  imports Consumables Insurance Strconv
begin

text \<open>
  \<^verbatim>\<open>internal/documents\<close>: photos and documents, kept in the object store of the service or in the paperless
  module. The paperless module is another service: \<open>Paper\<close> is the record of the calls the Go interface of that
  name has, each a program on the world whose own state is whatever extends the world, and \<open>paper_ok\<close> is what
  its being remote means: a call changes nothing of this service. SHA-256 is a parameter.
  The body of an upload is its bytes; reading it does not fail.
\<close>

section \<open>Object keys\<close>

text \<open>\<^verbatim>\<open>path.Ext\<close> and \<^verbatim>\<open>path.Base\<close>\<close>

definition path_Ext :: "string \<Rightarrow> string" where
  "path_Ext p = (let tail = takeWhile (\<lambda>c. c \<noteq> CHR ''/'' \<and> c \<noteq> CHR ''.'') (rev p) in
     if drop (length tail) (rev p) \<noteq> [] \<and> hd (drop (length tail) (rev p)) = CHR ''.'' then CHR ''.'' # rev tail else [])"

definition path_Base :: "string \<Rightarrow> string" where
  "path_Base p = (if p = [] then ''.'' else
     (let stripped = dropWhile (\<lambda>c. c = CHR ''/'') (rev p) in
      if stripped = [] then ''/'' else rev (takeWhile (\<lambda>c. c \<noteq> CHR ''/'') stripped)))"

definition tenantPrefix :: "string \<Rightarrow> string" where
  "tenantPrefix tenantID = ''tenants/'' @ tenantID @ ''/''"

definition PhotoKey :: "string \<Rightarrow> string \<Rightarrow> string \<Rightarrow> string" where
  "PhotoKey tenantID assetID ext = tenantPrefix tenantID @ ''assets/'' @ assetID @ ''/photo'' @ ext"

definition DocumentKey :: "string \<Rightarrow> string \<Rightarrow> string" where
  "DocumentKey tenantID docID = tenantPrefix tenantID @ ''documents/'' @ docID"

datatype doc_err =
    DocSvc svc_err
  | DocNotFound
  | TooLarge
  | MediaType
  | EntityTypeErr
  | CrossTenant
  | SearchUnavailable
  | DocValidation string
  | BlobErr string
  | PaperErr string
  | ChecksumMismatch string

datatype paper_err = PaperNotFound | PaperFailed string

definition doc_mapErr :: "repo_err \<Rightarrow> doc_err" where
  "doc_mapErr e = (case e of RNotFound \<Rightarrow> DocNotFound | _ \<Rightarrow> DocSvc (StoreErr e))"

definition checkKey :: "string \<Rightarrow> string \<Rightarrow> doc_err + unit" where
  "checkKey tenantID key = (if \<not> prefix (tenantPrefix tenantID) key \<or> Contains key ''..'' then Inl CrossTenant else Inr ())"

definition photoExt :: "string tab" where
  "photoExt = [(''image/png'', ''.png''), (''image/jpeg'', ''.jpg''), (''image/gif'', ''.gif''), (''image/webp'', ''.webp'')]"

definition PhotoMime :: "string \<Rightarrow> string" where
  "PhotoMime key = (let e = path_Ext key in
     if e = ''.png'' then ''image/png'' else if e = ''.jpg'' then ''image/jpeg'' else if e = ''.gif'' then ''image/gif''
     else if e = ''.webp'' then ''image/webp'' else ''application/octet-stream'')"

section \<open>The object store\<close>

definition blob_Put :: "(string \<Rightarrow> string) \<Rightarrow> string \<Rightarrow> string \<Rightarrow> ('z world_scheme, string, string) prog" where
  "blob_Put sha key data = do {
     w \<leftarrow> State_Monad.get;
     case putErr w of
       Some e \<Rightarrow> do { State_Monad.update (\<lambda>w. w\<lparr>putErr := None\<rparr>); fail_with e }
     | None \<Rightarrow> do { State_Monad.update (\<lambda>w. w\<lparr>objects := AList.update key data (objects w)\<rparr>); ok (sha data) }
   }"

definition blob_Get :: "string \<Rightarrow> ('z world_scheme, string, string) prog" where
  "blob_Get key = do {
     w \<leftarrow> State_Monad.get;
     case map_of (objects w) key of None \<Rightarrow> fail_with ''not found'' | Some data \<Rightarrow> ok data
   }"

text \<open>The presigned link of the in-memory store; a lifetime is a duration in nanoseconds.\<close>

definition blob_PresignGet :: "string \<Rightarrow> int \<Rightarrow> string" where
  "blob_PresignGet key ttl = ''https://fake-blob.local/'' @ key @ ''?ttl='' @ Itoa (ttl div nanos_per_second)"

text \<open>\<^verbatim>\<open>io.ReadAll(io.LimitReader(r, n))\<close>\<close>

definition read_limited :: "int \<Rightarrow> string \<Rightarrow> string" where
  "read_limited n body = take (nat n) body"

section \<open>The paperless module\<close>

record PaperDocument =
  pd_CategoryID :: string
  pd_Name :: string
  pd_Description :: string
  pd_FileName :: string
  pd_MimeType :: string
  pd_Tags :: "string tab"
  pd_Content :: string

record PaperHit =
  ph_ID :: string
  ph_Snippet :: string
  ph_Rank :: real

record 'z Paper =
  pp_EnsureCategory :: "string \<Rightarrow> string list \<Rightarrow> ('z world_scheme, paper_err, string) prog"
  pp_Create :: "string \<Rightarrow> PaperDocument \<Rightarrow> ('z world_scheme, paper_err, string) prog"
  pp_Download :: "string \<Rightarrow> string \<Rightarrow> ('z world_scheme, paper_err, string) prog"
  pp_Delete :: "string \<Rightarrow> string \<Rightarrow> ('z world_scheme, paper_err, unit) prog"
  pp_Search :: "string \<Rightarrow> string \<Rightarrow> int \<Rightarrow> ('z world_scheme, paper_err, PaperHit list) prog"

text \<open>A call to another service leaves everything of this one as it was, and a new document has an id.\<close>

definition abroad :: "'z world_scheme \<Rightarrow> 'z world_scheme \<Rightarrow> bool" where
  "abroad w w' \<longleftrightarrow> world.truncate w' = world.truncate w"

definition paper_ok :: "'z Paper \<Rightarrow> bool" where
  "paper_ok p \<longleftrightarrow> (\<forall>t path. state_io_rel abroad (pp_EnsureCategory p t path)) \<and> (\<forall>t d. state_io_rel abroad (pp_Create p t d))
     \<and> (\<forall>t i. state_io_rel abroad (pp_Download p t i)) \<and> (\<forall>t i. state_io_rel abroad (pp_Delete p t i))
     \<and> (\<forall>t q n. state_io_rel abroad (pp_Search p t q n))
     \<and> (\<forall>t d w i w'. run_state (pp_Create p t d) w = (Inr i, w') \<longrightarrow> i \<noteq> [])"

definition paper_mapErr :: "paper_err \<Rightarrow> doc_err" where
  "paper_mapErr e = (case e of PaperNotFound \<Rightarrow> PaperErr ''documents: not found in paperless'' | PaperFailed m \<Rightarrow> PaperErr m)"

record 'z DocService =
  doc_rec :: Recorder
  maxSize :: int
  sha256 :: "string \<Rightarrow> string"
  paper :: "'z Paper option"

record UploadInput =
  up_FileName :: string
  up_MimeType :: string
  up_Size :: int
  up_Body :: string
  up_Description :: string

definition doc_tenant :: "Subjects \<Rightarrow> ('s, doc_err, 'a) prog \<Rightarrow> ('s, doc_err, 'a) prog" where
  "doc_tenant subj m = (case RequireTenant subj (TenantID subj) of Inl e \<Rightarrow> fail_with (DocSvc e) | Inr _ \<Rightarrow> m)"

definition entityExists :: "string \<Rightarrow> string \<Rightarrow> string \<Rightarrow> ('z world_scheme, doc_err, unit) prog" where
  "entityExists tenantID entityType entityID =
     (if entityType = EntityAsset then try_as doc_mapErr (GetAsset tenantID entityID) (\<lambda>_. ok ())
      else if entityType = EntityConsumable then try_as doc_mapErr (GetConsumable tenantID entityID) (\<lambda>_. ok ())
      else if entityType = EntityLicense then try_as doc_mapErr (GetLicense tenantID entityID) (\<lambda>_. ok ())
      else fail_with EntityTypeErr)"

definition ignore :: "('s, 'e, 'a) prog \<Rightarrow> ('s, unit) state" where
  "ignore m = do { _ \<leftarrow> m; State_Monad.return () }"

subsection \<open>Photos\<close>

definition UploadPhoto :: "'z DocService \<Rightarrow> Subjects \<Rightarrow> string \<Rightarrow> UploadInput \<Rightarrow> ('z world_scheme, doc_err, Asset) prog" where
  "UploadPhoto svc subj assetID inp = doc_tenant subj (
     case map_of photoExt (ToLower (folding (doc_rec svc)) (TrimSpace (takeWhile (\<lambda>c. c \<noteq> CHR '';'') (up_MimeType inp)))) of
       None \<Rightarrow> fail_with MediaType
     | Some ext \<Rightarrow>
       if up_Size inp > maxSize svc then fail_with TooLarge else
       try_as doc_mapErr (GetAsset (TenantID subj) assetID) (\<lambda>a.
       let key = PhotoKey (TenantID subj) assetID ext in
       try_as BlobErr (blob_Put (sha256 svc) key (read_limited (maxSize svc + 1) (up_Body inp))) (\<lambda>_. do {
         (if a_PhotoKey a \<noteq> [] \<and> a_PhotoKey a \<noteq> key then ignore (blob_Delete (a_PhotoKey a)) else State_Monad.return ());
         w \<leftarrow> State_Monad.get;
         let a' = a\<lparr>a_PhotoKey := key, a_UpdatedBy := ActorID subj, a_UpdatedAt := wall w\<rparr>;
         r \<leftarrow> UpdateAsset a';
         case r of
           Inl e \<Rightarrow> do { ignore (blob_Delete key); fail_with (doc_mapErr e) }
         | Inr _ \<Rightarrow> do {
             emit (doc_rec svc) subj ''photo_uploaded'' ''document'' assetID [(''asset_id'', AStr assetID)];
             ok a'
           }
       })))"

definition GetPhoto :: "Subjects \<Rightarrow> string \<Rightarrow> ('z world_scheme, doc_err, string \<times> string) prog" where
  "GetPhoto subj assetID = doc_tenant subj (
     try_as doc_mapErr (GetAsset (TenantID subj) assetID) (\<lambda>a.
     if a_PhotoKey a = [] then fail_with DocNotFound else
     case checkKey (TenantID subj) (a_PhotoKey a) of Inl e \<Rightarrow> fail_with e | Inr _ \<Rightarrow>
     try_as (\<lambda>_. DocNotFound) (blob_Get (a_PhotoKey a)) (\<lambda>data. ok (data, PhotoMime (a_PhotoKey a)))))"

definition DeletePhoto :: "'z DocService \<Rightarrow> Subjects \<Rightarrow> string \<Rightarrow> ('z world_scheme, doc_err, unit) prog" where
  "DeletePhoto svc subj assetID = doc_tenant subj (
     try_as doc_mapErr (GetAsset (TenantID subj) assetID) (\<lambda>a.
     if a_PhotoKey a = [] then fail_with DocNotFound else
     case checkKey (TenantID subj) (a_PhotoKey a) of Inl e \<Rightarrow> fail_with e | Inr _ \<Rightarrow>
     try_as BlobErr (blob_Delete (a_PhotoKey a)) (\<lambda>_. do {
       w \<leftarrow> State_Monad.get;
       try_as doc_mapErr (UpdateAsset (a\<lparr>a_PhotoKey := [], a_UpdatedBy := ActorID subj, a_UpdatedAt := wall w\<rparr>)) (\<lambda>_. do {
         emit (doc_rec svc) subj ''photo_deleted'' ''document'' assetID [(''asset_id'', AStr assetID)];
         ok ()
       })
     })))"

subsection \<open>Filing in paperless\<close>

definition categoryPath :: "string \<Rightarrow> string \<Rightarrow> string list" where
  "categoryPath entityType label0 =
     (let trimmed = TrimSpace (ReplaceAll ''/'' ''-'' label0); label = (if trimmed = [] then ''unnamed'' else trimmed) in
      if entityType = EntityConsumable then [''Assets'', ''Consumables'', label]
      else if entityType = EntityLicense then [''Assets'', ''Licenses'', label]
      else [''Assets'', label])"

definition entityLabel :: "string \<Rightarrow> string \<Rightarrow> string \<Rightarrow> ('z world_scheme, doc_err, string) prog" where
  "entityLabel tenantID entityType entityID =
     (if entityType = EntityAsset then
        try_as doc_mapErr (GetAsset tenantID entityID) (\<lambda>a. ok (if a_AssetTag a \<noteq> [] then a_AssetTag a else a_Name a))
      else if entityType = EntityConsumable then try_as doc_mapErr (GetConsumable tenantID entityID) (\<lambda>c. ok (n_Name c))
      else if entityType = EntityLicense then try_as doc_mapErr (GetLicense tenantID entityID) (\<lambda>l. ok (i_Name l))
      else fail_with EntityTypeErr)"

definition paperTags :: "string \<Rightarrow> string \<Rightarrow> string \<Rightarrow> string tab" where
  "paperTags entityType entityID label =
     [(''asset_entity_type'', entityType), (''asset_entity_id'', entityID), (''asset_label'', label)]"

definition toPaperless :: "'z Paper \<Rightarrow> string \<Rightarrow> string \<Rightarrow> string \<Rightarrow> string \<Rightarrow> string \<Rightarrow> string \<Rightarrow> string \<Rightarrow> ('z world_scheme, doc_err, string) prog" where
  "toPaperless p tenantID entityType entityID fileName mime description content =
     try_in (entityLabel tenantID entityType entityID) (\<lambda>label.
     try_as paper_mapErr (pp_EnsureCategory p tenantID (categoryPath entityType label)) (\<lambda>cat.
     try_as paper_mapErr (pp_Create p tenantID \<lparr>pd_CategoryID = cat, pd_Name = fileName, pd_Description = description, pd_FileName = fileName,
       pd_MimeType = mime, pd_Tags = paperTags entityType entityID label, pd_Content = content\<rparr>) ok))"

definition uploadToPaperless :: "'z DocService \<Rightarrow> 'z Paper \<Rightarrow> Subjects \<Rightarrow> string \<Rightarrow> string \<Rightarrow> UploadInput \<Rightarrow> string \<Rightarrow> string \<Rightarrow> ('z world_scheme, doc_err, Document) prog" where
  "uploadToPaperless svc p subj entityType entityID inp fileName mime =
     (let content = read_limited (maxSize svc + 1) (up_Body inp) in
      if int (length content) > maxSize svc then fail_with TooLarge else
      try_in (toPaperless p (TenantID subj) entityType entityID fileName mime (up_Description inp) content) (\<lambda>pid. do {
        i \<leftarrow> NewID;
        w \<leftarrow> State_Monad.get;
        let d = \<lparr>d_ID = i, d_TenantID = TenantID subj, d_EntityType = entityType, d_EntityID = entityID, d_FileName = fileName,
          d_FileSize = int (length content), d_MimeType = mime, d_StorageKey = PaperlessKeyPrefix @ pid, d_Checksum = sha256 svc content,
          d_Description = up_Description inp, d_UploadedBy = ActorID subj, d_CreatedAt = wall w, d_PaperlessDocumentID = pid\<rparr>;
        r \<leftarrow> InsertDocument d;
        case r of
          Inl e \<Rightarrow> do { ignore (pp_Delete p (TenantID subj) pid); fail_with (doc_mapErr e) }
        | Inr _ \<Rightarrow> ok d
      }))"

subsection \<open>Documents\<close>

definition Upload :: "'z DocService \<Rightarrow> Subjects \<Rightarrow> string \<Rightarrow> string \<Rightarrow> UploadInput \<Rightarrow> ('z world_scheme, doc_err, Document) prog" where
  "Upload svc subj entityType entityID inp = doc_tenant subj (
     if TrimSpace (up_FileName inp) = [] \<or> length (up_FileName inp) > 255 then fail_with (DocValidation ''file name is required (max 255)'')
     else if up_Size inp > maxSize svc then fail_with TooLarge
     else try_in (entityExists (TenantID subj) entityType entityID) (\<lambda>_.
     let mime = (if TrimSpace (up_MimeType inp) = [] then ''application/octet-stream'' else TrimSpace (up_MimeType inp));
         fileName = path_Base (TrimSpace (up_FileName inp)) in
     case paper svc of
       Some p \<Rightarrow> try_in (uploadToPaperless svc p subj entityType entityID inp fileName mime) (\<lambda>d. do {
         emit (doc_rec svc) subj ''document_uploaded'' ''document'' (d_ID d) [(''entity_type'', AStr entityType),
           (''entity_id'', AStr entityID), (''file_size'', AInt (d_FileSize d)), (''storage'', AStr ''paperless'')];
         ok d
       })
     | None \<Rightarrow> do {
         i \<leftarrow> NewID;
         let key = DocumentKey (TenantID subj) i;
         try_as BlobErr (blob_Put (sha256 svc) key (read_limited (maxSize svc + 1) (up_Body inp))) (\<lambda>sum. do {
           w \<leftarrow> State_Monad.get;
           let d = \<lparr>d_ID = i, d_TenantID = TenantID subj, d_EntityType = entityType, d_EntityID = entityID, d_FileName = fileName,
             d_FileSize = up_Size inp, d_MimeType = mime, d_StorageKey = key, d_Checksum = sum,
             d_Description = up_Description inp, d_UploadedBy = ActorID subj, d_CreatedAt = wall w, d_PaperlessDocumentID = []\<rparr>;
           r \<leftarrow> InsertDocument d;
           case r of
             Inl e \<Rightarrow> do { ignore (blob_Delete key); fail_with (doc_mapErr e) }
           | Inr _ \<Rightarrow> do {
               emit (doc_rec svc) subj ''document_uploaded'' ''document'' (d_ID d) [(''entity_type'', AStr entityType),
                 (''entity_id'', AStr entityID), (''file_size'', AInt (up_Size inp))];
               ok d
             }
         })
       }))"

definition Documents_List :: "Subjects \<Rightarrow> string \<Rightarrow> string \<Rightarrow> ('z world_scheme, doc_err, Document list) prog" where
  "Documents_List subj entityType entityID = doc_tenant subj (
     try_in (entityExists (TenantID subj) entityType entityID) (\<lambda>_.
     try_as (\<lambda>e. DocSvc (StoreErr e)) (ListDocuments (TenantID subj) entityType entityID) ok))"

definition doc_get :: "Subjects \<Rightarrow> string \<Rightarrow> string \<Rightarrow> string \<Rightarrow> ('z world_scheme, doc_err, Document) prog" where
  "doc_get subj entityType entityID docID =
     try_as doc_mapErr (GetDocument (TenantID subj) docID) (\<lambda>d.
     if d_EntityType d \<noteq> entityType \<or> d_EntityID d \<noteq> entityID then fail_with DocNotFound
     else if d_PaperlessDocumentID d \<noteq> [] then ok d
     else case checkKey (TenantID subj) (d_StorageKey d) of Inl e \<Rightarrow> fail_with e | Inr _ \<Rightarrow> ok d)"

definition Download :: "'z DocService \<Rightarrow> Subjects \<Rightarrow> string \<Rightarrow> string \<Rightarrow> string \<Rightarrow> ('z world_scheme, doc_err, string \<times> Document) prog" where
  "Download svc subj entityType entityID docID = doc_tenant subj (
     try_in (doc_get subj entityType entityID docID) (\<lambda>d.
     if d_PaperlessDocumentID d \<noteq> [] then
       (case paper svc of
          None \<Rightarrow> fail_with SearchUnavailable
        | Some p \<Rightarrow> try_as (\<lambda>e. if e = PaperNotFound then DocNotFound else paper_mapErr e)
            (pp_Download p (TenantID subj) (d_PaperlessDocumentID d)) (\<lambda>b. ok (b, d)))
     else try_as (\<lambda>_. DocNotFound) (blob_Get (d_StorageKey d)) (\<lambda>b. ok (b, d))))"

text \<open>\<open>ttl\<close> is the \<^verbatim>\<open>presignTTL\<close> of the service.\<close>

definition DownloadURL :: "int \<Rightarrow> Subjects \<Rightarrow> string \<Rightarrow> string \<Rightarrow> string \<Rightarrow> ('z world_scheme, doc_err, string) prog" where
  "DownloadURL ttl subj entityType entityID docID = doc_tenant subj (
     try_in (doc_get subj entityType entityID docID) (\<lambda>d.
     if d_PaperlessDocumentID d \<noteq> [] then fail_with DocNotFound
     else ok (blob_PresignGet (d_StorageKey d) ttl)))"

definition removeObject :: "'z DocService \<Rightarrow> string \<Rightarrow> Document \<Rightarrow> ('z world_scheme, doc_err, unit) prog" where
  "removeObject svc tenantID d =
     (if d_PaperlessDocumentID d \<noteq> [] then
        (case paper svc of
           None \<Rightarrow> fail_with SearchUnavailable
         | Some p \<Rightarrow> do {
             r \<leftarrow> pp_Delete p tenantID (d_PaperlessDocumentID d);
             case r of Inl (PaperFailed m) \<Rightarrow> fail_with (PaperErr m) | _ \<Rightarrow> ok ()
           })
      else case checkKey tenantID (d_StorageKey d) of
        Inl _ \<Rightarrow> fail_with CrossTenant
      | Inr _ \<Rightarrow> try_as BlobErr (blob_Delete (d_StorageKey d)) ok)"

definition Documents_Delete :: "'z DocService \<Rightarrow> Subjects \<Rightarrow> string \<Rightarrow> string \<Rightarrow> string \<Rightarrow> ('z world_scheme, doc_err, unit) prog" where
  "Documents_Delete svc subj entityType entityID docID = doc_tenant subj (
     try_in (doc_get subj entityType entityID docID) (\<lambda>d.
     try_in (removeObject svc (TenantID subj) d) (\<lambda>_.
     try_as doc_mapErr (DeleteDocument (TenantID subj) docID) (\<lambda>_. do {
       emit (doc_rec svc) subj ''document_deleted'' ''document'' docID [(''entity_type'', AStr entityType), (''entity_id'', AStr entityID)];
       ok ()
     }))))"

definition PurgeRows :: "'z DocService \<Rightarrow> string \<Rightarrow> Document list \<Rightarrow> ('z world_scheme, unit) state" where
  "PurgeRows svc tenantID rows = for_each rows (\<lambda>d.
     if d_TenantID d \<noteq> tenantID then State_Monad.return ()
     else do { ignore (removeObject svc tenantID d); ignore (DeleteDocument tenantID (d_ID d)) })"

definition Purge :: "'z DocService \<Rightarrow> string \<Rightarrow> string \<Rightarrow> string \<Rightarrow> ('z world_scheme, unit) state" where
  "Purge svc tenantID entityType entityID = do {
     r \<leftarrow> ListDocuments tenantID entityType entityID;
     case r of Inl _ \<Rightarrow> State_Monad.return () | Inr rows \<Rightarrow> PurgeRows svc tenantID rows
   }"

subsection \<open>Search and migration\<close>

record SearchHit =
  sh_Document :: Document
  sh_Snippet :: string
  sh_Rank :: real

definition Search :: "'z DocService \<Rightarrow> Subjects \<Rightarrow> string \<Rightarrow> int \<Rightarrow> ('z world_scheme, doc_err, SearchHit list) prog" where
  "Search svc subj query0 limit0 = doc_tenant subj (
     let query = TrimSpace query0; limit = (if limit0 \<le> 0 \<or> limit0 > 100 then 25 else limit0) in
     if query = [] \<or> length query > 200 then fail_with (DocValidation ''query must be 1 to 200 characters'') else
     case paper svc of
       None \<Rightarrow> fail_with SearchUnavailable
     | Some p \<Rightarrow>
       try_as paper_mapErr (pp_Search p (TenantID subj) query limit) (\<lambda>hits.
       try_as (\<lambda>e. DocSvc (StoreErr e)) (ListDocumentsByPaperlessIDs (TenantID subj) (map ph_ID hits)) (\<lambda>rows.
       let byID = foldl (\<lambda>m d. AList.update (d_PaperlessDocumentID d) d m) [] rows in
       ok (concat (map (\<lambda>h. case map_of byID (ph_ID h) of
          None \<Rightarrow> [] | Some d \<Rightarrow> [\<lparr>sh_Document = d, sh_Snippet = ph_Snippet h, sh_Rank = ph_Rank h\<rparr>]) hits)))))"

definition migrateOne :: "'z DocService \<Rightarrow> 'z Paper \<Rightarrow> Document \<Rightarrow> ('z world_scheme, doc_err, unit) prog" where
  "migrateOne svc p d =
     (case checkKey (d_TenantID d) (d_StorageKey d) of Inl _ \<Rightarrow> fail_with CrossTenant | Inr _ \<Rightarrow>
      try_as BlobErr (blob_Get (d_StorageKey d)) (\<lambda>data.
      let content = read_limited (maxSize svc * 4 + 1) data in
      if d_Checksum d \<noteq> [] \<and> sha256 svc content \<noteq> d_Checksum d then fail_with (ChecksumMismatch (d_ID d)) else
      let mime = (if d_MimeType d = [] then ''application/octet-stream'' else d_MimeType d) in
      try_in (toPaperless p (d_TenantID d) (d_EntityType d) (d_EntityID d) (d_FileName d) mime (d_Description d) content) (\<lambda>pid. do {
        r \<leftarrow> MoveDocumentToPaperless (d_TenantID d) (d_ID d) pid;
        case r of
          Inl e \<Rightarrow> do { ignore (pp_Delete p (d_TenantID d) pid); fail_with (DocSvc (StoreErr e)) }
        | Inr _ \<Rightarrow> do { ignore (blob_Delete (d_StorageKey d)); ok () }
      })))"

record MigrateResult =
  Migrated :: int
  Failed :: int

text \<open>The loop over the rows, with the count per tenant.\<close>

primrec migrate_loop :: "'z DocService \<Rightarrow> 'z Paper \<Rightarrow> Document list \<Rightarrow> MigrateResult \<Rightarrow> int tab \<Rightarrow> ('z world_scheme, MigrateResult \<times> int tab) state" where
  "migrate_loop svc p [] res per = State_Monad.return (res, per)"
| "migrate_loop svc p (d # ds) res per = do {
     r \<leftarrow> migrateOne svc p d;
     case r of
       Inl _ \<Rightarrow> migrate_loop svc p ds (res\<lparr>Failed := Failed res + 1\<rparr>) per
     | Inr _ \<Rightarrow> migrate_loop svc p ds (res\<lparr>Migrated := Migrated res + 1\<rparr>) (bump (d_TenantID d) per)
   }"

definition Migrate :: "'z DocService \<Rightarrow> int \<Rightarrow> ('z world_scheme, doc_err, MigrateResult) prog" where
  "Migrate svc limit =
     (case paper svc of
        None \<Rightarrow> fail_with SearchUnavailable
      | Some p \<Rightarrow> try_as (\<lambda>e. DocSvc (StoreErr e)) (ListUnmigratedDocuments limit) (\<lambda>rows. do {
          out \<leftarrow> migrate_loop svc p rows \<lparr>Migrated = 0, Failed = 0\<rparr> [];
          for_each (snd out) (\<lambda>(tenant, n). Emit (folding (doc_rec svc)) (attached (doc_rec svc))
            \<lparr>e_TenantID = tenant, e_EventType = ''documents_migrated'', e_ActorKind = ActorSystem, e_ActorID = ''migration'',
             e_SubjectKind = ''document'', e_SubjectID = ''paperless'', e_Outcome = OutcomeOK, e_Reason = [], e_Details = [(''documents'', AInt n)]\<rparr>);
          ok (fst out)
        }))"

end
