(* ===== verification/Document_Laws.thy ===== *)
theory Document_Laws
  imports Documents
begin

text \<open>
  What the document service promises: it acts for the caller's tenant only, in the tables and in the object
  store; what was uploaded can be downloaded; a migration that fails leaves the document where it was.
\<close>

section \<open>Acting for one tenant\<close>

lemma abroad_parts:
  assumes "abroad w w'"
  shows "core w' = core w" and "wall w' = wall w" and "queue w' = queue w" and "published w' = published w"
    and "objects w' = objects w" and "assets w' = assets w" and "assignments w' = assignments w" and "documents w' = documents w"
  using assms by (cases w; cases w'; simp add: abroad_def world.truncate_def core_def)+

lemma scoped_abroad: "state_io_rel abroad m \<Longrightarrow> state_io_rel (scoped t) m"
  by (erule state_io_rel_mono) (intro scoped_frame abroad_parts)

lemma quiet_abroad: "state_io_rel abroad m \<Longrightarrow> quiet m"
  by (auto simp: quiet_def state_io_rel_def intro: abroad_parts)

lemma paper_calls:
  assumes "paper_ok p"
  shows "state_io_rel abroad (pp_EnsureCategory p t path)" and "state_io_rel abroad (pp_Create p t d)"
    and "state_io_rel abroad (pp_Download p t i)" and "state_io_rel abroad (pp_Delete p t i)"
    and "state_io_rel abroad (pp_Search p t q n)"
  using assms by (simp_all add: paper_ok_def)

text \<open>A service whose paperless module, if there is one, is remote.\<close>

definition doc_ok :: "'z DocService \<Rightarrow> bool" where
  "doc_ok svc \<longleftrightarrow> (\<forall>p. paper svc = Some p \<longrightarrow> paper_ok p)"

lemma scoped_blob_Put: "state_io_rel (scoped t) (blob_Put sha key data)"
  by (auto simp: state_io_rel_def blob_Put_def core_def intro!: scoped_frame split: option.split)

lemma scoped_blob_Get: "state_io_rel (scoped t) (blob_Get key)"
  by (auto simp: state_io_rel_def blob_Get_def scoped_refl split: option.split)

lemma scoped_doc_tenant: "state_io_rel (scoped t) m \<Longrightarrow> state_io_rel (scoped t) (doc_tenant subj m)"
  unfolding doc_tenant_def by (intro sc.io_rules)

lemma scoped_ignore: "state_io_rel (scoped t) m \<Longrightarrow> state_io_rel (scoped t) (ignore m)"
  unfolding ignore_def by (intro sc.io_rules)

lemmas scoped_docs = scoped_doc_tenant scoped_ignore scoped_blob_Put scoped_blob_Get scoped_with_asset scoped_emit scoped_rules

lemma scoped_entity: "state_io_rel (scoped t) (entityExists t ty i)" "state_io_rel (scoped t) (entityLabel t ty i)"
  unfolding entityExists_def entityLabel_def by (intro scoped_rules)+

lemma scoped_UploadPhoto: "state_io_rel (scoped (TenantID subj)) (UploadPhoto svc subj i inp)"
  unfolding UploadPhoto_def Let_def by (intro scoped_docs) simp

lemma scoped_GetPhoto: "state_io_rel (scoped (TenantID subj)) (GetPhoto subj i)"
  unfolding GetPhoto_def by (intro scoped_docs)

lemma scoped_DeletePhoto: "state_io_rel (scoped (TenantID subj)) (DeletePhoto svc subj i)"
  unfolding DeletePhoto_def by (intro scoped_docs) simp

lemma scoped_toPaperless:
  assumes "paper_ok p"
  shows "state_io_rel (scoped t) (toPaperless p t ty i fn mime descr content)"
  unfolding toPaperless_def by (intro scoped_rules scoped_entity paper_calls [OF assms, THEN scoped_abroad])

lemma scoped_uploadToPaperless:
  assumes "paper_ok p"
  shows "state_io_rel (scoped (TenantID subj)) (uploadToPaperless svc p subj ty i inp fn mime)"
  unfolding uploadToPaperless_def Let_def
  by (intro scoped_docs scoped_toPaperless paper_calls [THEN scoped_abroad] assms) simp

lemma scoped_Upload: "doc_ok svc \<Longrightarrow> state_io_rel (scoped (TenantID subj)) (Upload svc subj ty i inp)"
  unfolding Upload_def Let_def doc_ok_def
  by (intro scoped_docs scoped_entity scoped_uploadToPaperless) auto

lemma scoped_doc_get: "state_io_rel (scoped (TenantID subj)) (doc_get subj ty i d)"
  unfolding doc_get_def by (intro scoped_rules)

lemma scoped_Documents_List: "state_io_rel (scoped (TenantID subj)) (Documents_List subj ty i)"
  unfolding Documents_List_def by (intro scoped_docs scoped_entity)

lemma scoped_Download: "doc_ok svc \<Longrightarrow> state_io_rel (scoped (TenantID subj)) (Download svc subj ty i d)"
  unfolding Download_def doc_ok_def
  by (intro scoped_docs scoped_doc_get paper_calls [THEN scoped_abroad]) auto

lemma scoped_DownloadURL: "state_io_rel (scoped (TenantID subj)) (DownloadURL ttl subj ty i d)"
  unfolding DownloadURL_def by (intro scoped_docs scoped_doc_get)

lemma scoped_removeObject: "doc_ok svc \<Longrightarrow> state_io_rel (scoped t) (removeObject svc t' d)"
  unfolding removeObject_def doc_ok_def
  by (intro scoped_docs paper_calls [THEN scoped_abroad]) (auto split: sum.split paper_err.split intro: scoped_rules)

lemma scoped_Documents_Delete: "doc_ok svc \<Longrightarrow> state_io_rel (scoped (TenantID subj)) (Documents_Delete svc subj ty i d)"
  unfolding Documents_Delete_def by (intro scoped_docs scoped_doc_get scoped_removeObject)

lemma scoped_PurgeRows: "doc_ok svc \<Longrightarrow> state_io_rel (scoped t) (PurgeRows svc t rows)"
  unfolding PurgeRows_def by (intro scoped_docs scoped_removeObject)

lemma scoped_Purge: "doc_ok svc \<Longrightarrow> state_io_rel (scoped t) (Purge svc t ty i)"
  unfolding Purge_def by (intro scoped_docs scoped_PurgeRows)

lemma scoped_Search: "doc_ok svc \<Longrightarrow> state_io_rel (scoped (TenantID subj)) (Search svc subj q n)"
  unfolding Search_def Let_def doc_ok_def
  by (intro scoped_docs paper_calls [THEN scoped_abroad]) auto

lemma toPaperless_id:
  assumes "run_state (toPaperless p t ty i fn mime descr content) w = (Inr pid, w')" and "paper_ok p"
  shows "pid \<noteq> []"
proof -
  have "i \<noteq> []" if "run_state (pp_Create p t d) w = (Inr i, w')" for d i w w'
    using assms(2) that unfolding paper_ok_def by blast
  with assms(1) show ?thesis
    unfolding toPaperless_def by (auto elim!: try_in_Inr try_as_Inr)
qed

lemma scoped_migrateOne:
  assumes "paper_ok p"
  shows "state_io_rel (scoped (d_TenantID d)) (migrateOne svc p d)"
proof -
  have "state_io_rel (scoped (d_TenantID d)) (try_in (toPaperless p (d_TenantID d) ty i fn mime descr content) f)"
    if "\<And>pid. pid \<noteq> [] \<Longrightarrow> state_io_rel (scoped (d_TenantID d)) (f pid)" for ty i fn mime descr content and f :: "_ \<Rightarrow> ('a world_scheme, _, unit) prog"
    unfolding try_in_def
    by (rule sc.io_try_as_val [OF scoped_toPaperless [OF assms]]) (auto dest: toPaperless_id [OF _ assms] intro: that)
  note filed = this
  show ?thesis
    unfolding migrateOne_def Let_def by (intro filed scoped_docs paper_calls [OF assms, THEN scoped_abroad])
qed

text \<open>The purger the asset service is wired with keeps the contract the asset service relies on.\<close>

lemma ck_abroad: "state_io_rel abroad m \<Longrightarrow> state_io_rel custody_kept m"
  by (rule ck_quiet [OF quiet_abroad])

lemma purger_PurgeRows:
  assumes "doc_ok dsvc" and "docs svc = Some (PurgeRows dsvc)"
  shows "purger_ok svc"
proof -
  have del: "state_io_rel custody_kept (DeleteDocument t i)" for t i
    unfolding DeleteDocument_def by (auto simp: state_io_rel_def custody_kept_def run_guarded split: option.splits)
  have "state_io_rel custody_kept (removeObject dsvc t d)" for t d
    unfolding removeObject_def using assms(1) [unfolded doc_ok_def]
    by (intro ck.io_rules paper_calls [THEN ck_abroad] ck_quiet [OF quiet_blob_Delete])
      (auto split: sum.split paper_err.split intro: ck.io_rules)
  then have "state_io_rel custody_kept (PurgeRows dsvc t ds)" for t ds
    unfolding PurgeRows_def ignore_def by (intro ck.io_rules del)
  with assms scoped_PurgeRows show ?thesis by (auto simp: purger_ok_def)
qed

section \<open>The object store\<close>

text \<open>
  \<open>obj_local t\<close>: of the objects only those under the prefix of \<open>t\<close> changed, provided that every asset row names
  a photo of its own tenant, which stays so.
\<close>

definition photo_row :: "Asset \<Rightarrow> bool" where
  "photo_row a \<longleftrightarrow> a_PhotoKey a = [] \<or> prefix (tenantPrefix (a_TenantID a)) (a_PhotoKey a)"

interpretation photo: asset_service_invariant photo_row
  by unfold_locales (auto simp: photo_row_def fillAsset_def asset_saved_def asset_kept_def zero_asset_def asset_edit_def Let_def
    asset_defaults_def asset_apply_def)

definition obj_local :: "string \<Rightarrow> 'z world_scheme \<Rightarrow> 'z world_scheme \<Rightarrow> bool" where
  "obj_local t w w' \<longleftrightarrow> (all_assets photo_row w \<longrightarrow> all_assets photo_row w' \<and>
     (\<forall>k. \<not> prefix (tenantPrefix t) k \<longrightarrow> map_of (objects w') k = map_of (objects w) k))"

interpretation ol: io_relation "obj_local t" for t
  by unfold_locales (auto simp: obj_local_def)

definition objs_same :: "'z world_scheme \<Rightarrow> 'z world_scheme \<Rightarrow> bool" where
  "objs_same w w' \<longleftrightarrow> objects w' = objects w \<and> assets w' = assets w"

lemma ol_frame: "state_io_rel objs_same m \<Longrightarrow> state_io_rel (obj_local t) m"
  by (erule state_io_rel_mono) (simp add: objs_same_def obj_local_def all_assets_def)

lemma more_objects: "mem.more (w' :: 'z world_scheme) = mem.more w \<Longrightarrow> objects w' = objects w"
  by (cases w; cases w') simp

lemma ol_store:
  assumes "state_io_rel (owned t') m" and "state_io_rel (preserving (all_assets photo_row)) m"
  shows "state_io_rel (obj_local t) (m :: ('z world_scheme, _) state)"
proof -
  have "objects (snd (run_state m w)) = objects w" for w
    using assms(1) more_objects by (auto simp: state_io_rel_def owned_def)
  with assms(2) show ?thesis by (auto simp: state_io_rel_def preserving_def obj_local_def)
qed

lemma ol_read: "state_io_rel same m \<Longrightarrow> state_io_rel (obj_local t) (m :: ('z world_scheme, _) state)"
  by (rule ol_store [OF ownedI pres_quiet [OF quiet_same]])

lemma ol_abroad: "state_io_rel abroad m \<Longrightarrow> state_io_rel (obj_local t) m"
  by (rule ol_frame, erule state_io_rel_mono) (simp add: objs_same_def abroad_parts)

lemma ol_Emit: "state_io_rel (obj_local t) (Emit uni a e)"
  by (rule ol_frame) (auto simp: state_io_rel_def objs_same_def Emit_def Record_def Let_def split: sum.split prod.split)

lemma ol_emit: "state_io_rel (obj_local t) (emit rc subj typ kind i details)"
  unfolding emit_def by (rule ol_Emit)

lemma ol_get: "state_io_rel (obj_local t) State_Monad.get"
  by (simp add: state_io_rel_def ol.R_refl)

lemma ol_NewID: "state_io_rel (obj_local t) NewID"
  by (rule ol_store [OF owned_NewID pres_quiet [OF quiet_NewID]])

lemma ol_blob_Get: "state_io_rel (obj_local t) (blob_Get key)"
  by (auto simp: state_io_rel_def blob_Get_def ol.R_refl split: option.split)

lemma ol_blob_Put: "prefix (tenantPrefix t) key \<Longrightarrow> state_io_rel (obj_local t) (blob_Put sha key data)"
  by (auto simp: state_io_rel_def blob_Put_def obj_local_def all_assets_def update_conv split: option.split)

lemma ol_blob_Delete: "prefix (tenantPrefix t) key \<Longrightarrow> state_io_rel (obj_local t) (blob_Delete key)"
  by (auto simp: state_io_rel_def blob_Delete_def obj_local_def all_assets_def delete_conv' split: option.split)

lemma ol_with_asset:
  assumes "\<And>a. a_TenantID a = t \<Longrightarrow> photo_row a \<Longrightarrow> state_io_rel (obj_local t) (f a)"
  shows "state_io_rel (obj_local t) (try_as g (GetAsset t i) f)"
  unfolding state_io_rel_def
proof
  fix w :: "'a world_scheme"
  obtain r w1 where m: "run_state (GetAsset t i) w = (r, w1)" by force
  have w1: "obj_local t w w1" by (rule ol.io_run [OF ol_read [OF same_methods(1)] m])
  show "obj_local t w (snd (run_state (try_as g (GetAsset t i) f) w))"
  proof (cases r)
    case (Inr a)
    have "state_io_rel (obj_local t) (f a)" if "all_assets photo_row w"
      using photo.get_yields [of t i] m Inr that by (intro assms) (auto simp: yields_def)
    then show ?thesis using m Inr w1 by (auto simp: run_try_as state_io_rel_def obj_local_def)
  qed (use m w1 in \<open>simp add: run_try_as\<close>)
qed

lemma ol_doc_tenant: "state_io_rel (obj_local t) m \<Longrightarrow> state_io_rel (obj_local t) (doc_tenant subj m)"
  unfolding doc_tenant_def by (intro ol.io_rules)

lemma ol_in_tenant: "state_io_rel (obj_local t) m \<Longrightarrow> state_io_rel (obj_local t) (in_tenant subj m)"
  by (simp add: in_tenant_eq ol.io_fail)

lemma ol_ignore: "state_io_rel (obj_local t) m \<Longrightarrow> state_io_rel (obj_local t) (ignore m)"
  unfolding ignore_def by (intro ol.io_rules)

lemma ol_UpdateAsset: "photo_row a \<Longrightarrow> state_io_rel (obj_local t) (UpdateAsset a)"
  by (rule ol_store [OF owned_updates(1) photo.update_pres]) auto

lemma ol_document_writes: "state_io_rel (obj_local t) (InsertDocument d)" "state_io_rel (obj_local t) (DeleteDocument t' i)"
  by (rule ol_store [OF owned_InsertDocument [OF refl] kept_writes(3) [THEN pres_kept]] ol_store [OF owned_deletes(2) kept_writes(4) [THEN pres_kept]])+

lemmas ol_docs = ol_doc_tenant ol_ignore ol_with_asset ol_emit ol_Emit ol_get ol_NewID ol_blob_Get ol_document_writes ol_UpdateAsset
  same_methods [THEN ol_read] ol.io_rules

lemma keys_in_prefix [simp]:
  "prefix (tenantPrefix t) (PhotoKey t i ext)" "prefix (tenantPrefix t) (DocumentKey t i)"
  by (simp_all add: PhotoKey_def DocumentKey_def)

lemma checkKey_prefix: "checkKey t key = Inr u \<Longrightarrow> prefix (tenantPrefix t) key"
  by (auto simp: checkKey_def split: if_splits)

lemma ol_entity: "state_io_rel (obj_local t) (entityExists t' ty i)" "state_io_rel (obj_local t) (entityLabel t' ty i)"
  unfolding entityExists_def entityLabel_def by (intro ol.io_rules same_methods [THEN ol_read])+

lemma ol_UploadPhoto: "state_io_rel (obj_local (TenantID subj)) (UploadPhoto svc subj i inp)"
  unfolding UploadPhoto_def Let_def
  by (intro ol_docs ol_blob_Put ol_blob_Delete) (auto simp: photo_row_def)

lemma ol_GetPhoto: "state_io_rel (obj_local (TenantID subj)) (GetPhoto subj i)"
  unfolding GetPhoto_def by (intro ol_docs)

lemma ol_DeletePhoto: "state_io_rel (obj_local (TenantID subj)) (DeletePhoto svc subj i)"
  unfolding DeletePhoto_def Let_def
  by (intro ol_docs ol_blob_Delete) (auto simp: photo_row_def dest: checkKey_prefix)

lemma ol_toPaperless:
  assumes "paper_ok p"
  shows "state_io_rel (obj_local t) (toPaperless p t' ty i fn mime descr content)"
  unfolding toPaperless_def by (intro ol_docs ol_entity paper_calls [OF assms, THEN ol_abroad])

lemma ol_Upload: "doc_ok svc \<Longrightarrow> state_io_rel (obj_local (TenantID subj)) (Upload svc subj ty i inp)"
  unfolding Upload_def uploadToPaperless_def Let_def doc_ok_def
  by (intro ol_docs ol_entity ol_blob_Put ol_blob_Delete ol_toPaperless paper_calls [THEN ol_abroad]) auto

lemma ol_doc_get: "state_io_rel (obj_local t) (doc_get subj ty i d)"
  unfolding doc_get_def by (intro ol_docs)

lemma ol_Documents_List: "state_io_rel (obj_local t) (Documents_List subj ty i)"
  unfolding Documents_List_def by (intro ol_docs ol_entity)

lemma ol_Download: "doc_ok svc \<Longrightarrow> state_io_rel (obj_local t) (Download svc subj ty i d)"
  unfolding Download_def doc_ok_def by (intro ol_docs ol_doc_get paper_calls [THEN ol_abroad]) auto

lemma ol_removeObject: "doc_ok svc \<Longrightarrow> state_io_rel (obj_local t) (removeObject svc t d)"
  unfolding removeObject_def doc_ok_def
  by (intro ol_docs ol_blob_Delete paper_calls [THEN ol_abroad])
    (auto split: sum.split paper_err.split intro: ol.io_rules dest: checkKey_prefix)

lemma ol_Documents_Delete: "doc_ok svc \<Longrightarrow> state_io_rel (obj_local (TenantID subj)) (Documents_Delete svc subj ty i d)"
  unfolding Documents_Delete_def by (intro ol_docs ol_doc_get ol_removeObject)

lemma ol_PurgeRows: "doc_ok svc \<Longrightarrow> state_io_rel (obj_local t) (PurgeRows svc t rows)"
  unfolding PurgeRows_def by (intro ol_docs ol_removeObject)

lemma ol_Purge: "doc_ok svc \<Longrightarrow> state_io_rel (obj_local t) (Purge svc t ty i)"
  unfolding Purge_def by (intro ol_docs ol_PurgeRows)

lemma ol_Search: "doc_ok svc \<Longrightarrow> state_io_rel (obj_local t) (Search svc subj q n)"
  unfolding Search_def Let_def doc_ok_def by (intro ol_docs paper_calls [THEN ol_abroad]) auto

section \<open>Uploading and downloading\<close>

lemma hexdig_not_dot: "n < 16 \<Longrightarrow> hexdig n \<noteq> CHR ''.''"
proof -
  assume "n < 16"
  have "\<forall>n\<in>set [0..<16]. hexdig n \<noteq> CHR ''.''" by code_simp
  with \<open>n < 16\<close> show ?thesis by simp
qed

lemma hex_no_dot: "CHR ''.'' \<notin> set (hex_encode bs)"
proof -
  have "CHR ''.'' \<notin> set (hex_byte b)" for b
  proof -
    have "unat b < 2 ^ LENGTH(8)" by (rule unsigned_less)
    then have "unat b div 16 < 16" by (simp add: less_mult_imp_div_less)
    then show ?thesis
      using hexdig_not_dot [of "unat b div 16"] hexdig_not_dot [of "unat b mod 16"] by (auto simp: hex_byte_def)
  qed
  then show ?thesis by (simp add: hex_encode_def)
qed

lemma new_id_no_dot: "CHR ''.'' \<notin> set (new_id [] w)"
proof -
  obtain b where i: "new_id [] w = id_text (hex_encode b)"
    using NewID_run [OF run_NewID [of w]] by blast
  have "set (id_text h) \<subseteq> insert (CHR ''-'') (set h)" for h
    unfolding id_text_def using set_take_subset set_drop_subset by fastforce
  with hex_no_dot [of b] i show ?thesis by fastforce
qed

lemma DocumentKey_passes:
  assumes "CHR ''.'' \<notin> set t" and "CHR ''.'' \<notin> set i"
  shows "checkKey t (DocumentKey t i) = Inr ()"
proof -
  have "CHR ''.'' \<notin> set (DocumentKey t i)"
    using assms by (simp add: DocumentKey_def tenantPrefix_def)
  then have "\<not> Contains (DocumentKey t i) ''..''"
    unfolding Contains_def using set_mono_sublist by fastforce
  then show ?thesis by (simp add: checkKey_def)
qed

lemma doc_tenant_eq: "doc_tenant subj m = (if TenantID subj = [] then fail_with (DocSvc (Forbidden ''tenant required'')) else m)"
  using RequireTenant_self [of subj] by (simp add: doc_tenant_def)

lemma emit_frame:
  assumes "run_state (emit rc subj typ kind i details) w = ((), w')"
  shows "core w' = core w" and "objects w' = objects w" and "failNext w' = failNext w" and "wall w' = wall w"
  using assms by (auto simp: emit_def Emit_def Record_def Let_def core_def split: if_splits sum.splits prod.splits)

lemma emit_same: "run_state (emit rc subj typ kind i details) w = ((), w') \<Longrightarrow> core w' = core w \<and> objects w' = objects w"
  by (simp add: emit_frame)

lemma blob_Put_ok:
  assumes "run_state (blob_Put sha key data) w = (Inr cs, w')"
  shows "cs = sha data \<and> w' = w\<lparr>objects := AList.update key data (objects w)\<rparr>"
  using assms by (auto simp: blob_Put_def split: option.splits)

lemma InsertDocument_ok:
  assumes "run_state (InsertDocument d) w = (Inr u, w')" and "d_ID d \<noteq> []"
  shows "w' = w\<lparr>documents := AList.update (d_ID d) (d\<lparr>d_CreatedAt := default_time (d_CreatedAt d) (wall w)\<rparr>) (documents w)\<rparr>"
proof -
  have "d\<lparr>d_ID := d_ID d\<rparr> = d" by simp
  then show ?thesis
    using assms by (auto simp: InsertDocument_def run_guarded Let_def split: if_splits)
qed

lemma entity_same: "state_io_rel same (entityExists t ty i)"
  unfolding entityExists_def by (intro same_rules same_methods)

text \<open>What an upload into the service's own object store leaves behind.\<close>

lemma Upload_stored:
  fixes w :: "'z world_scheme"
  assumes run: "run_state (Upload svc subj ty i inp) w = (Inr d, w')" and "paper svc = None"
  shows "TenantID subj \<noteq> []" and "up_Size inp \<le> maxSize svc" and "d_TenantID d = TenantID subj" and "d_EntityType d = ty" and "d_EntityID d = i"
    and "d_PaperlessDocumentID d = []" and "d_StorageKey d = DocumentKey (TenantID subj) (d_ID d)" and "CHR ''.'' \<notin> set (d_ID d)"
    and "d_FileSize d = up_Size inp" and "d_Checksum d = sha256 svc (read_limited (maxSize svc + 1) (up_Body inp))"
    and "map_of (objects w') (d_StorageKey d) = Some (read_limited (maxSize svc + 1) (up_Body inp))"
    and "map_of (documents w') (d_ID d) = Some d"
proof -
  let ?body = "read_limited (maxSize svc + 1) (up_Body inp)"
  have t: "TenantID subj \<noteq> []" and sz: "\<not> up_Size inp > maxSize svc"
    and nm: "TrimSpace (up_FileName inp) \<noteq> []" "\<not> length (up_FileName inp) > 255"
    using run by (auto simp: Upload_def doc_tenant_eq split: if_splits)
  define mime where "mime = (if TrimSpace (up_MimeType inp) = [] then ''application/octet-stream'' else TrimSpace (up_MimeType inp))"
  obtain w1 w2 :: "'z world_scheme" and cs and w3 w4 :: "'z world_scheme" where
    put: "run_state (blob_Put (sha256 svc) (DocumentKey (TenantID subj) (new_id [] w1)) ?body) w2 = (Inr cs, w3)"
    and d: "d = \<lparr>d_ID = new_id [] w1, d_TenantID = TenantID subj, d_EntityType = ty, d_EntityID = i, d_FileName = path_Base (TrimSpace (up_FileName inp)),
             d_FileSize = up_Size inp, d_MimeType = mime, d_StorageKey = DocumentKey (TenantID subj) (new_id [] w1), d_Checksum = cs,
             d_Description = up_Description inp, d_UploadedBy = ActorID subj, d_CreatedAt = wall w3, d_PaperlessDocumentID = []\<rparr>"
    and ins: "run_state (InsertDocument d) w3 = (Inr (), w4)"
    and tail: "core w' = core w4" "objects w' = objects w4"
    using run t sz nm assms(2)
    by (auto simp: Upload_def doc_tenant_eq Let_def mime_def [symmetric] split: prod.splits sum.splits elim!: try_in_Inr try_as_Inr dest!: emit_same)
  note b = blob_Put_ok [OF put]
  have nm: "d_ID d = new_id [] w1" "d_CreatedAt d = wall w3" "d_StorageKey d = DocumentKey (TenantID subj) (d_ID d)" "d_Checksum d = cs"
    by (simp_all add: d)
  have "d\<lparr>d_CreatedAt := default_time (d_CreatedAt d) (wall w3)\<rparr> = d"
    using nm(2) by (simp add: default_time_def)
  then have w4: "w4 = w3\<lparr>documents := AList.update (d_ID d) d (documents w3)\<rparr>"
    using InsertDocument_ok [OF ins] nm(1) by simp
  show "TenantID subj \<noteq> []" "up_Size inp \<le> maxSize svc" using t sz by simp_all
  show "d_TenantID d = TenantID subj" "d_EntityType d = ty" "d_EntityID d = i" "d_PaperlessDocumentID d = []"
    "d_StorageKey d = DocumentKey (TenantID subj) (d_ID d)" "d_FileSize d = up_Size inp"
    by (simp_all add: d)
  show "CHR ''.'' \<notin> set (d_ID d)" using new_id_no_dot nm(1) by metis
  show "d_Checksum d = sha256 svc ?body" using b nm(4) by simp
  show "map_of (objects w') (d_StorageKey d) = Some ?body"
    using tail(2) w4 b nm(1,3) by (simp add: update_conv')
  show "map_of (documents w') (d_ID d) = Some d"
    using core_tables(3) [OF tail(1)] w4 by (simp add: update_conv')
qed

lemma doc_get_found:
  assumes "map_of (documents w) (d_ID d) = Some d" and "d_TenantID d = TenantID subj" and "d_PaperlessDocumentID d = []"
    and "checkKey (TenantID subj) (d_StorageKey d) = Inr ()" and "''GetDocument'' \<notin> failNext w"
  shows "run_state (doc_get subj (d_EntityType d) (d_EntityID d) (d_ID d)) w = (Inr d, w)"
  using assms by (simp add: doc_get_def run_try_as GetDocument_def run_guarded)


definition docs_demo :: "unit DocService" where
  "docs_demo = \<lparr>doc_rec = \<lparr>attached = True, folding = (\<lambda>s. s)\<rparr>, maxSize = 100, sha256 = (\<lambda>s. take 2 s), paper = None\<rparr>"

definition manual_demo :: UploadInput where
  "manual_demo = \<lparr>up_FileName = ''manual.pdf'', up_MimeType = [], up_Size = 5, up_Body = ''hello'', up_Description = []\<rparr>"

definition uploaded_demo :: "(doc_err + Document) \<times> world" where
  "uploaded_demo = run_state (Upload docs_demo alice EntityAsset laptop_id manual_demo) created_demo"

lemma uploaded_demo_ok: "isl (fst uploaded_demo) = False" "failNext (snd uploaded_demo) = {}"
  by code_simp+


section \<open>Migration\<close>

text \<open>\<open>unmoved\<close>: the tables and the objects are as they were.\<close>

definition unmoved :: "'z world_scheme \<Rightarrow> 'z world_scheme \<Rightarrow> bool" where
  "unmoved w w' \<longleftrightarrow> core w' = core w \<and> objects w' = objects w"

interpretation um: io_relation unmoved
  by unfold_locales (auto simp: unmoved_def)

lemma um_read: "state_io_rel same m \<Longrightarrow> state_io_rel unmoved (m :: ('z world_scheme, _) state)"
  by (erule state_io_rel_mono) (auto simp: same_def unmoved_def intro: more_objects)

lemma um_abroad: "state_io_rel abroad m \<Longrightarrow> state_io_rel unmoved m"
  by (erule state_io_rel_mono) (simp add: unmoved_def abroad_parts)

lemma um_toPaperless: "paper_ok p \<Longrightarrow> state_io_rel unmoved (toPaperless p t ty i fn mime descr content)"
  unfolding toPaperless_def entityLabel_def by (intro um.io_rules same_methods [THEN um_read] paper_calls [THEN um_abroad])

lemma um_blob_Get: "state_io_rel unmoved (blob_Get key)"
  by (auto simp: state_io_rel_def blob_Get_def um.R_refl split: option.split)

lemma errs_Move: "errs unmoved (MoveDocumentToPaperless t i pid)"
  by (auto simp: errs_def MoveDocumentToPaperless_def run_guarded unmoved_def split: if_splits option.splits)

lemma Move_ok:
  assumes "run_state (MoveDocumentToPaperless t i pid) w = (Inr u, w')"
  shows "\<exists>old. map_of (documents w) i = Some old \<and> d_TenantID old = t
    \<and> w' = w\<lparr>documents := AList.update i (old\<lparr>d_PaperlessDocumentID := pid, d_StorageKey := PaperlessKeyPrefix @ pid\<rparr>) (documents w)\<rparr>"
  using assms by (auto simp: MoveDocumentToPaperless_def run_guarded split: if_splits option.splits)

text \<open>Moving the row: an error takes the new document back, success removes the old object.\<close>

definition move_row :: "'z Paper \<Rightarrow> Document \<Rightarrow> string \<Rightarrow> ('z world_scheme, doc_err, unit) prog" where
  "move_row p d pid = do {
     r \<leftarrow> MoveDocumentToPaperless (d_TenantID d) (d_ID d) pid;
     case r of
       Inl e \<Rightarrow> do { ignore (pp_Delete p (d_TenantID d) pid); fail_with (DocSvc (StoreErr e)) }
     | Inr _ \<Rightarrow> do { ignore (blob_Delete (d_StorageKey d)); ok () }
   }"

lemma errs_move_row:
  assumes "paper_ok p"
  shows "errs unmoved (move_row p d pid)"
  unfolding errs_def
proof (intro allI impI)
  fix w :: "'a world_scheme" and e w'
  assume run: "run_state (move_row p d pid) w = (Inl e, w')"
  obtain r w1 where m: "run_state (MoveDocumentToPaperless (d_TenantID d) (d_ID d) pid) w = (r, w1)" by force
  with run obtain e0 where r: "r = Inl e0" by (cases r) (auto simp: move_row_def split: prod.splits)
  have "unmoved w w1" using errs_Move m r unfolding errs_def by blast
  moreover have "unmoved w1 w'"
    using run m r um.io_run [OF paper_calls(4) [OF assms, THEN um_abroad], of "d_TenantID d" pid w1]
    by (auto simp: move_row_def ignore_def split: prod.splits)
  ultimately show "unmoved w w'" by (rule um.R_trans)
qed

lemma move_row_ok:
  assumes "run_state (move_row p d pid) w = (Inr u, w')"
  shows "\<exists>old. map_of (documents w) (d_ID d) = Some old \<and> d_TenantID old = d_TenantID d
    \<and> documents w' = AList.update (d_ID d) (old\<lparr>d_PaperlessDocumentID := pid, d_StorageKey := PaperlessKeyPrefix @ pid\<rparr>) (documents w)
    \<and> objects w' = (if delErr w = None then AList.delete (d_StorageKey d) (objects w) else objects w)"
  using assms by (auto simp: move_row_def ignore_def blob_Delete_def split: sum.splits prod.splits option.splits dest!: Move_ok)

lemma toPaperless_files:
  assumes "run_state (toPaperless p t ty i fn mime descr content) w = (Inr pid, w')"
  shows "\<exists>doc w1. run_state (pp_Create p t doc) w1 = (Inr pid, w') \<and> pd_Content doc = content \<and> pd_FileName doc = fn"
  using assms unfolding toPaperless_def by (force elim!: try_in_Inr try_as_Inr)

lemma migrateOne_eq:
  assumes "checkKey (d_TenantID d) (d_StorageKey d) = Inr ()" and "map_of (objects w) (d_StorageKey d) = Some data"
  shows "run_state (migrateOne svc p d) w = (let content = read_limited (maxSize svc * 4 + 1) data in
    run_state (if d_Checksum d \<noteq> [] \<and> sha256 svc content \<noteq> d_Checksum d then fail_with (ChecksumMismatch (d_ID d))
      else try_in (toPaperless p (d_TenantID d) (d_EntityType d) (d_EntityID d) (d_FileName d)
        (if d_MimeType d = [] then ''application/octet-stream'' else d_MimeType d) (d_Description d) content) (move_row p d)) w)"
  using assms by (simp add: migrateOne_def run_try_as blob_Get_def move_row_def [abs_def] Let_def)

lemma migrateOne_effect:
  assumes "paper_ok p" and "run_state (migrateOne svc p d) w = (r, w')"
  shows "case r of
      Inl e \<Rightarrow> core w' = core w \<and> objects w' = objects w
    | Inr _ \<Rightarrow> \<exists>data doc pid old w1 w2. map_of (objects w) (d_StorageKey d) = Some data
        \<and> pd_Content doc = read_limited (maxSize svc * 4 + 1) data \<and> (d_Checksum d \<noteq> [] \<longrightarrow> sha256 svc (pd_Content doc) = d_Checksum d)
        \<and> run_state (pp_Create p (d_TenantID d) doc) w1 = (Inr pid, w2) \<and> pid \<noteq> []
        \<and> map_of (documents w) (d_ID d) = Some old \<and> d_TenantID old = d_TenantID d
        \<and> documents w' = AList.update (d_ID d) (old\<lparr>d_PaperlessDocumentID := pid, d_StorageKey := PaperlessKeyPrefix @ pid\<rparr>) (documents w)"
proof (cases "checkKey (d_TenantID d) (d_StorageKey d) = Inr () \<and> map_of (objects w) (d_StorageKey d) \<noteq> None")
  case False
  then have "\<exists>e. r = Inl e \<and> w' = w"
    using assms(2) by (auto simp: migrateOne_def run_try_as blob_Get_def split: sum.splits option.splits)
  then show ?thesis by auto
next
  case True
  then obtain data where data: "map_of (objects w) (d_StorageKey d) = Some data" by auto
  let ?file = "toPaperless p (d_TenantID d) (d_EntityType d) (d_EntityID d) (d_FileName d)
    (if d_MimeType d = [] then ''application/octet-stream'' else d_MimeType d) (d_Description d) (read_limited (maxSize svc * 4 + 1) data)"
  note run = assms(2) [unfolded migrateOne_eq [OF conjunct1 [OF True] data] Let_def]
  show ?thesis
  proof (cases r)
    case (Inl e)
    have "errs unmoved (try_in ?file (move_row p d))"
      unfolding try_in_def by (intro um.errs_try um_toPaperless errs_move_row assms(1))
    then have "unmoved w w'" using run Inl by (auto simp: errs_def um.R_refl split: if_splits)
    then show ?thesis by (simp add: Inl unmoved_def)
  next
    case (Inr u)
    with run have cs: "d_Checksum d \<noteq> [] \<longrightarrow> sha256 svc (read_limited (maxSize svc * 4 + 1) data) = d_Checksum d"
      and "run_state (try_in ?file (move_row p d)) w = (Inr u, w')"
      by (auto split: if_splits)
    then obtain pid w2 where f: "run_state ?file w = (Inr pid, w2)" and m: "run_state (move_row p d pid) w2 = (Inr u, w')"
      by (auto elim!: try_in_Inr)
    have "documents w2 = documents w"
      using um.io_run [OF um_toPaperless [OF assms(1)] f] by (auto simp: unmoved_def intro: core_tables(3))
    moreover obtain doc w1 where "run_state (pp_Create p (d_TenantID d) doc) w1 = (Inr pid, w2)"
      "pd_Content doc = read_limited (maxSize svc * 4 + 1) data"
      using toPaperless_files [OF f] by blast
    moreover from move_row_ok [OF m] obtain old where "map_of (documents w2) (d_ID d) = Some old" "d_TenantID old = d_TenantID d"
      "documents w' = AList.update (d_ID d) (old\<lparr>d_PaperlessDocumentID := pid, d_StorageKey := PaperlessKeyPrefix @ pid\<rparr>) (documents w2)"
      by blast
    ultimately show ?thesis
      unfolding Inr sum.case using toPaperless_id [OF f assms(1)] data cs
      by (intro exI [of _ data] exI [of _ doc] exI [of _ pid] exI [of _ old] exI [of _ w1] exI [of _ w2]) simp
  qed
qed

text \<open>
  C18: migrating one document. A failure, at whatever step, leaves every table and every object as it was. After
  a success the content that was read from the object store, with the digest the row carries if it carries one,
  was filed in paperless under the id the row now names; no other row changed.
\<close>

theorem migration_safe:
  assumes "paper_ok p" and "run_state (migrateOne svc p d) w = (r, w')"
  shows "case r of
      Inl e \<Rightarrow> core w' = core w \<and> objects w' = objects w
    | Inr _ \<Rightarrow> \<exists>data doc pid old w1 w2. map_of (objects w) (d_StorageKey d) = Some data
        \<and> pd_Content doc = read_limited (maxSize svc * 4 + 1) data \<and> (d_Checksum d \<noteq> [] \<longrightarrow> sha256 svc (pd_Content doc) = d_Checksum d)
        \<and> run_state (pp_Create p (d_TenantID d) doc) w1 = (Inr pid, w2) \<and> pid \<noteq> []
        \<and> map_of (documents w) (d_ID d) = Some old \<and> d_TenantID old = d_TenantID d
        \<and> documents w' = AList.update (d_ID d) (old\<lparr>d_PaperlessDocumentID := pid, d_StorageKey := PaperlessKeyPrefix @ pid\<rparr>) (documents w)"
  using migrateOne_effect [OF assms] .

definition paper_demo :: "unit Paper" where
  "paper_demo = \<lparr>pp_EnsureCategory = (\<lambda>t path. ok ''c''), pp_Create = (\<lambda>t d. ok ''P1''), pp_Download = (\<lambda>t i. fail_with PaperNotFound),
     pp_Delete = (\<lambda>t i. ok ()), pp_Search = (\<lambda>t q n. ok [])\<rparr>"

lemma paper_demo_ok: "paper_ok paper_demo"
  by (simp add: paper_ok_def paper_demo_def state_io_rel_def abroad_def)

definition migrated_demo :: "(doc_err + unit) \<times> world" where
  "migrated_demo = run_state (migrateOne docs_demo paper_demo (snd (hd (documents (snd uploaded_demo))))) (snd uploaded_demo)"

theorem migration_safe_witness:
  "\<exists>pid. map_of (documents (snd migrated_demo)) (fst (hd (documents (snd uploaded_demo)))) =
     Some ((snd (hd (documents (snd uploaded_demo))))\<lparr>d_PaperlessDocumentID := pid, d_StorageKey := PaperlessKeyPrefix @ pid\<rparr>)"
proof -
  define k where "k = fst (hd (documents (snd uploaded_demo)))"
  define d where "d = snd (hd (documents (snd uploaded_demo)))"
  have r: "fst migrated_demo = Inr ()" by code_simp
  have k: "d_ID d = k" "map_of (documents (snd uploaded_demo)) k = Some d" unfolding k_def d_def by code_simp+
  have "run_state (migrateOne docs_demo paper_demo d) (snd uploaded_demo) = (Inr (), snd migrated_demo)"
    using r by (simp add: migrated_demo_def d_def prod_eq_iff)
  from migration_safe [OF paper_demo_ok this] show ?thesis
    using k unfolding k_def [symmetric] d_def [symmetric] by (auto simp: update_conv')
qed

end
