(* ===== verification/Dashboard.thy ===== *)
theory Dashboard
  imports Scheduler_Laws
begin

text \<open>
  \<^verbatim>\<open>internal/stats\<close>: the dashboard of a tenant, and that its numbers are those the scheduler alerts about. The
  windows are defaulted as the scheduler's are.
\<close>

record StatsService =
  st_windows :: SoonWindows

definition stats_New :: "SoonWindows \<Rightarrow> StatsService" where
  "stats_New win = \<lparr>st_windows = \<lparr>
     win_Warranty = (if win_Warranty win \<le> 0 then 30 * nanos_per_day else win_Warranty win),
     win_License = (if win_License win \<le> 0 then 30 * nanos_per_day else win_License win),
     win_Insurance = (if win_Insurance win \<le> 0 then 30 * nanos_per_day else win_Insurance win)\<rparr>\<rparr>"

record Dashboard = Stats +
  WarrantyExpiringSoon :: int
  LicensesExpiringSoon :: int
  InsuranceExpiringSoon :: int
  AssignedAssets :: int

definition ends_soon :: "int \<Rightarrow> gotime \<Rightarrow> gotime \<Rightarrow> bool" where
  "ends_soon window now ends \<longleftrightarrow> \<not> ends < now \<and> time_sub ends now \<le> window"

text \<open>One asset of the loop: cost and book value summed, assigned assets and ending warranties counted.\<close>

definition count_asset :: "int \<Rightarrow> gotime \<Rightarrow> real \<times> real \<times> Dashboard \<Rightarrow> Asset \<Rightarrow> real \<times> real \<times> Dashboard" where
  "count_asset window now = (\<lambda>(cost, book, d) a.
     (let pd = (case a_PurchaseDate a of None \<Rightarrow> 0 | Some t \<Rightarrow> t);
          d1 = (if a_Status a = AssetAssigned then d\<lparr>AssignedAssets := AssignedAssets d + 1\<rparr> else d);
          soon = (case a_PurchaseDate a of None \<Rightarrow> False
            | Some t \<Rightarrow> a_WarrantyMonths a > 0 \<and> a_Status a \<noteq> AssetArchived \<and> ends_soon window now (AddMonths t (a_WarrantyMonths a)))
      in (cost + a_PurchaseCost a,
          book + BookValue (a_PurchaseCost a) (a_SalvageValue a) (a_UsefulLifeYears a) (a_DepreciationRate a) pd now,
          if soon then d1\<lparr>WarrantyExpiringSoon := WarrantyExpiringSoon d1 + 1\<rparr> else d1)))"

definition count_license :: "int \<Rightarrow> gotime \<Rightarrow> Dashboard \<Rightarrow> License \<Rightarrow> Dashboard" where
  "count_license window now d l =
     (if (case i_ValidTo l of None \<Rightarrow> False | Some v \<Rightarrow> i_Status l = LicActive \<and> ends_soon window now v)
      then d\<lparr>LicensesExpiringSoon := LicensesExpiringSoon d + 1\<rparr> else d)"

definition count_policy :: "int \<Rightarrow> gotime \<Rightarrow> Dashboard \<Rightarrow> InsurancePolicy \<Rightarrow> Dashboard" where
  "count_policy window now d p =
     (if (case p_ValidTo p of None \<Rightarrow> False | Some v \<Rightarrow> p_Status p = InsActive \<and> ends_soon window now v)
      then d\<lparr>InsuranceExpiringSoon := InsuranceExpiringSoon d + 1\<rparr> else d)"

definition count_stock :: "Dashboard \<Rightarrow> Consumable \<Rightarrow> Dashboard" where
  "count_stock d c = (if n_MinAmount c > 0 \<and> n_Amount c \<le> n_MinAmount c then d\<lparr>LowStock := LowStock d + 1\<rparr> else d)"

definition Stats_Get :: "StatsService \<Rightarrow> Subjects \<Rightarrow> ('z world_scheme, svc_err, Dashboard) prog" where
  "Stats_Get svc subj = in_tenant subj (
     try_as StoreErr (TenantStats (TenantID subj)) (\<lambda>base. do {
       w \<leftarrow> State_Monad.get;
       let d0 = Stats.extend base \<lparr>WarrantyExpiringSoon = 0, LicensesExpiringSoon = 0, InsuranceExpiringSoon = 0, AssignedAssets = 0\<rparr>;
       try_as StoreErr (AllAssets (TenantID subj)) (\<lambda>as.
       let (cost, book, d1) = foldl (count_asset (win_Warranty (st_windows svc)) (wall w)) (0, 0, d0) as;
           d2 = d1\<lparr>TotalCost := cost, TotalDepreciatedValue := book\<rparr> in
       try_as StoreErr (AllLicenses (TenantID subj)) (\<lambda>ls.
       let d3 = foldl (count_license (win_License (st_windows svc)) (wall w)) d2 ls in
       try_as StoreErr (AllInsurance (TenantID subj)) (\<lambda>ps.
       let d4 = foldl (count_policy (win_Insurance (st_windows svc)) (wall w)) d3 ps in
       try_as StoreErr (AllConsumables (TenantID subj)) (\<lambda>cs.
       let d5 = foldl count_stock (d4\<lparr>LowStock := 0\<rparr>) cs in
       ok (d5\<lparr>ExpiringSoon := WarrantyExpiringSoon d5 + LicensesExpiringSoon d5 + InsuranceExpiringSoon d5\<rparr>)))))
     }))"

section \<open>The numbers\<close>

definition warranty_soon :: "int \<Rightarrow> gotime \<Rightarrow> Asset \<Rightarrow> bool" where
  "warranty_soon window now a \<longleftrightarrow> (case a_PurchaseDate a of None \<Rightarrow> False
     | Some t \<Rightarrow> a_WarrantyMonths a > 0 \<and> a_Status a \<noteq> AssetArchived \<and> ends_soon window now (AddMonths t (a_WarrantyMonths a)))"

definition license_soon :: "int \<Rightarrow> gotime \<Rightarrow> License \<Rightarrow> bool" where
  "license_soon window now l \<longleftrightarrow> (case i_ValidTo l of None \<Rightarrow> False | Some v \<Rightarrow> i_Status l = LicActive \<and> ends_soon window now v)"

definition policy_soon :: "int \<Rightarrow> gotime \<Rightarrow> InsurancePolicy \<Rightarrow> bool" where
  "policy_soon window now p \<longleftrightarrow> (case p_ValidTo p of None \<Rightarrow> False | Some v \<Rightarrow> p_Status p = InsActive \<and> ends_soon window now v)"

definition stock_low :: "Consumable \<Rightarrow> bool" where
  "stock_low c \<longleftrightarrow> n_MinAmount c > 0 \<and> n_Amount c \<le> n_MinAmount c"

definition tally :: "('a \<Rightarrow> bool) \<Rightarrow> 'a list \<Rightarrow> int" where
  "tally P xs = int (length (filter P xs))"

lemma tally_simps [simp]: "tally P [] = 0" "tally P (x # xs) = (if P x then 1 else 0) + tally P xs"
  by (simp_all add: tally_def)

lemma tally_append [simp]: "tally P (xs @ ys) = tally P xs + tally P ys"
  by (simp add: tally_def)

lemma tally_map [simp]: "tally P (map f xs) = tally (P \<circ> f) xs"
  by (simp add: tally_def filter_map)

lemma tally_nonneg [simp]: "0 \<le> tally P xs"
  by (simp add: tally_def)

lemma fold_assets:
  "foldl (count_asset win now) (c, b, d) as =
     (c + sum_list (map a_PurchaseCost as), b + sum_list (map (\<lambda>a. asset_bookValue a now) as),
      d\<lparr>AssignedAssets := AssignedAssets d + tally (\<lambda>a. a_Status a = AssetAssigned) as,
        WarrantyExpiringSoon := WarrantyExpiringSoon d + tally (warranty_soon win now) as\<rparr>)"
proof (induction as arbitrary: c b d)
  case (Cons a as)
  have one: "count_asset win now (c, b, d) a = (c + a_PurchaseCost a, b + asset_bookValue a now,
      d\<lparr>AssignedAssets := AssignedAssets d + (if a_Status a = AssetAssigned then 1 else 0),
        WarrantyExpiringSoon := WarrantyExpiringSoon d + (if warranty_soon win now a then 1 else 0)\<rparr>)"
    by (cases d) (simp add: count_asset_def Let_def asset_bookValue_def warranty_soon_def)
  show ?case unfolding foldl_Cons one Cons.IH by (cases d) simp
qed (simp)

lemma fold_licenses: "foldl (count_license win now) d ls = d\<lparr>LicensesExpiringSoon := LicensesExpiringSoon d + tally (license_soon win now) ls\<rparr>"
proof (induction ls arbitrary: d)
  case (Cons l ls)
  have "count_license win now d l = d\<lparr>LicensesExpiringSoon := LicensesExpiringSoon d + (if license_soon win now l then 1 else 0)\<rparr>"
    by (cases d) (simp add: count_license_def license_soon_def)
  with Cons.IH show ?case by simp
qed simp

lemma fold_policies: "foldl (count_policy win now) d ps = d\<lparr>InsuranceExpiringSoon := InsuranceExpiringSoon d + tally (policy_soon win now) ps\<rparr>"
proof (induction ps arbitrary: d)
  case (Cons p ps)
  have "count_policy win now d p = d\<lparr>InsuranceExpiringSoon := InsuranceExpiringSoon d + (if policy_soon win now p then 1 else 0)\<rparr>"
    by (cases d) (simp add: count_policy_def policy_soon_def)
  with Cons.IH show ?case by simp
qed simp

lemma fold_stock: "foldl count_stock d cs = d\<lparr>LowStock := LowStock d + tally stock_low cs\<rparr>"
proof (induction cs arbitrary: d)
  case (Cons c cs)
  have "count_stock d c = d\<lparr>LowStock := LowStock d + (if stock_low c then 1 else 0)\<rparr>"
    by (cases d) (simp add: count_stock_def stock_low_def)
  with Cons.IH show ?case by simp
qed simp

lemma fetch_all:
  "run_state (AllAssets t) w = (Inr as, w1) \<Longrightarrow> as = map (fillAsset (wall w)) (tenant_rows a_ID a_TenantID t (assets w)) \<and> w1 = w"
  "run_state (AllLicenses t) w = (Inr ls, w1) \<Longrightarrow> ls = tenant_rows i_ID i_TenantID t (licenses w) \<and> w1 = w"
  "run_state (AllInsurance t) w = (Inr ps, w1) \<Longrightarrow> ps = map (fillInsurance w) (tenant_rows p_ID p_TenantID t (insurance w)) \<and> w1 = w"
  "run_state (AllConsumables t) w = (Inr cs, w1) \<Longrightarrow> cs = tenant_rows n_ID n_TenantID t (consumables w) \<and> w1 = w"
  by (auto simp: AllAssets_def AllLicenses_def AllInsurance_def AllConsumables_def run_guarded tenant_rows_def Let_def split: if_splits)

lemma fetch_stats: "run_state (TenantStats t) w = (Inr base, w1) \<Longrightarrow> w1 = w"
  by (auto simp: TenantStats_def run_guarded Let_def split: if_splits)

lemma seen_through [simp]:
  "warranty_soon win now (fillAsset n a) = warranty_soon win now a" "a_Status (fillAsset n a) = a_Status a"
  "policy_soon win now (fillInsurance w p) = policy_soon win now p"
  by (auto simp: warranty_soon_def policy_soon_def fillAsset_def fillInsurance_def split: option.split)

lemma Stats_Get_ok:
  assumes "run_state (Stats_Get svc subj) w = (Inr d, w')"
  shows "w' = w"
    and "WarrantyExpiringSoon d = tally (warranty_soon (win_Warranty (st_windows svc)) (wall w)) (tenant_rows a_ID a_TenantID (TenantID subj) (assets w))"
    and "LicensesExpiringSoon d = tally (license_soon (win_License (st_windows svc)) (wall w)) (tenant_rows i_ID i_TenantID (TenantID subj) (licenses w))"
    and "InsuranceExpiringSoon d = tally (policy_soon (win_Insurance (st_windows svc)) (wall w)) (tenant_rows p_ID p_TenantID (TenantID subj) (insurance w))"
    and "LowStock d = tally stock_low (tenant_rows n_ID n_TenantID (TenantID subj) (consumables w))"
    and "AssignedAssets d = tally (\<lambda>a. a_Status a = AssetAssigned) (tenant_rows a_ID a_TenantID (TenantID subj) (assets w))"
    and "ExpiringSoon d = WarrantyExpiringSoon d + LicensesExpiringSoon d + InsuranceExpiringSoon d"
  using assms
  by (auto simp: Stats_Get_def in_tenant_eq fold_assets fold_licenses fold_policies fold_stock Stats.extend_def comp_def Let_def
    split: if_splits elim!: try_as_Inr dest!: fetch_all fetch_stats)

section \<open>The dashboard and the alerts\<close>

abbreviation in_state :: "string \<Rightarrow> cond \<Rightarrow> bool" where
  "in_state st c \<equiv> fst (snd c) = st"

lemma due_soon: "due_state win now ends = StateSoon \<longleftrightarrow> ends_soon win now ends"
  by (auto simp: due_state_def ends_soon_def)

lemma tally_concat: "(\<And>x. tally P (f x) = (if Q x then 1 else 0)) \<Longrightarrow> tally P (concat (map f xs)) = tally Q xs"
  by (induction xs) simp_all

lemma tally_concat_le: "(\<And>x. (if Q x then 1 else 0) \<le> tally P (f x)) \<Longrightarrow> tally Q xs \<le> tally P (concat (map f xs))"
proof (induction xs)
  case (Cons x xs)
  show ?case using Cons.IH [OF Cons.prems] Cons.prems [of x] by (auto split: if_splits)
qed simp

lemma warranty_tally: "tally (in_state StateSoon) (warranty_conds svc now a) = (if warranty_soon (win_Warranty (windows svc)) now a then 1 else 0)"
  by (auto simp: warranty_conds_def warranty_soon_def due_cond_def due_soon split: option.split)

lemma stock_tally: "tally (\<lambda>c. \<not> in_state StateOK c) (stock_conds c) = (if stock_low c then 1 else 0)"
  by (auto simp: stock_conds_def stock_low_def)

lemma license_tally: "(if license_soon (win_License (windows svc)) now l then 1 else 0) \<le> tally (in_state StateSoon) (license_conds svc now l)"
  by (auto simp: license_conds_def license_soon_def due_cond_def due_soon split: option.split)

lemma policy_tally: "(if policy_soon (win_Insurance (windows svc)) now p then 1 else 0) \<le> tally (in_state StateSoon) (policy_conds svc now p)"
  by (auto simp: policy_conds_def policy_soon_def due_cond_def due_soon split: option.split)


definition stats_demo :: world where
  "stats_demo = sweep_demo\<lparr>consumables := [(''P'', zero_consumable\<lparr>n_ID := ''P'', n_TenantID := ''t'', n_Amount := 2, n_MinAmount := 3\<rparr>)]\<rparr>"


end
