(* ===== verification/Glob.thy ===== *)
theory Glob
  imports Golib
begin

text \<open>
  \<^verbatim>\<open>path.Match\<close> of the Go library with the decoding of UTF-8 it rests on, as the inventory filter uses
  it: \<open>*\<close> and \<open>?\<close> stop at a slash, \<open>[...]\<close> is a class of runes, a backslash quotes. A pattern is
  scanned in chunks, each with the stars before it; a malformed pattern is an error whatever the name.
\<close>

section \<open>Runes\<close>

abbreviation byte :: "char \<Rightarrow> nat" where
  "byte c \<equiv> of_char c"

definition RuneError :: nat where
  "RuneError = 0xFFFD"

definition cont :: "nat \<Rightarrow> nat \<Rightarrow> nat \<Rightarrow> bool" where
  "cont lo hi b \<longleftrightarrow> lo \<le> b \<and> b \<le> hi"

text \<open>\<^verbatim>\<open>utf8.DecodeRuneInString\<close>: the rune and its width; \<open>RuneError\<close> of width 1 for a malformed sequence.\<close>

definition DecodeRune :: "string \<Rightarrow> nat \<times> nat" where
  "DecodeRune s =
     (case map byte s of
        [] \<Rightarrow> (RuneError, 0)
      | b0 # bs \<Rightarrow>
          if b0 < 0x80 then (b0, 1)
          else if cont 0xC2 0xDF b0 then
            (case bs of b1 # _ \<Rightarrow> if cont 0x80 0xBF b1 then ((b0 - 0xC0) * 64 + (b1 - 0x80), 2) else (RuneError, 1)
             | _ \<Rightarrow> (RuneError, 1))
          else if cont 0xE0 0xEF b0 then
            (case bs of b1 # b2 # _ \<Rightarrow>
               if cont (if b0 = 0xE0 then 0xA0 else 0x80) (if b0 = 0xED then 0x9F else 0xBF) b1 \<and> cont 0x80 0xBF b2
               then ((b0 - 0xE0) * 4096 + (b1 - 0x80) * 64 + (b2 - 0x80), 3) else (RuneError, 1)
             | _ \<Rightarrow> (RuneError, 1))
          else if cont 0xF0 0xF4 b0 then
            (case bs of b1 # b2 # b3 # _ \<Rightarrow>
               if cont (if b0 = 0xF0 then 0x90 else 0x80) (if b0 = 0xF4 then 0x8F else 0xBF) b1 \<and> cont 0x80 0xBF b2 \<and> cont 0x80 0xBF b3
               then ((b0 - 0xF0) * 262144 + (b1 - 0x80) * 4096 + (b2 - 0x80) * 64 + (b3 - 0x80), 4) else (RuneError, 1)
             | _ \<Rightarrow> (RuneError, 1))
          else (RuneError, 1))"

lemma DecodeRune_width: "s \<noteq> [] \<Longrightarrow> 0 < snd (DecodeRune s)"
  by (cases s) (auto simp: DecodeRune_def split: list.split)

section \<open>One chunk\<close>

text \<open>\<^verbatim>\<open>getEsc\<close>: a possibly quoted rune of a class, and what follows it, which must not be empty.\<close>

definition getEsc :: "string \<Rightarrow> (nat \<times> string) option" where
  "getEsc chunk =
     (if chunk = [] \<or> hd chunk = CHR ''-'' \<or> hd chunk = CHR '']'' then None
      else let c = (if hd chunk = CHR 0x5C then tl chunk else chunk) in
        if c = [] then None
        else let (r, n) = DecodeRune c in
          if (r = RuneError \<and> n = 1) \<or> drop n c = [] then None else Some (r, drop n c))"

lemma getEsc_shorter: "getEsc chunk = Some (r, rest) \<Longrightarrow> rest \<noteq> [] \<and> length rest < length chunk"
proof -
  assume *: "getEsc chunk = Some (r, rest)"
  let ?c = "if hd chunk = CHR 0x5C then tl chunk else chunk"
  have c: "?c \<noteq> []" "rest = drop (snd (DecodeRune ?c)) ?c" "rest \<noteq> []"
    using * by (auto simp: getEsc_def Let_def case_prod_beta split: if_splits)
  have "length rest < length ?c" using c(1,2) DecodeRune_width [OF c(1)] by (cases ?c) auto
  also have "\<dots> \<le> length chunk" by simp
  finally show ?thesis using c(3) by simp
qed

text \<open>The ranges of a class after its opening, up to and with the closing bracket; \<open>n\<close> counts them.\<close>

function class_loop :: "nat \<Rightarrow> string \<Rightarrow> nat \<Rightarrow> bool \<Rightarrow> (bool \<times> string) option" where
  "class_loop r chunk n m =
     (if chunk \<noteq> [] \<and> hd chunk = CHR '']'' \<and> 0 < n then Some (m, tl chunk)
      else case getEsc chunk of
        None \<Rightarrow> None
      | Some (lo, c1) \<Rightarrow>
          if hd c1 = CHR ''-'' then
            (case getEsc (tl c1) of
               None \<Rightarrow> None
             | Some (hi, c2) \<Rightarrow> class_loop r c2 (Suc n) (m \<or> lo \<le> r \<and> r \<le> hi))
          else class_loop r c1 (Suc n) (m \<or> lo \<le> r \<and> r \<le> lo))"
  by pat_completeness auto
termination
  by (relation "measure (\<lambda>(r, chunk, n, m). length chunk)") (auto dest!: getEsc_shorter)

declare class_loop.simps [simp del]

lemma class_loop_shorter: "class_loop r chunk n m = Some (b, rest) \<Longrightarrow> length rest < length chunk"
proof (induction r chunk n m rule: class_loop.induct)
  case (1 r chunk n m)
  note unf = "1.prems" [unfolded class_loop.simps [of r chunk n m]]
  show ?case
  proof (cases "chunk \<noteq> [] \<and> hd chunk = CHR '']'' \<and> 0 < n")
    case True
    then show ?thesis using unf by (cases chunk) auto
  next
    case False
    then obtain lo c1 where e1: "getEsc chunk = Some (lo, c1)" using unf by (auto split: option.splits)
    note s1 = getEsc_shorter [OF e1]
    show ?thesis
    proof (cases "hd c1 = CHR ''-''")
      case True
      then obtain hi c2 where e2: "getEsc (tl c1) = Some (hi, c2)" using unf False e1 by (auto split: option.splits)
      have "length rest < length c2" using "1.IH"(1) [OF False e1 refl True e2 refl] unf False e1 e2 True by simp
      then show ?thesis using conjunct2 [OF s1] conjunct2 [OF getEsc_shorter [OF e2]] by (simp add: less_diff_conv)
    next
      case no: False
      have "length rest < length c1" using "1.IH"(2) [OF False e1 refl no] unf False e1 no by simp
      then show ?thesis using s1 by simp
    qed
  qed
qed

text \<open>
  The verdict on a chunk: malformed, no match, or what is left of the name. After a mismatch
  (\<open>failed\<close>) the rest of the chunk is only checked for its form.
\<close>

datatype chunk_res = Bad | NoMatch | Rest string

definition skip_rune :: "string \<Rightarrow> string" where
  "skip_rune s = drop (snd (DecodeRune s)) s"

function matchChunk :: "bool \<Rightarrow> string \<Rightarrow> string \<Rightarrow> chunk_res" where
  "matchChunk failed [] s = (if failed then NoMatch else Rest s)"
| "matchChunk failed (c # cs) s =
     (let failed = (failed \<or> s = []) in
      if c = CHR ''['' then
        (let r = (if failed then 0 else fst (DecodeRune s));
             s' = (if failed then s else skip_rune s);
             negated = (cs \<noteq> [] \<and> hd cs = CHR ''^'')
         in case class_loop r (if negated then tl cs else cs) 0 False of
              None \<Rightarrow> Bad
            | Some (m, rest) \<Rightarrow> matchChunk (failed \<or> m = negated) rest s')
      else if c = CHR ''?'' then
        matchChunk (failed \<or> hd s = CHR ''/'') cs (if failed then s else skip_rune s)
      else if c = CHR 0x5C then
        (case cs of
           [] \<Rightarrow> Bad
         | d # ds \<Rightarrow> matchChunk (failed \<or> d \<noteq> hd s) ds (if failed then s else tl s))
      else matchChunk (failed \<or> c \<noteq> hd s) cs (if failed then s else tl s))"
  by pat_completeness auto
termination
  by (relation "measure (\<lambda>(failed, chunk, s). length chunk)")
    (auto dest!: class_loop_shorter split: if_splits)

declare matchChunk.simps(2) [simp del]

section \<open>The whole pattern\<close>

text \<open>The position at which a chunk ends: the first star outside a class.\<close>

fun scan_end :: "bool \<Rightarrow> string \<Rightarrow> nat" where
  "scan_end inrange [] = 0"
| "scan_end inrange (c # cs) =
     (if c = CHR 0x5C then (case cs of [] \<Rightarrow> 1 | d # ds \<Rightarrow> 2 + scan_end inrange ds)
      else if c = CHR ''['' then 1 + scan_end True cs
      else if c = CHR '']'' then 1 + scan_end False cs
      else if c = CHR ''*'' \<and> \<not> inrange then 0
      else 1 + scan_end inrange cs)"

definition scanChunk :: "string \<Rightarrow> bool \<times> string \<times> string" where
  "scanChunk pattern =
     (let p = dropWhile (\<lambda>c. c = CHR ''*'') pattern; i = scan_end False p
      in (p \<noteq> pattern, take i p, drop i p))"

lemma scanChunk_shorter:
  assumes "pattern \<noteq> []"
  shows "length (snd (snd (scanChunk pattern))) < length pattern"
proof -
  let ?p = "dropWhile (\<lambda>c. c = CHR ''*'') pattern"
  have len: "length ?p \<le> length pattern" by (rule length_dropWhile_le)
  show ?thesis
  proof (cases "hd pattern = CHR ''*''")
    case True
    then have "length ?p < length pattern"
      using assms by (cases pattern) (simp_all add: le_imp_less_Suc length_dropWhile_le)
    then show ?thesis by (simp add: scanChunk_def Let_def)
  next
    case False
    then have "?p = pattern" using assms by (cases pattern) simp_all
    moreover have "0 < scan_end False pattern" using assms False by (cases pattern) (auto split: list.split)
    ultimately show ?thesis using assms by (simp add: scanChunk_def Let_def)
  qed
qed

text \<open>The search after a star: the chunk is tried at every later position up to a slash.\<close>

fun star_try :: "string \<Rightarrow> bool \<Rightarrow> string \<Rightarrow> chunk_res" where
  "star_try chunk final [] = NoMatch"
| "star_try chunk final (c # cs) =
     (if c = CHR ''/'' then NoMatch
      else case matchChunk False chunk cs of
        Bad \<Rightarrow> Bad
      | NoMatch \<Rightarrow> star_try chunk final cs
      | Rest t \<Rightarrow> if final \<and> t \<noteq> [] then star_try chunk final cs else Rest t)"

text \<open>The check of the remaining pattern before a mismatch is reported.\<close>

function rest_ok :: "string \<Rightarrow> bool" where
  "rest_ok pattern =
     (if pattern = [] then True
      else matchChunk False (fst (snd (scanChunk pattern))) [] \<noteq> Bad \<and> rest_ok (snd (snd (scanChunk pattern))))"
  by pat_completeness auto
termination
  by (relation "measure length") (auto intro: scanChunk_shorter)

declare rest_ok.simps [simp del]

datatype match_res = ErrBadPattern | Matched bool

definition chunk_step :: "bool \<Rightarrow> string \<Rightarrow> string \<Rightarrow> string \<Rightarrow> chunk_res" where
  "chunk_step star chunk rest name =
     (case matchChunk False chunk name of
        Bad \<Rightarrow> Bad
      | Rest t \<Rightarrow> if t = [] \<or> rest \<noteq> [] then Rest t else if star then star_try chunk (rest = []) name else NoMatch
      | NoMatch \<Rightarrow> if star then star_try chunk (rest = []) name else NoMatch)"

function path_Match :: "string \<Rightarrow> string \<Rightarrow> match_res" where
  "path_Match pattern name =
     (if pattern = [] then Matched (name = [])
      else if fst (scanChunk pattern) \<and> fst (snd (scanChunk pattern)) = [] then Matched (CHR ''/'' \<notin> set name)
      else case chunk_step (fst (scanChunk pattern)) (fst (snd (scanChunk pattern))) (snd (snd (scanChunk pattern))) name of
          Bad \<Rightarrow> ErrBadPattern
        | Rest t \<Rightarrow> path_Match (snd (snd (scanChunk pattern))) t
        | NoMatch \<Rightarrow> if rest_ok (snd (snd (scanChunk pattern))) then Matched False else ErrBadPattern)"
  by pat_completeness auto
termination
  by (relation "measure (\<lambda>(p, n). length p)") (auto intro: scanChunk_shorter)

declare path_Match.simps [simp del]

section \<open>Whether a pattern is malformed does not depend on the name\<close>

lemma class_loop_form: "map_option snd (class_loop r chunk n m) = map_option snd (class_loop r' chunk n m')"
proof (induction "length chunk" arbitrary: chunk n m m' rule: less_induct)
  case less
  have step: "map_option snd (class_loop q chunk n k) =
      (if chunk \<noteq> [] \<and> hd chunk = CHR '']'' \<and> 0 < n then Some (tl chunk)
       else case getEsc chunk of None \<Rightarrow> None | Some (lo, c1) \<Rightarrow>
         if hd c1 = CHR ''-'' then (case getEsc (tl c1) of None \<Rightarrow> None
           | Some (hi, c2) \<Rightarrow> map_option snd (class_loop q c2 (Suc n) (k \<or> lo \<le> q \<and> q \<le> hi)))
         else map_option snd (class_loop q c1 (Suc n) (k \<or> lo \<le> q \<and> q \<le> lo)))" for q k
    by (subst class_loop.simps) (auto split: option.split prod.split)
  have IH2: "map_option snd (class_loop r c2 k a) = map_option snd (class_loop r' c2 k b)"
    if "getEsc chunk = Some (lo, c1)" "getEsc (tl c1) = Some (hi, c2)" for lo c1 hi c2 k a b
  proof (rule less)
    show "length c2 < length chunk"
      using conjunct2 [OF getEsc_shorter [OF that(1)]] conjunct2 [OF getEsc_shorter [OF that(2)]] by (simp add: less_diff_conv)
  qed
  have IH1: "map_option snd (class_loop r c1 k a) = map_option snd (class_loop r' c1 k b)"
    if "getEsc chunk = Some (lo, c1)" for lo c1 k a b
    by (rule less) (use getEsc_shorter [OF that] in simp)
  show ?case
    unfolding step [of r m] step [of r' m']
    by (auto split: option.split prod.split intro: IH1 IH2)
qed

lemma class_loop_cases:
  obtains (none) "class_loop r body n m = None" "class_loop r' body n m' = None"
  | (some) b b' rest where "class_loop r body n m = Some (b, rest)" "class_loop r' body n m' = Some (b', rest)"
  using class_loop_form [of r body n m r' m'] by (cases "class_loop r body n m"; cases "class_loop r' body n m'") auto

definition class_body :: "string \<Rightarrow> string" where
  "class_body cs = (if cs \<noteq> [] \<and> hd cs = CHR ''^'' then tl cs else cs)"

lemma matchChunk_class:
  obtains r t where "matchChunk failed (CHR ''['' # cs) s = (case class_loop r (class_body cs) 0 False of
    None \<Rightarrow> Bad | Some (m, rest) \<Rightarrow> matchChunk (failed \<or> s = [] \<or> m = (cs \<noteq> [] \<and> hd cs = CHR ''^'')) rest t)"
  by (rule that [where r = "if failed \<or> s = [] then 0 else fst (DecodeRune s)" and t = "if failed \<or> s = [] then s else skip_rune s"])
    (simp only: matchChunk.simps(2) [of failed "CHR ''[''" cs s] class_body_def Let_def disj_assoc if_True simp_thms)

lemma class_body_length: "length (class_body cs) \<le> length cs"
  by (simp add: class_body_def)

lemma matchChunk_form: "matchChunk failed chunk s = Bad \<longleftrightarrow> matchChunk failed' chunk s' = Bad"
proof (induction "length chunk" arbitrary: chunk failed s failed' s' rule: less_induct)
  case less
  show ?case
  proof (cases chunk)
    case (Cons c cs)
    have IH: "matchChunk f xs u = Bad \<longleftrightarrow> matchChunk f' xs u' = Bad" if "length xs \<le> length cs" for f f' xs u u'
      using less [of xs f u f' u'] that Cons by simp
    consider (cls) "c = CHR ''[''" | (one) "c = CHR ''?''" | (quote) "c = CHR 0x5C" | (lit) "c \<noteq> CHR ''[''" "c \<noteq> CHR ''?''" "c \<noteq> CHR 0x5C"
      by blast
    then show ?thesis
    proof cases
      case cls
      obtain r t where 1: "matchChunk failed (CHR ''['' # cs) s = (case class_loop r (class_body cs) 0 False of
          None \<Rightarrow> Bad | Some (m, rest) \<Rightarrow> matchChunk (failed \<or> s = [] \<or> m = (cs \<noteq> [] \<and> hd cs = CHR ''^'')) rest t)"
        by (rule matchChunk_class)
      obtain r' t' where 2: "matchChunk failed' (CHR ''['' # cs) s' = (case class_loop r' (class_body cs) 0 False of
          None \<Rightarrow> Bad | Some (m, rest) \<Rightarrow> matchChunk (failed' \<or> s' = [] \<or> m = (cs \<noteq> [] \<and> hd cs = CHR ''^'')) rest t')"
        by (rule matchChunk_class)
      show ?thesis
      proof (cases rule: class_loop_cases [of r "class_body cs" 0 False r' False])
        case none
        then show ?thesis using 1 2 cls Cons by simp
      next
        case (some b b' rest)
        then have "length rest \<le> length cs" using class_loop_shorter [of r "class_body cs"] class_body_length [of cs] by fastforce
        then show ?thesis using IH 1 2 some cls Cons by simp
      qed
    next
      case one
      then show ?thesis using IH [of cs] Cons by (simp add: matchChunk.simps(2) Let_def)
    next
      case quote
      then show ?thesis using IH [of "tl cs"] Cons by (cases cs) (simp_all add: matchChunk.simps(2) Let_def)
    next
      case lit
      then show ?thesis using IH [of cs] Cons by (simp add: matchChunk.simps(2) Let_def)
    qed
  qed simp
qed

lemma scan_end_zero: "scan_end False p = 0 \<Longrightarrow> p = [] \<or> hd p = CHR ''*''"
  by (cases p) (auto split: if_splits list.splits)

lemma scanChunk_last:
  assumes "fst (snd (scanChunk pattern)) = []"
  shows "snd (snd (scanChunk pattern)) = []"
proof -
  let ?p = "dropWhile (\<lambda>c. c = CHR ''*'') pattern"
  have "?p = []"
  proof (rule ccontr)
    assume ne: "?p \<noteq> []"
    have "take (scan_end False ?p) ?p = []" using assms by (simp only: scanChunk_def Let_def fst_conv snd_conv)
    then have "scan_end False ?p = 0" using ne by (simp only: take_eq_Nil simp_thms)
    then show False using scan_end_zero [of ?p] ne hd_dropWhile [of "\<lambda>c. c = CHR ''*''" pattern] by simp
  qed
  then show ?thesis by (simp only: scanChunk_def Let_def snd_conv drop_Nil)
qed

lemma star_try_form: "star_try chunk final name = Bad \<Longrightarrow> matchChunk False chunk [] = Bad"
  by (induction chunk final name rule: star_try.induct)
    (auto split: if_splits chunk_res.splits intro: matchChunk_form [THEN iffD1])

lemma chunk_step_form: "chunk_step star chunk rest name = Bad \<longleftrightarrow> matchChunk False chunk [] = Bad"
proof
  assume "chunk_step star chunk rest name = Bad"
  then show "matchChunk False chunk [] = Bad"
    unfolding chunk_step_def
    by (auto split: if_splits chunk_res.splits dest: star_try_form intro: matchChunk_form [THEN iffD1])
next
  assume "matchChunk False chunk [] = Bad"
  then have "matchChunk False chunk name = Bad" using matchChunk_form by blast
  then show "chunk_step star chunk rest name = Bad" by (simp add: chunk_step_def)
qed

text \<open>A pattern is malformed for every name or for none.\<close>

lemma path_Match_form: "path_Match pattern name = ErrBadPattern \<longleftrightarrow> \<not> rest_ok pattern"
proof (induction "length pattern" arbitrary: pattern name rule: less_induct)
  case less
  show ?case
  proof (cases "pattern = []")
    case True
    then show ?thesis by (simp add: path_Match.simps rest_ok.simps)
  next
    case False
    let ?sc = "scanChunk pattern"
    let ?star = "fst ?sc" and ?chunk = "fst (snd ?sc)" and ?rest = "snd (snd ?sc)"
    have IH: "path_Match ?rest t = ErrBadPattern \<longleftrightarrow> \<not> rest_ok ?rest" for t
      using less [of ?rest t] scanChunk_shorter [OF False] by blast
    have ro: "rest_ok pattern \<longleftrightarrow> matchChunk False ?chunk [] \<noteq> Bad \<and> rest_ok ?rest"
      using False by (simp add: rest_ok.simps [of pattern])
    show ?thesis
    proof (cases "?star \<and> ?chunk = []")
      case True
      then have "?rest = []" by (intro scanChunk_last) simp_all
      then show ?thesis using True False ro by (simp add: path_Match.simps [of pattern] rest_ok.simps [of "[]"])
    next
      case no: False
      have "path_Match pattern name = (case chunk_step ?star ?chunk ?rest name of
          Bad \<Rightarrow> ErrBadPattern | Rest t \<Rightarrow> path_Match ?rest t
        | NoMatch \<Rightarrow> if rest_ok ?rest then Matched False else ErrBadPattern)"
        using False no by (subst path_Match.simps) (simp only: if_False simp_thms)
      then show ?thesis
        using IH ro chunk_step_form [of ?star ?chunk ?rest name] by (auto split: chunk_res.splits)
    qed
  qed
qed

end
