(* ===== verification/Invsync.thy ===== *)
theory Invsync
  imports Flow Glob
begin

text \<open>
  \<^verbatim>\<open>internal/invsync\<close> and \<^verbatim>\<open>internal/invclient\<close>: reconciling the assets of a tenant with the hosts of the
  inventory module. The inventory module is a parameter (\<open>InvClient\<close>): the answers of its two
  queries. \<open>folding\<close> of the recorder is the Unicode case folding of \<^verbatim>\<open>strings.ToLower\<close>. Rows are
  values: the map of tags a row carries is not shared with the store.
\<close>

section \<open>The inventory client\<close>

record Host =
  ho_ID :: string
  ho_Hostname :: string
  ho_SystemSerial :: string
  ho_Manufacturer :: string
  ho_Model :: string
  ho_OSName :: string
  ho_OSVersion :: string
  ho_OSArch :: string
  ho_Status :: string
  ho_LastSeen :: gotime

record InvClient =
  ListHosts :: "string \<Rightarrow> string + Host list"
  HostRoles :: "string \<Rightarrow> string + string tab"

text \<open>
  \<^verbatim>\<open>Mesh.ListHosts\<close> over the paged query of the remote service (tenant, cursor): the loop ends with the first page that is
  not full; None when it never does.
\<close>

partial_function (option) mesh_pages :: "(string \<Rightarrow> string + Host list) \<Rightarrow> string \<Rightarrow> Host list \<Rightarrow> (string + Host list) option" where
  "mesh_pages query cursor out =
     (case query cursor of
        Inl e \<Rightarrow> Some (Inl e)
      | Inr hosts \<Rightarrow>
          if length hosts < 500 then Some (Inr (out @ hosts))
          else mesh_pages query (ho_ID (last hosts)) (out @ hosts))"

definition Mesh_ListHosts :: "(string \<Rightarrow> string \<Rightarrow> string + Host list) \<Rightarrow> string \<Rightarrow> (string + Host list) option" where
  "Mesh_ListHosts query tenantID = mesh_pages (query tenantID) [] []"

text \<open>\<^verbatim>\<open>Mesh.Roles\<close>: at most 10000 pages of (host id, role) with the next cursor.\<close>

primrec mesh_roles :: "nat \<Rightarrow> (string \<Rightarrow> string + (string \<times> string) list \<times> string) \<Rightarrow> string \<Rightarrow> string tab \<Rightarrow> string + string tab" where
  "mesh_roles 0 query cursor out = Inr out"
| "mesh_roles (Suc n) query cursor out =
     (case query cursor of
        Inl e \<Rightarrow> Inl e
      | Inr (reports, next) \<Rightarrow>
          let out = fold (\<lambda>(i, role). AList.update i role) reports out
          in if next = [] \<or> reports = [] then Inr out else mesh_roles n query next out)"

definition Mesh_Roles :: "(string \<Rightarrow> string \<Rightarrow> string + (string \<times> string) list \<times> string) \<Rightarrow> string \<Rightarrow> string + string tab" where
  "Mesh_Roles query tenantID = mesh_roles 10000 (query tenantID) [] []"

text \<open>The in-memory client: hosts and roles by tenant, and two switches that make it fail.\<close>

record FakeInv =
  fk_hosts :: "Host list tab"
  fk_roles :: "string tab tab"
  fk_Down :: bool
  fk_RolesDown :: bool

definition NewFake :: FakeInv where
  "NewFake = \<lparr>fk_hosts = [], fk_roles = [], fk_Down = False, fk_RolesDown = False\<rparr>"

definition roles_of :: "FakeInv \<Rightarrow> string \<Rightarrow> string tab" where
  "roles_of f tenantID = (case map_of (fk_roles f) tenantID of None \<Rightarrow> [] | Some m \<Rightarrow> m)"

definition SetRole :: "string \<Rightarrow> string \<Rightarrow> string \<Rightarrow> FakeInv \<Rightarrow> FakeInv" where
  "SetRole tenantID hostID role f =
     f\<lparr>fk_roles := AList.update tenantID (AList.update hostID role (roles_of f tenantID)) (fk_roles f)\<rparr>"

definition SetHosts :: "string \<Rightarrow> Host list \<Rightarrow> FakeInv \<Rightarrow> FakeInv" where
  "SetHosts tenantID hosts f = f\<lparr>fk_hosts := AList.update tenantID hosts (fk_hosts f)\<rparr>"

definition FakeInv_Roles :: "FakeInv \<Rightarrow> string \<Rightarrow> string + string tab" where
  "FakeInv_Roles f tenantID = (if fk_Down f \<or> fk_RolesDown f then Inl ''unavailable'' else Inr (roles_of f tenantID))"

definition FakeInv_ListHosts :: "FakeInv \<Rightarrow> string \<Rightarrow> string + Host list" where
  "FakeInv_ListHosts f tenantID =
     (if fk_Down f then Inl ''unavailable'' else Inr (case map_of (fk_hosts f) tenantID of None \<Rightarrow> [] | Some hs \<Rightarrow> hs))"

definition fake_client :: "FakeInv \<Rightarrow> InvClient" where
  "fake_client f = \<lparr>ListHosts = FakeInv_ListHosts f, HostRoles = FakeInv_Roles f\<rparr>"

section \<open>Filter settings\<close>

abbreviation ActionExcluded :: string where "ActionExcluded \<equiv> ''excluded''"
abbreviation ActionCreate :: string where "ActionCreate \<equiv> ''create''"
abbreviation ActionUpdate :: string where "ActionUpdate \<equiv> ''update''"
abbreviation ActionUnchanged :: string where "ActionUnchanged \<equiv> ''unchanged''"

definition MaxPatterns :: nat where "MaxPatterns = 50"
definition MaxPatternLen :: nat where "MaxPatternLen = 200"

fun norm_loop :: "(string \<Rightarrow> string) \<Rightarrow> string \<Rightarrow> string list \<Rightarrow> string list \<Rightarrow> svc_err + string list" where
  "norm_loop uni fld [] out = Inr out"
| "norm_loop uni fld (p0 # ps) out =
     (let p = ToLower uni (TrimSpace p0) in
      if p = [] \<or> p \<in> set out then norm_loop uni fld ps out
      else if MaxPatternLen < length p then Inl (SettingsInvalid fld ''pattern too long'')
      else if path_Match p [] = ErrBadPattern then Inl (SettingsInvalid fld ''not a valid pattern'')
      else norm_loop uni fld ps (out @ [p]))"

definition normalizePatterns :: "(string \<Rightarrow> string) \<Rightarrow> string \<Rightarrow> string list \<Rightarrow> svc_err + string list" where
  "normalizePatterns uni fld inp =
     (case norm_loop uni fld inp [] of
        Inl e \<Rightarrow> Inl e
      | Inr out \<Rightarrow> if MaxPatterns < length out then Inl (SettingsInvalid fld ''too many patterns'') else Inr out)"

record InvsyncService =
  is_inv :: "InvClient option"
  is_rec :: Recorder

definition Sync_Settings :: "Subjects \<Rightarrow> ('z world_scheme, svc_err, InvSyncSettings) prog" where
  "Sync_Settings subj = in_tenant subj (try_as StoreErr (GetInvSyncSettings (TenantID subj)) (\<lambda>(st, _). ok st))"

definition SaveSettings :: "InvsyncService \<Rightarrow> Subjects \<Rightarrow> InvSyncSettings \<Rightarrow> ('z world_scheme, svc_err, InvSyncSettings) prog" where
  "SaveSettings svc subj inp = in_tenant subj (
     case normalizePatterns (folding (is_rec svc)) ''hostname_include'' (v_HostnameInclude inp) of Inl e \<Rightarrow> fail_with e | Inr hi \<Rightarrow>
     case normalizePatterns (folding (is_rec svc)) ''hostname_exclude'' (v_HostnameExclude inp) of Inl e \<Rightarrow> fail_with e | Inr he \<Rightarrow>
     case normalizePatterns (folding (is_rec svc)) ''os_include'' (v_OSInclude inp) of Inl e \<Rightarrow> fail_with e | Inr oi \<Rightarrow>
     case normalizePatterns (folding (is_rec svc)) ''os_exclude'' (v_OSExclude inp) of Inl e \<Rightarrow> fail_with e | Inr oe \<Rightarrow> do {
       w \<leftarrow> State_Monad.get;
       let st = inp\<lparr>v_HostnameInclude := hi, v_HostnameExclude := he, v_OSInclude := oi, v_OSExclude := oe,
         v_TenantID := TenantID subj, v_UpdatedBy := ActorID subj, v_UpdatedAt := wall w\<rparr>;
       try_as StoreErr (PutInvSyncSettings st) (\<lambda>_. do {
         emit (is_rec svc) subj ''inventory_sync_settings_updated'' ''sync'' ''settings''
           [(''exclude_vms'', ABool (v_ExcludeVMs st)), (''exclude_containers'', ABool (v_ExcludeContainers st)),
            (''skip_stale'', ABool (v_SkipStale st)), (''skip_retired'', ABool (v_SkipRetired st)),
            (''hostname_include'', AInt (int (length hi))), (''hostname_exclude'', AInt (int (length he))),
            (''os_include'', AInt (int (length oi))), (''os_exclude'', AInt (int (length oe)))];
         ok st
       })
     })"

definition needsRoles :: "InvSyncSettings \<Rightarrow> bool" where
  "needsRoles f \<longleftrightarrow> v_ExcludeVMs f \<or> v_ExcludeContainers f"

definition matchAny :: "(string \<Rightarrow> string) \<Rightarrow> string list \<Rightarrow> string \<Rightarrow> bool" where
  "matchAny uni patterns val = list_ex (\<lambda>p. path_Match p (ToLower uni val) = Matched True) patterns"

definition exclusion :: "(string \<Rightarrow> string) \<Rightarrow> InvSyncSettings \<Rightarrow> Host \<Rightarrow> string \<Rightarrow> string" where
  "exclusion uni f h role =
     (if v_SkipRetired f \<and> ho_Status h = ''retired'' then ''retired''
      else if v_SkipStale f \<and> ho_Status h = ''stale'' then ''stale''
      else if v_ExcludeVMs f \<and> role = ''vm'' then ''virtual_machine''
      else if v_ExcludeContainers f \<and> role = ''container'' then ''container''
      else if matchAny uni (v_HostnameExclude f) (ho_Hostname h) then ''hostname_excluded''
      else if v_HostnameInclude f \<noteq> [] \<and> \<not> matchAny uni (v_HostnameInclude f) (ho_Hostname h) then ''hostname_not_included''
      else if matchAny uni (v_OSExclude f) (ho_OSName h) then ''os_excluded''
      else if v_OSInclude f \<noteq> [] \<and> \<not> matchAny uni (v_OSInclude f) (ho_OSName h) then ''os_not_included''
      else [])"

section \<open>The difference\<close>

record FieldChange =
  fc_Old :: string
  fc_New :: string

record Change =
  ch_HostID :: string
  ch_Hostname :: string
  ch_Serial :: string
  ch_Action :: string
  ch_AssetID :: string
  ch_AssetTag :: string
  ch_Changes :: "FieldChange tab"
  ch_Reason :: string

record Desired =
  de_Name :: string
  de_Serial :: string
  de_ModelName :: string
  de_Tags :: "string tab"

text \<open>\<^verbatim>\<open>m[k]\<close>, the empty string when the key is absent.\<close>

definition text_at :: "string tab \<Rightarrow> string \<Rightarrow> string" where
  "text_at m k = (case map_of m k of None \<Rightarrow> [] | Some v \<Rightarrow> v)"

definition tag_if :: "string \<Rightarrow> string \<Rightarrow> string tab" where
  "tag_if k v = (if v \<noteq> [] then [(k, v)] else [])"

definition desired :: "Host \<Rightarrow> Desired" where
  "desired h =
     (let n1 = TrimSpace (ho_Hostname h);
          n2 = (if n1 = [] then TrimSpace (ho_SystemSerial h) else n1);
          n3 = (if n2 = [] then ho_ID h else n2)
      in \<lparr>de_Name = n3, de_Serial = TrimSpace (ho_SystemSerial h), de_ModelName = TrimSpace (ho_Model h),
          de_Tags = tag_if ''inventory_host_id'' (ho_ID h) @ tag_if ''manufacturer'' (TrimSpace (ho_Manufacturer h)) @
            tag_if ''os_name'' (TrimSpace (ho_OSName h)) @ tag_if ''os_version'' (TrimSpace (ho_OSVersion h)) @
            tag_if ''os_arch'' (TrimSpace (ho_OSArch h))\<rparr>)"

record inv_index =
  bySerial :: "Asset tab"
  byHostID :: "Asset tab"
  byName :: "Asset tab"

text \<open>\<^verbatim>\<open>if _, dup := m[k]; !dup { m[k] = a }\<close>\<close>

definition put_new :: "string \<Rightarrow> 'v \<Rightarrow> 'v tab \<Rightarrow> 'v tab" where
  "put_new k v m = (if k \<noteq> [] \<and> map_of m k = None then AList.update k v m else m)"

definition index_asset :: "(string \<Rightarrow> string) \<Rightarrow> Asset \<Rightarrow> inv_index \<Rightarrow> inv_index" where
  "index_asset uni a ix =
     \<lparr>bySerial = put_new (ToLower uni (TrimSpace (a_Serial a))) a (bySerial ix),
      byHostID = put_new (text_at (a_Tags a) ''inventory_host_id'') a (byHostID ix),
      byName = put_new (ToLower uni (TrimSpace (a_Name a))) a (byName ix)\<rparr>"

definition buildIndex :: "(string \<Rightarrow> string) \<Rightarrow> Asset list \<Rightarrow> inv_index" where
  "buildIndex uni as = fold (index_asset uni) as \<lparr>bySerial = [], byHostID = [], byName = []\<rparr>"

text \<open>A lookup under a key that may be blank.\<close>

definition find_key :: "'v tab \<Rightarrow> string \<Rightarrow> 'v option" where
  "find_key m k = (if k \<noteq> [] then map_of m k else None)"

definition ix_match :: "(string \<Rightarrow> string) \<Rightarrow> inv_index \<Rightarrow> Host \<Rightarrow> Asset option" where
  "ix_match uni ix h =
     (case find_key (byHostID ix) (ho_ID h) of
        Some a \<Rightarrow> Some a
      | None \<Rightarrow>
          (case find_key (bySerial ix) (ToLower uni (TrimSpace (ho_SystemSerial h))) of
             Some a \<Rightarrow> Some a
           | None \<Rightarrow> find_key (byName ix) (ToLower uni (TrimSpace (ho_Hostname h)))))"

definition change_if :: "bool \<Rightarrow> string \<Rightarrow> string \<Rightarrow> string \<Rightarrow> FieldChange tab" where
  "change_if b k old new = (if b then [(k, \<lparr>fc_Old = old, fc_New = new\<rparr>)] else [])"

definition diffOne :: "Asset \<Rightarrow> Desired \<Rightarrow> FieldChange tab" where
  "diffOne a d =
     change_if (a_Name a \<noteq> de_Name d) ''name'' (a_Name a) (de_Name d) @
     change_if (a_Serial a \<noteq> de_Serial d \<and> de_Serial d \<noteq> []) ''serial'' (a_Serial a) (de_Serial d) @
     change_if (a_ModelName a \<noteq> de_ModelName d \<and> de_ModelName d \<noteq> []) ''model_name'' (a_ModelName a) (de_ModelName d) @
     concat (map (\<lambda>(k, v). change_if (text_at (a_Tags a) k \<noteq> v) (''tags.'' @ k) (text_at (a_Tags a) k) v) (de_Tags d))"

text \<open>The body of the loop of \<^verbatim>\<open>Diff\<close> for one host, with the assets claimed so far.\<close>

definition diff_host :: "(string \<Rightarrow> string) \<Rightarrow> inv_index \<Rightarrow> string list \<Rightarrow> Host \<Rightarrow> Change \<times> string list" where
  "diff_host uni ix claimed h =
     (let d = desired h;
          c = \<lparr>ch_HostID = ho_ID h, ch_Hostname = ho_Hostname h, ch_Serial = de_Serial d, ch_Action = ActionCreate,
               ch_AssetID = [], ch_AssetTag = [], ch_Changes = [], ch_Reason = []\<rparr>
      in case ix_match uni ix h of
           None \<Rightarrow> (c, claimed)
         | Some a \<Rightarrow>
             if a_ID a \<in> set claimed then (c, claimed)
             else let chg = diffOne a d in
               (c\<lparr>ch_AssetID := a_ID a, ch_AssetTag := a_AssetTag a, ch_Changes := chg,
                  ch_Action := (if chg = [] then ActionUnchanged else ActionUpdate)\<rparr>, a_ID a # claimed))"

primrec diff_loop :: "(string \<Rightarrow> string) \<Rightarrow> inv_index \<Rightarrow> string list \<Rightarrow> Host list \<Rightarrow> Change list" where
  "diff_loop uni ix claimed [] = []"
| "diff_loop uni ix claimed (h # hs) =
     (let (c, claimed') = diff_host uni ix claimed h in c # diff_loop uni ix claimed' hs)"

definition Diff :: "(string \<Rightarrow> string) \<Rightarrow> Host list \<Rightarrow> Asset list \<Rightarrow> Change list" where
  "Diff uni hosts as = sort_key ch_Hostname (diff_loop uni (buildIndex uni as) [] hosts)"

definition applyDesired :: "Asset \<Rightarrow> Desired \<Rightarrow> Asset" where
  "applyDesired a d = a\<lparr>a_Name := de_Name d,
     a_Serial := (if de_Serial d \<noteq> [] then de_Serial d else a_Serial a),
     a_ModelName := (if de_ModelName d \<noteq> [] then de_ModelName d else a_ModelName a),
     a_Tags := fold (\<lambda>(k, v). AList.update k v) (de_Tags d) (a_Tags a)\<rparr>"

text \<open>\<^verbatim>\<open>byHost[id]\<close>: the zero host when the id is absent; of hosts with the same id the last one counts.\<close>

definition zero_host :: Host where
  "zero_host = \<lparr>ho_ID = [], ho_Hostname = [], ho_SystemSerial = [], ho_Manufacturer = [], ho_Model = [], ho_OSName = [],
     ho_OSVersion = [], ho_OSArch = [], ho_Status = [], ho_LastSeen = 0\<rparr>"

definition host_map :: "Host list \<Rightarrow> Host tab" where
  "host_map hosts = fold (\<lambda>h. AList.update (ho_ID h) h) hosts []"

definition host_at :: "Host tab \<Rightarrow> string \<Rightarrow> Host" where
  "host_at m i = (case map_of m i of None \<Rightarrow> zero_host | Some h \<Rightarrow> h)"

definition applyFilter :: "(string \<Rightarrow> string) \<Rightarrow> Change list \<Rightarrow> Host tab \<Rightarrow> InvSyncSettings \<Rightarrow> string tab \<Rightarrow> Change list" where
  "applyFilter uni changes byHost f roles =
     map (\<lambda>c. let h = host_at byHost (ch_HostID c); r = exclusion uni f h (text_at roles (ho_ID h))
              in if r \<noteq> [] then c\<lparr>ch_Action := ActionExcluded, ch_Reason := r, ch_Changes := []\<rparr> else c) changes"

section \<open>The service\<close>

record Preview =
  pv_Hosts :: int
  pv_Create :: int
  pv_Update :: int
  pv_Unchanged :: int
  pv_Excluded :: int
  pv_Changes :: "Change list"

text \<open>An entry of \<^verbatim>\<open>Errors\<close> is the hostname with the error, not yet joined to one text.\<close>

record Result =
  rs_Created :: int
  rs_Updated :: int
  rs_Skipped :: int
  rs_Excluded :: int
  rs_Errors :: "(string \<times> repo_err) list"
  rs_Changes :: "Change list"
  rs_Selected :: int

record Options =
  op_Create :: bool
  op_Update :: bool

definition load :: "InvsyncService \<Rightarrow> string \<Rightarrow> ('z world_scheme, svc_err, Host list \<times> Asset list) prog" where
  "load svc tenantID =
     (case is_inv svc of
        None \<Rightarrow> fail_with (Unavailable [])
      | Some cl \<Rightarrow>
          (case ListHosts cl tenantID of
             Inl e \<Rightarrow> fail_with (Unavailable e)
           | Inr hosts \<Rightarrow> try_as StoreErr (AllAssets tenantID) (\<lambda>as. ok (hosts, as))))"

definition tally_change :: "Change \<Rightarrow> Preview \<Rightarrow> Preview" where
  "tally_change c p =
     (if ch_Action c = ActionCreate then p\<lparr>pv_Create := pv_Create p + 1\<rparr>
      else if ch_Action c = ActionUpdate then p\<lparr>pv_Update := pv_Update p + 1\<rparr>
      else if ch_Action c = ActionExcluded then p\<lparr>pv_Excluded := pv_Excluded p + 1\<rparr>
      else p\<lparr>pv_Unchanged := pv_Unchanged p + 1\<rparr>)"

definition summarize :: "Change list \<Rightarrow> Preview" where
  "summarize changes = fold tally_change changes
     \<lparr>pv_Hosts = int (length changes), pv_Create = 0, pv_Update = 0, pv_Unchanged = 0, pv_Excluded = 0, pv_Changes = changes\<rparr>"

definition fetch_roles :: "InvClient \<Rightarrow> string \<Rightarrow> InvSyncSettings \<Rightarrow> svc_err + string tab" where
  "fetch_roles cl tenantID f =
     (if needsRoles f then (case HostRoles cl tenantID of Inl e \<Rightarrow> Inl (Unavailable e) | Inr roles \<Rightarrow> Inr roles) else Inr [])"

definition plan :: "InvsyncService \<Rightarrow> string \<Rightarrow> ('z world_scheme, svc_err, Change list \<times> Host tab) prog" where
  "plan svc tenantID =
     try_in (load svc tenantID) (\<lambda>(hosts, as).
     try_as StoreErr (GetInvSyncSettings tenantID) (\<lambda>(f, _).
     case fetch_roles (the (is_inv svc)) tenantID f of
       Inl e \<Rightarrow> fail_with e
     | Inr roles \<Rightarrow>
         let byHost = host_map hosts; uni = folding (is_rec svc)
         in ok (applyFilter uni (Diff uni hosts as) byHost f roles, byHost)))"

definition Sync_Preview :: "InvsyncService \<Rightarrow> Subjects \<Rightarrow> ('z world_scheme, svc_err, Preview) prog" where
  "Sync_Preview svc subj = in_tenant subj (
     try_in (plan svc (TenantID subj)) (\<lambda>(changes, _). do {
       let p = summarize changes;
       emit (is_rec svc) subj ''inventory_sync_previewed'' ''sync'' ''preview''
         [(''hosts'', AInt (pv_Hosts p)), (''create'', AInt (pv_Create p)), (''update'', AInt (pv_Update p)), (''excluded'', AInt (pv_Excluded p))];
       ok p
     }))"

text \<open>The attempts to insert a new asset, \<open>n\<close> of them after the first: a conflict draws another tag.\<close>

primrec create_attempts :: "nat \<Rightarrow> Asset \<Rightarrow> ('z mem_scheme, Asset \<times> (repo_err + unit)) state" where
  "create_attempts 0 a = do {
     tag \<leftarrow> AutoTag;
     r \<leftarrow> CreateAsset (a\<lparr>a_AssetTag := tag\<rparr>);
     State_Monad.return (a\<lparr>a_AssetTag := tag\<rparr>, r)
   }"
| "create_attempts (Suc n) a = do {
     tag \<leftarrow> AutoTag;
     r \<leftarrow> CreateAsset (a\<lparr>a_AssetTag := tag\<rparr>);
     if r = Inl RConflict then create_attempts n (a\<lparr>a_AssetTag := tag\<rparr>) else State_Monad.return (a\<lparr>a_AssetTag := tag\<rparr>, r)
   }"

definition log_error :: "Change \<Rightarrow> repo_err \<Rightarrow> Result \<Rightarrow> Result" where
  "log_error c e res = res\<lparr>rs_Errors := rs_Errors res @ [(ch_Hostname c, e)]\<rparr>"

definition log_change :: "Change \<Rightarrow> Result \<Rightarrow> Result" where
  "log_change c res = res\<lparr>rs_Changes := rs_Changes res @ [c]\<rparr>"

definition new_asset :: "Subjects \<Rightarrow> gotime \<Rightarrow> string \<Rightarrow> Asset" where
  "new_asset subj now i = zero_asset\<lparr>a_ID := i, a_TenantID := TenantID subj, a_Status := AssetDeployable, a_DepreciationRate := DefaultRate,
     a_CreatedBy := ActorID subj, a_UpdatedBy := ActorID subj, a_CreatedAt := now, a_UpdatedAt := now\<rparr>"

definition sync_create :: "Subjects \<Rightarrow> gotime \<Rightarrow> Desired \<Rightarrow> Change \<Rightarrow> Result \<Rightarrow> ('z world_scheme, Result) state" where
  "sync_create subj now d c res = do {
     i \<leftarrow> NewID;
     (a, r) \<leftarrow> create_attempts 4 (applyDesired (new_asset subj now i) d);
     State_Monad.return (case r of
        Inl e \<Rightarrow> log_error c e res
      | Inr _ \<Rightarrow> log_change (c\<lparr>ch_AssetID := a_ID a, ch_AssetTag := a_AssetTag a\<rparr>) (res\<lparr>rs_Created := rs_Created res + 1\<rparr>))
   }"

definition sync_update :: "Subjects \<Rightarrow> gotime \<Rightarrow> Desired \<Rightarrow> Change \<Rightarrow> Result \<Rightarrow> ('z world_scheme, Result) state" where
  "sync_update subj now d c res = do {
     r \<leftarrow> GetAsset (TenantID subj) (ch_AssetID c);
     (case r of
        Inl e \<Rightarrow> State_Monad.return (log_error c e res)
      | Inr a0 \<Rightarrow> do {
          u \<leftarrow> UpdateAsset ((applyDesired a0 d)\<lparr>a_UpdatedBy := ActorID subj, a_UpdatedAt := now\<rparr>);
          State_Monad.return (case u of
             Inl e \<Rightarrow> log_error c e res
           | Inr _ \<Rightarrow> log_change c (res\<lparr>rs_Updated := rs_Updated res + 1\<rparr>))
        })
   }"

text \<open>The body of the loop of \<^verbatim>\<open>run\<close> for one change.\<close>

definition sync_change :: "Subjects \<Rightarrow> gotime \<Rightarrow> Host tab \<Rightarrow> string list \<Rightarrow> Options \<Rightarrow> Change \<Rightarrow> Result \<Rightarrow> ('z world_scheme, Result) state" where
  "sync_change subj now byHost selected opts c res =
     (if selected \<noteq> [] \<and> ch_Hostname c \<notin> set selected then State_Monad.return res
      else if ch_Action c = ActionExcluded then State_Monad.return (log_change c (res\<lparr>rs_Excluded := rs_Excluded res + 1\<rparr>))
      else if (ch_Action c = ActionCreate \<and> \<not> op_Create opts) \<or> (ch_Action c = ActionUpdate \<and> \<not> op_Update opts)
        then State_Monad.return (res\<lparr>rs_Skipped := rs_Skipped res + 1\<rparr>)
      else let res = res\<lparr>rs_Selected := rs_Selected res + 1\<rparr>; d = desired (host_at byHost (ch_HostID c)) in
        if ch_Action c = ActionCreate then sync_create subj now d c res
        else if ch_Action c = ActionUpdate then sync_update subj now d c res
        else State_Monad.return (log_change c (res\<lparr>rs_Skipped := rs_Skipped res + 1\<rparr>)))"

primrec sync_loop :: "Subjects \<Rightarrow> gotime \<Rightarrow> Host tab \<Rightarrow> string list \<Rightarrow> Options \<Rightarrow> Change list \<Rightarrow> Result \<Rightarrow> ('z world_scheme, Result) state" where
  "sync_loop subj now byHost selected opts [] res = State_Monad.return res"
| "sync_loop subj now byHost selected opts (c # cs) res = do {
     res' \<leftarrow> sync_change subj now byHost selected opts c res;
     sync_loop subj now byHost selected opts cs res'
   }"

definition no_result :: Result where
  "no_result = \<lparr>rs_Created = 0, rs_Updated = 0, rs_Skipped = 0, rs_Excluded = 0, rs_Errors = [], rs_Changes = [], rs_Selected = 0\<rparr>"

definition emit_executed :: "InvsyncService \<Rightarrow> Subjects \<Rightarrow> Result \<Rightarrow> ('z world_scheme, unit) state" where
  "emit_executed svc subj res = emit (is_rec svc) subj ''inventory_sync_executed'' ''sync'' ''execute''
     [(''selected'', AInt (rs_Selected res)), (''created'', AInt (rs_Created res)), (''updated'', AInt (rs_Updated res)),
      (''excluded'', AInt (rs_Excluded res)), (''errors'', AInt (int (length (rs_Errors res))))]"

definition sync_run :: "InvsyncService \<Rightarrow> Subjects \<Rightarrow> string list \<Rightarrow> Options \<Rightarrow> ('z world_scheme, svc_err, Result) prog" where
  "sync_run svc subj hostnames opts = in_tenant subj (
     try_in (plan svc (TenantID subj)) (\<lambda>(changes, byHost). do {
       w \<leftarrow> State_Monad.get;
       res \<leftarrow> sync_loop subj (wall w) byHost hostnames opts changes no_result;
       emit_executed svc subj res;
       ok res
     }))"

definition Execute :: "InvsyncService \<Rightarrow> Subjects \<Rightarrow> string list \<Rightarrow> ('z world_scheme, svc_err, Result) prog" where
  "Execute svc subj hostnames = sync_run svc subj hostnames \<lparr>op_Create = True, op_Update = True\<rparr>"

definition RunScheduled :: "InvsyncService \<Rightarrow> string \<Rightarrow> Options \<Rightarrow> ('z world_scheme, svc_err, Result) prog" where
  "RunScheduled svc tenantID opts =
     sync_run svc \<lparr>TenantID = tenantID, UserID = ''scheduler'', Roles = [], ActorKind = ActorSystem\<rparr> [] opts"

end
