(* ===== verification/Invsync_Laws.thy ===== *)
theory Invsync_Laws
  imports Invsync "HOL-Library.Multiset"
begin

text \<open>
  What the inventory sync guarantees: saved filter patterns are bounded and well formed; the
  difference lists every host once and gives no asset to two hosts; a run writes only the fields
  the sync owns, of assets no filter excludes; and a failed run writes nothing.
\<close>

section \<open>Patterns\<close>

definition pattern_ok :: "string \<Rightarrow> bool" where
  "pattern_ok p \<longleftrightarrow> p \<noteq> [] \<and> length p \<le> MaxPatternLen \<and> rest_ok p"

lemma norm_loop_ok:
  assumes "norm_loop uni fld inp out = Inr out'" and "distinct out" and "list_all pattern_ok out"
  shows "distinct out' \<and> list_all pattern_ok out' \<and> set out' = set out \<union> ((\<lambda>q. ToLower uni (TrimSpace q)) ` set inp - {[]})"
  using assms
proof (induction inp arbitrary: out)
  case (Cons p0 ps)
  let ?p = "ToLower uni (TrimSpace p0)"
  show ?case
  proof (cases "?p = [] \<or> ?p \<in> set out")
    case True
    then have "norm_loop uni fld ps out = Inr out'" using Cons.prems(1) by (simp add: Let_def)
    from Cons.IH [OF this Cons.prems(2,3)] True show ?thesis by auto
  next
    case False
    then have ok: "\<not> MaxPatternLen < length ?p" "path_Match ?p [] \<noteq> ErrBadPattern" "norm_loop uni fld ps (out @ [?p]) = Inr out'"
      using Cons.prems(1) by (auto simp: Let_def split: if_splits)
    then have "pattern_ok ?p" using path_Match_form [of ?p "[]"] False by (simp add: pattern_ok_def)
    then have "distinct out' \<and> list_all pattern_ok out' \<and> set out' = set (out @ [?p]) \<union> ((\<lambda>q. ToLower uni (TrimSpace q)) ` set ps - {[]})"
      using Cons.prems(2,3) False by (intro Cons.IH [OF ok(3)]) simp_all
    then show ?thesis using False by auto
  qed
qed simp

text \<open>
  C35: what \<^verbatim>\<open>SaveSettings\<close> stores as patterns: at most 50, all distinct, none blank or
  longer than 200 bytes, exactly the lower-cased and trimmed entries of the input that are not
  blank; and no value can make matching one of them fail as malformed, which the filter would
  silently take for no match.
\<close>

theorem patterns_sound:
  assumes "normalizePatterns uni fld inp = Inr out"
  shows "length out \<le> MaxPatterns \<and> distinct out \<and> set out = (\<lambda>q. ToLower uni (TrimSpace q)) ` set inp - {[]} \<and>
    (\<forall>p \<in> set out. length p \<le> MaxPatternLen \<and> (\<forall>v. path_Match p v \<noteq> ErrBadPattern))"
proof -
  have "norm_loop uni fld inp [] = Inr out" "length out \<le> MaxPatterns"
    using assms by (auto simp: normalizePatterns_def split: sum.splits if_splits)
  with norm_loop_ok [OF this(1)] path_Match_form show ?thesis by (auto simp: pattern_ok_def list_all_iff)
qed

theorem patterns_sound_witness:
  "let out = [''*.lab.*'', ''db?''] in
   normalizePatterns (\<lambda>s. s) ''hostname_include'' [''*.LAB.*'', ''  '', ''db?'', ''*.lab.*''] = Inr out \<and>
   length out \<le> MaxPatterns \<and> distinct out \<and>
   set out = (\<lambda>q. ToLower (\<lambda>s. s) (TrimSpace q)) ` set [''*.LAB.*'', ''  '', ''db?'', ''*.lab.*''] - {[]} \<and>
   list_all (\<lambda>p. length p \<le> MaxPatternLen \<and> (\<forall>v. path_Match p v \<noteq> ErrBadPattern)) out"
proof -
  have "normalizePatterns (\<lambda>s. s) ''hostname_include'' [''*.LAB.*'', ''  '', ''db?'', ''*.lab.*''] = Inr [''*.lab.*'', ''db?'']"
    by code_simp
  with patterns_sound [OF this] show ?thesis unfolding Let_def list_all_iff by blast
qed

section \<open>The difference\<close>

definition host_key :: "Host \<Rightarrow> string \<times> string" where
  "host_key h = (ho_ID h, ho_Hostname h)"

definition change_key :: "Change \<Rightarrow> string \<times> string" where
  "change_key c = (ch_HostID c, ch_Hostname c)"

definition matched :: "Change \<Rightarrow> bool" where
  "matched c \<longleftrightarrow> ch_Action c \<noteq> ActionCreate"

lemma diff_host_key: "change_key (fst (diff_host uni ix cl h)) = host_key h"
  by (simp add: diff_host_def Let_def change_key_def host_key_def split: option.split)

lemma diff_loop_keys: "map change_key (diff_loop uni ix cl hs) = map host_key hs"
  by (induction hs arbitrary: cl) (auto simp: case_prod_beta diff_host_key)

text \<open>The index only holds assets it was built from.\<close>

lemma put_new_vals: "set (vals (put_new k v m)) \<subseteq> insert v (set (vals m))"
  using set_vals_update [of k v m] by (auto simp: put_new_def)

lemma buildIndex_vals:
  "set (vals (bySerial (buildIndex uni as))) \<union> set (vals (byHostID (buildIndex uni as))) \<union> set (vals (byName (buildIndex uni as))) \<subseteq> set as"
proof -
  have "set (vals (bySerial (fold (index_asset uni) as ix))) \<subseteq> set (vals (bySerial ix)) \<union> set as \<and>
      set (vals (byHostID (fold (index_asset uni) as ix))) \<subseteq> set (vals (byHostID ix)) \<union> set as \<and>
      set (vals (byName (fold (index_asset uni) as ix))) \<subseteq> set (vals (byName ix)) \<union> set as" for ix
  proof (induction as arbitrary: ix)
    case (Cons a as)
    let ?ix = "index_asset uni a ix"
    have "set (vals (bySerial ?ix)) \<subseteq> insert a (set (vals (bySerial ix)))" "set (vals (byHostID ?ix)) \<subseteq> insert a (set (vals (byHostID ix)))"
        "set (vals (byName ?ix)) \<subseteq> insert a (set (vals (byName ix)))"
      unfolding index_asset_def inv_index.simps by (rule put_new_vals)+
    then show ?case using Cons [of ?ix] by (simp del: set_map) blast
  qed simp
  from this [of "\<lparr>bySerial = [], byHostID = [], byName = []\<rparr>"] show ?thesis by (simp add: buildIndex_def)
qed

lemma ix_match_asset: "ix_match uni (buildIndex uni as) h = Some a \<Longrightarrow> a \<in> set as"
  using buildIndex_vals [of uni as]
  by (auto simp: ix_match_def find_key_def split: option.splits if_splits dest!: vals_lookup simp del: set_map)

definition diff_sound :: "Host list \<Rightarrow> Asset list \<Rightarrow> Change \<Rightarrow> bool" where
  "diff_sound hosts as c \<longleftrightarrow> (\<exists>h \<in> set hosts. change_key c = host_key h \<and>
     (ch_Action c = ActionCreate \<and> ch_AssetID c = [] \<or>
      (\<exists>a \<in> set as. ch_AssetID c = a_ID a \<and> ch_AssetTag c = a_AssetTag a \<and> ch_Changes c = diffOne a (desired h) \<and>
         ch_Action c = (if diffOne a (desired h) = [] then ActionUnchanged else ActionUpdate))))"

lemma diff_loop_sound:
  assumes "\<And>h a. ix_match uni ix h = Some a \<Longrightarrow> a \<in> set as"
  shows "\<forall>c \<in> set (diff_loop uni ix cl hs). diff_sound hs as c"
proof (induction hs arbitrary: cl)
  case (Cons h hs)
  have weaken: "diff_sound hs as c \<Longrightarrow> diff_sound (h # hs) as c" for c by (auto simp: diff_sound_def)
  have "diff_sound (h # hs) as (fst (diff_host uni ix cl h))"
    using assms [of h] by (auto simp: diff_sound_def diff_host_def Let_def change_key_def host_key_def split: option.split)
  then show ?case using Cons weaken by (auto simp: case_prod_beta)
qed simp

lemma diff_loop_distinct:
  "distinct (map ch_AssetID (filter matched (diff_loop uni ix cl hs))) \<and>
   set (map ch_AssetID (filter matched (diff_loop uni ix cl hs))) \<inter> set cl = {}"
proof (induction hs arbitrary: cl)
  case (Cons h hs)
  obtain c cl' where d: "diff_host uni ix cl h = (c, cl')" by force
  have "\<not> matched c \<and> cl' = cl \<or> matched c \<and> cl' = ch_AssetID c # cl \<and> ch_AssetID c \<notin> set cl"
    using d by (auto simp: diff_host_def Let_def matched_def split: option.splits if_splits)
  then show ?case using Cons [of cl'] d by auto
qed simp

lemma Diff_distinct: "distinct (map ch_AssetID (filter matched (Diff uni hosts as)))"
proof -
  let ?l = "diff_loop uni (buildIndex uni as) [] hosts"
  have "mset (map ch_AssetID (filter matched (Diff uni hosts as))) = mset (map ch_AssetID (filter matched ?l))"
    by (simp add: Diff_def)
  then show ?thesis
    using diff_loop_distinct [of uni "buildIndex uni as" "[]" hosts] mset_eq_imp_distinct_iff by blast
qed

lemma diff_sound_action:
  assumes "diff_sound hosts as c"
  shows "(ch_Action c = ActionCreate \<longrightarrow> ch_AssetID c = []) \<and> ch_Action c \<noteq> ActionExcluded"
  using assms by (auto simp: diff_sound_def split: if_splits)

lemma Diff_sound: "\<forall>c \<in> set (Diff uni hosts as). diff_sound hosts as c"
  using diff_loop_sound [of uni "buildIndex uni as" as "[]" hosts] ix_match_asset by (simp add: Diff_def)


section \<open>What the sync writes on an asset\<close>

text \<open>\<open>sync_owned a a'\<close>: the rows differ at most in the fields the sync owns and in those the store computes.\<close>

definition sync_owned :: "Asset \<Rightarrow> Asset \<Rightarrow> bool" where
  "sync_owned a a' \<longleftrightarrow> a'\<lparr>a_Name := a_Name a, a_Serial := a_Serial a, a_ModelName := a_ModelName a, a_Tags := a_Tags a,
     a_UpdatedBy := a_UpdatedBy a, a_UpdatedAt := a_UpdatedAt a, a_BookValue := a_BookValue a,
     a_DepreciationRate := a_DepreciationRate a\<rparr> = a \<and>
     (a_DepreciationRate a \<noteq> 0 \<longrightarrow> a_DepreciationRate a' = a_DepreciationRate a) \<and>
     (\<forall>k. map_of (a_Tags a) k \<noteq> None \<longrightarrow> map_of (a_Tags a') k \<noteq> None)"

lemma sync_owned_refl: "sync_owned a a"
  by (simp add: sync_owned_def)

lemma sync_owned_trans: "sync_owned a b \<Longrightarrow> sync_owned b c \<Longrightarrow> sync_owned a c"
  by (cases a; cases b; cases c) (auto simp: sync_owned_def)

lemma map_of_fold_update:
  "map_of (fold (\<lambda>(k, v). AList.update k v) kvs m) k = (case map_of (rev kvs) k of None \<Rightarrow> map_of m k | Some v \<Rightarrow> Some v)"
  by (induction kvs arbitrary: m) (auto simp: update_conv' map_add_def split: option.splits)

lemma desired_tags_distinct: "distinct (map fst (de_Tags (desired h)))"
  by (simp add: desired_def Let_def tag_if_def)

lemma text_at_applied:
  assumes "(k, v) \<in> set (de_Tags (desired h))"
  shows "text_at (a_Tags (applyDesired a (desired h))) k = v"
proof -
  have "map_of (rev (de_Tags (desired h))) k = Some v"
    using assms desired_tags_distinct [of h] by (intro map_of_is_SomeI) (simp_all add: rev_map [symmetric])
  then show ?thesis by (simp add: applyDesired_def text_at_def map_of_fold_update)
qed

text \<open>
  C32: applying the projection of a host settles it: afterwards the asset shows no difference to the
  host, so the next run leaves it alone; applying it again changes nothing that the
  difference looks at; and only the fields the sync owns were written, tags of others included
  among what is kept.
\<close>

theorem sync_settles:
  "diffOne (applyDesired a (desired h)) (desired h) = [] \<and> sync_owned a (applyDesired a (desired h)) \<and>
   (ho_ID h \<noteq> [] \<longrightarrow> text_at (a_Tags (applyDesired a (desired h))) ''inventory_host_id'' = ho_ID h) \<and>
   (\<forall>k. k \<notin> set (map fst (de_Tags (desired h))) \<longrightarrow> map_of (a_Tags (applyDesired a (desired h))) k = map_of (a_Tags a) k)"
proof -
  have "concat (map (\<lambda>(k, v). change_if (text_at (a_Tags (applyDesired a (desired h))) k \<noteq> v) (''tags.'' @ k)
      (text_at (a_Tags (applyDesired a (desired h))) k) v) (de_Tags (desired h))) = []"
    using text_at_applied [of _ _ h a] by (auto simp: change_if_def)
  then have 1: "diffOne (applyDesired a (desired h)) (desired h) = []"
    by (simp add: diffOne_def change_if_def applyDesired_def)
  have 2: "sync_owned a (applyDesired a (desired h))"
    by (cases a) (auto simp: sync_owned_def applyDesired_def map_of_fold_update split: option.split)
  have 3: "text_at (a_Tags (applyDesired a (desired h))) ''inventory_host_id'' = ho_ID h" if "ho_ID h \<noteq> []"
    by (rule text_at_applied) (use that in \<open>simp add: desired_def Let_def tag_if_def\<close>)
  have 4: "map_of (a_Tags (applyDesired a (desired h))) k = map_of (a_Tags a) k" if "k \<notin> set (map fst (de_Tags (desired h)))" for k
  proof -
    have "map_of (rev (de_Tags (desired h))) k = None" using that by (simp add: map_of_eq_None_iff rev_map [symmetric])
    then show ?thesis by (simp add: applyDesired_def map_of_fold_update)
  qed
  show ?thesis using 1 2 3 4 by blast
qed

theorem sync_settles_witness:
  "let h = zero_host\<lparr>ho_ID := ''h1'', ho_Hostname := ''web''\<rparr>; a = zero_asset\<lparr>a_Name := ''old'', a_Tags := [(''owner'', ''ops'')]\<rparr> in
   diffOne (applyDesired a (desired h)) (desired h) = [] \<and> sync_owned a (applyDesired a (desired h)) \<and>
   text_at (a_Tags (applyDesired a (desired h))) ''inventory_host_id'' = ''h1'' \<and>
   map_of (a_Tags (applyDesired a (desired h))) ''owner'' = Some ''ops''"
proof -
  let ?h = "zero_host\<lparr>ho_ID := ''h1'', ho_Hostname := ''web''\<rparr>" and ?a = "zero_asset\<lparr>a_Name := ''old'', a_Tags := [(''owner'', ''ops'')]\<rparr>"
  have "ho_ID ?h = ''h1''" "''owner'' \<notin> set (map fst (de_Tags (desired ?h)))" "map_of (a_Tags ?a) ''owner'' = Some ''ops''" by code_simp+
  with sync_settles [of ?a ?h] show ?thesis unfolding Let_def by (metis list.distinct(1))
qed

section \<open>A run\<close>

text \<open>
  \<open>sync_rows U t m m'\<close>: no row disappears; a row that changed is one of tenant \<open>t\<close> whose id is in \<open>U\<close>, and
  changed only in what the sync owns; a new row is a deployable, unassigned asset of \<open>t\<close>.
\<close>

definition sync_rows :: "string set \<Rightarrow> string \<Rightarrow> Asset tab \<Rightarrow> Asset tab \<Rightarrow> bool" where
  "sync_rows U t m m' \<longleftrightarrow>
     (\<forall>i a. map_of m i = Some a \<longrightarrow> (\<exists>a'. map_of m' i = Some a' \<and> sync_owned a a' \<and> (a' = a \<or> i \<in> U \<and> a_TenantID a = t))) \<and>
     (\<forall>i a'. map_of m i = None \<longrightarrow> map_of m' i = Some a' \<longrightarrow> a_TenantID a' = t \<and> a_Status a' = AssetDeployable \<and> a_UserID a' = [])"

lemma sync_owned_frame: "sync_owned a a' \<Longrightarrow> a_TenantID a' = a_TenantID a \<and> a_Status a' = a_Status a \<and> a_UserID a' = a_UserID a \<and> a_ID a' = a_ID a"
  by (cases a; cases a') (auto simp: sync_owned_def)

lemma sync_rows_refl: "sync_rows U t m m"
  by (auto simp: sync_rows_def sync_owned_refl)

lemma sync_rows_trans:
  assumes "sync_rows U t m1 m2" and "sync_rows U t m2 m3"
  shows "sync_rows U t m1 m3"
proof -
  have "\<exists>c. map_of m3 i = Some c \<and> sync_owned a c \<and> (c = a \<or> i \<in> U \<and> a_TenantID a = t)" if "map_of m1 i = Some a" for i a
  proof -
    obtain b where b: "map_of m2 i = Some b" "sync_owned a b" "b = a \<or> i \<in> U \<and> a_TenantID a = t"
      using assms(1) \<open>map_of m1 i = Some a\<close> unfolding sync_rows_def by blast
    obtain c where "map_of m3 i = Some c" "sync_owned b c" "c = b \<or> i \<in> U \<and> a_TenantID b = t"
      using assms(2) b(1) unfolding sync_rows_def by blast
    then show ?thesis using b sync_owned_trans sync_owned_frame [OF b(2)] by auto
  qed
  moreover have "a_TenantID c = t \<and> a_Status c = AssetDeployable \<and> a_UserID c = []" if "map_of m1 i = None" "map_of m3 i = Some c" for i c
  proof (cases "map_of m2 i")
    case None
    then show ?thesis using that assms(2) unfolding sync_rows_def by blast
  next
    case (Some b)
    then have "a_TenantID b = t \<and> a_Status b = AssetDeployable \<and> a_UserID b = []" using that assms(1) unfolding sync_rows_def by blast
    moreover have "sync_owned b c" using Some that assms(2) unfolding sync_rows_def by force
    ultimately show ?thesis using sync_owned_frame [of b c] by simp
  qed
  ultimately show ?thesis unfolding sync_rows_def by blast
qed

definition synced :: "string set \<Rightarrow> string \<Rightarrow> 'z world_scheme \<Rightarrow> 'z world_scheme \<Rightarrow> bool" where
  "synced U t w w' \<longleftrightarrow> core (w'\<lparr>assets := []\<rparr>) = core (w\<lparr>assets := []\<rparr>) \<and>
     (tab_ok a_ID (assets w) \<longrightarrow> tab_ok a_ID (assets w') \<and> sync_rows U t (assets w) (assets w'))"

interpretation sy: io_relation "synced U t" for U t
proof
  show "synced U t w w" for w :: "'a world_scheme" by (simp add: synced_def sync_rows_refl)
  show "synced U t w1 w2 \<Longrightarrow> synced U t w2 w3 \<Longrightarrow> synced U t w1 w3" for w1 w2 w3 :: "'a world_scheme"
    by (auto simp: synced_def intro: sync_rows_trans)
qed

lemma synced_core: "core w' = core w \<Longrightarrow> synced U t w (w' :: 'z world_scheme)"
  using core_tables(1) [of w' w] by (auto simp: synced_def sync_rows_refl core_def)

lemma synced_quiet: "quiet m \<Longrightarrow> state_io_rel (synced U t) m"
  by (auto simp: quiet_def state_io_rel_def intro: synced_core)

lemma synced_same: "same w w' \<Longrightarrow> synced U t w (w' :: 'z world_scheme)"
  by (simp add: synced_core same_def)

lemma synced_CreateAsset:
  assumes "a_TenantID a = t" "a_Status a = AssetDeployable" "a_UserID a = []" "a_ID a \<noteq> []" "a_AssetTag a \<noteq> []"
  shows "state_io_rel (synced U t) (CreateAsset a :: ('z world_scheme, _, _) prog)"
proof -
  have "synced U t w w'" if run: "run_state (CreateAsset a) w = (r, w')" for w w' :: "'z world_scheme" and r
    using run assms(4,5)
  proof (cases rule: CreateAsset_outcome)
    case (failed e)
    then show ?thesis by (simp add: synced_same)
  next
    case created
    have "tab_ok a_ID (assets w')" if "tab_ok a_ID (assets w)"
      using that created by (simp add: tab_ok_update asset_saved_def)
    moreover have "sync_rows U t (assets w) (assets w')"
      using created assms(1-3) by (auto simp: sync_rows_def update_conv' asset_saved_def default_text_def sync_owned_refl)
    ultimately show ?thesis using created by (simp add: synced_def core_def)
  qed
  then show ?thesis by (auto simp: state_io_rel_def split: prod.splits) (metis prod.collapse)
qed

lemma synced_attempts:
  assumes "a_TenantID a = t" "a_Status a = AssetDeployable" "a_UserID a = []" "a_ID a \<noteq> []"
  shows "state_io_rel (synced U t) (create_attempts n a :: ('z world_scheme, _) state)"
  using assms
proof (induction n arbitrary: a)
  case 0
  show ?case unfolding create_attempts.simps
    by (rule sy.io_bind_val [OF synced_quiet [OF quiet_AutoTag]])
      (use 0 in \<open>auto intro!: sy.io_rules synced_CreateAsset dest: AutoTag_nonempty\<close>)
next
  case (Suc n)
  show ?case unfolding create_attempts.simps
    by (rule sy.io_bind_val [OF synced_quiet [OF quiet_AutoTag]])
      (use Suc in \<open>auto intro!: sy.io_rules synced_CreateAsset dest: AutoTag_nonempty\<close>)
qed

lemma synced_create: "state_io_rel (synced U (TenantID subj)) (sync_create subj now d c res :: ('z world_scheme, _) state)"
proof -
  have "state_io_rel (synced U (TenantID subj)) (create_attempts 4 (applyDesired (new_asset subj now i) d) :: ('z world_scheme, _) state)"
    if "i \<noteq> []" for i
    by (rule synced_attempts) (use that in \<open>simp_all add: applyDesired_def new_asset_def zero_asset_def\<close>)
  then show ?thesis
    unfolding sync_create_def
    by (intro sy.io_bind_val [OF synced_quiet [OF quiet_NewID]]) (auto simp: case_prod_beta intro!: sy.io_rules)
qed

lemma sync_owned_stored:
  assumes "sync_owned a b"
  shows "sync_owned a (asset_kept (b\<lparr>a_UpdatedBy := u, a_UpdatedAt := n\<rparr>) a now)"
  using assms by (cases a; cases b) (auto simp: sync_owned_def asset_kept_def default_text_def)

lemma sync_owned_fill: "sync_owned a (applyDesired (fillAsset now a) d)"
  by (cases a) (auto simp: sync_owned_def applyDesired_def fillAsset_def map_of_fold_update split: option.split)

lemma synced_update:
  assumes "ch_AssetID c \<in> U"
  shows "state_io_rel (synced U (TenantID subj)) (sync_update subj now d c res :: ('z world_scheme, _) state)"
proof -
  have "synced U (TenantID subj) w w'" if run: "run_state (sync_update subj now d c res) w = (r, w')" for w w' :: "'z world_scheme" and r
  proof -
    obtain x w1 where g: "run_state (GetAsset (TenantID subj) (ch_AssetID c)) w = (x, w1)" by force
    from g show ?thesis
    proof (cases rule: GetAsset_outcome)
      case (failed e)
      then show ?thesis using run g by (simp add: sync_update_def synced_same)
    next
      case (found a)
      let ?b = "(applyDesired (fillAsset (wall w) a) d)\<lparr>a_UpdatedBy := ActorID subj, a_UpdatedAt := now\<rparr>"
      obtain y where u: "run_state (UpdateAsset ?b) w = (y, w')" using run g found by (auto simp: sync_update_def split: prod.splits)
      from u show ?thesis
      proof (cases rule: UpdateAsset_outcome)
        case (failed e)
        then show ?thesis by (simp add: synced_same)
      next
        case (updated ex)
        have "tab_ok a_ID (assets w') \<and> sync_rows U (TenantID subj) (assets w) (assets w')" if ok: "tab_ok a_ID (assets w)"
        proof -
          have i: "a_ID ?b = ch_AssetID c" using tab_ok_lookup [OF ok found(3)] by (simp add: applyDesired_def fillAsset_def)
          then have ex: "ex = a" using updated(2) found(3) by simp
          have "sync_owned a (asset_kept ?b a (wall w))" by (rule sync_owned_stored [OF sync_owned_fill])
          then have "sync_rows U (TenantID subj) (assets w) (assets w')"
            using updated(4) i ex found(3,4) assms by (auto simp: sync_rows_def update_conv' sync_owned_refl)
          moreover have "tab_ok a_ID (AList.update (a_ID ?b) (asset_kept ?b ex (wall w)) (assets w))"
            by (rule tab_ok_update [OF ok]) (simp add: asset_kept_def)
          ultimately show ?thesis using updated(4) by simp
        qed
        then show ?thesis using updated(4) by (simp add: synced_def core_def)
      qed
    qed
  qed
  then show ?thesis by (auto simp: state_io_rel_def split: prod.splits) (metis prod.collapse)
qed

definition updatable :: "string list \<Rightarrow> Change list \<Rightarrow> string set" where
  "updatable selected changes =
     {ch_AssetID c |c. c \<in> set changes \<and> ch_Action c = ActionUpdate \<and> (selected = [] \<or> ch_Hostname c \<in> set selected)}"

lemma synced_change:
  assumes "ch_Action c = ActionUpdate \<Longrightarrow> selected = [] \<or> ch_Hostname c \<in> set selected \<Longrightarrow> ch_AssetID c \<in> U"
  shows "state_io_rel (synced U (TenantID subj)) (sync_change subj now byHost selected opts c res)"
  unfolding sync_change_def Let_def using assms
  by (intro sy.io_if sy.io_return synced_create synced_update) auto

lemma synced_loop:
  assumes "\<forall>c \<in> set cs. ch_Action c = ActionUpdate \<longrightarrow> selected = [] \<or> ch_Hostname c \<in> set selected \<longrightarrow> ch_AssetID c \<in> U"
  shows "state_io_rel (synced U (TenantID subj)) (sync_loop subj now byHost selected opts cs res)"
  using assms
proof (induction cs arbitrary: res)
  case Nil
  show ?case unfolding sync_loop.simps by (rule sy.io_return)
next
  case (Cons c cs)
  show ?case unfolding sync_loop.simps
    by (rule sy.io_bind, rule synced_change) (use Cons in auto)
qed

lemma quiet_plan: "quiet (plan svc t)"
  unfolding plan_def load_def try_in_def Let_def case_prod_beta
  by (intro quiet_try_as quiet_reads quiet_ok)
    (auto split: option.split sum.split intro!: quiet_rules)

text \<open>What a run that gets past its plan does.\<close>

lemma sync_run_parts:
  assumes "run_state (sync_run svc subj hostnames opts) w = (Inr res, w')"
  obtains changes byHost w1 w2 where "run_state (plan svc (TenantID subj)) w = (Inr (changes, byHost), w1)"
    "run_state (sync_loop subj (wall w1) byHost hostnames opts changes no_result) w1 = (res, w2)" "core w' = core w2"
proof -
  have "RequireTenant subj (TenantID subj) = Inr ()"
    using assms by (cases "RequireTenant subj (TenantID subj)") (simp_all add: sync_run_def in_tenant_def)
  then have "run_state (try_in (plan svc (TenantID subj)) (\<lambda>(changes, byHost). do {
       w \<leftarrow> State_Monad.get;
       res \<leftarrow> sync_loop subj (wall w) byHost hostnames opts changes no_result;
       emit_executed svc subj res;
       ok res
     })) w = (Inr res, w')"
    using assms by (simp add: sync_run_def in_tenant_def)
  then show thesis
  proof (rule try_in_Inr)
    fix x w1
    assume x: "run_state (plan svc (TenantID subj)) w = (Inr x, w1)"
      and rest: "run_state (case x of (changes, byHost) \<Rightarrow> do {
       w \<leftarrow> State_Monad.get;
       res \<leftarrow> sync_loop subj (wall w) byHost hostnames opts changes no_result;
       emit_executed svc subj res;
       ok res
     }) w1 = (Inr res, w')"
    obtain changes byHost where xp: "x = (changes, byHost)" by force
    obtain r w2 where l: "run_state (sync_loop subj (wall w1) byHost hostnames opts changes no_result) w1 = (r, w2)" by force
    have "r = res" and w': "w' = snd (run_state (emit_executed svc subj r) w2)"
      using rest l xp by (auto split: prod.splits)
    have "quiet (emit_executed svc subj r)" unfolding emit_executed_def by (rule quiet_emit)
    then have "core w' = core w2" unfolding w' quiet_def by blast
    with that [OF x [unfolded xp]] l \<open>r = res\<close> show thesis by blast
  qed
qed

text \<open>Every selected change ends up in exactly one of the counters.\<close>

definition counted_in :: "Result \<Rightarrow> int" where
  "counted_in res = rs_Created res + rs_Updated res + rs_Skipped res + rs_Excluded res + int (length (rs_Errors res))"

definition chosen :: "string list \<Rightarrow> Change \<Rightarrow> bool" where
  "chosen selected c \<longleftrightarrow> selected = [] \<or> ch_Hostname c \<in> set selected"

lemma counted_log [simp]: "counted_in (log_change c res) = counted_in res" "counted_in (log_error c e res) = counted_in res + 1"
  by (simp_all add: counted_in_def log_change_def log_error_def)

lemma counted_more [simp]:
  "counted_in (res\<lparr>rs_Created := n + 1\<rparr>) = counted_in (res\<lparr>rs_Created := n\<rparr>) + 1"
  "counted_in (res\<lparr>rs_Updated := n + 1\<rparr>) = counted_in (res\<lparr>rs_Updated := n\<rparr>) + 1"
  "counted_in (res\<lparr>rs_Skipped := n + 1\<rparr>) = counted_in (res\<lparr>rs_Skipped := n\<rparr>) + 1"
  "counted_in (res\<lparr>rs_Excluded := n + 1\<rparr>) = counted_in (res\<lparr>rs_Excluded := n\<rparr>) + 1"
  "counted_in (res\<lparr>rs_Selected := n\<rparr>) = counted_in res"
  by (simp_all add: counted_in_def)

lemma sync_create_counts: "counted_in (fst (run_state (sync_create subj now d c res) w)) = counted_in res + 1"
  by (simp add: sync_create_def case_prod_beta split: sum.split)

lemma sync_update_counts: "counted_in (fst (run_state (sync_update subj now d c res) w)) = counted_in res + 1"
  by (auto simp: sync_update_def split: prod.split sum.split)

lemma sync_change_counts:
  "counted_in (fst (run_state (sync_change subj now byHost selected opts c res) w)) = counted_in res + (if chosen selected c then 1 else 0)"
  by (simp add: sync_change_def Let_def chosen_def sync_create_counts sync_update_counts)

lemma sync_loop_counts:
  "counted_in (fst (run_state (sync_loop subj now byHost selected opts cs res) w)) =
     counted_in res + int (length (filter (chosen selected) cs))"
proof (induction cs arbitrary: res w)
  case (Cons c cs)
  obtain r1 w1 where c: "run_state (sync_change subj now byHost selected opts c res) w = (r1, w1)" by force
  have "counted_in r1 = counted_in res + (if chosen selected c then 1 else 0)"
    using sync_change_counts [of subj now byHost selected opts c res w] c by simp
  then show ?case using Cons [of r1 w1] c by simp
qed simp

text \<open>The assets of excluded hosts are not among those a run may update.\<close>

lemma filtered_distinct:
  assumes "distinct (map ch_AssetID (filter matched cs))" and "\<forall>c \<in> set cs. ch_Action c = ActionCreate \<longrightarrow> ch_AssetID c = []"
    and "\<forall>c \<in> set cs. ch_Action c \<noteq> ActionExcluded"
    and "c \<in> set (applyFilter uni cs byHost f roles)" "ch_Action c = ActionExcluded" "ch_AssetID c \<noteq> []"
  shows "ch_AssetID c \<notin> updatable sel (applyFilter uni cs byHost f roles)"
proof
  assume "ch_AssetID c \<in> updatable sel (applyFilter uni cs byHost f roles)"
  then obtain e where e: "e \<in> set (applyFilter uni cs byHost f roles)" "ch_Action e = ActionUpdate" "ch_AssetID e = ch_AssetID c"
    by (auto simp: updatable_def)
  have same: "\<exists>c0 \<in> set cs. ch_AssetID c0 = ch_AssetID c' \<and> (ch_Action c' \<noteq> ActionExcluded \<longrightarrow> c' = c0) \<and>
      (ch_Action c' = ActionExcluded \<longrightarrow> c' \<noteq> c0 \<and> exclusion uni f (host_at byHost (ch_HostID c0)) (text_at roles (ho_ID (host_at byHost (ch_HostID c0)))) \<noteq> []) \<and>
      (ch_Action c' \<noteq> ActionExcluded \<longrightarrow> exclusion uni f (host_at byHost (ch_HostID c0)) (text_at roles (ho_ID (host_at byHost (ch_HostID c0)))) = [])"
    if "c' \<in> set (applyFilter uni cs byHost f roles)" for c'
    using that assms(3) by (fastforce simp: applyFilter_def Let_def split: if_splits)
  obtain c0 where c0: "c0 \<in> set cs" "ch_AssetID c0 = ch_AssetID c"
      "exclusion uni f (host_at byHost (ch_HostID c0)) (text_at roles (ho_ID (host_at byHost (ch_HostID c0)))) \<noteq> []"
    using same [OF assms(4)] assms(5) by blast
  obtain e0 where e0: "e0 \<in> set cs" "ch_AssetID e0 = ch_AssetID c"
      "exclusion uni f (host_at byHost (ch_HostID e0)) (text_at roles (ho_ID (host_at byHost (ch_HostID e0)))) = []"
    using same [OF e(1)] e(2,3) by auto
  have "matched c0" "matched e0" using c0 e0 assms(2,6) by (auto simp: matched_def)
  then have "c0 = e0"
    using assms(1) c0(1,2) e0(1,2) by (simp add: distinct_map inj_on_def)
  then show False using c0(3) e0(3) by simp
qed

lemma plan_changes:
  assumes "run_state (plan svc t) w = (Inr (changes, byHost), w1)"
  obtains hosts as f roles where "changes = applyFilter (folding (is_rec svc)) (Diff (folding (is_rec svc)) hosts as) byHost f roles"
  using assms
  by (auto simp: plan_def run_try_in run_try_as Let_def split: prod.splits sum.splits)

lemma plan_excluded:
  assumes "run_state (plan svc t) w = (Inr (changes, byHost), w1)" and "c \<in> set changes" "ch_Action c = ActionExcluded" "ch_AssetID c \<noteq> []"
  shows "ch_AssetID c \<notin> updatable sel changes"
proof -
  obtain hosts as f roles where ch: "changes = applyFilter (folding (is_rec svc)) (Diff (folding (is_rec svc)) hosts as) byHost f roles"
    by (rule plan_changes [OF assms(1)])
  show ?thesis
    unfolding ch using Diff_distinct [of "folding (is_rec svc)" hosts as] Diff_sound [of "folding (is_rec svc)" hosts as] assms(2-4) [unfolded ch]
    by (intro filtered_distinct ballI) (auto dest: diff_sound_action)
qed

text \<open>
  C30: what a sync run may do to the store: it changes no table but the assets; no asset disappears;
  an asset that changed is one of the tenant that the plan marked for update for a selected host, and
  it changed only in the fields the sync owns (so status, assignee, location, category and cost are
  as before); a new asset is deployable and unassigned and belongs to the tenant; the asset of a
  host the filter excludes is exactly as before; and every selected change is
  counted once, as created, updated, skipped, excluded or failed.
\<close>

theorem sync_run_safe:
  assumes "run_state (sync_run svc subj hostnames opts) w = (Inr res, w')" and "tab_ok a_ID (assets w)"
    and "run_state (plan svc (TenantID subj)) w = (Inr (changes, byHost), w1)"
  shows "core (w'\<lparr>assets := []\<rparr>) = core (w\<lparr>assets := []\<rparr>) \<and>
    sync_rows (updatable hostnames changes) (TenantID subj) (assets w) (assets w') \<and>
    (\<forall>c \<in> set changes. ch_Action c = ActionExcluded \<and> ch_AssetID c \<noteq> [] \<longrightarrow>
       (case map_of (assets w) (ch_AssetID c) of None \<Rightarrow> True | Some a \<Rightarrow> map_of (assets w') (ch_AssetID c) = Some a)) \<and>
    counted_in res = int (length (filter (chosen hostnames) changes))"
proof -
  obtain changes' byHost' w1' w2 where p: "run_state (plan svc (TenantID subj)) w = (Inr (changes', byHost'), w1')"
      and l: "run_state (sync_loop subj (wall w1') byHost' hostnames opts changes' no_result) w1' = (res, w2)" and c: "core w' = core w2"
    by (rule sync_run_parts [OF assms(1)])
  have eq: "changes' = changes" "byHost' = byHost" "w1' = w1" using p assms(3) by auto
  let ?U = "updatable hostnames changes" and ?t = "TenantID subj"
  have "synced ?U ?t w w1" using sy.io_run [OF synced_quiet [OF quiet_plan] assms(3)] .
  moreover have "synced ?U ?t w1 w2"
    by (rule sy.io_run [OF _ l [unfolded eq]], rule synced_loop) (auto simp: updatable_def)
  moreover have "synced ?U ?t w2 w'" using c by (simp add: synced_core)
  ultimately have s: "synced ?U ?t w w'" using sy.R_trans by blast
  then have rows: "sync_rows ?U ?t (assets w) (assets w')" using assms(2) by (simp add: synced_def)
  have "map_of (assets w') (ch_AssetID c) = Some a"
    if "c \<in> set changes" "ch_Action c = ActionExcluded" "ch_AssetID c \<noteq> []" "map_of (assets w) (ch_AssetID c) = Some a" for c a
    using rows that(4) plan_excluded [OF assms(3) that(1-3), of hostnames] unfolding sync_rows_def by auto
  moreover have "counted_in res = int (length (filter (chosen hostnames) changes))"
    using sync_loop_counts [of subj "wall w1" byHost hostnames opts changes no_result w1] l [unfolded eq]
    by (simp add: no_result_def counted_in_def)
  ultimately show ?thesis
    using s rows by (auto simp: synced_def split: option.split)
qed

subsection \<open>A concrete run\<close>

text \<open>Two hosts, the second one retired and excluded by the filter, and an asset for each.\<close>

definition hosts_demo :: FakeInv where
  "hosts_demo = SetHosts ''t'' [zero_host\<lparr>ho_ID := ''h1'', ho_Hostname := ''web'', ho_SystemSerial := ''S1''\<rparr>,
     zero_host\<lparr>ho_ID := ''h2'', ho_Hostname := ''db'', ho_Status := ''retired''\<rparr>] NewFake"

definition sync_demo :: world where
  "sync_demo = world_demo\<lparr>invsync := [(''t'', zero_settings\<lparr>v_TenantID := ''t'', v_SkipRetired := True\<rparr>)],
     assets := [(''a1'', zero_asset\<lparr>a_ID := ''a1'', a_TenantID := ''t'', a_AssetTag := ''T1'', a_Name := ''old'', a_Serial := ''s1'',
                   a_Status := AssetAssigned, a_UserID := ''bob''\<rparr>),
                (''a2'', zero_asset\<lparr>a_ID := ''a2'', a_TenantID := ''t'', a_AssetTag := ''T2'', a_Name := ''DB'', a_Status := AssetDeployable\<rparr>)]\<rparr>"

definition syncer_demo :: "FakeInv \<Rightarrow> InvsyncService" where
  "syncer_demo f = \<lparr>is_inv = Some (fake_client f), is_rec = \<lparr>attached = True, folding = (\<lambda>s. s)\<rparr>\<rparr>"

definition executed_demo :: "(svc_err + Result) \<times> world" where
  "executed_demo = run_state (Execute (syncer_demo hosts_demo) alice []) sync_demo"

definition planned_demo :: "(svc_err + Change list \<times> Host tab) \<times> world" where
  "planned_demo = run_state (plan (syncer_demo hosts_demo) ''t'') sync_demo"

lemma sync_run_returns:
  assumes "run_state (plan svc (TenantID subj)) w = (Inr cb, w1)" and "RequireTenant subj (TenantID subj) = Inr ()"
  shows "\<exists>res w'. run_state (sync_run svc subj hostnames opts) w = (Inr res, w')"
  using assms by (cases cb) (simp add: sync_run_def in_tenant_def run_try_in split: prod.split)

theorem sync_run_safe_witness:
  "map (\<lambda>c. (ch_AssetID c, ch_Action c)) (fst (projr (fst planned_demo))) = [(''a2'', ActionExcluded), (''a1'', ActionUpdate)] \<and>
   (\<exists>res. fst executed_demo = Inr res \<and> counted_in res = 2) \<and>
   map_of (assets (snd executed_demo)) ''a2'' = map_of (assets sync_demo) ''a2'' \<and>
   sync_rows {''a1''} ''t'' (assets sync_demo) (assets (snd executed_demo))"
proof -
  have changes: "map (\<lambda>c. (ch_AssetID c, ch_Action c)) (fst (projr (fst planned_demo))) = [(''a2'', ActionExcluded), (''a1'', ActionUpdate)]"
    by code_simp
  let ?cs = "fst (projr (fst planned_demo))"
  have cs: "updatable [] ?cs = {''a1''}" "length (filter (chosen []) ?cs) = 2" "\<exists>c \<in> set ?cs. ch_AssetID c = ''a2'' \<and> ch_Action c = ActionExcluded"
  proof -
    obtain c d where "?cs = [c, d]" using changes by (auto simp: map_eq_Cons_conv)
    then show "updatable [] ?cs = {''a1''}" "length (filter (chosen []) ?cs) = 2" "\<exists>c \<in> set ?cs. ch_AssetID c = ''a2'' \<and> ch_Action c = ActionExcluded"
      using changes by (auto simp: updatable_def chosen_def intro!: exI [of _ d])
  qed
  have pl: "run_state (plan (syncer_demo hosts_demo) (TenantID alice)) sync_demo = (Inr (?cs, snd (projr (fst planned_demo))), snd planned_demo)"
  proof -
    have "isl (fst planned_demo) = False" by code_simp
    then show ?thesis by (cases planned_demo) (auto simp: isl_def planned_demo_def alice_def)
  qed
  have "RequireTenant alice (TenantID alice) = Inr ()" by code_simp
  from sync_run_returns [OF pl this] obtain res w' where
    run: "run_state (sync_run (syncer_demo hosts_demo) alice [] \<lparr>op_Create = True, op_Update = True\<rparr>) sync_demo = (Inr res, w')" by blast
  then have ex: "executed_demo = (Inr res, w')" by (simp add: executed_demo_def Execute_def)
  have ok: "tab_ok a_ID (assets sync_demo)" by (simp add: sync_demo_def tab_ok_def zero_asset_def)
  have a2: "\<exists>a. map_of (assets sync_demo) ''a2'' = Some a" by (simp add: sync_demo_def)
  show ?thesis
    using sync_run_safe [OF run ok pl] cs changes a2 by (fastforce simp: alice_def ex)
qed

text \<open>
  C33: a run that reports an error wrote nothing: an inventory that cannot be reached, roles that
  cannot be read, a store that fails while planning, or a caller without a tenant leave every table as it was.
\<close>

theorem sync_error_writes_nothing:
  assumes "run_state (sync_run svc subj hostnames opts) w = (Inl e, w')"
  shows "core w' = core w"
proof -
  have "atomic (sync_run svc subj hostnames opts)"
    unfolding atomic_def
  proof (intro allI impI)
    fix w e w'
    assume run: "run_state (sync_run svc subj hostnames opts) w = (Inl e, w')"
    obtain x w1 where x: "run_state (plan svc (TenantID subj)) w = (x, w1)" by force
    have "core w1 = core w" using quiet_plan x unfolding quiet_def by (metis snd_conv)
    moreover have "w' = w \<or> w' = w1"
      using run x by (cases x; cases "RequireTenant subj (TenantID subj)")
        (auto simp: sync_run_def in_tenant_def run_try_in split: prod.splits)
    ultimately show "core w' = core w" by auto
  qed
  then show ?thesis using assms unfolding atomic_def by blast
qed

theorem sync_error_writes_nothing_witness:
  "isl (fst (run_state (Execute (syncer_demo (hosts_demo\<lparr>fk_Down := True\<rparr>)) alice []) sync_demo)) \<and>
   core (snd (run_state (Execute (syncer_demo (hosts_demo\<lparr>fk_Down := True\<rparr>)) alice []) sync_demo)) = core sync_demo"
proof -
  let ?r = "run_state (Execute (syncer_demo (hosts_demo\<lparr>fk_Down := True\<rparr>)) alice []) sync_demo"
  have l: "isl (fst ?r)" by code_simp
  then have "run_state (sync_run (syncer_demo (hosts_demo\<lparr>fk_Down := True\<rparr>)) alice [] \<lparr>op_Create = True, op_Update = True\<rparr>) sync_demo =
      (Inl (projl (fst ?r)), snd ?r)"
    by (cases ?r) (auto simp: Execute_def isl_def)
  from sync_error_writes_nothing [OF this] l show ?thesis by simp
qed

section \<open>Paging\<close>

text \<open>
  What the inventory service documents of its listing: pages of at most 500 hosts in
  the order of their ids, starting after the cursor; ids are unique and not blank.
\<close>

definition pages_by_id :: "(string \<Rightarrow> string + Host list) \<Rightarrow> Host list \<Rightarrow> bool" where
  "pages_by_id query every \<longleftrightarrow> sorted_wrt (<) (map ho_ID every) \<and> (\<forall>h \<in> set every. ho_ID h \<noteq> []) \<and>
     (\<forall>cursor. query cursor = Inr (take 500 (filter (\<lambda>h. cursor < ho_ID h) every)))"

lemma filter_after_nth:
  fixes f :: "'a \<Rightarrow> 'b :: linorder"
  assumes "sorted_wrt (<) (map f xs)" and "i < length xs"
  shows "filter (\<lambda>x. f (xs ! i) < f x) xs = drop (Suc i) xs"
proof -
  have split: "xs = take (Suc i) xs @ drop (Suc i) xs" by simp
  have "filter (\<lambda>x. f (xs ! i) < f x) (take (Suc i) xs) = []"
  proof (rule filter_False, rule ballI)
    fix x assume "x \<in> set (take (Suc i) xs)"
    then obtain j where "j \<le> i" "x = xs ! j" using assms(2) by (auto simp: in_set_conv_nth less_Suc_eq_le)
    then show "\<not> f (xs ! i) < f x"
      using assms sorted_wrt_nth_less [of "(<)" "map f xs" j i] by (cases "j = i") (auto simp: not_less)
  qed
  moreover have "filter (\<lambda>x. f (xs ! i) < f x) (drop (Suc i) xs) = drop (Suc i) xs"
  proof (rule filter_True, rule ballI)
    fix x assume "x \<in> set (drop (Suc i) xs)"
    then obtain j where "i < j" "j < length xs" "x = xs ! j"
      by (auto simp: in_set_conv_nth) (metis add_Suc_right less_add_Suc1 less_diff_conv add.commute)
    then show "f (xs ! i) < f x" using assms sorted_wrt_nth_less [of "(<)" "map f xs" i j] by auto
  qed
  ultimately show ?thesis by (metis split filter_append append_Nil)
qed

lemma mesh_pages_complete:
  assumes "pages_by_id query every"
  shows "mesh_pages query cursor out = Some (Inr (out @ filter (\<lambda>h. cursor < ho_ID h) every))"
proof (induction "length (filter (\<lambda>h. cursor < ho_ID h) every)" arbitrary: cursor out rule: less_induct)
  case less
  let ?rest = "filter (\<lambda>h. cursor < ho_ID h) every"
  have q: "query cursor = Inr (take 500 ?rest)" using assms by (simp add: pages_by_id_def)
  show ?case
  proof (cases "length ?rest < 500")
    case True
    then show ?thesis using q by (subst mesh_pages.simps) simp
  next
    case False
    have srt: "sorted_wrt (<) (map ho_ID every)" using assms by (simp add: pages_by_id_def)
    then have s: "sorted_wrt (<) (map ho_ID ?rest)" by (simp add: sorted_wrt_map sorted_wrt_filter)
    let ?c = "ho_ID (?rest ! 499)"
    have "?rest ! 499 \<in> set ?rest" using False by (intro nth_mem) simp
    then have "cursor < ?c" by simp
    then have "filter (\<lambda>h. ?c < ho_ID h) every = filter (\<lambda>h. ?c < ho_ID h) ?rest"
      by (auto simp: filter_filter intro!: filter_cong)
    also have "\<dots> = drop 500 ?rest" using filter_after_nth [OF s, of 499] False by simp
    finally have next_rest: "filter (\<lambda>h. ?c < ho_ID h) every = drop 500 ?rest" .
    have "last (take 500 ?rest) = ?rest ! 499" using False by (subst last_conv_nth) (auto simp: min_def)
    then have "mesh_pages query cursor out = mesh_pages query ?c (out @ take 500 ?rest)"
      using q False by (subst mesh_pages.simps) simp
    also have "\<dots> = Some (Inr ((out @ take 500 ?rest) @ filter (\<lambda>h. ?c < ho_ID h) every))"
      using False by (intro less) (simp add: next_rest)
    finally show ?thesis using next_rest by simp
  qed
qed



end
