(* ===== verification/Grpc_Map.thy ===== *)
theory Grpc_Map
  imports Document_Laws Dashboard Invsync_Laws
begin

text \<open>
  \<^verbatim>\<open>internal/grpcapi/mapper.go\<close>: the conversions between the rows of the module and the messages of
  \<^verbatim>\<open>api/proto/asset/v1/asset.proto\<close>, whose messages are the records below. An \<^verbatim>\<open>int32\<close> field is a word of 32
  bits, so a conversion from an \<^verbatim>\<open>int\<close> wraps around as in Go; a \<^verbatim>\<open>Timestamp\<close> is its number of seconds. A
  generated getter of an absent message returns the zero value of its field, so an absent input message is
  the message of zero values. A message with children is a node of \<open>MsgTree\<close>.
\<close>

section \<open>Messages\<close>

type_synonym Timestamp = int

datatype 'm MsgTree = MsgNode (message: 'm) (Children: "'m MsgTree list")

record DocumentMsg =
  dm_Id :: string
  dm_EntityType :: string
  dm_EntityId :: string
  dm_FileName :: string
  dm_FileSize :: int
  dm_MimeType :: string
  dm_Checksum :: string
  dm_Description :: string
  dm_UploadedBy :: string
  dm_CreatedAt :: "Timestamp option"

record AssetMsg =
  am_Id :: string
  am_TenantId :: string
  am_AssetTag :: string
  am_Name :: string
  am_Serial :: string
  am_ModelName :: string
  am_ModelNumber :: string
  am_CategoryId :: string
  am_SupplierId :: string
  am_LocationId :: string
  am_UserId :: string
  am_AssigneeName :: string
  am_Status :: string
  am_HasPhoto :: bool
  am_WarrantyMonths :: "32 word"
  am_PurchaseDate :: "Timestamp option"
  am_OrderNumber :: string
  am_PurchaseCost :: real
  am_Notes :: string
  am_SalvageValue :: real
  am_UsefulLifeYears :: "32 word"
  am_DepreciationRate :: real
  am_Tags :: "string tab"
  am_BookValue :: real
  am_CreatedBy :: string
  am_UpdatedBy :: string
  am_CreatedAt :: "Timestamp option"
  am_UpdatedAt :: "Timestamp option"

record AssetInputMsg =
  ai_AssetTag :: string
  ai_Name :: string
  ai_Serial :: string
  ai_ModelName :: string
  ai_ModelNumber :: string
  ai_CategoryId :: string
  ai_SupplierId :: string
  ai_LocationId :: string
  ai_Status :: string
  ai_WarrantyMonths :: "32 word"
  ai_PurchaseDate :: "Timestamp option"
  ai_OrderNumber :: string
  ai_PurchaseCost :: real
  ai_Notes :: string
  ai_SalvageValue :: real
  ai_UsefulLifeYears :: "32 word"
  ai_DepreciationRate :: real
  ai_Tags :: "string tab"

record AssignmentMsg =
  gm_Id :: string
  gm_AssetId :: string
  gm_AssetName :: string
  gm_UserId :: string
  gm_UserName :: string
  gm_Action :: string
  gm_AssignedAt :: "Timestamp option"
  gm_ReturnedAt :: "Timestamp option"
  gm_AssignedBy :: string
  gm_Notes :: string

record SyncChangeMsg =
  ym_HostId :: string
  ym_Hostname :: string
  ym_Serial :: string
  ym_Action :: string
  ym_AssetId :: string
  ym_AssetTag :: string
  ym_Changes :: "string tab"

record CategoryMsg =
  cm_Id :: string
  cm_Name :: string
  cm_Description :: string
  cm_ParentId :: string
  cm_Icon :: string
  cm_Tags :: "string tab"
  cm_AssetCount :: int
  cm_ChildCount :: int
  cm_CreatedAt :: "Timestamp option"
  cm_UpdatedAt :: "Timestamp option"

record CategoryInputMsg =
  ci_Name :: string
  ci_Description :: string
  ci_ParentId :: string
  ci_Icon :: string
  ci_Tags :: "string tab"

record SupplierMsg =
  sm_Id :: string
  sm_Name :: string
  sm_Code :: string
  sm_Address :: string
  sm_City :: string
  sm_State :: string
  sm_Country :: string
  sm_PostalCode :: string
  sm_ContactPerson :: string
  sm_Telephone :: string
  sm_Email :: string
  sm_Website :: string
  sm_Notes :: string
  sm_Status :: string
  sm_Tags :: "string tab"
  sm_CreatedAt :: "Timestamp option"
  sm_UpdatedAt :: "Timestamp option"

record SupplierInputMsg =
  si_Name :: string
  si_Code :: string
  si_Address :: string
  si_City :: string
  si_State :: string
  si_Country :: string
  si_PostalCode :: string
  si_ContactPerson :: string
  si_Telephone :: string
  si_Email :: string
  si_Website :: string
  si_Notes :: string
  si_Status :: string
  si_Tags :: "string tab"

record LocationMsg =
  lm_Id :: string
  lm_Name :: string
  lm_Code :: string
  lm_Description :: string
  lm_ParentId :: string
  lm_Path :: string
  lm_Address :: string
  lm_City :: string
  lm_State :: string
  lm_Country :: string
  lm_PostalCode :: string
  lm_Contact :: string
  lm_Phone :: string
  lm_Email :: string
  lm_Status :: string
  lm_Tags :: "string tab"
  lm_ChildCount :: int
  lm_AssetCount :: int
  lm_CreatedAt :: "Timestamp option"
  lm_UpdatedAt :: "Timestamp option"

record LocationInputMsg =
  li_Name :: string
  li_Code :: string
  li_Description :: string
  li_ParentId :: string
  li_Address :: string
  li_City :: string
  li_State :: string
  li_Country :: string
  li_PostalCode :: string
  li_Contact :: string
  li_Phone :: string
  li_Email :: string
  li_Status :: string
  li_Tags :: "string tab"

record ConsumableMsg =
  nm_Id :: string
  nm_Name :: string
  nm_Description :: string
  nm_CategoryId :: string
  nm_SupplierId :: string
  nm_LocationId :: string
  nm_ModelName :: string
  nm_ModelNumber :: string
  nm_Amount :: "32 word"
  nm_MinAmount :: "32 word"
  nm_PurchaseDate :: "Timestamp option"
  nm_PurchaseCost :: real
  nm_OrderNumber :: string
  nm_Notes :: string
  nm_Tags :: "string tab"
  nm_LowStock :: bool
  nm_CreatedAt :: "Timestamp option"
  nm_UpdatedAt :: "Timestamp option"

record ConsumableInputMsg =
  ni_Name :: string
  ni_Description :: string
  ni_CategoryId :: string
  ni_SupplierId :: string
  ni_LocationId :: string
  ni_ModelName :: string
  ni_ModelNumber :: string
  ni_Amount :: "32 word"
  ni_MinAmount :: "32 word"
  ni_PurchaseDate :: "Timestamp option"
  ni_PurchaseCost :: real
  ni_OrderNumber :: string
  ni_Notes :: string
  ni_Tags :: "string tab"

record LicenseMsg =
  im_Id :: string
  im_Name :: string
  im_SupplierId :: string
  im_PurchaseDate :: "Timestamp option"
  im_PurchaseCost :: real
  im_OrderNumber :: string
  im_ValidFrom :: "Timestamp option"
  im_ValidTo :: "Timestamp option"
  im_Notes :: string
  im_Status :: string
  im_Metadata :: "string tab"
  im_CreatedAt :: "Timestamp option"
  im_UpdatedAt :: "Timestamp option"

record LicenseInputMsg =
  ii_Name :: string
  ii_SupplierId :: string
  ii_PurchaseDate :: "Timestamp option"
  ii_PurchaseCost :: real
  ii_OrderNumber :: string
  ii_ValidFrom :: "Timestamp option"
  ii_ValidTo :: "Timestamp option"
  ii_Notes :: string
  ii_Status :: string
  ii_Metadata :: "string tab"

record InsurancePolicyMsg =
  pm_Id :: string
  pm_Name :: string
  pm_PolicyNumber :: string
  pm_Provider :: string
  pm_CoverageType :: string
  pm_PremiumAmount :: real
  pm_Deductible :: real
  pm_CoverageLimit :: real
  pm_ValidFrom :: "Timestamp option"
  pm_ValidTo :: "Timestamp option"
  pm_Status :: string
  pm_Notes :: string
  pm_Metadata :: "string tab"
  pm_AssetCount :: int
  pm_CreatedAt :: "Timestamp option"
  pm_UpdatedAt :: "Timestamp option"

record InsurancePolicyInputMsg =
  pi_Name :: string
  pi_PolicyNumber :: string
  pi_Provider :: string
  pi_CoverageType :: string
  pi_PremiumAmount :: real
  pi_Deductible :: real
  pi_CoverageLimit :: real
  pi_ValidFrom :: "Timestamp option"
  pi_ValidTo :: "Timestamp option"
  pi_Status :: string
  pi_Notes :: string
  pi_Metadata :: "string tab"

record PolicyAssetMsg =
  qm_Id :: string
  qm_PolicyId :: string
  qm_AssetId :: string
  qm_CoveredValue :: real
  qm_Notes :: string
  qm_AssetTag :: string
  qm_AssetName :: string
  qm_ModelName :: string
  qm_CreatedBy :: string
  qm_CreatedAt :: "Timestamp option"

record DashboardStatsMsg =
  bm_TotalAssets :: int
  bm_AssetsByStatus :: "int tab"
  bm_TotalConsumables :: int
  bm_TotalSuppliers :: int
  bm_TotalCategories :: int
  bm_TotalLocations :: int
  bm_TotalLicenses :: int
  bm_TotalInsurancePolicies :: int
  bm_TotalCost :: real
  bm_TotalDepreciatedValue :: real
  bm_ExpiringSoon :: int
  bm_LowStock :: int
  bm_WarrantyExpiringSoon :: int
  bm_LicensesExpiringSoon :: int
  bm_InsuranceExpiringSoon :: int
  bm_AssignedAssets :: int

record UserMsg =
  um_Id :: string
  um_DisplayName :: string
  um_AvatarUrl :: string

section \<open>Conversions\<close>

definition ts :: "gotime \<Rightarrow> Timestamp option" where
  "ts t = (if IsZero t then None else Some ((t - unix_epoch) div nanos_per_second))"

definition tsp :: "gotime option \<Rightarrow> Timestamp option" where
  "tsp t = (case t of None \<Rightarrow> None | Some v \<Rightarrow> ts v)"

definition fromTS :: "Timestamp option \<Rightarrow> gotime option" where
  "fromTS t = (case t of None \<Rightarrow> None | Some u \<Rightarrow> if u = 0 then None else Some (unix_epoch + u * nanos_per_second))"

definition assetToPB :: "View \<Rightarrow> AssetMsg" where
  "assetToPB v = (let a = vw_Asset v in \<lparr>
     am_Id = a_ID a, am_TenantId = a_TenantID a, am_AssetTag = a_AssetTag a, am_Name = a_Name a, am_Serial = a_Serial a,
     am_ModelName = a_ModelName a, am_ModelNumber = a_ModelNumber a, am_CategoryId = a_CategoryID a,
     am_SupplierId = a_SupplierID a, am_LocationId = a_LocationID a, am_UserId = a_UserID a,
     am_AssigneeName = vw_AssigneeName v, am_Status = a_Status a, am_HasPhoto = vw_HasPhoto v,
     am_WarrantyMonths = word_of_int (a_WarrantyMonths a), am_PurchaseDate = tsp (a_PurchaseDate a),
     am_OrderNumber = a_OrderNumber a, am_PurchaseCost = a_PurchaseCost a, am_Notes = a_Notes a,
     am_SalvageValue = a_SalvageValue a, am_UsefulLifeYears = word_of_int (a_UsefulLifeYears a),
     am_DepreciationRate = a_DepreciationRate a, am_Tags = a_Tags a, am_BookValue = a_BookValue a,
     am_CreatedBy = a_CreatedBy a, am_UpdatedBy = a_UpdatedBy a, am_CreatedAt = ts (a_CreatedAt a),
     am_UpdatedAt = ts (a_UpdatedAt a)\<rparr>)"

definition assignmentToPB :: "Assignment \<Rightarrow> AssignmentMsg" where
  "assignmentToPB g = (\<lparr>
     gm_Id = g_ID g, gm_AssetId = g_AssetID g, gm_AssetName = g_AssetName g, gm_UserId = g_UserID g,
     gm_UserName = g_UserName g, gm_Action = g_Action g, gm_AssignedAt = ts (g_AssignedAt g),
     gm_ReturnedAt = tsp (g_ReturnedAt g), gm_AssignedBy = g_AssignedBy g, gm_Notes = g_Notes g\<rparr>)"

definition documentToPB :: "Document \<Rightarrow> DocumentMsg" where
  "documentToPB d = (\<lparr>
     dm_Id = d_ID d, dm_EntityType = d_EntityType d, dm_EntityId = d_EntityID d, dm_FileName = d_FileName d,
     dm_FileSize = d_FileSize d, dm_MimeType = d_MimeType d, dm_Checksum = d_Checksum d, dm_Description = d_Description d,
     dm_UploadedBy = d_UploadedBy d, dm_CreatedAt = ts (d_CreatedAt d)\<rparr>)"

definition categoryToPB :: "Category \<Rightarrow> CategoryMsg" where
  "categoryToPB c = (\<lparr>
     cm_Id = c_ID c, cm_Name = c_Name c, cm_Description = c_Description c, cm_ParentId = c_ParentID c, cm_Icon = c_Icon c,
     cm_Tags = c_Tags c, cm_AssetCount = c_AssetCount c, cm_ChildCount = c_ChildCount c, cm_CreatedAt = ts (c_CreatedAt c),
     cm_UpdatedAt = ts (c_UpdatedAt c)\<rparr>)"

definition supplierToPB :: "Supplier \<Rightarrow> SupplierMsg" where
  "supplierToPB s = (\<lparr>
     sm_Id = s_ID s, sm_Name = s_Name s, sm_Code = s_Code s, sm_Address = s_Address s, sm_City = s_City s,
     sm_State = s_State s, sm_Country = s_Country s, sm_PostalCode = s_PostalCode s, sm_ContactPerson = s_ContactPerson s,
     sm_Telephone = s_Telephone s, sm_Email = s_Email s, sm_Website = s_Website s, sm_Notes = s_Notes s,
     sm_Status = s_Status s, sm_Tags = s_Tags s, sm_CreatedAt = ts (s_CreatedAt s), sm_UpdatedAt = ts (s_UpdatedAt s)\<rparr>)"

definition locationToPB :: "Location \<Rightarrow> LocationMsg" where
  "locationToPB l = (\<lparr>
     lm_Id = l_ID l, lm_Name = l_Name l, lm_Code = l_Code l, lm_Description = l_Description l, lm_ParentId = l_ParentID l,
     lm_Path = l_Path l, lm_Address = l_Address l, lm_City = l_City l, lm_State = l_State l, lm_Country = l_Country l,
     lm_PostalCode = l_PostalCode l, lm_Contact = l_Contact l, lm_Phone = l_Phone l, lm_Email = l_Email l,
     lm_Status = l_Status l, lm_Tags = l_Tags l, lm_ChildCount = l_ChildCount l, lm_AssetCount = l_AssetCount l,
     lm_CreatedAt = ts (l_CreatedAt l), lm_UpdatedAt = ts (l_UpdatedAt l)\<rparr>)"

definition consumableToPB :: "ConsumableView \<Rightarrow> ConsumableMsg" where
  "consumableToPB v = (let c = nv_Consumable v in \<lparr>
     nm_Id = n_ID c, nm_Name = n_Name c, nm_Description = n_Description c, nm_CategoryId = n_CategoryID c,
     nm_SupplierId = n_SupplierID c, nm_LocationId = n_LocationID c, nm_ModelName = n_ModelName c,
     nm_ModelNumber = n_ModelNumber c, nm_Amount = word_of_int (n_Amount c), nm_MinAmount = word_of_int (n_MinAmount c),
     nm_PurchaseDate = tsp (n_PurchaseDate c), nm_PurchaseCost = n_PurchaseCost c, nm_OrderNumber = n_OrderNumber c,
     nm_Notes = n_Notes c, nm_Tags = n_Tags c, nm_LowStock = nv_LowStock v, nm_CreatedAt = ts (n_CreatedAt c),
     nm_UpdatedAt = ts (n_UpdatedAt c)\<rparr>)"

definition licenseToPB :: "License \<Rightarrow> LicenseMsg" where
  "licenseToPB l = (\<lparr>
     im_Id = i_ID l, im_Name = i_Name l, im_SupplierId = i_SupplierID l, im_PurchaseDate = tsp (i_PurchaseDate l),
     im_PurchaseCost = i_PurchaseCost l, im_OrderNumber = i_OrderNumber l, im_ValidFrom = tsp (i_ValidFrom l),
     im_ValidTo = tsp (i_ValidTo l), im_Notes = i_Notes l, im_Status = i_Status l, im_Metadata = i_Metadata l,
     im_CreatedAt = ts (i_CreatedAt l), im_UpdatedAt = ts (i_UpdatedAt l)\<rparr>)"

definition policyToPB :: "InsurancePolicy \<Rightarrow> InsurancePolicyMsg" where
  "policyToPB p = (\<lparr>
     pm_Id = p_ID p, pm_Name = p_Name p, pm_PolicyNumber = p_PolicyNumber p, pm_Provider = p_Provider p,
     pm_CoverageType = p_CoverageType p, pm_PremiumAmount = p_PremiumAmount p, pm_Deductible = p_Deductible p,
     pm_CoverageLimit = p_CoverageLimit p, pm_ValidFrom = tsp (p_ValidFrom p), pm_ValidTo = tsp (p_ValidTo p),
     pm_Status = p_Status p, pm_Notes = p_Notes p, pm_Metadata = p_Metadata p, pm_AssetCount = p_AssetCount p,
     pm_CreatedAt = ts (p_CreatedAt p), pm_UpdatedAt = ts (p_UpdatedAt p)\<rparr>)"

definition policyAssetToPB :: "PolicyAsset \<Rightarrow> PolicyAssetMsg" where
  "policyAssetToPB pa = (\<lparr>
     qm_Id = q_ID pa, qm_PolicyId = q_PolicyID pa, qm_AssetId = q_AssetID pa, qm_CoveredValue = q_CoveredValue pa,
     qm_Notes = q_Notes pa, qm_AssetTag = q_AssetTag pa, qm_AssetName = q_AssetName pa, qm_ModelName = q_ModelName pa,
     qm_CreatedBy = q_CreatedBy pa, qm_CreatedAt = ts (q_CreatedAt pa)\<rparr>)"

definition statsToPB :: "Dashboard \<Rightarrow> DashboardStatsMsg" where
  "statsToPB d = (\<lparr>
     bm_TotalAssets = TotalAssets d, bm_AssetsByStatus = AssetsByStatus d, bm_TotalConsumables = TotalConsumables d,
     bm_TotalSuppliers = TotalSuppliers d, bm_TotalCategories = TotalCategories d, bm_TotalLocations = TotalLocations d,
     bm_TotalLicenses = TotalLicenses d, bm_TotalInsurancePolicies = TotalInsurance d, bm_TotalCost = TotalCost d,
     bm_TotalDepreciatedValue = TotalDepreciatedValue d, bm_ExpiringSoon = ExpiringSoon d, bm_LowStock = LowStock d,
     bm_WarrantyExpiringSoon = WarrantyExpiringSoon d, bm_LicensesExpiringSoon = LicensesExpiringSoon d,
     bm_InsuranceExpiringSoon = InsuranceExpiringSoon d, bm_AssignedAssets = AssignedAssets d\<rparr>)"

definition assetFromPB :: "AssetInputMsg \<Rightarrow> AssetInput" where
  "assetFromPB i = \<lparr>
     x_AssetTag = ai_AssetTag i, x_Name = ai_Name i, x_Serial = ai_Serial i, x_ModelName = ai_ModelName i,
     x_ModelNumber = ai_ModelNumber i, x_CategoryID = ai_CategoryId i, x_SupplierID = ai_SupplierId i,
     x_LocationID = ai_LocationId i, x_Status = ai_Status i, x_WarrantyMonths = sint (ai_WarrantyMonths i),
     x_PurchaseDate = fromTS (ai_PurchaseDate i), x_OrderNumber = ai_OrderNumber i, x_PurchaseCost = ai_PurchaseCost i,
     x_Notes = ai_Notes i, x_SalvageValue = ai_SalvageValue i, x_UsefulLifeYears = sint (ai_UsefulLifeYears i),
     x_DepreciationRate = ai_DepreciationRate i, x_Tags = ai_Tags i\<rparr>"

definition categoryFromPB :: "CategoryInputMsg \<Rightarrow> CategoryInput" where
  "categoryFromPB i = \<lparr>
     k_Name = ci_Name i, k_Description = ci_Description i, k_ParentID = ci_ParentId i, k_Icon = ci_Icon i, k_Tags = ci_Tags i\<rparr>"

definition supplierFromPB :: "SupplierInputMsg \<Rightarrow> SupplierInput" where
  "supplierFromPB i = \<lparr>
     z_Name = si_Name i, z_Code = si_Code i, z_Address = si_Address i, z_City = si_City i, z_State = si_State i,
     z_Country = si_Country i, z_PostalCode = si_PostalCode i, z_ContactPerson = si_ContactPerson i,
     z_Telephone = si_Telephone i, z_Email = si_Email i, z_Website = si_Website i, z_Notes = si_Notes i,
     z_Status = si_Status i, z_Tags = si_Tags i\<rparr>"

definition locationFromPB :: "LocationInputMsg \<Rightarrow> LocationInput" where
  "locationFromPB i = \<lparr>
     o_Name = li_Name i, o_Code = li_Code i, o_Description = li_Description i, o_ParentID = li_ParentId i,
     o_Address = li_Address i, o_City = li_City i, o_State = li_State i, o_Country = li_Country i,
     o_PostalCode = li_PostalCode i, o_Contact = li_Contact i, o_Phone = li_Phone i, o_Email = li_Email i,
     o_Status = li_Status i, o_Tags = li_Tags i\<rparr>"

definition consumableFromPB :: "ConsumableInputMsg \<Rightarrow> ConsumableInput" where
  "consumableFromPB i = \<lparr>
     m_Name = ni_Name i, m_Description = ni_Description i, m_CategoryID = ni_CategoryId i, m_SupplierID = ni_SupplierId i,
     m_LocationID = ni_LocationId i, m_ModelName = ni_ModelName i, m_ModelNumber = ni_ModelNumber i,
     m_Amount = sint (ni_Amount i), m_MinAmount = sint (ni_MinAmount i), m_PurchaseDate = fromTS (ni_PurchaseDate i),
     m_PurchaseCost = ni_PurchaseCost i, m_OrderNumber = ni_OrderNumber i, m_Notes = ni_Notes i, m_Tags = ni_Tags i\<rparr>"

definition licenseFromPB :: "LicenseInputMsg \<Rightarrow> LicenseInput" where
  "licenseFromPB i = \<lparr>
     j_Name = ii_Name i, j_SupplierID = ii_SupplierId i, j_PurchaseDate = fromTS (ii_PurchaseDate i),
     j_PurchaseCost = ii_PurchaseCost i, j_OrderNumber = ii_OrderNumber i, j_ValidFrom = fromTS (ii_ValidFrom i),
     j_ValidTo = fromTS (ii_ValidTo i), j_Notes = ii_Notes i, j_Status = ii_Status i, j_Metadata = ii_Metadata i\<rparr>"

definition policyFromPB :: "InsurancePolicyInputMsg \<Rightarrow> PolicyInput" where
  "policyFromPB i = \<lparr>
     h_Name = pi_Name i, h_PolicyNumber = pi_PolicyNumber i, h_Provider = pi_Provider i, h_CoverageType = pi_CoverageType i,
     h_PremiumAmount = pi_PremiumAmount i, h_Deductible = pi_Deductible i, h_CoverageLimit = pi_CoverageLimit i,
     h_ValidFrom = fromTS (pi_ValidFrom i), h_ValidTo = fromTS (pi_ValidTo i), h_Status = pi_Status i, h_Notes = pi_Notes i,
     h_Metadata = pi_Metadata i\<rparr>"

text \<open>The arrow of a change, in UTF-8.\<close>

definition right_arrow :: string where "right_arrow = [CHR 0xE2, CHR 0x86, CHR 0x92]"

definition syncChangeToPB :: "Change \<Rightarrow> SyncChangeMsg" where
  "syncChangeToPB c = \<lparr>ym_HostId = ch_HostID c, ym_Hostname = ch_Hostname c, ym_Serial = ch_Serial c, ym_Action = ch_Action c,
     ym_AssetId = ch_AssetID c, ym_AssetTag = ch_AssetTag c,
     ym_Changes = map (\<lambda>(k, v). (k, fc_Old v @ '' '' @ right_arrow @ '' '' @ fc_New v)) (ch_Changes c)\<rparr>"

text \<open>The responses of the two inventory methods, as \<^verbatim>\<open>servers.go\<close> fills them.\<close>

record SyncPreviewMsg =
  ey_Hosts :: "32 word"
  ey_Create :: "32 word"
  ey_Update :: "32 word"
  ey_Unchanged :: "32 word"
  ey_Changes :: "SyncChangeMsg list"

record SyncExecuteMsg =
  ex_Created :: "32 word"
  ex_Updated :: "32 word"
  ex_Skipped :: "32 word"
  ex_Errors :: "(string \<times> repo_err) list"
  ex_Changes :: "SyncChangeMsg list"

definition previewToPB :: "Preview \<Rightarrow> SyncPreviewMsg" where
  "previewToPB p = \<lparr>ey_Hosts = word_of_int (pv_Hosts p), ey_Create = word_of_int (pv_Create p), ey_Update = word_of_int (pv_Update p),
     ey_Unchanged = word_of_int (pv_Unchanged p), ey_Changes = map syncChangeToPB (pv_Changes p)\<rparr>"

definition executeToPB :: "Result \<Rightarrow> SyncExecuteMsg" where
  "executeToPB r = \<lparr>ex_Created = word_of_int (rs_Created r), ex_Updated = word_of_int (rs_Updated r), ex_Skipped = word_of_int (rs_Skipped r),
     ex_Errors = rs_Errors r, ex_Changes = map syncChangeToPB (rs_Changes r)\<rparr>"

text \<open>
  \<^verbatim>\<open>categoryTreeToPB\<close> and \<^verbatim>\<open>locationTreeToPB\<close> follow the pointers \<^verbatim>\<open>BuildTree\<close> set: here the rows by id, the children of
  each and the ids to convert. A path through the nodes visits each once, so as many levels as there are nodes are
  enough fuel (\<open>tree_ids_all\<close>).
\<close>

fun treeToPB :: "('v \<Rightarrow> 'm) \<Rightarrow> 'v tab \<Rightarrow> string list tab \<Rightarrow> nat \<Rightarrow> string list \<Rightarrow> 'm MsgTree list" where
  "treeToPB conv nodes ch 0 ids = []"
| "treeToPB conv nodes ch (Suc n) ids = concat (map (\<lambda>i. case map_of nodes i of None \<Rightarrow> []
     | Some v \<Rightarrow> [MsgNode (conv v) (treeToPB conv nodes ch n (case map_of ch i of None \<Rightarrow> [] | Some l \<Rightarrow> l))]) ids)"

definition categoryTreeToPB :: "Category tab \<times> Forest \<Rightarrow> CategoryMsg MsgTree list" where
  "categoryTreeToPB t = treeToPB categoryToPB (fst t) (kids (snd t)) (length (fst t)) (roots (snd t))"

definition locationTreeToPB :: "Location tab \<times> Forest \<Rightarrow> LocationMsg MsgTree list" where
  "locationTreeToPB t = treeToPB locationToPB (fst t) (kids (snd t)) (length (fst t)) (roots (snd t))"

end
