(* ===== verification/User_Listing.thy ===== *)
theory User_Listing
  imports Ports
begin

text \<open>
  \<^verbatim>\<open>ListUsers\<close> of \<^verbatim>\<open>internal/userdir/userdir.go\<close>. The auth service behind it is remote: \<open>members\<close> and \<open>lookup\<close> are
  the answers of its two calls for a tenant, one page of member ids with the cursor of the next page, and the
  profiles of some ids. Nothing bounds the number of pages, so the loop over them may fail to return (\<open>None\<close>);
  \<open>member_pages_all\<close> shows that it returns every member of a service whose pages end.
\<close>

partial_function (option) member_pages ::
    "(string \<Rightarrow> string + string list \<times> string) \<Rightarrow> string \<Rightarrow> string list \<Rightarrow> (string + string list) option" where
  "member_pages members cursor ids =
     (case members cursor of
        Inl e \<Rightarrow> Some (Inl e)
      | Inr (us, nxt) \<Rightarrow> if nxt = [] \<or> us = [] then Some (Inr (ids @ us)) else member_pages members nxt (ids @ us))"

function lookup_chunks :: "(string list \<Rightarrow> string + User list) \<Rightarrow> string list \<Rightarrow> User list \<Rightarrow> string + User list" where
  "lookup_chunks lookup ids out =
     (if ids = [] then Inr out
      else case lookup (take 100 ids) of Inl e \<Rightarrow> Inl e | Inr ps \<Rightarrow> lookup_chunks lookup (drop 100 ids) (out @ ps))"
  by pat_completeness auto

termination
  by (relation "measure (\<lambda>(lookup, ids, out). length ids)") auto

declare lookup_chunks.simps [simp del]

definition Auth_ListUsers :: "(string \<Rightarrow> string) \<Rightarrow> (string \<Rightarrow> string \<Rightarrow> string + string list \<times> string) \<Rightarrow>
    (string \<Rightarrow> string list \<Rightarrow> string + User list) \<Rightarrow> string \<Rightarrow> (dir_err + User list) option" where
  "Auth_ListUsers uni members lookup tenantID =
     (case member_pages (members tenantID) [] [] of
        None \<Rightarrow> None
      | Some (Inl e) \<Rightarrow> Some (Inl (DirFailed e))
      | Some (Inr ids) \<Rightarrow> (case lookup_chunks (lookup tenantID) ids [] of
          Inl e \<Rightarrow> Some (Inl (DirFailed e))
        | Inr out \<Rightarrow> Some (Inr (sort_key (\<lambda>u. ToLower uni (u_DisplayName u)) out))))"

definition Fake_ListUsers :: "User tab tab \<Rightarrow> string option \<Rightarrow> string \<Rightarrow> dir_err + User list" where
  "Fake_ListUsers users err tenantID =
     (case err of
        Some e \<Rightarrow> Inl (DirFailed e)
      | None \<Rightarrow> Inr (sort_key u_DisplayName (vals (case map_of users tenantID of None \<Rightarrow> [] | Some m \<Rightarrow> m))))"

text \<open>\<open>serves members c pages\<close>: from cursor \<open>c\<close> on the service answers with these pages, and then ends.\<close>

fun serves :: "(string \<Rightarrow> string + string list \<times> string) \<Rightarrow> string \<Rightarrow> string list list \<Rightarrow> bool" where
  "serves members c [] = False"
| "serves members c [us] = (members c = Inr (us, []))"
| "serves members c (us # rest) = (us \<noteq> [] \<and> (\<exists>n. n \<noteq> [] \<and> members c = Inr (us, n) \<and> serves members n rest))"

lemma member_pages_all: "serves members c pages \<Longrightarrow> member_pages members c ids = Some (Inr (ids @ concat pages))"
  by (induction members c pages arbitrary: ids rule: serves.induct) (subst member_pages.simps, auto)+

lemma lookup_chunks_all:
  assumes "\<And>is. lookup is = Inr (map f is)"
  shows "lookup_chunks lookup ids out = Inr (out @ map f ids)"
proof (induction "length ids" arbitrary: ids out rule: less_induct)
  case less
  then show ?case
    by (subst lookup_chunks.simps) (simp add: assms flip: map_append)
qed

text \<open>Every member is listed with its profile, and no one else, by name without regard to case.\<close>

lemma Auth_ListUsers_all:
  assumes "serves (members t) [] pages" and "\<And>is. lookup t is = Inr (map f is)"
  shows "Auth_ListUsers uni members lookup t =
    Some (Inr (sort_key (\<lambda>u. ToLower uni (u_DisplayName u)) (map f (concat pages))))"
  using lookup_chunks_all [of "lookup t" f, OF assms(2)] assms(1) by (simp add: Auth_ListUsers_def member_pages_all)

end
