(* ===== verification/Grpc_Api.thy ===== *)
theory Grpc_Api
  imports Grpc_Map User_Listing
begin

text \<open>
  \<^verbatim>\<open>internal/grpcapi/server.go\<close> and \<^verbatim>\<open>servers.go\<close>: the module-to-module API. Each method of a server is one definition;
  its request is given field by field. \<open>peer\<close> is the SPIFFE identity of the calling service, if it has one.
  \<open>Panic\<close> is the nil dereference of a method whose optional service is not wired.
\<close>

section \<open>Callers and errors\<close>

datatype rpc_code = Unauthenticated | InvalidArgument | CodeNotFound | PermissionDenied | FailedPrecondition
  | ResourceExhausted | CodeUnavailable

datatype rpc_err = Status rpc_code string | Panic

definition is_hex :: "char \<Rightarrow> bool" where
  "is_hex c \<longleftrightarrow> c \<in> set ''0123456789abcdefABCDEF''"

text \<open>\<^verbatim>\<open>uuidRE\<close>: groups of 8, 4, 4, 4 and 12 hexadecimal digits, joined by hyphens.\<close>

definition uuidRE :: "string \<Rightarrow> bool" where
  "uuidRE s \<longleftrightarrow> map length (Split (CHR ''-'') s) = [8, 4, 4, 4, 12] \<and> list_all (list_all is_hex) (Split (CHR ''-'') s)"

definition caller :: "string option \<Rightarrow> string \<Rightarrow> rpc_err + Subjects" where
  "caller peer tenantID =
     (case peer of
        None \<Rightarrow> Inl (Status Unauthenticated ''service identity required'')
      | Some i \<Rightarrow> if \<not> uuidRE tenantID then Inl (Status InvalidArgument ''tenant_id must be a uuid'')
          else Inr \<lparr>TenantID = tenantID, UserID = i, Roles = [], ActorKind = ActorService\<rparr>)"

text \<open>
  \<^verbatim>\<open>grpcError\<close>, in the order of its cases. The not-found, conflict, in-use and validation sentinels of the services
  are constructors of \<open>svc_err\<close>; those of the document service are constructors of \<open>doc_err\<close>.
\<close>

fun not_found :: "doc_err \<Rightarrow> bool" where
  "not_found (DocSvc NotFound) = True"
| "not_found (DocSvc (StoreErr RNotFound)) = True"
| "not_found DocNotFound = True"
| "not_found _ = False"

fun denied :: "doc_err \<Rightarrow> bool" where
  "denied (DocSvc (Forbidden m)) = True"
| "denied CrossTenant = True"
| "denied _ = False"

fun invalid :: "doc_err \<Rightarrow> bool" where
  "invalid (DocSvc (Validation m)) = True"
| "invalid (DocValidation m) = True"
| "invalid EntityTypeErr = True"
| "invalid _ = False"

fun conflicting :: "doc_err \<Rightarrow> bool" where
  "conflicting (DocSvc Conflict) = True"
| "conflicting (DocSvc (StateRefused m)) = True"
| "conflicting (DocSvc InUse) = True"
| "conflicting (DocSvc (StoreErr RConflict)) = True"
| "conflicting (DocSvc (StoreErr RNotEmpty)) = True"
| "conflicting _ = False"

fun unreachable :: "doc_err \<Rightarrow> bool" where
  "unreachable (DocSvc (Unavailable m)) = True"
| "unreachable _ = False"

definition grpcError :: "doc_err \<Rightarrow> rpc_err" where
  "grpcError err =
     (if not_found err then Status CodeNotFound ''not_found''
      else if denied err then Status PermissionDenied ''forbidden''
      else if invalid err \<or> err = MediaType then Status InvalidArgument ''validation_failed''
      else if conflicting err then Status FailedPrecondition ''conflict''
      else if err = TooLarge then Status ResourceExhausted ''body_too_large''
      else if unreachable err then Status CodeUnavailable ''inventory_unavailable''
      else Status CodeUnavailable ''temporarily_unavailable'')"

text \<open>An error of the user directory, and \<^verbatim>\<open>errUnavailableSync\<close>, fall through to the last case.\<close>

definition temporarily_unavailable :: rpc_err where
  "temporarily_unavailable = Status CodeUnavailable ''temporarily_unavailable''"

record 'z Deps =
  dp_Assets :: "'z AssetService"
  dp_Categories :: Recorder
  dp_Suppliers :: ContactService
  dp_Locations :: ContactService
  dp_Consumables :: Recorder
  dp_Licenses :: Recorder
  dp_Insurance :: Recorder
  dp_Documents :: "'z DocService option"
  dp_presignTTL :: int
  dp_Sync :: "InvsyncService option"
  dp_Stats :: "StatsService option"
  dp_Users :: "(string \<Rightarrow> dir_err + User list) option"
  dp_Health :: "string tab option"
  dp_fold :: "string \<Rightarrow> string"

text \<open>
  The frame of every method: \<^verbatim>\<open>subj, err := caller(ctx, req.GetTenantId())\<close>, the call of the service, \<^verbatim>\<open>grpcError\<close> on its
  error and the conversion of its result.
\<close>

definition as_caller :: "string option \<Rightarrow> string \<Rightarrow> (Subjects \<Rightarrow> ('s, rpc_err, 'a) prog) \<Rightarrow> ('s, rpc_err, 'a) prog" where
  "as_caller peer tenantID m = (case caller peer tenantID of Inl e \<Rightarrow> fail_with e | Inr subj \<Rightarrow> m subj)"

definition reply :: "('a \<Rightarrow> 'b) \<Rightarrow> ('s, svc_err, 'a) prog \<Rightarrow> ('s, rpc_err, 'b) prog" where
  "reply conv m = try_as (\<lambda>e. grpcError (DocSvc e)) m (\<lambda>v. ok (conv v))"

definition doc_reply :: "('a \<Rightarrow> 'b) \<Rightarrow> ('s, doc_err, 'a) prog \<Rightarrow> ('s, rpc_err, 'b) prog" where
  "doc_reply conv m = try_as grpcError m (\<lambda>v. ok (conv v))"

text \<open>\<^verbatim>\<open>d.Documents\<close> where the code uses it without a test.\<close>

definition with_documents :: "'z Deps \<Rightarrow> ('z DocService \<Rightarrow> ('s, rpc_err, 'a) prog) \<Rightarrow> ('s, rpc_err, 'a) prog" where
  "with_documents d m = (case dp_Documents d of None \<Rightarrow> fail_with Panic | Some ds \<Rightarrow> m ds)"

section \<open>Documents\<close>

definition listDocuments :: "'z Deps \<Rightarrow> string option \<Rightarrow> string \<Rightarrow> string \<Rightarrow> string \<Rightarrow> ('z world_scheme, rpc_err, DocumentMsg list) prog" where
  "listDocuments d peer typ tenantID entityID = as_caller peer tenantID (\<lambda>subj. with_documents d (\<lambda>ds.
     doc_reply (map documentToPB) (Documents_List subj typ entityID)))"

definition uploadDocument :: "'z Deps \<Rightarrow> string option \<Rightarrow> string \<Rightarrow> string \<Rightarrow> string \<Rightarrow> string \<Rightarrow> string \<Rightarrow> string \<Rightarrow> string \<Rightarrow>
    ('z world_scheme, rpc_err, DocumentMsg) prog" where
  "uploadDocument d peer typ tenantID entityID fileName mimeType description content = as_caller peer tenantID (\<lambda>subj.
     with_documents d (\<lambda>ds. doc_reply documentToPB (Upload ds subj typ entityID \<lparr>up_FileName = fileName, up_MimeType = mimeType,
       up_Size = int (length content), up_Body = content, up_Description = description\<rparr>)))"

definition deleteDocument :: "'z Deps \<Rightarrow> string option \<Rightarrow> string \<Rightarrow> string \<Rightarrow> string \<Rightarrow> string \<Rightarrow> ('z world_scheme, rpc_err, unit) prog" where
  "deleteDocument d peer typ tenantID entityID documentID = as_caller peer tenantID (\<lambda>subj. with_documents d (\<lambda>ds.
     doc_reply id (Documents_Delete ds subj typ entityID documentID)))"

definition downloadDocument :: "'z Deps \<Rightarrow> string option \<Rightarrow> string \<Rightarrow> string \<Rightarrow> string \<Rightarrow> string \<Rightarrow>
    ('z world_scheme, rpc_err, DocumentMsg \<times> string) prog" where
  "downloadDocument d peer typ tenantID entityID documentID = as_caller peer tenantID (\<lambda>subj. with_documents d (\<lambda>ds.
     try_as grpcError (DownloadURL (dp_presignTTL d) subj typ entityID documentID) (\<lambda>url.
     doc_reply (\<lambda>(_, doc). (documentToPB doc, url)) (Download ds subj typ entityID documentID))))"

section \<open>Assets\<close>

definition rpc_CreateAsset :: "'z Deps \<Rightarrow> string option \<Rightarrow> string \<Rightarrow> AssetInputMsg \<Rightarrow> ('z world_scheme, rpc_err, AssetMsg) prog" where
  "rpc_CreateAsset d peer tenantID i = as_caller peer tenantID (\<lambda>subj. reply assetToPB (Assets_Create (dp_Assets d) subj (assetFromPB i)))"

definition rpc_GetAsset :: "'z Deps \<Rightarrow> string option \<Rightarrow> string \<Rightarrow> string \<Rightarrow> ('z world_scheme, rpc_err, AssetMsg) prog" where
  "rpc_GetAsset d peer tenantID i = as_caller peer tenantID (\<lambda>subj. reply assetToPB (Assets_Get (dp_Assets d) subj i))"

definition rpc_ListAssets :: "'z Deps \<Rightarrow> string option \<Rightarrow> string \<Rightarrow> AssetFilter \<Rightarrow> 32 word \<Rightarrow> ('z world_scheme, rpc_err, AssetMsg list) prog" where
  "rpc_ListAssets d peer tenantID f limit = as_caller peer tenantID (\<lambda>subj. reply (map assetToPB) (Assets_List (dp_Assets d) subj (f\<lparr>f_Limit := sint limit\<rparr>)))"

definition rpc_UpdateAsset :: "'z Deps \<Rightarrow> string option \<Rightarrow> string \<Rightarrow> string \<Rightarrow> AssetInputMsg \<Rightarrow> ('z world_scheme, rpc_err, AssetMsg) prog" where
  "rpc_UpdateAsset d peer tenantID i inp = as_caller peer tenantID (\<lambda>subj. reply assetToPB (Assets_Update (dp_Assets d) subj i (assetFromPB inp)))"

definition rpc_DeleteAsset :: "'z Deps \<Rightarrow> string option \<Rightarrow> string \<Rightarrow> string \<Rightarrow> ('z world_scheme, rpc_err, unit) prog" where
  "rpc_DeleteAsset d peer tenantID i = as_caller peer tenantID (\<lambda>subj. reply id (Assets_Delete (dp_Assets d) subj i))"

definition rpc_AssignAsset :: "'z Deps \<Rightarrow> string option \<Rightarrow> string \<Rightarrow> string \<Rightarrow> string \<Rightarrow> string \<Rightarrow> ('z world_scheme, rpc_err, AssetMsg) prog" where
  "rpc_AssignAsset d peer tenantID i userID notes = as_caller peer tenantID (\<lambda>subj. reply assetToPB (Assets_Assign (dp_Assets d) subj i userID notes))"

definition rpc_UnassignAsset :: "'z Deps \<Rightarrow> string option \<Rightarrow> string \<Rightarrow> string \<Rightarrow> string \<Rightarrow> string \<Rightarrow> ('z world_scheme, rpc_err, AssetMsg) prog" where
  "rpc_UnassignAsset d peer tenantID i locationID notes = as_caller peer tenantID (\<lambda>subj. reply assetToPB (Assets_Unassign (dp_Assets d) subj i locationID notes))"

definition rpc_GetAssignmentHistory :: "'z Deps \<Rightarrow> string option \<Rightarrow> string \<Rightarrow> string \<Rightarrow> 32 word \<Rightarrow> ('z world_scheme, rpc_err, AssignmentMsg list) prog" where
  "rpc_GetAssignmentHistory d peer tenantID i limit = as_caller peer tenantID (\<lambda>subj. reply (map assignmentToPB) (Assets_Assignments subj i (sint limit)))"

definition rpc_UploadPhoto :: "'z Deps \<Rightarrow> string option \<Rightarrow> string \<Rightarrow> string \<Rightarrow> string \<Rightarrow> string \<Rightarrow> ('z world_scheme, rpc_err, AssetMsg) prog" where
  "rpc_UploadPhoto d peer tenantID i mimeType content = as_caller peer tenantID (\<lambda>subj. with_documents d (\<lambda>ds.
     try_as grpcError (UploadPhoto ds subj i \<lparr>up_FileName = ''photo'', up_MimeType = mimeType, up_Size = int (length content),
       up_Body = content, up_Description = []\<rparr>) (\<lambda>_. reply assetToPB (Assets_Get (dp_Assets d) subj i))))"

definition rpc_DeletePhoto :: "'z Deps \<Rightarrow> string option \<Rightarrow> string \<Rightarrow> string \<Rightarrow> ('z world_scheme, rpc_err, unit) prog" where
  "rpc_DeletePhoto d peer tenantID i = as_caller peer tenantID (\<lambda>subj. with_documents d (\<lambda>ds. doc_reply id (DeletePhoto ds subj i)))"

definition rpc_InventorySyncPreview :: "'z Deps \<Rightarrow> string option \<Rightarrow> string \<Rightarrow> ('z world_scheme, rpc_err, SyncPreviewMsg) prog" where
  "rpc_InventorySyncPreview d peer tenantID = as_caller peer tenantID (\<lambda>subj. case dp_Sync d of
     None \<Rightarrow> fail_with temporarily_unavailable
   | Some sync \<Rightarrow> reply previewToPB (Sync_Preview sync subj))"

definition rpc_InventorySyncExecute :: "'z Deps \<Rightarrow> string option \<Rightarrow> string \<Rightarrow> string list \<Rightarrow> ('z world_scheme, rpc_err, SyncExecuteMsg) prog" where
  "rpc_InventorySyncExecute d peer tenantID hostnames = as_caller peer tenantID (\<lambda>subj. case dp_Sync d of
     None \<Rightarrow> fail_with temporarily_unavailable
   | Some sync \<Rightarrow> reply executeToPB (Execute sync subj hostnames))"

section \<open>Categories, suppliers, locations\<close>

definition rpc_CreateCategory :: "'z Deps \<Rightarrow> string option \<Rightarrow> string \<Rightarrow> CategoryInputMsg \<Rightarrow> ('z world_scheme, rpc_err, CategoryMsg) prog" where
  "rpc_CreateCategory d peer tenantID i = as_caller peer tenantID (\<lambda>subj. reply categoryToPB (Categories_Create (dp_Categories d) subj (categoryFromPB i)))"

definition rpc_GetCategory :: "'z Deps \<Rightarrow> string option \<Rightarrow> string \<Rightarrow> string \<Rightarrow> ('z world_scheme, rpc_err, CategoryMsg) prog" where
  "rpc_GetCategory d peer tenantID i = as_caller peer tenantID (\<lambda>subj. reply categoryToPB (Categories_Get subj i))"

definition rpc_ListCategories :: "'z Deps \<Rightarrow> string option \<Rightarrow> string \<Rightarrow> ('z world_scheme, rpc_err, CategoryMsg list) prog" where
  "rpc_ListCategories d peer tenantID = as_caller peer tenantID (\<lambda>subj. reply (map categoryToPB) (Categories_List (dp_Categories d) subj))"

definition rpc_UpdateCategory :: "'z Deps \<Rightarrow> string option \<Rightarrow> string \<Rightarrow> string \<Rightarrow> CategoryInputMsg \<Rightarrow> ('z world_scheme, rpc_err, CategoryMsg) prog" where
  "rpc_UpdateCategory d peer tenantID i inp = as_caller peer tenantID (\<lambda>subj. reply categoryToPB (Categories_Update (dp_Categories d) subj i (categoryFromPB inp)))"

definition rpc_DeleteCategory :: "'z Deps \<Rightarrow> string option \<Rightarrow> string \<Rightarrow> string \<Rightarrow> ('z world_scheme, rpc_err, unit) prog" where
  "rpc_DeleteCategory d peer tenantID i = as_caller peer tenantID (\<lambda>subj. reply id (Categories_Delete (dp_Categories d) subj i))"

definition rpc_GetCategoryTree :: "'z Deps \<Rightarrow> string option \<Rightarrow> string \<Rightarrow> ('z world_scheme, rpc_err, CategoryMsg MsgTree list) prog" where
  "rpc_GetCategoryTree d peer tenantID = as_caller peer tenantID (\<lambda>subj. reply categoryTreeToPB (Categories_Tree (dp_Categories d) subj))"

definition rpc_CreateSupplier :: "'z Deps \<Rightarrow> string option \<Rightarrow> string \<Rightarrow> SupplierInputMsg \<Rightarrow> ('z world_scheme, rpc_err, SupplierMsg) prog" where
  "rpc_CreateSupplier d peer tenantID i = as_caller peer tenantID (\<lambda>subj. reply supplierToPB (Suppliers_Create (dp_Suppliers d) subj (supplierFromPB i)))"

definition rpc_GetSupplier :: "'z Deps \<Rightarrow> string option \<Rightarrow> string \<Rightarrow> string \<Rightarrow> ('z world_scheme, rpc_err, SupplierMsg) prog" where
  "rpc_GetSupplier d peer tenantID i = as_caller peer tenantID (\<lambda>subj. reply supplierToPB (Suppliers_Get (dp_Suppliers d) subj i))"

definition rpc_ListSuppliers :: "'z Deps \<Rightarrow> string option \<Rightarrow> string \<Rightarrow> ListOpts \<Rightarrow> 32 word \<Rightarrow> ('z world_scheme, rpc_err, SupplierMsg list) prog" where
  "rpc_ListSuppliers d peer tenantID f limit = as_caller peer tenantID (\<lambda>subj. reply (map supplierToPB) (Suppliers_List (dp_Suppliers d) subj (f\<lparr>o_Limit := sint limit\<rparr>)))"

definition rpc_UpdateSupplier :: "'z Deps \<Rightarrow> string option \<Rightarrow> string \<Rightarrow> string \<Rightarrow> SupplierInputMsg \<Rightarrow> ('z world_scheme, rpc_err, SupplierMsg) prog" where
  "rpc_UpdateSupplier d peer tenantID i inp = as_caller peer tenantID (\<lambda>subj. reply supplierToPB (Suppliers_Update (dp_Suppliers d) subj i (supplierFromPB inp)))"

definition rpc_DeleteSupplier :: "'z Deps \<Rightarrow> string option \<Rightarrow> string \<Rightarrow> string \<Rightarrow> ('z world_scheme, rpc_err, unit) prog" where
  "rpc_DeleteSupplier d peer tenantID i = as_caller peer tenantID (\<lambda>subj. reply id (Suppliers_Delete (dp_Suppliers d) subj i))"

definition rpc_CreateLocation :: "'z Deps \<Rightarrow> string option \<Rightarrow> string \<Rightarrow> LocationInputMsg \<Rightarrow> ('z world_scheme, rpc_err, LocationMsg) prog" where
  "rpc_CreateLocation d peer tenantID i = as_caller peer tenantID (\<lambda>subj. reply locationToPB (Locations_Create (dp_Locations d) subj (locationFromPB i)))"

definition rpc_GetLocation :: "'z Deps \<Rightarrow> string option \<Rightarrow> string \<Rightarrow> string \<Rightarrow> ('z world_scheme, rpc_err, LocationMsg) prog" where
  "rpc_GetLocation d peer tenantID i = as_caller peer tenantID (\<lambda>subj. reply locationToPB (Locations_Get (dp_Locations d) subj i))"

definition rpc_ListLocations :: "'z Deps \<Rightarrow> string option \<Rightarrow> string \<Rightarrow> ('z world_scheme, rpc_err, LocationMsg list) prog" where
  "rpc_ListLocations d peer tenantID = as_caller peer tenantID (\<lambda>subj. reply (map locationToPB) (Locations_List (dp_Locations d) subj))"

definition rpc_UpdateLocation :: "'z Deps \<Rightarrow> string option \<Rightarrow> string \<Rightarrow> string \<Rightarrow> LocationInputMsg \<Rightarrow> ('z world_scheme, rpc_err, LocationMsg) prog" where
  "rpc_UpdateLocation d peer tenantID i inp = as_caller peer tenantID (\<lambda>subj. reply locationToPB (Locations_Update (dp_Locations d) subj i (locationFromPB inp)))"

definition rpc_DeleteLocation :: "'z Deps \<Rightarrow> string option \<Rightarrow> string \<Rightarrow> string \<Rightarrow> ('z world_scheme, rpc_err, unit) prog" where
  "rpc_DeleteLocation d peer tenantID i = as_caller peer tenantID (\<lambda>subj. reply id (Locations_Delete (dp_Locations d) subj i))"

definition rpc_GetLocationTree :: "'z Deps \<Rightarrow> string option \<Rightarrow> string \<Rightarrow> ('z world_scheme, rpc_err, LocationMsg MsgTree list) prog" where
  "rpc_GetLocationTree d peer tenantID = as_caller peer tenantID (\<lambda>subj. reply locationTreeToPB (Locations_Tree (dp_Locations d) subj))"

section \<open>Consumables and licenses\<close>

text \<open>
  Deleting a consumable or a license: the documents are listed before the row goes, because the listing asks for
  the row, and purged after it; an error of the listing is dropped.
\<close>

definition documents_of :: "'z Deps \<Rightarrow> Subjects \<Rightarrow> string \<Rightarrow> string \<Rightarrow> ('z world_scheme, Document list) state" where
  "documents_of d subj typ i = (case dp_Documents d of
     None \<Rightarrow> State_Monad.return []
   | Some ds \<Rightarrow> do { r \<leftarrow> Documents_List subj typ i; State_Monad.return (case r of Inl _ \<Rightarrow> [] | Inr rows \<Rightarrow> rows) })"

definition purge_documents :: "'z Deps \<Rightarrow> Subjects \<Rightarrow> Document list \<Rightarrow> ('z world_scheme, unit) state" where
  "purge_documents d subj rows = (case dp_Documents d of
     None \<Rightarrow> State_Monad.return ()
   | Some ds \<Rightarrow> PurgeRows ds (TenantID subj) rows)"

definition rpc_CreateConsumable :: "'z Deps \<Rightarrow> string option \<Rightarrow> string \<Rightarrow> ConsumableInputMsg \<Rightarrow> ('z world_scheme, rpc_err, ConsumableMsg) prog" where
  "rpc_CreateConsumable d peer tenantID i = as_caller peer tenantID (\<lambda>subj. reply consumableToPB (Consumables_Create (dp_Consumables d) subj (consumableFromPB i)))"

definition rpc_GetConsumable :: "'z Deps \<Rightarrow> string option \<Rightarrow> string \<Rightarrow> string \<Rightarrow> ('z world_scheme, rpc_err, ConsumableMsg) prog" where
  "rpc_GetConsumable d peer tenantID i = as_caller peer tenantID (\<lambda>subj. reply consumableToPB (Consumables_Get subj i))"

definition rpc_ListConsumables :: "'z Deps \<Rightarrow> string option \<Rightarrow> string \<Rightarrow> ListOpts \<Rightarrow> 32 word \<Rightarrow> ('z world_scheme, rpc_err, ConsumableMsg list) prog" where
  "rpc_ListConsumables d peer tenantID f limit = as_caller peer tenantID (\<lambda>subj. reply (map consumableToPB) (Consumables_List (dp_Consumables d) subj (f\<lparr>o_Limit := sint limit\<rparr>)))"

definition rpc_UpdateConsumable :: "'z Deps \<Rightarrow> string option \<Rightarrow> string \<Rightarrow> string \<Rightarrow> ConsumableInputMsg \<Rightarrow> ('z world_scheme, rpc_err, ConsumableMsg) prog" where
  "rpc_UpdateConsumable d peer tenantID i inp = as_caller peer tenantID (\<lambda>subj. reply consumableToPB (Consumables_Update (dp_Consumables d) subj i (consumableFromPB inp)))"

definition rpc_DeleteConsumable :: "'z Deps \<Rightarrow> string option \<Rightarrow> string \<Rightarrow> string \<Rightarrow> ('z world_scheme, rpc_err, unit) prog" where
  "rpc_DeleteConsumable d peer tenantID i = as_caller peer tenantID (\<lambda>subj. do {
     rows \<leftarrow> documents_of d subj EntityConsumable i;
     try_as (\<lambda>e. grpcError (DocSvc e)) (Consumables_Delete (dp_Consumables d) subj i) (\<lambda>_. do {
       purge_documents d subj rows;
       ok ()
     })
   })"

definition rpc_CreateLicense :: "'z Deps \<Rightarrow> string option \<Rightarrow> string \<Rightarrow> LicenseInputMsg \<Rightarrow> ('z world_scheme, rpc_err, LicenseMsg) prog" where
  "rpc_CreateLicense d peer tenantID i = as_caller peer tenantID (\<lambda>subj. reply licenseToPB (Licenses_Create (dp_Licenses d) subj (licenseFromPB i)))"

definition rpc_GetLicense :: "'z Deps \<Rightarrow> string option \<Rightarrow> string \<Rightarrow> string \<Rightarrow> ('z world_scheme, rpc_err, LicenseMsg) prog" where
  "rpc_GetLicense d peer tenantID i = as_caller peer tenantID (\<lambda>subj. reply licenseToPB (Licenses_Get subj i))"

definition rpc_ListLicenses :: "'z Deps \<Rightarrow> string option \<Rightarrow> string \<Rightarrow> ListOpts \<Rightarrow> 32 word \<Rightarrow> ('z world_scheme, rpc_err, LicenseMsg list) prog" where
  "rpc_ListLicenses d peer tenantID f limit = as_caller peer tenantID (\<lambda>subj. reply (map licenseToPB) (Licenses_List (dp_Licenses d) subj (f\<lparr>o_Limit := sint limit\<rparr>)))"

definition rpc_UpdateLicense :: "'z Deps \<Rightarrow> string option \<Rightarrow> string \<Rightarrow> string \<Rightarrow> LicenseInputMsg \<Rightarrow> ('z world_scheme, rpc_err, LicenseMsg) prog" where
  "rpc_UpdateLicense d peer tenantID i inp = as_caller peer tenantID (\<lambda>subj. reply licenseToPB (Licenses_Update (dp_Licenses d) subj i (licenseFromPB inp)))"

definition rpc_DeleteLicense :: "'z Deps \<Rightarrow> string option \<Rightarrow> string \<Rightarrow> string \<Rightarrow> ('z world_scheme, rpc_err, unit) prog" where
  "rpc_DeleteLicense d peer tenantID i = as_caller peer tenantID (\<lambda>subj. do {
     rows \<leftarrow> documents_of d subj EntityLicense i;
     try_as (\<lambda>e. grpcError (DocSvc e)) (Licenses_Delete (dp_Licenses d) subj i) (\<lambda>_. do {
       purge_documents d subj rows;
       ok ()
     })
   })"

section \<open>Insurance\<close>

definition rpc_CreateInsurancePolicy :: "'z Deps \<Rightarrow> string option \<Rightarrow> string \<Rightarrow> InsurancePolicyInputMsg \<Rightarrow> ('z world_scheme, rpc_err, InsurancePolicyMsg) prog" where
  "rpc_CreateInsurancePolicy d peer tenantID i = as_caller peer tenantID (\<lambda>subj. reply policyToPB (Insurance_Create (dp_Insurance d) subj (policyFromPB i)))"

definition rpc_GetInsurancePolicy :: "'z Deps \<Rightarrow> string option \<Rightarrow> string \<Rightarrow> string \<Rightarrow> ('z world_scheme, rpc_err, InsurancePolicyMsg) prog" where
  "rpc_GetInsurancePolicy d peer tenantID i = as_caller peer tenantID (\<lambda>subj. reply policyToPB (Insurance_Get subj i))"

definition rpc_ListInsurancePolicies :: "'z Deps \<Rightarrow> string option \<Rightarrow> string \<Rightarrow> ListOpts \<Rightarrow> 32 word \<Rightarrow> ('z world_scheme, rpc_err, InsurancePolicyMsg list) prog" where
  "rpc_ListInsurancePolicies d peer tenantID f limit = as_caller peer tenantID (\<lambda>subj. reply (map policyToPB) (Insurance_List (dp_Insurance d) subj (f\<lparr>o_Limit := sint limit\<rparr>)))"

definition rpc_UpdateInsurancePolicy :: "'z Deps \<Rightarrow> string option \<Rightarrow> string \<Rightarrow> string \<Rightarrow> InsurancePolicyInputMsg \<Rightarrow> ('z world_scheme, rpc_err, InsurancePolicyMsg) prog" where
  "rpc_UpdateInsurancePolicy d peer tenantID i inp = as_caller peer tenantID (\<lambda>subj. reply policyToPB (Insurance_Update (dp_Insurance d) subj i (policyFromPB inp)))"

definition rpc_DeleteInsurancePolicy :: "'z Deps \<Rightarrow> string option \<Rightarrow> string \<Rightarrow> string \<Rightarrow> ('z world_scheme, rpc_err, unit) prog" where
  "rpc_DeleteInsurancePolicy d peer tenantID i = as_caller peer tenantID (\<lambda>subj. reply id (Insurance_Delete (dp_Insurance d) subj i))"

definition rpc_ListPolicyAssets :: "'z Deps \<Rightarrow> string option \<Rightarrow> string \<Rightarrow> string \<Rightarrow> ('z world_scheme, rpc_err, PolicyAssetMsg list) prog" where
  "rpc_ListPolicyAssets d peer tenantID policyID = as_caller peer tenantID (\<lambda>subj. reply (map policyAssetToPB) (Insurance_ListPolicyAssets subj policyID))"

definition rpc_AddAssetToPolicy :: "'z Deps \<Rightarrow> string option \<Rightarrow> string \<Rightarrow> string \<Rightarrow> string \<Rightarrow> real \<Rightarrow> string \<Rightarrow> ('z world_scheme, rpc_err, PolicyAssetMsg) prog" where
  "rpc_AddAssetToPolicy d peer tenantID policyID assetID coveredValue notes = as_caller peer tenantID (\<lambda>subj. reply policyAssetToPB (AddAssetToPolicy (dp_Insurance d) subj policyID assetID coveredValue notes))"

definition rpc_RemoveAssetFromPolicy :: "'z Deps \<Rightarrow> string option \<Rightarrow> string \<Rightarrow> string \<Rightarrow> string \<Rightarrow> ('z world_scheme, rpc_err, unit) prog" where
  "rpc_RemoveAssetFromPolicy d peer tenantID policyID assetID = as_caller peer tenantID (\<lambda>subj. reply id (RemoveAssetFromPolicy (dp_Insurance d) subj policyID assetID))"

section \<open>Users and the system\<close>

definition names_user :: "(string \<Rightarrow> string) \<Rightarrow> string \<Rightarrow> User \<Rightarrow> bool" where
  "names_user uni q u \<longleftrightarrow> q = [] \<or> Contains (ToLower uni (u_DisplayName u)) q \<or> Contains (ToLower uni (u_ID u)) q"

definition userToPB :: "User \<Rightarrow> UserMsg" where
  "userToPB u = \<lparr>um_Id = u_ID u, um_DisplayName = u_DisplayName u, um_AvatarUrl = u_AvatarURL u\<rparr>"

definition rpc_ListUsers :: "'z Deps \<Rightarrow> string option \<Rightarrow> string \<Rightarrow> string \<Rightarrow> ('z world_scheme, rpc_err, UserMsg list) prog" where
  "rpc_ListUsers d peer tenantID query = as_caller peer tenantID (\<lambda>subj. case dp_Users d of
     None \<Rightarrow> ok []
   | Some dir \<Rightarrow> (case dir (TenantID subj) of
       Inl _ \<Rightarrow> fail_with temporarily_unavailable
     | Inr us \<Rightarrow> ok (map userToPB (filter (names_user (dp_fold d) (ToLower (dp_fold d) query)) us))))"

definition rpc_Health :: "'z Deps \<Rightarrow> string \<times> string tab" where
  "rpc_Health d = (case dp_Health d of
     None \<Rightarrow> (''ok'', [])
   | Some comps \<Rightarrow> (if \<exists>v\<in>set (vals comps). v \<noteq> ''ok'' then ''degraded'' else ''ok'', comps))"

definition rpc_GetDashboardStats :: "'z Deps \<Rightarrow> string option \<Rightarrow> string \<Rightarrow> ('z world_scheme, rpc_err, DashboardStatsMsg) prog" where
  "rpc_GetDashboardStats d peer tenantID = as_caller peer tenantID (\<lambda>subj. case dp_Stats d of
     None \<Rightarrow> fail_with temporarily_unavailable
   | Some stats \<Rightarrow> reply statsToPB (Stats_Get stats subj))"

end
