(* ===== verification/Config.thy ===== *)
theory Config
  imports Scheduler
begin

text \<open>
  \<^verbatim>\<open>internal/config/config.go\<close>: the configuration of the service, its defaults, its validation and the warnings it
  prints at start. The sections of the framework are one record with what the module reads of them: the result of the
  framework's own validation, whether the environment is production, its warnings and its listeners. \<open>url_Parse\<close> is
  \<^verbatim>\<open>url.Parse\<close> reduced to what is used of its result, the scheme and the host. The errors are given without their common
  prefix \<^verbatim>\<open>config:\<close>. Reading the YAML file is not modelled.
\<close>

record Framework =
  fw_Validate :: "string option"
  fw_IsProduction :: bool
  fw_Warnings :: "string list"
  fw_GRPCAddr :: string
  fw_HTTPAddr :: string
  fw_AdminAddr :: string

record ConfigDB =
  db_DSN :: string
  db_MigrateDSN :: string
  db_MaxConns :: "32 word"

record ConfigValkey =
  vk_Addresses :: "string list"
  vk_Username :: string
  vk_Password :: string
  vk_AllowPlaintext :: bool
  vk_CAFile :: string

record ConfigKEK =
  ke_Source :: string
  ke_Path :: string
  ke_Env :: string

record ConfigObjectStore =
  os_Endpoint :: string
  os_Bucket :: string
  os_Region :: string
  os_UseSSL :: bool
  os_AccessKey :: string
  os_SecretKey :: string
  os_PresignTTL :: int

record ConfigScheduler =
  sd_IntervalSeconds :: int
  sd_WarrantySoonDays :: int
  sd_LicenseSoonDays :: int
  sd_InsuranceSoonDays :: int

text \<open>\<^verbatim>\<open>TaskScheduler\<close> and \<^verbatim>\<open>Paperless\<close>: an optional peer service.\<close>

record ConfigPeer =
  pe_Enabled :: bool
  pe_Service :: string

record ConfigGateway =
  gw_Service :: string
  gw_Issuer :: string

record ConfigMeshEnroll =
  me_Enabled :: bool
  me_EnrollURL :: string
  me_LCMGRPCTarget :: string
  me_TenantID :: string
  me_TokenFile :: string
  me_StateFile :: string
  me_Insecure :: bool

record ConfigLimits =
  lt_MaxRequestBytes :: int
  lt_MaxBackupBytes :: int

record Config =
  cf_Framework :: Framework
  cf_DB :: ConfigDB
  cf_Valkey :: ConfigValkey
  cf_KEK :: ConfigKEK
  cf_ObjectStore :: ConfigObjectStore
  cf_InventoryService :: string
  cf_Scheduler :: ConfigScheduler
  cf_TaskScheduler :: ConfigPeer
  cf_Paperless :: ConfigPeer
  cf_MaxSizeBytes :: int
  cf_EventsEnabled :: bool
  cf_Gateway :: ConfigGateway
  cf_MeshEnroll :: ConfigMeshEnroll
  cf_Limits :: ConfigLimits

definition Default :: "Framework \<Rightarrow> Config" where
  "Default fw = \<lparr>cf_Framework = fw,
     cf_DB = \<lparr>db_DSN = [], db_MigrateDSN = [], db_MaxConns = 16\<rparr>,
     cf_Valkey = \<lparr>vk_Addresses = [], vk_Username = [], vk_Password = [], vk_AllowPlaintext = False, vk_CAFile = []\<rparr>,
     cf_KEK = \<lparr>ke_Source = ''file'', ke_Path = [], ke_Env = []\<rparr>,
     cf_ObjectStore = \<lparr>os_Endpoint = [], os_Bucket = [], os_Region = ''us-east-1'', os_UseSSL = False, os_AccessKey = [],
       os_SecretKey = [], os_PresignTTL = 300\<rparr>,
     cf_InventoryService = ''inventory'',
     cf_Scheduler = \<lparr>sd_IntervalSeconds = 3600, sd_WarrantySoonDays = 30, sd_LicenseSoonDays = 30, sd_InsuranceSoonDays = 30\<rparr>,
     cf_TaskScheduler = \<lparr>pe_Enabled = False, pe_Service = ''scheduler''\<rparr>,
     cf_Paperless = \<lparr>pe_Enabled = True, pe_Service = ''paperless''\<rparr>,
     cf_MaxSizeBytes = 20 * 2 ^ 20,
     cf_EventsEnabled = True,
     cf_Gateway = \<lparr>gw_Service = ''gateway'', gw_Issuer = []\<rparr>,
     cf_MeshEnroll = \<lparr>me_Enabled = False, me_EnrollURL = [], me_LCMGRPCTarget = [], me_TenantID = [], me_TokenFile = [],
       me_StateFile = [], me_Insecure = False\<rparr>,
     cf_Limits = \<lparr>lt_MaxRequestBytes = 2 ^ 20, lt_MaxBackupBytes = 32 * 2 ^ 20\<rparr>\<rparr>"

definition outside :: "int \<Rightarrow> int \<Rightarrow> int \<Rightarrow> bool" where
  "outside lo hi n \<longleftrightarrow> n < lo \<or> n > hi"

definition kek_error :: "ConfigKEK \<Rightarrow> string option" where
  "kek_error k =
     (if ke_Source k = ''file'' then (if ke_Path k = [] then Some ''kek.path is required for kek.source file'' else None)
      else if ke_Source k = ''env'' then (if ke_Env k = [] then Some ''kek.env is required for kek.source env'' else None)
      else Some ''kek.source must be file or env'')"

definition issuer_bad :: "(string \<Rightarrow> (string \<times> string) option) \<Rightarrow> string \<Rightarrow> bool" where
  "issuer_bad url_Parse issuer \<longleftrightarrow> (case url_Parse issuer of None \<Rightarrow> True | Some (scheme, host) \<Rightarrow> scheme \<noteq> ''https'' \<or> host = [])"

text \<open>\<^verbatim>\<open>Validate\<close>: the first check that fails names the error.\<close>

definition Config_Validate :: "(string \<Rightarrow> (string \<times> string) option) \<Rightarrow> Config \<Rightarrow> string + unit" where
  "Config_Validate url_Parse c =
     (let prod = fw_IsProduction (cf_Framework c); dsn = db_DSN (cf_DB c); os = cf_ObjectStore c; sd = cf_Scheduler c in
      case fw_Validate (cf_Framework c) of Some e \<Rightarrow> Inl e | None \<Rightarrow>
      if dsn = [] then Inl ''db.dsn is required''
      else if prod \<and> \<not> Contains dsn ''sslmode=verify-full'' \<and> \<not> Contains dsn ''sslmode=verify-ca''
        then Inl ''db.dsn must use sslmode=verify-full (or verify-ca) in production''
      else if vk_Addresses (cf_Valkey c) = [] then Inl ''valkey.addresses is required''
      else if prod \<and> vk_AllowPlaintext (cf_Valkey c) then Inl ''valkey.allow_plaintext is not permitted in production''
      else case kek_error (cf_KEK c) of Some e \<Rightarrow> Inl e | None \<Rightarrow>
      if os_Endpoint os = [] \<or> os_Bucket os = [] then Inl ''object_store.endpoint and object_store.bucket are required''
      else if outside 30 3600 (os_PresignTTL os) then Inl ''object_store.presign_ttl_seconds must be within [30, 3600]''
      else if prod \<and> \<not> os_UseSSL os then Inl ''object_store.use_ssl is required in production''
      else if outside (2 ^ 10) (2 ^ 30) (cf_MaxSizeBytes c) then Inl ''uploads.max_size_bytes must be within [1 KiB, 1 GiB]''
      else if outside 10 86400 (sd_IntervalSeconds sd) then Inl ''scheduler.interval_seconds must be within [10, 86400]''
      else if outside 1 3650 (sd_WarrantySoonDays sd) then Inl ''scheduler.warranty_soon_days must be within [1, 3650]''
      else if outside 1 3650 (sd_LicenseSoonDays sd) then Inl ''scheduler.license_soon_days must be within [1, 3650]''
      else if outside 1 3650 (sd_InsuranceSoonDays sd) then Inl ''scheduler.insurance_soon_days must be within [1, 3650]''
      else if gw_Service (cf_Gateway c) = [] then Inl ''gateway.service is required''
      else if issuer_bad url_Parse (gw_Issuer (cf_Gateway c)) then Inl ''gateway.issuer must be an https origin''
      else if prod \<and> me_Enabled (cf_MeshEnroll c) \<and> me_Insecure (cf_MeshEnroll c)
        then Inl ''mesh_enroll.insecure is not permitted in production''
      else if outside (2 ^ 10) (64 * 2 ^ 20) (lt_MaxRequestBytes (cf_Limits c))
        then Inl ''limits_asset.max_request_bytes must be within [1 KiB, 64 MiB]''
      else if outside (2 ^ 10) (256 * 2 ^ 20) (lt_MaxBackupBytes (cf_Limits c))
        then Inl ''limits_asset.max_backup_bytes must be within [1 KiB, 256 MiB]''
      else Inr ())"

definition Warnings :: "Config \<Rightarrow> string list" where
  "Warnings c = fw_Warnings (cf_Framework c)
     @ (if vk_AllowPlaintext (cf_Valkey c) then [''valkey.allow_plaintext: event-bus traffic without TLS (development only)''] else [])
     @ (if \<not> os_UseSSL (cf_ObjectStore c) then [''object_store.use_ssl=false: blob traffic without TLS (development only)''] else [])
     @ (if me_Enabled (cf_MeshEnroll c) \<and> me_Insecure (cf_MeshEnroll c)
        then [''mesh_enroll.insecure: SVID enrollment without TLS (development only)''] else [])"

definition GRPCAddr :: "Config \<Rightarrow> string" where "GRPCAddr c = fw_GRPCAddr (cf_Framework c)"
definition HTTPAddr :: "Config \<Rightarrow> string" where "HTTPAddr c = fw_HTTPAddr (cf_Framework c)"
definition AdminAddr :: "Config \<Rightarrow> string" where "AdminAddr c = fw_AdminAddr (cf_Framework c)"

text \<open>Durations in nanoseconds, at the 64 bits of \<^verbatim>\<open>time.Duration\<close>.\<close>

definition duration :: "int \<Rightarrow> int \<Rightarrow> int" where
  "duration n unit = sint (word_of_int (n * unit) :: 64 word)"

definition SchedulerInterval :: "Config \<Rightarrow> int" where
  "SchedulerInterval c = duration (sd_IntervalSeconds (cf_Scheduler c)) nanos_per_second"

definition PresignTTL :: "Config \<Rightarrow> int" where
  "PresignTTL c = duration (os_PresignTTL (cf_ObjectStore c)) nanos_per_second"

definition Config_SoonWindows :: "Config \<Rightarrow> SoonWindows" where
  "Config_SoonWindows c = \<lparr>win_Warranty = duration (sd_WarrantySoonDays (cf_Scheduler c)) nanos_per_day,
     win_License = duration (sd_LicenseSoonDays (cf_Scheduler c)) nanos_per_day,
     win_Insurance = duration (sd_InsuranceSoonDays (cf_Scheduler c)) nanos_per_day\<rparr>"

section \<open>What a valid configuration guarantees\<close>

lemma duration_exact:
  assumes "0 \<le> n * unit" and "n * unit < 2 ^ 63"
  shows "duration n unit = n * unit"
  using assms by (simp add: duration_def sint_sbintrunc' signed_take_bit_int_eq_self del: of_int_mult)

lemma duration_days: "1 \<le> n \<Longrightarrow> n \<le> 3650 \<Longrightarrow> duration n nanos_per_day = n * nanos_per_day"
  by (rule duration_exact) (simp_all add: nanos_per_day_def nanos_per_second_def)

text \<open>A duration of seconds within bounds of at most a day.\<close>

definition in_range :: "int \<Rightarrow> int \<Rightarrow> int \<Rightarrow> bool" where
  "in_range lo hi n \<longleftrightarrow> lo \<le> n \<and> n \<le> hi"

lemma duration_seconds:
  assumes "in_range lo hi n" and "0 \<le> lo" and "hi \<le> 86400"
  shows "in_range (lo * nanos_per_second) (hi * nanos_per_second) (duration n nanos_per_second)"
proof -
  have "duration n nanos_per_second = n * nanos_per_second"
    using assms by (intro duration_exact) (simp_all add: in_range_def nanos_per_second_def)
  then show ?thesis using assms by (simp add: in_range_def nanos_per_second_def)
qed

lemma not_outside: "\<not> outside lo hi n \<longleftrightarrow> in_range lo hi n"
  by (auto simp: outside_def in_range_def)

lemma valid_config:
  assumes "Config_Validate url_Parse c = Inr ()"
  shows "in_range 1 3650 (sd_WarrantySoonDays (cf_Scheduler c)) \<and> in_range 1 3650 (sd_LicenseSoonDays (cf_Scheduler c))
      \<and> in_range 1 3650 (sd_InsuranceSoonDays (cf_Scheduler c)) \<and> in_range 10 86400 (sd_IntervalSeconds (cf_Scheduler c))
      \<and> in_range 30 3600 (os_PresignTTL (cf_ObjectStore c)) \<and> in_range (2 ^ 10) (2 ^ 30) (cf_MaxSizeBytes c)"
    and "fw_IsProduction (cf_Framework c) \<Longrightarrow> \<not> vk_AllowPlaintext (cf_Valkey c) \<and> os_UseSSL (cf_ObjectStore c)
      \<and> \<not> (me_Enabled (cf_MeshEnroll c) \<and> me_Insecure (cf_MeshEnroll c))
      \<and> (Contains (db_DSN (cf_DB c)) ''sslmode=verify-full'' \<or> Contains (db_DSN (cf_DB c)) ''sslmode=verify-ca'')"
  using assms unfolding Config_Validate_def Let_def
  by (simp_all add: not_outside split: if_splits option.splits)


definition config_demo :: Config where
  "config_demo = (Default \<lparr>fw_Validate = None, fw_IsProduction = True, fw_Warnings = [], fw_GRPCAddr = '':1'', fw_HTTPAddr = '':2'', fw_AdminAddr = '':3''\<rparr>)
     \<lparr>cf_DB := \<lparr>db_DSN = ''db?sslmode=verify-ca'', db_MigrateDSN = [], db_MaxConns = 16\<rparr>,
      cf_Valkey := \<lparr>vk_Addresses = [''kv''], vk_Username = [], vk_Password = [], vk_AllowPlaintext = False, vk_CAFile = []\<rparr>,
      cf_KEK := \<lparr>ke_Source = ''file'', ke_Path = ''k'', ke_Env = []\<rparr>,
      cf_ObjectStore := \<lparr>os_Endpoint = ''s3'', os_Bucket = ''b'', os_Region = [], os_UseSSL = True, os_AccessKey = [], os_SecretKey = [], os_PresignTTL = 300\<rparr>,
      cf_Gateway := \<lparr>gw_Service = ''gateway'', gw_Issuer = ''https://id''\<rparr>\<rparr>"

lemma config_demo_valid: "Config_Validate (\<lambda>_. Some (''https'', ''id'')) config_demo = Inr ()"
  by code_simp


end
