(* ===== verification/Wiring.thy ===== *)
theory Wiring
  imports Grpc_Api Config
begin

text \<open>
  The domain services as \<^verbatim>\<open>Build\<close> of \<^verbatim>\<open>internal/app/app.go\<close> wires them into the servers. \<open>Outside\<close> collects what lies
  outside the module: the user directory, the key envelope, SHA-256, the paperless and the inventory service, the
  reachability of the store, and the Unicode case folding.
\<close>

record 'z Outside =
  ou_fold :: "string \<Rightarrow> string"
  ou_Resolve :: Directory
  ou_ListUsers :: "string \<Rightarrow> dir_err + User list"
  ou_Env :: Envelope
  ou_Sha :: "string \<Rightarrow> string"
  ou_Paper :: "'z Paper"
  ou_Inv :: InvClient
  ou_StoreOK :: bool

definition recorder :: "'z Outside \<Rightarrow> Recorder" where
  "recorder ou = \<lparr>attached = True, folding = ou_fold ou\<rparr>"

text \<open>
  \<^verbatim>\<open>documents.New\<close>, whose lifetime of links is kept beside the service here, and \<^verbatim>\<open>SetPaperless\<close>.
\<close>

definition documents_New :: "Recorder \<Rightarrow> (string \<Rightarrow> string) \<Rightarrow> int \<Rightarrow> int \<Rightarrow> 'z DocService \<times> int" where
  "documents_New rc sha maxBytes ttl =
     (\<lparr>doc_rec = rc, maxSize = (if maxBytes \<le> 0 then 20 * 2 ^ 20 else maxBytes), sha256 = sha, paper = None\<rparr>,
      if ttl \<le> 0 then 300 * nanos_per_second else ttl)"

definition docSvc :: "Config \<Rightarrow> 'z Outside \<Rightarrow> 'z DocService" where
  "docSvc cfg ou = (fst (documents_New (recorder ou) (ou_Sha ou) (cf_MaxSizeBytes cfg) (PresignTTL cfg)))
     \<lparr>paper := (if pe_Enabled (cf_Paperless cfg) then Some (ou_Paper ou) else None)\<rparr>"

definition health :: "'z Outside \<Rightarrow> string tab" where
  "health ou = [(''store'', if ou_StoreOK ou then ''ok'' else ''unreachable''), (''object_store'', ''ok'')]"

definition Build_Deps :: "Config \<Rightarrow> 'z Outside \<Rightarrow> 'z Deps" where
  "Build_Deps cfg ou = \<lparr>
     dp_Assets = \<lparr>users = Some (ou_Resolve ou), aud = True, blobs = True, docs = Some (PurgeRows (docSvc cfg ou)), fold_case = ou_fold ou\<rparr>,
     dp_Categories = recorder ou,
     dp_Suppliers = \<lparr>rec = recorder ou, env = ou_Env ou\<rparr>,
     dp_Locations = \<lparr>rec = recorder ou, env = ou_Env ou\<rparr>,
     dp_Consumables = recorder ou,
     dp_Licenses = recorder ou,
     dp_Insurance = recorder ou,
     dp_Documents = Some (docSvc cfg ou),
     dp_presignTTL = snd (documents_New (recorder ou) (ou_Sha ou) (cf_MaxSizeBytes cfg) (PresignTTL cfg) :: 'z DocService \<times> int),
     dp_Sync = Some \<lparr>is_inv = Some (ou_Inv ou), is_rec = recorder ou\<rparr>,
     dp_Stats = Some (stats_New (Config_SoonWindows cfg)),
     dp_Users = Some (ou_ListUsers ou),
     dp_Health = Some (health ou),
     dp_fold = ou_fold ou\<rparr>"

end
