(* ===== verification/Http_Api.thy ===== *)
theory Http_Api
  imports Wiring Backup_Laws
begin

text \<open>
  \<^verbatim>\<open>internal/httpapi\<close>: the gateway-facing API. A handler is a program that returns a \<open>response\<close>: the status with the
  value \<^verbatim>\<open>WriteJSON\<close> encodes, a refusal with its reason, no content, or a file with its headers. What a handler gets
  of its request is given as arguments: the identity in the context, the path values, and the body as \<^verbatim>\<open>DecodeJSON\<close> read
  it. The decoder of \<^verbatim>\<open>encoding/json\<close>, the multipart reader, the token verifier and the OpenAPI validator are parameters.
  The paged listings (\<^verbatim>\<open>serveList\<close>) rest on the listquery package and are left out.
\<close>

section \<open>Responses and errors\<close>

datatype 'b response =
    Reply int 'b
  | Refused int string
  | RefusedFor int string "string tab"
  | NoContent
  | File "string tab" string

record Error =
  er_Status :: int
  er_Reason :: string

definition ErrUnauthenticated :: Error where "ErrUnauthenticated = \<lparr>er_Status = 401, er_Reason = ''unauthenticated''\<rparr>"
definition ErrForbidden :: Error where "ErrForbidden = \<lparr>er_Status = 403, er_Reason = ''forbidden''\<rparr>"
definition ErrNotFound :: Error where "ErrNotFound = \<lparr>er_Status = 404, er_Reason = ''not_found''\<rparr>"
definition ErrMalformed :: Error where "ErrMalformed = \<lparr>er_Status = 400, er_Reason = ''malformed_body''\<rparr>"
definition ErrValidation :: Error where "ErrValidation = \<lparr>er_Status = 422, er_Reason = ''validation_failed''\<rparr>"
definition ErrConflict :: Error where "ErrConflict = \<lparr>er_Status = 409, er_Reason = ''conflict''\<rparr>"
definition ErrBodyTooLarge :: Error where "ErrBodyTooLarge = \<lparr>er_Status = 413, er_Reason = ''body_too_large''\<rparr>"
definition ErrRateLimited :: Error where "ErrRateLimited = \<lparr>er_Status = 429, er_Reason = ''rate_limited''\<rparr>"
definition ErrUnavailable :: Error where "ErrUnavailable = \<lparr>er_Status = 503, er_Reason = ''temporarily_unavailable''\<rparr>"
definition ErrNotImplemented :: Error where "ErrNotImplemented = \<lparr>er_Status = 501, er_Reason = ''not_implemented''\<rparr>"

definition WriteError :: "Error \<Rightarrow> 'b response" where
  "WriteError e = Refused (er_Status e) (er_Reason e)"

definition WriteDetail :: "Error \<Rightarrow> string tab \<Rightarrow> 'b response" where
  "WriteDetail e detail = RefusedFor (er_Status e) (er_Reason e) detail"

text \<open>\<^verbatim>\<open>Status\<close>: what \<^verbatim>\<open>Fail\<close> writes for an error of the API itself, of the body reader, of the store, or any other.\<close>

datatype fail_err = ApiErr Error | MaxBytesError | RepoErr repo_err | OtherErr string

definition StatusOf :: "fail_err \<Rightarrow> Error" where
  "StatusOf err = (case err of
     ApiErr e \<Rightarrow> e
   | MaxBytesError \<Rightarrow> ErrBodyTooLarge
   | RepoErr RNotFound \<Rightarrow> ErrNotFound
   | RepoErr RConflict \<Rightarrow> ErrConflict
   | _ \<Rightarrow> ErrUnavailable)"

definition Fail :: "fail_err \<Rightarrow> 'b response" where
  "Fail err = WriteError (StatusOf err)"

text \<open>
  \<^verbatim>\<open>DecodeJSON\<close> over the first \<open>limit\<close> bytes of the body. \<open>dec\<close> is the decoder with unknown fields disallowed: the bytes
  end before the value does, the value is not acceptable, or a value and what follows it.
\<close>

datatype 'i decoded = Incomplete | BadValue | Decoded 'i string

definition MaxBodyBytes :: int where "MaxBodyBytes = 64 * 2 ^ 10"
definition MaxImportBytes :: int where "MaxImportBytes = 32 * 2 ^ 20"

definition DecodeJSON :: "(string \<Rightarrow> 'i decoded) \<Rightarrow> int \<Rightarrow> string \<Rightarrow> Error + 'i" where
  "DecodeJSON dec limit0 body =
     (let limit = (if limit0 \<le> 0 then MaxBodyBytes else limit0); over = limit < int (length body) in
      case dec (take (nat limit) body) of
        BadValue \<Rightarrow> Inl ErrMalformed
      | Incomplete \<Rightarrow> Inl (if over then ErrBodyTooLarge else ErrMalformed)
      | Decoded v left \<Rightarrow> if over \<or> \<not> list_all (\<lambda>c. c \<in> {CHR 0x20, CHR 0x09, CHR 0x0A, CHR 0x0D}) left then Inl ErrMalformed else Inr v)"

text \<open>The errors the services return, and \<^verbatim>\<open>failSvc\<close> in the order of its cases.\<close>

datatype api_err = DomainErr doc_err | BackupErr backup_err | NoIdentity

fun as_doc :: "api_err \<Rightarrow> doc_err option" where
  "as_doc (DomainErr e) = Some e"
| "as_doc (BackupErr (BkSvc e)) = Some (DocSvc e)"
| "as_doc _ = None"

definition is_doc :: "(doc_err \<Rightarrow> bool) \<Rightarrow> api_err \<Rightarrow> bool" where
  "is_doc p err \<longleftrightarrow> (case as_doc err of None \<Rightarrow> False | Some e \<Rightarrow> p e)"

definition failSvc :: "api_err \<Rightarrow> 'b response" where
  "failSvc err =
     (if is_doc not_found err then Refused 404 ''not_found''
      else if is_doc denied err then Refused 403 ''forbidden''
      else if err = NoIdentity then Refused 401 ''unauthenticated''
      else if is_doc invalid err \<or> err = BackupErr ErrBadSchema then Refused 422 ''validation_failed''
      else if is_doc conflicting err then Refused 409 ''conflict''
      else if err = DomainErr TooLarge \<or> err = BackupErr BkTooLarge then Refused 413 ''body_too_large''
      else if err = DomainErr MediaType then Refused 415 ''unsupported_media_type''
      else if is_doc unreachable err then Refused 503 ''temporarily_unavailable''
      else Refused 500 ''internal'')"

definition failList :: "api_err \<Rightarrow> 'b response" where
  "failList err = (if err = DomainErr SearchUnavailable then Refused 503 ''temporarily_unavailable'' else failSvc err)"

section \<open>Callers\<close>

record Identity =
  id_UserID :: string
  id_TenantID :: string
  id_Roles :: "string list"

definition Caller :: "Identity option \<Rightarrow> Error + Identity" where
  "Caller ctx = (case ctx of
     None \<Rightarrow> Inl ErrUnauthenticated
   | Some i \<Rightarrow> if id_UserID i = [] \<or> id_TenantID i = [] then Inl ErrUnauthenticated else Inr i)"

definition subjects :: "Identity option \<Rightarrow> Error + Subjects" where
  "subjects ctx = (case Caller ctx of
     Inl e \<Rightarrow> Inl e
   | Inr i \<Rightarrow> Inr \<lparr>TenantID = id_TenantID i, UserID = id_UserID i, Roles = id_Roles i, ActorKind = ActorUser\<rparr>)"

text \<open>\<^verbatim>\<open>authenticate\<close>: on a protected route the verifier's answer for the token becomes the identity in the context.\<close>

definition authenticate :: "bool \<Rightarrow> (string \<Rightarrow> string + Identity) option \<Rightarrow> string \<Rightarrow>
    (Identity option \<Rightarrow> ('s, 'b response) state) \<Rightarrow> ('s, 'b response) state" where
  "authenticate protected verifier token next =
     (if \<not> protected then next None
      else case verifier of
        None \<Rightarrow> State_Monad.return (WriteError ErrUnauthenticated)
      | Some verify \<Rightarrow> (case verify token of
          Inl _ \<Rightarrow> State_Monad.return (WriteError ErrUnauthenticated)
        | Inr i \<Rightarrow> if id_UserID i = [] \<or> id_TenantID i = [] then State_Monad.return (WriteError ErrUnauthenticated)
            else next (Some i)))"

definition handle :: "Identity option \<Rightarrow> (Subjects \<Rightarrow> ('s, 'b response) state) \<Rightarrow> ('s, 'b response) state" where
  "handle ctx fn = (case subjects ctx of Inl e \<Rightarrow> State_Monad.return (failSvc NoIdentity) | Inr subj \<Rightarrow> fn subj)"

text \<open>\<^verbatim>\<open>v, err := ...; if err != nil { failSvc(w, err); return }; WriteJSON(w, status, v)\<close>, for the three kinds of errors.\<close>

definition answer :: "int \<Rightarrow> ('s, svc_err, 'b) prog \<Rightarrow> ('s, 'b response) state" where
  "answer status m = do { r \<leftarrow> m; State_Monad.return (case r of Inl e \<Rightarrow> failSvc (DomainErr (DocSvc e)) | Inr v \<Rightarrow> Reply status v) }"

definition doc_answer :: "int \<Rightarrow> ('s, doc_err, 'b) prog \<Rightarrow> ('s, 'b response) state" where
  "doc_answer status m = do { r \<leftarrow> m; State_Monad.return (case r of Inl e \<Rightarrow> failSvc (DomainErr e) | Inr v \<Rightarrow> Reply status v) }"

definition no_content :: "('s, svc_err, unit) prog \<Rightarrow> ('s, unit response) state" where
  "no_content m = do { r \<leftarrow> m; State_Monad.return (case r of Inl e \<Rightarrow> failSvc (DomainErr (DocSvc e)) | Inr _ \<Rightarrow> NoContent) }"

definition doc_no_content :: "('s, doc_err, unit) prog \<Rightarrow> ('s, unit response) state" where
  "doc_no_content m = do { r \<leftarrow> m; State_Monad.return (case r of Inl e \<Rightarrow> failSvc (DomainErr e) | Inr _ \<Rightarrow> NoContent) }"

text \<open>
  \<^verbatim>\<open>if err := DecodeJSON(...); err != nil { Fail(w, r, nil, err); return }\<close>; with \<^verbatim>\<open>r.ContentLength > 0\<close> as guard the
  body may be absent, and the input keeps its zero value.
\<close>

definition with_body :: "Error + 'i \<Rightarrow> ('i \<Rightarrow> ('s, 'b response) state) \<Rightarrow> ('s, 'b response) state" where
  "with_body body f = (case body of Inl e \<Rightarrow> State_Monad.return (Fail (ApiErr e)) | Inr i \<Rightarrow> f i)"

definition optional_body :: "'i \<Rightarrow> (Error + 'i) option \<Rightarrow> Error + 'i" where
  "optional_body zero body = (case body of None \<Rightarrow> Inr zero | Some b \<Rightarrow> b)"

record 'z HttpDeps =
  hd_Deps :: "'z Deps"
  hd_Backup :: Recorder

text \<open>\<^verbatim>\<open>httpapi.Deps\<close> as \<^verbatim>\<open>Build\<close> fills it.\<close>

definition Build_HttpDeps :: "Config \<Rightarrow> 'z Outside \<Rightarrow> 'z HttpDeps" where
  "Build_HttpDeps cfg ou = \<lparr>hd_Deps = Build_Deps cfg ou, hd_Backup = recorder ou\<rparr>"

section \<open>System routes\<close>

definition filterUsers :: "(string \<Rightarrow> string) \<Rightarrow> User list \<Rightarrow> string \<Rightarrow> User list" where
  "filterUsers uni items q = filter (\<lambda>u. Contains (ToLower uni (u_DisplayName u)) (ToLower uni q) \<or> Contains (ToLower uni (u_ID u)) (ToLower uni q)) items"

definition http_users :: "'z HttpDeps \<Rightarrow> Identity option \<Rightarrow> string \<Rightarrow> ('z world_scheme, User list response) state" where
  "http_users h ctx q = handle ctx (\<lambda>subj. case dp_Users (hd_Deps h) of
     None \<Rightarrow> State_Monad.return (Reply 200 [])
   | Some dir \<Rightarrow> State_Monad.return (case dir (TenantID subj) of
       Inl _ \<Rightarrow> Refused 503 ''temporarily_unavailable''
     | Inr items \<Rightarrow> Reply 200 (if q \<noteq> [] then filterUsers (dp_fold (hd_Deps h)) items q else items)))"

definition http_health :: "'z HttpDeps \<Rightarrow> (string \<times> string tab) response" where
  "http_health h = Reply 200 (rpc_Health (hd_Deps h))"

text \<open>\<^verbatim>\<open>d.Stats\<close> is used without a test, so the service is a parameter.\<close>

definition http_stats :: "StatsService \<Rightarrow> Identity option \<Rightarrow> ('z world_scheme, Dashboard response) state" where
  "http_stats st ctx = handle ctx (\<lambda>subj. answer 200 (Stats_Get st subj))"

definition http_backup_export :: "'z HttpDeps \<Rightarrow> Identity option \<Rightarrow> (Error + unit) option \<Rightarrow> ('z world_scheme, Backup response) state" where
  "http_backup_export h ctx body = handle ctx (\<lambda>subj. with_body (optional_body () body) (\<lambda>_. answer 200 (Export (hd_Backup h) subj)))"

definition http_backup_import :: "'z HttpDeps \<Rightarrow> Identity option \<Rightarrow> Error + Backup \<times> ImportOptions \<Rightarrow> ('z world_scheme, ImportResult response) state" where
  "http_backup_import h ctx body = handle ctx (\<lambda>subj. with_body body (\<lambda>(b, opts). do {
     r \<leftarrow> Import (hd_Backup h) subj b opts;
     State_Monad.return (case r of Inl (_, e) \<Rightarrow> failSvc (BackupErr e) | Inr res \<Rightarrow> Reply 200 res)
   }))"

section \<open>Assets and inventory sync\<close>

definition http_asset_create :: "'z HttpDeps \<Rightarrow> Identity option \<Rightarrow> Error + AssetInput \<Rightarrow> ('z world_scheme, View response) state" where
  "http_asset_create h ctx body = handle ctx (\<lambda>subj. with_body body (\<lambda>inp. answer 201 (Assets_Create (dp_Assets (hd_Deps h)) subj inp)))"

definition http_asset_get :: "'z HttpDeps \<Rightarrow> Identity option \<Rightarrow> string \<Rightarrow> ('z world_scheme, View response) state" where
  "http_asset_get h ctx i = handle ctx (\<lambda>subj. answer 200 (Assets_Get (dp_Assets (hd_Deps h)) subj i))"

definition http_asset_update :: "'z HttpDeps \<Rightarrow> Identity option \<Rightarrow> string \<Rightarrow> Error + AssetInput \<Rightarrow> ('z world_scheme, View response) state" where
  "http_asset_update h ctx i body = handle ctx (\<lambda>subj. with_body body (\<lambda>inp. answer 200 (Assets_Update (dp_Assets (hd_Deps h)) subj i inp)))"

definition http_asset_delete :: "'z HttpDeps \<Rightarrow> Identity option \<Rightarrow> string \<Rightarrow> ('z world_scheme, unit response) state" where
  "http_asset_delete h ctx i = handle ctx (\<lambda>subj. no_content (Assets_Delete (dp_Assets (hd_Deps h)) subj i))"

definition http_asset_assign :: "'z HttpDeps \<Rightarrow> Identity option \<Rightarrow> string \<Rightarrow> Error + string \<times> string \<Rightarrow> ('z world_scheme, View response) state" where
  "http_asset_assign h ctx i body = handle ctx (\<lambda>subj. with_body body (\<lambda>(userID, notes). answer 200 (Assets_Assign (dp_Assets (hd_Deps h)) subj i userID notes)))"

definition http_asset_unassign :: "'z HttpDeps \<Rightarrow> Identity option \<Rightarrow> string \<Rightarrow> (Error + string \<times> string) option \<Rightarrow> ('z world_scheme, View response) state" where
  "http_asset_unassign h ctx i body = handle ctx (\<lambda>subj. with_body (optional_body ([], []) body) (\<lambda>(locationID, notes).
     answer 200 (Assets_Unassign (dp_Assets (hd_Deps h)) subj i locationID notes)))"

definition http_sync_preview :: "'z HttpDeps \<Rightarrow> Identity option \<Rightarrow> ('z world_scheme, Preview response) state" where
  "http_sync_preview h ctx = handle ctx (\<lambda>subj. case dp_Sync (hd_Deps h) of
     None \<Rightarrow> State_Monad.return (Refused 503 ''temporarily_unavailable'')
   | Some sync \<Rightarrow> answer 200 (Sync_Preview sync subj))"

definition http_sync_execute :: "'z HttpDeps \<Rightarrow> Identity option \<Rightarrow> (Error + string list) option \<Rightarrow> ('z world_scheme, Result response) state" where
  "http_sync_execute h ctx body = handle ctx (\<lambda>subj. case dp_Sync (hd_Deps h) of
     None \<Rightarrow> State_Monad.return (Refused 503 ''temporarily_unavailable'')
   | Some sync \<Rightarrow> with_body (optional_body [] body) (\<lambda>hostnames. answer 200 (Execute sync subj hostnames)))"

definition http_sync_settings :: "'z HttpDeps \<Rightarrow> Identity option \<Rightarrow> ('z world_scheme, InvSyncSettings response) state" where
  "http_sync_settings h ctx = handle ctx (\<lambda>subj. case dp_Sync (hd_Deps h) of
     None \<Rightarrow> State_Monad.return (Refused 503 ''temporarily_unavailable'')
   | Some sync \<Rightarrow> answer 200 (Sync_Settings subj))"

definition http_sync_save_settings :: "'z HttpDeps \<Rightarrow> Identity option \<Rightarrow> Error + InvSyncSettings \<Rightarrow> ('z world_scheme, InvSyncSettings response) state" where
  "http_sync_save_settings h ctx body = handle ctx (\<lambda>subj. case dp_Sync (hd_Deps h) of
     None \<Rightarrow> State_Monad.return (Refused 503 ''temporarily_unavailable'')
   | Some sync \<Rightarrow> with_body body (\<lambda>st. do {
       r \<leftarrow> SaveSettings sync subj st;
       State_Monad.return (case r of
         Inl (SettingsInvalid field msg) \<Rightarrow> WriteDetail ErrValidation [(''field'', field), (''message'', msg)]
       | Inl e \<Rightarrow> failSvc (DomainErr (DocSvc e))
       | Inr v \<Rightarrow> Reply 200 v)
     }))"

section \<open>Categories, suppliers, locations\<close>

definition http_categories :: "'z HttpDeps \<Rightarrow> Identity option \<Rightarrow> ('z world_scheme, Category list response) state" where
  "http_categories h ctx = handle ctx (\<lambda>subj. answer 200 (Categories_List (dp_Categories (hd_Deps h)) subj))"

definition http_category_tree :: "'z HttpDeps \<Rightarrow> Identity option \<Rightarrow> ('z world_scheme, (Category tab \<times> Forest) response) state" where
  "http_category_tree h ctx = handle ctx (\<lambda>subj. answer 200 (Categories_Tree (dp_Categories (hd_Deps h)) subj))"

definition http_category_create :: "'z HttpDeps \<Rightarrow> Identity option \<Rightarrow> Error + CategoryInput \<Rightarrow> ('z world_scheme, Category response) state" where
  "http_category_create h ctx body = handle ctx (\<lambda>subj. with_body body (\<lambda>inp. answer 201 (Categories_Create (dp_Categories (hd_Deps h)) subj inp)))"

definition http_category_get :: "'z HttpDeps \<Rightarrow> Identity option \<Rightarrow> string \<Rightarrow> ('z world_scheme, Category response) state" where
  "http_category_get h ctx i = handle ctx (\<lambda>subj. answer 200 (Categories_Get subj i))"

definition http_category_update :: "'z HttpDeps \<Rightarrow> Identity option \<Rightarrow> string \<Rightarrow> Error + CategoryInput \<Rightarrow> ('z world_scheme, Category response) state" where
  "http_category_update h ctx i body = handle ctx (\<lambda>subj. with_body body (\<lambda>inp. answer 200 (Categories_Update (dp_Categories (hd_Deps h)) subj i inp)))"

definition http_category_delete :: "'z HttpDeps \<Rightarrow> Identity option \<Rightarrow> string \<Rightarrow> ('z world_scheme, unit response) state" where
  "http_category_delete h ctx i = handle ctx (\<lambda>subj. no_content (Categories_Delete (dp_Categories (hd_Deps h)) subj i))"

definition http_supplier_create :: "'z HttpDeps \<Rightarrow> Identity option \<Rightarrow> Error + SupplierInput \<Rightarrow> ('z world_scheme, Supplier response) state" where
  "http_supplier_create h ctx body = handle ctx (\<lambda>subj. with_body body (\<lambda>inp. answer 201 (Suppliers_Create (dp_Suppliers (hd_Deps h)) subj inp)))"

definition http_supplier_get :: "'z HttpDeps \<Rightarrow> Identity option \<Rightarrow> string \<Rightarrow> ('z world_scheme, Supplier response) state" where
  "http_supplier_get h ctx i = handle ctx (\<lambda>subj. answer 200 (Suppliers_Get (dp_Suppliers (hd_Deps h)) subj i))"

definition http_supplier_update :: "'z HttpDeps \<Rightarrow> Identity option \<Rightarrow> string \<Rightarrow> Error + SupplierInput \<Rightarrow> ('z world_scheme, Supplier response) state" where
  "http_supplier_update h ctx i body = handle ctx (\<lambda>subj. with_body body (\<lambda>inp. answer 200 (Suppliers_Update (dp_Suppliers (hd_Deps h)) subj i inp)))"

definition http_supplier_delete :: "'z HttpDeps \<Rightarrow> Identity option \<Rightarrow> string \<Rightarrow> ('z world_scheme, unit response) state" where
  "http_supplier_delete h ctx i = handle ctx (\<lambda>subj. no_content (Suppliers_Delete (dp_Suppliers (hd_Deps h)) subj i))"

definition http_locations :: "'z HttpDeps \<Rightarrow> Identity option \<Rightarrow> ('z world_scheme, Location list response) state" where
  "http_locations h ctx = handle ctx (\<lambda>subj. answer 200 (Locations_List (dp_Locations (hd_Deps h)) subj))"

definition http_location_tree :: "'z HttpDeps \<Rightarrow> Identity option \<Rightarrow> ('z world_scheme, (Location tab \<times> Forest) response) state" where
  "http_location_tree h ctx = handle ctx (\<lambda>subj. answer 200 (Locations_Tree (dp_Locations (hd_Deps h)) subj))"

definition http_location_create :: "'z HttpDeps \<Rightarrow> Identity option \<Rightarrow> Error + LocationInput \<Rightarrow> ('z world_scheme, Location response) state" where
  "http_location_create h ctx body = handle ctx (\<lambda>subj. with_body body (\<lambda>inp. answer 201 (Locations_Create (dp_Locations (hd_Deps h)) subj inp)))"

definition http_location_get :: "'z HttpDeps \<Rightarrow> Identity option \<Rightarrow> string \<Rightarrow> ('z world_scheme, Location response) state" where
  "http_location_get h ctx i = handle ctx (\<lambda>subj. answer 200 (Locations_Get (dp_Locations (hd_Deps h)) subj i))"

definition http_location_update :: "'z HttpDeps \<Rightarrow> Identity option \<Rightarrow> string \<Rightarrow> Error + LocationInput \<Rightarrow> ('z world_scheme, Location response) state" where
  "http_location_update h ctx i body = handle ctx (\<lambda>subj. with_body body (\<lambda>inp. answer 200 (Locations_Update (dp_Locations (hd_Deps h)) subj i inp)))"

definition http_location_delete :: "'z HttpDeps \<Rightarrow> Identity option \<Rightarrow> string \<Rightarrow> ('z world_scheme, unit response) state" where
  "http_location_delete h ctx i = handle ctx (\<lambda>subj. no_content (Locations_Delete (dp_Locations (hd_Deps h)) subj i))"

section \<open>Consumables, licenses, insurance\<close>

text \<open>Deleting a consumable or a license, as in the module-to-module API.\<close>

definition delete_with_documents :: "'z Deps \<Rightarrow> Subjects \<Rightarrow> string \<Rightarrow> string \<Rightarrow> ('z world_scheme, svc_err, unit) prog \<Rightarrow> ('z world_scheme, unit response) state" where
  "delete_with_documents d subj typ i del = do {
     rows \<leftarrow> documents_of d subj typ i;
     r \<leftarrow> del;
     case r of
       Inl e \<Rightarrow> State_Monad.return (failSvc (DomainErr (DocSvc e)))
     | Inr _ \<Rightarrow> do { purge_documents d subj rows; State_Monad.return NoContent }
   }"

definition http_consumable_create :: "'z HttpDeps \<Rightarrow> Identity option \<Rightarrow> Error + ConsumableInput \<Rightarrow> ('z world_scheme, ConsumableView response) state" where
  "http_consumable_create h ctx body = handle ctx (\<lambda>subj. with_body body (\<lambda>inp. answer 201 (Consumables_Create (dp_Consumables (hd_Deps h)) subj inp)))"

definition http_consumable_get :: "'z HttpDeps \<Rightarrow> Identity option \<Rightarrow> string \<Rightarrow> ('z world_scheme, ConsumableView response) state" where
  "http_consumable_get h ctx i = handle ctx (\<lambda>subj. answer 200 (Consumables_Get subj i))"

definition http_consumable_update :: "'z HttpDeps \<Rightarrow> Identity option \<Rightarrow> string \<Rightarrow> Error + ConsumableInput \<Rightarrow> ('z world_scheme, ConsumableView response) state" where
  "http_consumable_update h ctx i body = handle ctx (\<lambda>subj. with_body body (\<lambda>inp. answer 200 (Consumables_Update (dp_Consumables (hd_Deps h)) subj i inp)))"

definition http_consumable_delete :: "'z HttpDeps \<Rightarrow> Identity option \<Rightarrow> string \<Rightarrow> ('z world_scheme, unit response) state" where
  "http_consumable_delete h ctx i = handle ctx (\<lambda>subj. delete_with_documents (hd_Deps h) subj EntityConsumable i (Consumables_Delete (dp_Consumables (hd_Deps h)) subj i))"

definition http_license_create :: "'z HttpDeps \<Rightarrow> Identity option \<Rightarrow> Error + LicenseInput \<Rightarrow> ('z world_scheme, License response) state" where
  "http_license_create h ctx body = handle ctx (\<lambda>subj. with_body body (\<lambda>inp. answer 201 (Licenses_Create (dp_Licenses (hd_Deps h)) subj inp)))"

definition http_license_get :: "'z HttpDeps \<Rightarrow> Identity option \<Rightarrow> string \<Rightarrow> ('z world_scheme, License response) state" where
  "http_license_get h ctx i = handle ctx (\<lambda>subj. answer 200 (Licenses_Get subj i))"

definition http_license_update :: "'z HttpDeps \<Rightarrow> Identity option \<Rightarrow> string \<Rightarrow> Error + LicenseInput \<Rightarrow> ('z world_scheme, License response) state" where
  "http_license_update h ctx i body = handle ctx (\<lambda>subj. with_body body (\<lambda>inp. answer 200 (Licenses_Update (dp_Licenses (hd_Deps h)) subj i inp)))"

definition http_license_delete :: "'z HttpDeps \<Rightarrow> Identity option \<Rightarrow> string \<Rightarrow> ('z world_scheme, unit response) state" where
  "http_license_delete h ctx i = handle ctx (\<lambda>subj. delete_with_documents (hd_Deps h) subj EntityLicense i (Licenses_Delete (dp_Licenses (hd_Deps h)) subj i))"

definition http_policy_create :: "'z HttpDeps \<Rightarrow> Identity option \<Rightarrow> Error + PolicyInput \<Rightarrow> ('z world_scheme, InsurancePolicy response) state" where
  "http_policy_create h ctx body = handle ctx (\<lambda>subj. with_body body (\<lambda>inp. answer 201 (Insurance_Create (dp_Insurance (hd_Deps h)) subj inp)))"

definition http_policy_get :: "'z HttpDeps \<Rightarrow> Identity option \<Rightarrow> string \<Rightarrow> ('z world_scheme, InsurancePolicy response) state" where
  "http_policy_get h ctx i = handle ctx (\<lambda>subj. answer 200 (Insurance_Get subj i))"

definition http_policy_update :: "'z HttpDeps \<Rightarrow> Identity option \<Rightarrow> string \<Rightarrow> Error + PolicyInput \<Rightarrow> ('z world_scheme, InsurancePolicy response) state" where
  "http_policy_update h ctx i body = handle ctx (\<lambda>subj. with_body body (\<lambda>inp. answer 200 (Insurance_Update (dp_Insurance (hd_Deps h)) subj i inp)))"

definition http_policy_delete :: "'z HttpDeps \<Rightarrow> Identity option \<Rightarrow> string \<Rightarrow> ('z world_scheme, unit response) state" where
  "http_policy_delete h ctx i = handle ctx (\<lambda>subj. no_content (Insurance_Delete (dp_Insurance (hd_Deps h)) subj i))"

definition http_policy_add_asset :: "'z HttpDeps \<Rightarrow> Identity option \<Rightarrow> string \<Rightarrow> Error + string \<times> real \<times> string \<Rightarrow> ('z world_scheme, PolicyAsset response) state" where
  "http_policy_add_asset h ctx i body = handle ctx (\<lambda>subj. with_body body (\<lambda>(assetID, coveredValue, notes).
     answer 201 (AddAssetToPolicy (dp_Insurance (hd_Deps h)) subj i assetID coveredValue notes)))"

definition http_policy_remove_asset :: "'z HttpDeps \<Rightarrow> Identity option \<Rightarrow> string \<Rightarrow> string \<Rightarrow> ('z world_scheme, unit response) state" where
  "http_policy_remove_asset h ctx i assetID = handle ctx (\<lambda>subj. no_content (RemoveAssetFromPolicy (dp_Insurance (hd_Deps h)) subj i assetID))"

section \<open>Photos and documents\<close>

text \<open>
  The handlers use the document service without a test, so it is a parameter. The multipart reader finds no form, no
  part named \<^verbatim>\<open>file\<close>, or the part with its name, media type, size and bytes.
\<close>

datatype multipart = NoForm | NoFile | Part string string int string

definition multipartFile :: "int \<Rightarrow> multipart \<Rightarrow> (int \<times> string) + UploadInput" where
  "multipartFile maxUpload form = (case form of
     NoForm \<Rightarrow> Inl (400, ''malformed_body'')
   | NoFile \<Rightarrow> Inl (400, ''file_required'')
   | Part name mime sz content \<Rightarrow>
       if sz > maxUpload then Inl (413, ''body_too_large'')
       else Inr \<lparr>up_FileName = name, up_MimeType = mime, up_Size = sz, up_Body = take (nat maxUpload) content, up_Description = []\<rparr>)"

text \<open>
  \<^verbatim>\<open>sanitizeFilename\<close>, rune by rune: quotes, backslashes and control characters become underscores; a byte that is not
  UTF-8 reads, and is written back, as the replacement character.
\<close>

definition header_unsafe :: "nat \<Rightarrow> bool" where
  "header_unsafe r \<longleftrightarrow> r = 0x22 \<or> r = 0x5C \<or> r < 0x20 \<or> r = 0x7F"

function sanitize_runes :: "string \<Rightarrow> string" where
  "sanitize_runes s = (if s = [] then [] else
     let (r, n) = DecodeRune s in
       (if header_unsafe r then ''_'' else if r = RuneError \<and> n = 1 then [CHR 0xEF, CHR 0xBF, CHR 0xBD] else take n s)
       @ sanitize_runes (drop n s))"
  by pat_completeness auto

termination
  by (relation "measure length") (auto simp: prod_eq_iff intro!: diff_less DecodeRune_width)

declare sanitize_runes.simps [simp del]

definition sanitizeFilename :: "string \<Rightarrow> string" where
  "sanitizeFilename name = (if sanitize_runes name = [] then ''download'' else sanitize_runes name)"

definition http_photo_get :: "'z HttpDeps \<Rightarrow> Identity option \<Rightarrow> 'z DocService \<Rightarrow> string \<Rightarrow> ('z world_scheme, unit response) state" where
  "http_photo_get h ctx ds i = handle ctx (\<lambda>subj. do {
     r \<leftarrow> GetPhoto subj i;
     State_Monad.return (case r of
       Inl e \<Rightarrow> failSvc (DomainErr e)
     | Inr (data, mime) \<Rightarrow> File [(''Content-Type'', mime), (''Content-Disposition'', ''inline'')] data)
   })"

definition http_photo_upload :: "'z HttpDeps \<Rightarrow> Identity option \<Rightarrow> 'z DocService \<Rightarrow> string \<Rightarrow> multipart \<Rightarrow> ('z world_scheme, Asset response) state" where
  "http_photo_upload h ctx ds i form = handle ctx (\<lambda>subj. case multipartFile (maxSize ds) form of
     Inl (status, reason) \<Rightarrow> State_Monad.return (Refused status reason)
   | Inr inp \<Rightarrow> doc_answer 200 (UploadPhoto ds subj i inp))"

definition http_photo_delete :: "'z HttpDeps \<Rightarrow> Identity option \<Rightarrow> 'z DocService \<Rightarrow> string \<Rightarrow> ('z world_scheme, unit response) state" where
  "http_photo_delete h ctx ds i = handle ctx (\<lambda>subj. doc_no_content (DeletePhoto ds subj i))"

definition http_documents :: "'z HttpDeps \<Rightarrow> Identity option \<Rightarrow> 'z DocService \<Rightarrow> string \<Rightarrow> string \<Rightarrow> ('z world_scheme, Document list response) state" where
  "http_documents h ctx ds typ i = handle ctx (\<lambda>subj. doc_answer 200 (Documents_List subj typ i))"

definition http_document_upload :: "'z HttpDeps \<Rightarrow> Identity option \<Rightarrow> 'z DocService \<Rightarrow> string \<Rightarrow> string \<Rightarrow> multipart \<Rightarrow> string \<Rightarrow> ('z world_scheme, Document response) state" where
  "http_document_upload h ctx ds typ i form description = handle ctx (\<lambda>subj. case multipartFile (maxSize ds) form of
     Inl (status, reason) \<Rightarrow> State_Monad.return (Refused status reason)
   | Inr inp \<Rightarrow> doc_answer 201 (Upload ds subj typ i (inp\<lparr>up_Description := description\<rparr>)))"

definition http_document_delete :: "'z HttpDeps \<Rightarrow> Identity option \<Rightarrow> 'z DocService \<Rightarrow> string \<Rightarrow> string \<Rightarrow> string \<Rightarrow> ('z world_scheme, unit response) state" where
  "http_document_delete h ctx ds typ i docID = handle ctx (\<lambda>subj. doc_no_content (Documents_Delete ds subj typ i docID))"

definition http_document_download :: "'z HttpDeps \<Rightarrow> Identity option \<Rightarrow> 'z DocService \<Rightarrow> string \<Rightarrow> string \<Rightarrow> string \<Rightarrow> ('z world_scheme, unit response) state" where
  "http_document_download h ctx ds typ i docID = handle ctx (\<lambda>subj. do {
     r \<leftarrow> Download ds subj typ i docID;
     State_Monad.return (case r of
       Inl e \<Rightarrow> failSvc (DomainErr e)
     | Inr (data, doc) \<Rightarrow> File
         [(''Content-Type'', if d_MimeType doc = [] then ''application/octet-stream'' else d_MimeType doc),
          (''Content-Disposition'', ''attachment; filename='' @ [CHR 0x22] @ sanitizeFilename (d_FileName doc) @ [CHR 0x22])] data)
   })"

definition http_search_legacy :: "'z HttpDeps \<Rightarrow> Identity option \<Rightarrow> 'z DocService \<Rightarrow> string \<Rightarrow> int \<Rightarrow> ('z world_scheme, SearchHit list response) state" where
  "http_search_legacy h ctx ds q limit = handle ctx (\<lambda>subj. do {
     r \<leftarrow> Search ds subj q limit;
     State_Monad.return (case r of Inl e \<Rightarrow> failList (DomainErr e) | Inr hits \<Rightarrow> Reply 200 hits)
   })"

end
