(* ===== verification/Api_Laws.thy ===== *)
theory Api_Laws
  imports Http_Api
begin

text \<open>
  The two APIs together: every method acts for the tenant it names, whatever the sequence of calls. A call is the
  effect of one method on the world; \<open>rpc_call\<close> and \<open>http_call\<close> list the methods of the two servers, \<open>api_run\<close> is
  any history of calls, scheduled inventory syncs and passing time.
\<close>

section \<open>The remaining services act for the caller's tenant\<close>

lemma applied_tenant [simp]: "a_TenantID (applyDesired a d) = a_TenantID a"
  by (simp add: applyDesired_def Let_def)

lemma scoped_create_attempts: "a_TenantID a = t \<Longrightarrow> state_io_rel (scoped t) (create_attempts n a)"
  by (induction n arbitrary: a) (auto intro!: scoped_rules scoped_AutoTag)

lemma scoped_sync_create: "state_io_rel (scoped (TenantID subj)) (sync_create subj now d c res)"
  unfolding sync_create_def
  by (intro sc.io_rules scoped_NewID scoped_create_attempts) (simp_all add: new_asset_def split: prod.split sum.split add: sc.io_return)

lemma scoped_sync_update: "state_io_rel (scoped (TenantID subj)) (sync_update subj now d c res)"
  unfolding sync_update_def
  by (rule sc.io_bind_val) (auto intro!: scoped_rules dest: GetAsset_tenant split: sum.split)

lemma scoped_sync_change: "state_io_rel (scoped (TenantID subj)) (sync_change subj now byHost selected opts c res)"
  unfolding sync_change_def Let_def by (intro sc.io_rules scoped_sync_create scoped_sync_update)

lemma scoped_sync_loop: "state_io_rel (scoped (TenantID subj)) (sync_loop subj now byHost selected opts cs res)"
  by (induction cs arbitrary: res) (auto intro!: sc.io_rules scoped_sync_change)

lemma scoped_plan: "state_io_rel (scoped t) (plan svc t)"
  unfolding plan_def load_def Let_def by (intro scoped_rules) (auto intro!: scoped_rules split: prod.split sum.split)

lemma scoped_sync_run: "state_io_rel (scoped (TenantID subj)) (sync_run svc subj hostnames opts)"
  unfolding sync_run_def emit_executed_def
  by (intro scoped_in_tenant scoped_plan scoped_rules; auto intro!: scoped_sync_loop scoped_kit scoped_rules split: prod.split)

lemma scoped_Sync:
  "state_io_rel (scoped (TenantID subj)) (Sync_Preview svc subj)"
  "state_io_rel (scoped (TenantID subj)) (Execute svc subj hostnames)"
  "state_io_rel (scoped (TenantID subj)) (Sync_Settings subj)"
  "state_io_rel (scoped (TenantID subj)) (SaveSettings svc subj st)"
  unfolding Sync_Preview_def Execute_def Sync_Settings_def SaveSettings_def Let_def
  by (intro scoped_in_tenant scoped_plan scoped_sync_run scoped_kit scoped_rules; auto intro!: scoped_kit scoped_rules split: prod.split)+

lemma scoped_Stats: "state_io_rel (scoped (TenantID subj)) (Stats_Get svc subj)"
  unfolding Stats_Get_def Let_def
  by (intro scoped_in_tenant scoped_rules) (auto intro!: scoped_rules split: prod.split)



section \<open>Every method of the module-to-module API\<close>

definition effect :: "('s, 'a) state \<Rightarrow> ('s, unit) state" where
  "effect m = do { _ \<leftarrow> m; State_Monad.return () }"

lemma scoped_effect: "state_io_rel (scoped t) m \<Longrightarrow> state_io_rel (scoped t) (effect m)"
  unfolding effect_def by (intro sc.io_rules)

lemma scoped_as_caller:
  assumes "\<And>subj. TenantID subj = t \<Longrightarrow> state_io_rel (scoped t) (m subj)"
  shows "state_io_rel (scoped t) (as_caller peer t m)"
  using assms by (auto simp: as_caller_def caller_def sc.io_fail split: option.split)

lemma scoped_reply:
  "state_io_rel (scoped t) m \<Longrightarrow> state_io_rel (scoped t) (reply conv m)"
  "state_io_rel (scoped t) m' \<Longrightarrow> state_io_rel (scoped t) (doc_reply conv' m')"
  unfolding reply_def doc_reply_def by (intro sc.io_rules; simp)+

text \<open>The services as \<^verbatim>\<open>Build\<close> wires them: what is asked of the outside is that the paperless module is remote.\<close>

definition wired :: "'z Deps \<Rightarrow> bool" where
  "wired d \<longleftrightarrow> (\<forall>ds. dp_Documents d = Some ds \<longrightarrow> doc_ok ds)
     \<and> (\<forall>purge. docs (dp_Assets d) = Some purge \<longrightarrow> (\<forall>t rows. state_io_rel (scoped t) (purge t rows)))"

lemma docSvc_ok: "paper_ok (ou_Paper ou) \<Longrightarrow> doc_ok (docSvc cfg ou)"
  by (simp add: doc_ok_def docSvc_def documents_New_def)

lemma wired_Build: "paper_ok (ou_Paper ou) \<Longrightarrow> wired (Build_Deps cfg ou)"
  using docSvc_ok [of ou cfg] by (auto simp: wired_def Build_Deps_def intro: scoped_PurgeRows)

lemma scoped_with_documents:
  "wired d \<Longrightarrow> (\<And>ds. doc_ok ds \<Longrightarrow> state_io_rel (scoped t) (m ds)) \<Longrightarrow> state_io_rel (scoped t) (with_documents d m)"
  by (auto simp: with_documents_def wired_def sc.io_fail split: option.split)

lemma scoped_documents_of: "state_io_rel (scoped (TenantID subj)) (documents_of d subj typ i)"
  unfolding documents_of_def by (intro sc.io_rules scoped_Documents_List)

lemma scoped_purge_documents: "wired d \<Longrightarrow> state_io_rel (scoped (TenantID subj)) (purge_documents d subj rows)"
  unfolding purge_documents_def wired_def by (intro sc.io_rules scoped_PurgeRows) simp

lemma scoped_wired_Delete: "wired d \<Longrightarrow> state_io_rel (scoped (TenantID subj)) (Assets_Delete (dp_Assets d) subj i)"
  by (rule scoped_Delete) (simp add: wired_def)

lemmas scoped_services = scoped_Create scoped_Update scoped_Assign scoped_Unassign scoped_wired_Delete scoped_asset_reads
  scoped_Categories scoped_Categories_Get scoped_Suppliers scoped_Locations scoped_location_parts(3) scoped_Consumables
  scoped_Licenses scoped_Insurance scoped_Insurance_Get scoped_Sync scoped_Stats scoped_UploadPhoto scoped_GetPhoto
  scoped_DeletePhoto scoped_Upload scoped_Documents_List scoped_Download scoped_DownloadURL scoped_Documents_Delete scoped_Search
  scoped_documents_of scoped_purge_documents

lemma scoped_call_for: "TenantID subj = t \<Longrightarrow> state_io_rel (scoped (TenantID subj)) m \<Longrightarrow> state_io_rel (scoped t) m"
  by simp

text \<open>The methods of the servers, as effects on the world.\<close>

inductive rpc_call :: "'z Deps \<Rightarrow> string option \<Rightarrow> string \<Rightarrow> ('z world_scheme, unit) state \<Rightarrow> bool" for d peer t where
  RpcListDocuments: "rpc_call d peer t (effect (listDocuments d peer typ t entityID))"
| RpcUploadDocument: "rpc_call d peer t (effect (uploadDocument d peer typ t entityID fileName mimeType description content))"
| RpcDeleteDocument: "rpc_call d peer t (effect (deleteDocument d peer typ t entityID documentID))"
| RpcDownloadDocument: "rpc_call d peer t (effect (downloadDocument d peer typ t entityID documentID))"
| RpcCreateAsset: "rpc_call d peer t (effect (rpc_CreateAsset d peer t i))"
| RpcGetAsset: "rpc_call d peer t (effect (rpc_GetAsset d peer t i))"
| RpcListAssets: "rpc_call d peer t (effect (rpc_ListAssets d peer t f limit))"
| RpcUpdateAsset: "rpc_call d peer t (effect (rpc_UpdateAsset d peer t i inp))"
| RpcDeleteAsset: "rpc_call d peer t (effect (rpc_DeleteAsset d peer t i))"
| RpcAssignAsset: "rpc_call d peer t (effect (rpc_AssignAsset d peer t i userID notes))"
| RpcUnassignAsset: "rpc_call d peer t (effect (rpc_UnassignAsset d peer t i locationID notes))"
| RpcGetAssignmentHistory: "rpc_call d peer t (effect (rpc_GetAssignmentHistory d peer t i limit))"
| RpcUploadPhoto: "rpc_call d peer t (effect (rpc_UploadPhoto d peer t i mimeType content))"
| RpcDeletePhoto: "rpc_call d peer t (effect (rpc_DeletePhoto d peer t i))"
| RpcInventorySyncPreview: "rpc_call d peer t (effect (rpc_InventorySyncPreview d peer t))"
| RpcInventorySyncExecute: "rpc_call d peer t (effect (rpc_InventorySyncExecute d peer t hostnames))"
| RpcCreateCategory: "rpc_call d peer t (effect (rpc_CreateCategory d peer t i))"
| RpcGetCategory: "rpc_call d peer t (effect (rpc_GetCategory d peer t i))"
| RpcListCategories: "rpc_call d peer t (effect (rpc_ListCategories d peer t))"
| RpcUpdateCategory: "rpc_call d peer t (effect (rpc_UpdateCategory d peer t i inp))"
| RpcDeleteCategory: "rpc_call d peer t (effect (rpc_DeleteCategory d peer t i))"
| RpcGetCategoryTree: "rpc_call d peer t (effect (rpc_GetCategoryTree d peer t))"
| RpcCreateSupplier: "rpc_call d peer t (effect (rpc_CreateSupplier d peer t i))"
| RpcGetSupplier: "rpc_call d peer t (effect (rpc_GetSupplier d peer t i))"
| RpcListSuppliers: "rpc_call d peer t (effect (rpc_ListSuppliers d peer t f limit))"
| RpcUpdateSupplier: "rpc_call d peer t (effect (rpc_UpdateSupplier d peer t i inp))"
| RpcDeleteSupplier: "rpc_call d peer t (effect (rpc_DeleteSupplier d peer t i))"
| RpcCreateLocation: "rpc_call d peer t (effect (rpc_CreateLocation d peer t i))"
| RpcGetLocation: "rpc_call d peer t (effect (rpc_GetLocation d peer t i))"
| RpcListLocations: "rpc_call d peer t (effect (rpc_ListLocations d peer t))"
| RpcUpdateLocation: "rpc_call d peer t (effect (rpc_UpdateLocation d peer t i inp))"
| RpcDeleteLocation: "rpc_call d peer t (effect (rpc_DeleteLocation d peer t i))"
| RpcGetLocationTree: "rpc_call d peer t (effect (rpc_GetLocationTree d peer t))"
| RpcCreateConsumable: "rpc_call d peer t (effect (rpc_CreateConsumable d peer t i))"
| RpcGetConsumable: "rpc_call d peer t (effect (rpc_GetConsumable d peer t i))"
| RpcListConsumables: "rpc_call d peer t (effect (rpc_ListConsumables d peer t f limit))"
| RpcUpdateConsumable: "rpc_call d peer t (effect (rpc_UpdateConsumable d peer t i inp))"
| RpcDeleteConsumable: "rpc_call d peer t (effect (rpc_DeleteConsumable d peer t i))"
| RpcCreateLicense: "rpc_call d peer t (effect (rpc_CreateLicense d peer t i))"
| RpcGetLicense: "rpc_call d peer t (effect (rpc_GetLicense d peer t i))"
| RpcListLicenses: "rpc_call d peer t (effect (rpc_ListLicenses d peer t f limit))"
| RpcUpdateLicense: "rpc_call d peer t (effect (rpc_UpdateLicense d peer t i inp))"
| RpcDeleteLicense: "rpc_call d peer t (effect (rpc_DeleteLicense d peer t i))"
| RpcCreateInsurancePolicy: "rpc_call d peer t (effect (rpc_CreateInsurancePolicy d peer t i))"
| RpcGetInsurancePolicy: "rpc_call d peer t (effect (rpc_GetInsurancePolicy d peer t i))"
| RpcListInsurancePolicies: "rpc_call d peer t (effect (rpc_ListInsurancePolicies d peer t f limit))"
| RpcUpdateInsurancePolicy: "rpc_call d peer t (effect (rpc_UpdateInsurancePolicy d peer t i inp))"
| RpcDeleteInsurancePolicy: "rpc_call d peer t (effect (rpc_DeleteInsurancePolicy d peer t i))"
| RpcListPolicyAssets: "rpc_call d peer t (effect (rpc_ListPolicyAssets d peer t policyID))"
| RpcAddAssetToPolicy: "rpc_call d peer t (effect (rpc_AddAssetToPolicy d peer t policyID assetID coveredValue notes))"
| RpcRemoveAssetFromPolicy: "rpc_call d peer t (effect (rpc_RemoveAssetFromPolicy d peer t policyID assetID))"
| RpcListUsers: "rpc_call d peer t (effect (rpc_ListUsers d peer t query))"
| RpcGetDashboardStats: "rpc_call d peer t (effect (rpc_GetDashboardStats d peer t))"

lemmas rpc_defs =
  listDocuments_def uploadDocument_def deleteDocument_def downloadDocument_def rpc_CreateAsset_def rpc_GetAsset_def
  rpc_ListAssets_def rpc_UpdateAsset_def rpc_DeleteAsset_def rpc_AssignAsset_def rpc_UnassignAsset_def
  rpc_GetAssignmentHistory_def rpc_UploadPhoto_def rpc_DeletePhoto_def rpc_InventorySyncPreview_def
  rpc_InventorySyncExecute_def rpc_CreateCategory_def rpc_GetCategory_def rpc_ListCategories_def
  rpc_UpdateCategory_def rpc_DeleteCategory_def rpc_GetCategoryTree_def rpc_CreateSupplier_def rpc_GetSupplier_def
  rpc_ListSuppliers_def rpc_UpdateSupplier_def rpc_DeleteSupplier_def rpc_CreateLocation_def rpc_GetLocation_def
  rpc_ListLocations_def rpc_UpdateLocation_def rpc_DeleteLocation_def rpc_GetLocationTree_def rpc_CreateConsumable_def
  rpc_GetConsumable_def rpc_ListConsumables_def rpc_UpdateConsumable_def rpc_DeleteConsumable_def
  rpc_CreateLicense_def rpc_GetLicense_def rpc_ListLicenses_def rpc_UpdateLicense_def rpc_DeleteLicense_def
  rpc_CreateInsurancePolicy_def rpc_GetInsurancePolicy_def rpc_ListInsurancePolicies_def rpc_UpdateInsurancePolicy_def
  rpc_DeleteInsurancePolicy_def rpc_ListPolicyAssets_def rpc_AddAssetToPolicy_def rpc_RemoveAssetFromPolicy_def
  rpc_ListUsers_def rpc_GetDashboardStats_def

lemma scoped_rpc_call: "rpc_call d peer t c \<Longrightarrow> wired d \<Longrightarrow> state_io_rel (scoped t) c"
  by (induction rule: rpc_call.induct;
      rule scoped_effect;
      unfold rpc_defs;
      rule scoped_as_caller;
      rule scoped_call_for, assumption;
      intro scoped_with_documents scoped_reply scoped_services sc.io_rules; assumption)


section \<open>Every route of the gateway-facing API\<close>

lemma scoped_handle:
  assumes "\<And>subj. ctx = Some ident \<Longrightarrow> TenantID subj = id_TenantID ident \<Longrightarrow> state_io_rel (scoped t) (fn subj)" and "ctx = Some ident"
  shows "state_io_rel (scoped t) (handle ctx fn)"
  using assms by (auto simp: handle_def subjects_def Caller_def sc.io_return)

lemma scoped_answers:
  "state_io_rel (scoped t) m1 \<Longrightarrow> state_io_rel (scoped t) (answer status m1)"
  "state_io_rel (scoped t) m2 \<Longrightarrow> state_io_rel (scoped t) (doc_answer status m2)"
  "state_io_rel (scoped t) m3 \<Longrightarrow> state_io_rel (scoped t) (no_content m3)"
  "state_io_rel (scoped t) m4 \<Longrightarrow> state_io_rel (scoped t) (doc_no_content m4)"
  unfolding answer_def doc_answer_def no_content_def doc_no_content_def by (intro sc.io_rules; simp)+

lemma scoped_with_body: "(\<And>i. state_io_rel (scoped t) (f i)) \<Longrightarrow> state_io_rel (scoped t) (with_body body f)"
  unfolding with_body_def by (intro sc.io_rules)

lemma scoped_case_prod: "(\<And>x y. state_io_rel (scoped t) (f x y)) \<Longrightarrow> state_io_rel (scoped t) (case p of (x, y) \<Rightarrow> f x y)"
  by (cases p) simp

lemma scoped_delete_with_documents:
  "wired d \<Longrightarrow> state_io_rel (scoped (TenantID subj)) del \<Longrightarrow> state_io_rel (scoped (TenantID subj)) (delete_with_documents d subj typ i del)"
  unfolding delete_with_documents_def by (intro sc.io_rules scoped_documents_of scoped_purge_documents)

lemma scoped_export_loops:
  "state_io_rel (scoped t) (export_assets t as)"
  "state_io_rel (scoped t) (export_documents t ty ids)"
  "state_io_rel (scoped t) (export_covers t ids)"
  by (induction as; simp; intro scoped_case_prod scoped_rules; assumption)
    (induction ids; simp; intro scoped_rules; assumption)+

lemma scoped_Export: "state_io_rel (scoped (TenantID subj)) (Export rc subj)"
  unfolding Export_def Let_def by (intro scoped_in_tenant scoped_export_loops scoped_case_prod scoped_kit scoped_rules)

inductive http_call :: "'z HttpDeps \<Rightarrow> 'z DocService \<Rightarrow> StatsService \<Rightarrow> Identity option \<Rightarrow> ('z world_scheme, unit) state \<Rightarrow> bool" for h ds st ctx where
  HttpUsers: "http_call h ds st ctx (effect (http_users h ctx q))"
| HttpStats: "http_call h ds st ctx (effect (http_stats st ctx))"
| HttpBackupExport: "http_call h ds st ctx (effect (http_backup_export h ctx body))"
| HttpAssetCreate: "http_call h ds st ctx (effect (http_asset_create h ctx body))"
| HttpAssetGet: "http_call h ds st ctx (effect (http_asset_get h ctx i))"
| HttpAssetUpdate: "http_call h ds st ctx (effect (http_asset_update h ctx i body))"
| HttpAssetDelete: "http_call h ds st ctx (effect (http_asset_delete h ctx i))"
| HttpAssetAssign: "http_call h ds st ctx (effect (http_asset_assign h ctx i body))"
| HttpAssetUnassign: "http_call h ds st ctx (effect (http_asset_unassign h ctx i body))"
| HttpSyncPreview: "http_call h ds st ctx (effect (http_sync_preview h ctx))"
| HttpSyncExecute: "http_call h ds st ctx (effect (http_sync_execute h ctx body))"
| HttpSyncSettings: "http_call h ds st ctx (effect (http_sync_settings h ctx))"
| HttpSyncSaveSettings: "http_call h ds st ctx (effect (http_sync_save_settings h ctx body))"
| HttpCategories: "http_call h ds st ctx (effect (http_categories h ctx))"
| HttpCategoryTree: "http_call h ds st ctx (effect (http_category_tree h ctx))"
| HttpCategoryCreate: "http_call h ds st ctx (effect (http_category_create h ctx body))"
| HttpCategoryGet: "http_call h ds st ctx (effect (http_category_get h ctx i))"
| HttpCategoryUpdate: "http_call h ds st ctx (effect (http_category_update h ctx i body))"
| HttpCategoryDelete: "http_call h ds st ctx (effect (http_category_delete h ctx i))"
| HttpSupplierCreate: "http_call h ds st ctx (effect (http_supplier_create h ctx body))"
| HttpSupplierGet: "http_call h ds st ctx (effect (http_supplier_get h ctx i))"
| HttpSupplierUpdate: "http_call h ds st ctx (effect (http_supplier_update h ctx i body))"
| HttpSupplierDelete: "http_call h ds st ctx (effect (http_supplier_delete h ctx i))"
| HttpLocations: "http_call h ds st ctx (effect (http_locations h ctx))"
| HttpLocationTree: "http_call h ds st ctx (effect (http_location_tree h ctx))"
| HttpLocationCreate: "http_call h ds st ctx (effect (http_location_create h ctx body))"
| HttpLocationGet: "http_call h ds st ctx (effect (http_location_get h ctx i))"
| HttpLocationUpdate: "http_call h ds st ctx (effect (http_location_update h ctx i body))"
| HttpLocationDelete: "http_call h ds st ctx (effect (http_location_delete h ctx i))"
| HttpConsumableCreate: "http_call h ds st ctx (effect (http_consumable_create h ctx body))"
| HttpConsumableGet: "http_call h ds st ctx (effect (http_consumable_get h ctx i))"
| HttpConsumableUpdate: "http_call h ds st ctx (effect (http_consumable_update h ctx i body))"
| HttpConsumableDelete: "http_call h ds st ctx (effect (http_consumable_delete h ctx i))"
| HttpLicenseCreate: "http_call h ds st ctx (effect (http_license_create h ctx body))"
| HttpLicenseGet: "http_call h ds st ctx (effect (http_license_get h ctx i))"
| HttpLicenseUpdate: "http_call h ds st ctx (effect (http_license_update h ctx i body))"
| HttpLicenseDelete: "http_call h ds st ctx (effect (http_license_delete h ctx i))"
| HttpPolicyCreate: "http_call h ds st ctx (effect (http_policy_create h ctx body))"
| HttpPolicyGet: "http_call h ds st ctx (effect (http_policy_get h ctx i))"
| HttpPolicyUpdate: "http_call h ds st ctx (effect (http_policy_update h ctx i body))"
| HttpPolicyDelete: "http_call h ds st ctx (effect (http_policy_delete h ctx i))"
| HttpPolicyAddAsset: "http_call h ds st ctx (effect (http_policy_add_asset h ctx i body))"
| HttpPolicyRemoveAsset: "http_call h ds st ctx (effect (http_policy_remove_asset h ctx i assetID))"
| HttpPhotoGet: "http_call h ds st ctx (effect (http_photo_get h ctx ds i))"
| HttpPhotoUpload: "http_call h ds st ctx (effect (http_photo_upload h ctx ds i form))"
| HttpPhotoDelete: "http_call h ds st ctx (effect (http_photo_delete h ctx ds i))"
| HttpDocuments: "http_call h ds st ctx (effect (http_documents h ctx ds typ i))"
| HttpDocumentUpload: "http_call h ds st ctx (effect (http_document_upload h ctx ds typ i form description))"
| HttpDocumentDelete: "http_call h ds st ctx (effect (http_document_delete h ctx ds typ i docID))"
| HttpDocumentDownload: "http_call h ds st ctx (effect (http_document_download h ctx ds typ i docID))"
| HttpSearchLegacy: "http_call h ds st ctx (effect (http_search_legacy h ctx ds q limit))"

lemmas http_defs =
  http_users_def http_stats_def http_backup_export_def http_asset_create_def http_asset_get_def http_asset_update_def
  http_asset_delete_def http_asset_assign_def http_asset_unassign_def http_sync_preview_def http_sync_execute_def
  http_sync_settings_def http_sync_save_settings_def http_categories_def http_category_tree_def
  http_category_create_def http_category_get_def http_category_update_def http_category_delete_def
  http_supplier_create_def http_supplier_get_def http_supplier_update_def http_supplier_delete_def http_locations_def
  http_location_tree_def http_location_create_def http_location_get_def http_location_update_def
  http_location_delete_def http_consumable_create_def http_consumable_get_def http_consumable_update_def
  http_consumable_delete_def http_license_create_def http_license_get_def http_license_update_def
  http_license_delete_def http_policy_create_def http_policy_get_def http_policy_update_def http_policy_delete_def
  http_policy_add_asset_def http_policy_remove_asset_def http_photo_get_def http_photo_upload_def
  http_photo_delete_def http_documents_def http_document_upload_def http_document_delete_def
  http_document_download_def http_search_legacy_def

lemma scoped_http_call:
  "http_call h ds st ctx c \<Longrightarrow> wired (hd_Deps h) \<Longrightarrow> doc_ok ds \<Longrightarrow> ctx = Some ident \<Longrightarrow> state_io_rel (scoped (id_TenantID ident)) c"
  by (induction rule: http_call.induct;
      rule scoped_effect;
      unfold http_defs;
      rule scoped_handle [rotated], assumption;
      rule scoped_call_for, assumption;
      intro scoped_with_body scoped_case_prod scoped_answers scoped_delete_with_documents scoped_Export scoped_services sc.io_rules; assumption)

end
