(* ===== verification/Workers.thy ===== *)
theory Workers
  imports Document_Laws Invsync_Laws Scheduler
begin

text \<open>
  The background work of \<^verbatim>\<open>internal/app\<close> and \<^verbatim>\<open>internal/tasks\<close>: the worker that moves documents into paperless
  (\<^verbatim>\<open>migrate.go\<close>), the ticker loop of the lifecycle scheduler, and the task the platform scheduler runs (\<^verbatim>\<open>tasks.go\<close>). The inner loop of the worker has no bound of its
  own; \<open>migration_drains\<close> shows that it ends.
\<close>

section \<open>The migration worker\<close>

text \<open>
  The inner loop of \<^verbatim>\<open>migrateDocuments\<close>: batches of 100 until one fails or moves nothing. The context is not cancelled
  and the log lines are left out. The outer loop runs it whenever \<^verbatim>\<open>time.After\<close> fires; \<open>wakes\<close> are these times.
\<close>

partial_function (option) migrate_batches :: "'z DocService \<Rightarrow> 'z world_scheme \<Rightarrow> 'z world_scheme option" where
  "migrate_batches svc w =
     (case run_state (Migrate svc 100) w of
        (Inl e, w') \<Rightarrow> Some w'
      | (Inr res, w') \<Rightarrow> if Migrated res = 0 then Some w' else migrate_batches svc w')"

primrec migrateDocuments :: "'z DocService \<Rightarrow> gotime list \<Rightarrow> 'z world_scheme \<Rightarrow> 'z world_scheme option" where
  "migrateDocuments svc [] w = Some w"
| "migrateDocuments svc (now # wakes) w =
     (case migrate_batches svc (w\<lparr>wall := now\<rparr>) of None \<Rightarrow> None | Some w' \<Rightarrow> migrateDocuments svc wakes w')"

text \<open>\<^verbatim>\<open>Run\<close> of the lifecycle scheduler: a sweep at the start and one on every tick, at the times the ticker fires.\<close>

primrec sched_Run :: "SchedService \<Rightarrow> gotime list \<Rightarrow> ('z world_scheme, unit) state" where
  "sched_Run svc [] = do { _ \<leftarrow> SweepAll svc; State_Monad.return () }"
| "sched_Run svc (now # ticks) = do { _ \<leftarrow> SweepAll svc; State_Monad.update (\<lambda>w. w\<lparr>wall := now\<rparr>); sched_Run svc ticks }"

section \<open>The task of the platform scheduler\<close>

text \<open>
  \<^verbatim>\<open>sdk.Result\<close> as the SDK's constructors build it. The payload is what \<^verbatim>\<open>sdk.DecodeStrict\<close> made of the request:
  an error, or the two optional flags.
\<close>

datatype task_result = Permanent string | Retry string | TaskOK string | TaskFailed string

definition sync_message :: "Result \<Rightarrow> string" where
  "sync_message res = Itoa (rs_Created res) @ '' created, '' @ Itoa (rs_Updated res) @ '' updated, ''
     @ Itoa (rs_Excluded res) @ '' excluded by the filter, '' @ Itoa (rs_Skipped res) @ '' skipped''"

definition InventorySync :: "InvsyncService option \<Rightarrow> string \<Rightarrow> string + bool option \<times> bool option \<Rightarrow> ('z world_scheme, task_result) state" where
  "InventorySync sync tenantID payload =
     (if tenantID = [] then State_Monad.return (Permanent ''asset:inventory-sync is tenant-scoped'')
      else case payload of
        Inl e \<Rightarrow> State_Monad.return (Permanent (''invalid payload: '' @ e))
      | Inr (cr, up) \<Rightarrow>
          (let opts = \<lparr>op_Create = (cr = None \<or> cr = Some True), op_Update = (up = None \<or> up = Some True)\<rparr> in
           case sync of
             None \<Rightarrow> State_Monad.return (Retry ''inventory sync is not available'')
           | Some svc \<Rightarrow> do {
               r \<leftarrow> RunScheduled svc tenantID opts;
               State_Monad.return (case r of
                 Inl (Unavailable e) \<Rightarrow> Retry ''inventory unavailable''
               | Inl _ \<Rightarrow> Retry ''inventory sync failed''
               | Inr res \<Rightarrow>
                   if rs_Errors res \<noteq> [] then TaskFailed (sync_message res @ '', '' @ Itoa (int (length (rs_Errors res))) @ '' failed'')
                   else TaskOK (sync_message res))
             }))"

section \<open>The migration ends\<close>

definition unmigrated :: "Document \<Rightarrow> bool" where
  "unmigrated d \<longleftrightarrow> d_PaperlessDocumentID d = [] \<and> prefix ''tenants/'' (d_StorageKey d)"

definition filed :: "string \<Rightarrow> Document \<Rightarrow> Document" where
  "filed pid d = d\<lparr>d_PaperlessDocumentID := pid, d_StorageKey := PaperlessKeyPrefix @ pid\<rparr>"

text \<open>A row is as before, or it was unmigrated and names the document it became; no row appears or vanishes.\<close>

definition moved_row :: "string \<times> Document \<Rightarrow> string \<times> Document \<Rightarrow> bool" where
  "moved_row x y \<longleftrightarrow> fst y = fst x \<and> (snd y = snd x \<or> unmigrated (snd x) \<and> (\<exists>pid. pid \<noteq> [] \<and> snd y = filed pid (snd x)))"

definition moved :: "Document tab \<Rightarrow> Document tab \<Rightarrow> bool" where
  "moved = list_all2 moved_row"

definition pending :: "Document tab \<Rightarrow> nat" where
  "pending m = length (filter unmigrated (vals m))"

lemma filed_simps [simp]: "pid \<noteq> [] \<Longrightarrow> \<not> unmigrated (filed pid d)" "d_ID (filed pid d) = d_ID d"
  by (simp_all add: unmigrated_def filed_def)

lemma moved_row_trans: "moved_row x y \<Longrightarrow> moved_row y z \<Longrightarrow> moved_row x z"
  by (auto simp: moved_row_def)

lemma moved_refl [simp]: "moved m m"
  by (simp add: moved_def moved_row_def list_all2_refl)

lemma moved_trans: "moved m m' \<Longrightarrow> moved m' m'' \<Longrightarrow> moved m m''"
  unfolding moved_def by (rule list_all2_trans [OF moved_row_trans])

lemma moved_keys: "moved m m' \<Longrightarrow> map fst m' = map fst m"
  unfolding moved_def by (induction rule: list_all2_induct) (auto simp: moved_row_def)

lemma moved_ok:
  assumes "moved m m'" and "tab_ok d_ID m"
  shows "tab_ok d_ID m'"
proof -
  have "list_all (\<lambda>(k, v). d_ID v = k) m'" if "list_all (\<lambda>(k, v). d_ID v = k) m"
    using assms(1) that unfolding moved_def by (induction rule: list_all2_induct) (auto simp: moved_row_def)
  then show ?thesis using assms moved_keys [OF assms(1)] by (auto simp: tab_ok_def list_all_iff)
qed

lemma moved_row_refl [simp]: "moved_row x x"
  by (simp add: moved_row_def)

lemma filing:
  assumes "map_of m k = Some d" and "unmigrated d" and "pid \<noteq> []"
  shows "moved m (AList.update k (filed pid d) m)" and "Suc (pending (AList.update k (filed pid d) m)) = pending m"
proof -
  have one: "moved_row (k, d) (k, filed pid d)" using assms(2,3) by (auto simp: moved_row_def)
  show "moved m (AList.update k (filed pid d) m)"
    using assms(1) by (induction m) (auto simp: moved_def one list_all2_refl split: if_splits)
  show "Suc (pending (AList.update k (filed pid d) m)) = pending m"
    using assms(1) by (induction m) (auto simp: pending_def assms(2,3) split: if_splits)
qed

lemma pending_moved:
  assumes "moved m m'"
  shows "pending m' \<le> pending m" and "pending m' = pending m \<Longrightarrow> m' = m"
proof -
  have "pending m' \<le> pending m \<and> (pending m' = pending m \<longrightarrow> m' = m)"
    using assms unfolding moved_def
  proof (induction rule: list_all2_induct)
    case (Cons x xs y ys)
    show ?case
    proof (cases "snd y = snd x")
      case True
      then have "y = x" using Cons.hyps(1) by (simp add: moved_row_def prod_eq_iff)
      then show ?thesis using Cons.IH by (simp add: pending_def)
    next
      case False
      then have "unmigrated (snd x)" "\<not> unmigrated (snd y)" using Cons.hyps(1) by (auto simp: moved_row_def)
      then show ?thesis using Cons.IH by (simp add: pending_def)
    qed
  qed (simp add: pending_def)
  then show "pending m' \<le> pending m" "pending m' = pending m \<Longrightarrow> m' = m" by simp_all
qed

text \<open>The rows a batch still has to do are rows of the table.\<close>

definition in_batch :: "Document list \<Rightarrow> Document tab \<Rightarrow> bool" where
  "in_batch ds m \<longleftrightarrow> distinct (map d_ID ds) \<and> (\<forall>d\<in>set ds. map_of m (d_ID d) = Some d \<and> unmigrated d)"

lemma migrate_one_moves:
  assumes "paper_ok p" and "run_state (migrateOne svc p d) w = (r, w')" and "in_batch (d # ds) (documents w)"
  shows "in_batch ds (documents w') \<and> moved (documents w) (documents w')
    \<and> pending (documents w) = pending (documents w') + (case r of Inl _ \<Rightarrow> 0 | Inr _ \<Rightarrow> 1)"
proof (cases r)
  case (Inl e)
  have "documents w' = documents w" using migrateOne_effect [OF assms(1,2)] Inl by (auto intro: core_tables(3))
  then show ?thesis using assms(3) Inl by (auto simp: in_batch_def)
next
  case (Inr u)
  obtain pid old where new: "pid \<noteq> []" "map_of (documents w) (d_ID d) = Some old"
      "documents w' = AList.update (d_ID d) (filed pid old) (documents w)"
    using migrateOne_effect [OF assms(1,2)] unfolding Inr sum.case by (elim exE conjE) (rule that; simp add: filed_def)
  have old: "old = d" "unmigrated d" using assms(3) new(2) by (auto simp: in_batch_def)
  note f = filing [OF new(2) _ new(1)]
  have "map_of (documents w') (d_ID e) = map_of (documents w) (d_ID e)" if "e \<in> set ds" for e
  proof -
    have "d_ID e \<noteq> d_ID d" using assms(3) that unfolding in_batch_def by force
    then show ?thesis by (simp add: new(3) update_conv')
  qed
  then have "in_batch ds (documents w')" using assms(3) by (simp add: in_batch_def)
  then show ?thesis using f old Inr new(3) by simp
qed

lemma migrate_loop_moves:
  assumes "paper_ok p"
  shows "run_state (migrate_loop svc p ds res per) w = (out, w') \<Longrightarrow> in_batch ds (documents w) \<Longrightarrow>
    moved (documents w) (documents w') \<and> Migrated (fst out) = Migrated res + int (pending (documents w)) - int (pending (documents w'))"
proof (induction ds arbitrary: res per w)
  case (Cons d ds)
  obtain r w1 where one: "run_state (migrateOne svc p d) w = (r, w1)" by force
  note step = migrate_one_moves [OF assms one Cons.prems(2)]
  obtain res1 per1 where rest: "run_state (migrate_loop svc p ds res1 per1) w1 = (out, w')"
      "Migrated res1 = Migrated res + (case r of Inl _ \<Rightarrow> 0 | Inr _ \<Rightarrow> 1)"
    using Cons.prems(1) one by (cases r) auto
  from Cons.IH [OF rest(1)] step have later: "moved (documents w1) (documents w')"
      "Migrated (fst out) = Migrated res1 + int (pending (documents w1)) - int (pending (documents w'))" by simp_all
  moreover have "moved (documents w) (documents w')" using step later(1) moved_trans by blast
  moreover have "int (pending (documents w)) = int (pending (documents w1)) + (case r of Inl _ \<Rightarrow> 0 | Inr _ \<Rightarrow> 1)"
    using step by (cases r) simp_all
  ultimately show ?case using rest(2) by simp
qed auto

lemma quiet_run_documents: "quiet m \<Longrightarrow> run_state m w = (r, w') \<Longrightarrow> documents w' = documents w"
  by (rule core_tables(3) [OF quiet_run])

lemma take_listed:
  assumes "tab_ok d_ID m"
  shows "in_batch (take n (sort_key d_ID (filter unmigrated (vals m)))) m"
proof -
  have keys: "map d_ID (vals m) = map fst m" "distinct (map fst m)"
    using assms by (auto simp: tab_ok_def)
  have "distinct (map d_ID (filter unmigrated (vals m)))"
    using keys by (metis distinct_map_filter)
  then have "distinct (map d_ID (sort_key d_ID (filter unmigrated (vals m))))"
    by (simp add: distinct_map inj_on_def)
  moreover have "map_of m (d_ID d) = Some d" if "d \<in> set (vals m)" for d
    using that keys assms by (auto simp: tab_ok_def)
  ultimately show ?thesis
    by (auto simp: in_batch_def take_map [symmetric] dest: in_set_takeD)
qed

lemma ListUnmigrated_run:
  assumes "run_state (ListUnmigratedDocuments 100) w = (l, w0)"
  shows "documents w0 = documents w" and "case l of Inl _ \<Rightarrow> True | Inr rows \<Rightarrow> rows = take 100 (sort_key d_ID (filter unmigrated (vals (documents w))))"
  using assms by (auto simp: ListUnmigratedDocuments_def Let_def run_guarded unmigrated_def [abs_def] split: if_splits)

lemma quiet_for_each: "(\<And>x. quiet (f x)) \<Longrightarrow> quiet (for_each xs f)"
  by (induction xs) (simp_all add: quiet_return quiet_bind)

definition migrated_event :: "string \<Rightarrow> int \<Rightarrow> Event" where
  "migrated_event tenant n = \<lparr>e_TenantID = tenant, e_EventType = ''documents_migrated'', e_ActorKind = ActorSystem, e_ActorID = ''migration'',
     e_SubjectKind = ''document'', e_SubjectID = ''paperless'', e_Outcome = OutcomeOK, e_Reason = [], e_Details = [(''documents'', AInt n)]\<rparr>"

lemma Migrate_moves:
  assumes "paper svc = Some p" and "paper_ok p" and "tab_ok d_ID (documents w)" and "run_state (Migrate svc 100) w = (r, w')"
  shows "moved (documents w) (documents w')
    \<and> (case r of Inl _ \<Rightarrow> documents w' = documents w
       | Inr res \<Rightarrow> Migrated res = int (pending (documents w)) - int (pending (documents w')))"
proof -
  obtain l w0 where li: "run_state (ListUnmigratedDocuments 100) w = (l, w0)" by force
  note rows = ListUnmigrated_run [OF li]
  show ?thesis
  proof (cases l)
    case (Inl e)
    then have "run_state (Migrate svc 100) w = (Inl (DocSvc (StoreErr e)), w0)" using assms(1) li by (simp add: Migrate_def run_try_as)
    then show ?thesis using assms(4) rows(1) by auto
  next
    case (Inr ds)
    let ?report = "\<lambda>(tenant, n). Emit (folding (doc_rec svc)) (attached (doc_rec svc)) (migrated_event tenant n)"
    obtain out w1 where lo: "run_state (migrate_loop svc p ds \<lparr>Migrated = 0, Failed = 0\<rparr> []) w0 = (out, w1)" by (rule prod.exhaust)
    obtain w2 where re: "run_state (for_each (snd out) ?report) w1 = ((), w2)" by (rule run_unit)
    have "run_state (Migrate svc 100) w = (Inr (fst out), w2)"
      using assms(1) li Inr lo re by (simp add: Migrate_def run_try_as migrated_event_def)
    then have r: "r = Inr (fst out)" "w' = w2" using assms(4) by simp_all
    have "documents w2 = documents w1"
      by (rule quiet_run_documents [OF quiet_for_each re]) (auto intro: quiet_Emit)
    moreover have "in_batch ds (documents w0)" using rows Inr take_listed [OF assms(3)] by simp
    from migrate_loop_moves [OF assms(2) lo this] rows(1) have "moved (documents w) (documents w1)"
      "Migrated (fst out) = int (pending (documents w)) - int (pending (documents w1))" by simp_all
    ultimately show ?thesis using r by simp
  qed
qed

text \<open>
  C19: the migration of documents into paperless ends. However many documents are left, the loop over batches returns;
  the last batch failed or moved nothing, and until then every document row was either kept as it was or now names
  the paperless document its content became; no row was lost. Of the paperless service it is assumed that its calls
  change nothing of this one and that it returns a non-empty id.
\<close>

theorem migration_drains:
  assumes "paper svc = Some p" and "paper_ok p" and "tab_ok d_ID (documents w)"
  shows "\<exists>w0 r w'. migrate_batches svc w = Some w' \<and> moved (documents w) (documents w')
    \<and> run_state (Migrate svc 100) w0 = (r, w') \<and> documents w' = documents w0 \<and> (case r of Inl _ \<Rightarrow> True | Inr res \<Rightarrow> Migrated res = 0)"
  using assms(3)
proof (induction "pending (documents w)" arbitrary: w rule: less_induct)
  case less
  obtain r w1 where run: "run_state (Migrate svc 100) w = (r, w1)" by force
  note batch = Migrate_moves [OF assms(1,2) less.prems run]
  show ?case
  proof (cases "case r of Inl _ \<Rightarrow> True | Inr res \<Rightarrow> Migrated res = 0")
    case True
    have "migrate_batches svc w = Some w1"
      by (subst migrate_batches.simps) (use run True in \<open>simp split: sum.splits\<close>)
    moreover have "documents w1 = documents w"
    proof (cases r)
      case (Inr res)
      then have "pending (documents w1) = pending (documents w)" using batch True by simp
      with batch pending_moved(2) show ?thesis by blast
    qed (use batch in simp)
    ultimately show ?thesis using run True batch by blast
  next
    case False
    then obtain res where r: "r = Inr res" "Migrated res \<noteq> 0" by (cases r) auto
    have next1: "migrate_batches svc w = migrate_batches svc w1"
      by (subst migrate_batches.simps) (use run r in simp)
    have "pending (documents w1) < pending (documents w)"
      using batch r pending_moved [of "documents w" "documents w1"] by auto
    from less.hyps [OF this moved_ok [OF _ less.prems]] batch show ?thesis
      unfolding next1 using moved_trans by blast
  qed
qed

lemma migrate_batches_run:
  "fst (run_state (Migrate svc 100) w) = Inr res \<Longrightarrow> migrate_batches svc w =
     (if Migrated res = 0 then Some (snd (run_state (Migrate svc 100) w)) else migrate_batches svc (snd (run_state (Migrate svc 100) w)))"
  by (subst migrate_batches.simps) (auto split: prod.splits)

text \<open>An uploaded document is moved by the first batch; the second one finds nothing.\<close>

definition moving_demo :: "unit DocService" where
  "moving_demo = docs_demo\<lparr>paper := Some paper_demo\<rparr>"

theorem migration_drains_witness:
  "pending (documents (snd uploaded_demo)) = 1 \<and> (\<exists>w'. migrate_batches moving_demo (snd uploaded_demo) = Some w' \<and> pending (documents w') = 0
     \<and> length (documents w') = 1)"
proof -
  have one: "pending (documents (snd uploaded_demo)) = 1" "length (documents (snd uploaded_demo)) = 1"
    "tab_ok d_ID (documents (snd uploaded_demo))" by code_simp+
  have p: "paper moving_demo = Some paper_demo" by (simp add: moving_demo_def)
  obtain w' where w': "migrate_batches moving_demo (snd uploaded_demo) = Some w'" "moved (documents (snd uploaded_demo)) (documents w')"
    using migration_drains [OF p paper_demo_ok one(3)] by blast
  let ?b1 = "run_state (Migrate moving_demo 100) (snd uploaded_demo)"
  let ?b2 = "run_state (Migrate moving_demo 100) (snd ?b1)"
  have b1: "case fst ?b1 of Inl _ \<Rightarrow> False | Inr res \<Rightarrow> Migrated res \<noteq> 0" and b2: "case fst ?b2 of Inl _ \<Rightarrow> False | Inr res \<Rightarrow> Migrated res = 0"
    by code_simp+
  obtain res1 where r1: "fst ?b1 = Inr res1" "Migrated res1 \<noteq> 0" using b1 by (cases "fst ?b1") auto
  obtain res2 where r2: "fst ?b2 = Inr res2" "Migrated res2 = 0" using b2 by (cases "fst ?b2") auto
  have "migrate_batches moving_demo (snd uploaded_demo) = Some (snd ?b2)"
    using migrate_batches_run [OF r1(1)] migrate_batches_run [OF r2(1)] r1(2) r2(2) by simp
  moreover have "pending (documents (snd ?b2)) = 0" by code_simp
  ultimately show ?thesis using one w' list_all2_lengthD [OF w'(2) [unfolded moved_def]] by simp
qed

section \<open>What a task reports\<close>

text \<open>
  A task reports success only when the sync ran and no change failed, and a refused request or an unreachable
  inventory leaves the tables alone.
\<close>

lemma InventorySync_reports:
  assumes "run_state (InventorySync sync t payload) w = (TaskOK msg, w')"
  shows "\<exists>svc opts res. sync = Some svc \<and> t \<noteq> [] \<and> run_state (RunScheduled svc t opts) w = (Inr res, w') \<and> rs_Errors res = []"
proof -
  from assms have t: "t \<noteq> []" by (auto simp: InventorySync_def)
  from assms obtain cr up where p: "payload = Inr (cr, up)" by (cases payload) (auto simp: InventorySync_def split: if_splits)
  from assms t p obtain svc where s: "sync = Some svc" by (cases sync) (auto simp: InventorySync_def)
  let ?opts = "\<lparr>op_Create = (cr = None \<or> cr = Some True), op_Update = (up = None \<or> up = Some True)\<rparr>"
  obtain r w1 where r: "run_state (RunScheduled svc t ?opts) w = (r, w1)" by force
  then show ?thesis using assms t p s
    by (cases r) (auto simp: InventorySync_def split: svc_err.splits if_splits)
qed

lemma InventorySync_refused: "t = [] \<or> payload = Inl e \<or> sync = None \<Longrightarrow> snd (run_state (InventorySync sync t payload) w) = w"
  by (auto simp: InventorySync_def split: sum.split)

end
