(* ===== verification/Isolation.thy ===== *)
theory Isolation
  imports Api_Laws Workers
begin

text \<open>
  Isolation of tenants over whole histories: whatever calls the two APIs serve, restores, scheduled syncs and passing
  time included, the rows of a tenant change only through calls made for it.
\<close>

definition own :: "('v \<Rightarrow> string) \<Rightarrow> string \<Rightarrow> 'v tab \<Rightarrow> 'v tab" where
  "own tn u m = filter (\<lambda>(k, v). tn v = u) m"

record Holdings =
  ho_assets :: "Asset tab"
  ho_assignments :: "Assignment tab"
  ho_documents :: "Document tab"
  ho_categories :: "Category tab"
  ho_suppliers :: "Supplier tab"
  ho_locations :: "Location tab"
  ho_consumables :: "Consumable tab"
  ho_licenses :: "License tab"
  ho_insurance :: "InsurancePolicy tab"
  ho_policyAssets :: "PolicyAsset tab"
  ho_settings :: "InvSyncSettings option"

text \<open>Everything the store keeps for a tenant.\<close>

definition holdings :: "string \<Rightarrow> 'z mem_scheme \<Rightarrow> Holdings" where
  "holdings u w = \<lparr>ho_assets = own a_TenantID u (assets w), ho_assignments = own g_TenantID u (assignments w),
     ho_documents = own d_TenantID u (documents w), ho_categories = own c_TenantID u (categories w),
     ho_suppliers = own s_TenantID u (suppliers w), ho_locations = own l_TenantID u (locations w),
     ho_consumables = own n_TenantID u (consumables w), ho_licenses = own i_TenantID u (licenses w),
     ho_insurance = own p_TenantID u (insurance w), ho_policyAssets = own q_TenantID u (policyAssets w),
     ho_settings = map_of (invsync w) u\<rparr>"

lemma own_foreign: "u \<noteq> t \<Longrightarrow> own tn u m = own tn u (foreign tn t m)"
  unfolding own_def foreign_def filter_filter by (rule filter_cong) auto

lemma own_kept: "tab_rel idf tn clash t m m' \<Longrightarrow> rows_ok idf clash m \<Longrightarrow> u \<noteq> t \<Longrightarrow> own tn u m' = own tn u m"
  unfolding tab_rel_def by (metis own_foreign)

lemma holdings_kept:
  assumes "owned_rows t w w'" and "mem_ok w" and "u \<noteq> t"
  shows "holdings u w' = holdings u w"
proof -
  have rel: "tab_rel a_ID a_TenantID tag_clash t (assets w) (assets w')"
    "tab_rel g_ID g_TenantID no_clash t (assignments w) (assignments w')"
    "tab_rel d_ID d_TenantID key_clash t (documents w) (documents w')"
    "tab_rel c_ID c_TenantID sibling_clash t (categories w) (categories w')"
    "tab_rel s_ID s_TenantID supplier_clash t (suppliers w) (suppliers w')"
    "tab_rel l_ID l_TenantID location_clash t (locations w) (locations w')"
    "tab_rel n_ID n_TenantID no_clash t (consumables w) (consumables w')"
    "tab_rel i_ID i_TenantID no_clash t (licenses w) (licenses w')"
    "tab_rel p_ID p_TenantID policy_clash t (insurance w) (insurance w')"
    "tab_rel q_ID q_TenantID cover_clash t (policyAssets w) (policyAssets w')"
    using assms(1) unfolding owned_rows_def by simp_all
  have ok: "rows_ok a_ID tag_clash (assets w)"
    "rows_ok g_ID no_clash (assignments w)"
    "rows_ok d_ID key_clash (documents w)"
    "rows_ok c_ID sibling_clash (categories w)"
    "rows_ok s_ID supplier_clash (suppliers w)"
    "rows_ok l_ID location_clash (locations w)"
    "rows_ok n_ID no_clash (consumables w)"
    "rows_ok i_ID no_clash (licenses w)"
    "rows_ok p_ID policy_clash (insurance w)"
    "rows_ok q_ID cover_clash (policyAssets w)"
    using assms(2) unfolding mem_ok_def by simp_all
  have "map_of (invsync w') u = map_of (invsync w) u" using assms(1,3) unfolding owned_rows_def by (elim conjE) simp
  then show ?thesis
    by (simp only: holdings_def
      own_kept [OF rel(1) ok(1) assms(3)] own_kept [OF rel(2) ok(2) assms(3)]
      own_kept [OF rel(3) ok(3) assms(3)] own_kept [OF rel(4) ok(4) assms(3)]
      own_kept [OF rel(5) ok(5) assms(3)] own_kept [OF rel(6) ok(6) assms(3)]
      own_kept [OF rel(7) ok(7) assms(3)] own_kept [OF rel(8) ok(8) assms(3)]
      own_kept [OF rel(9) ok(9) assms(3)] own_kept [OF rel(10) ok(10) assms(3)])
qed

section \<open>Sweeps\<close>

text \<open>A sweep also records what it alerted about; everything else it changes belongs to its tenant.\<close>

definition apart :: "string \<Rightarrow> 'z mem_scheme \<Rightarrow> 'z mem_scheme \<Rightarrow> bool" where
  "apart t w w' \<longleftrightarrow> owned_rows t w (w'\<lparr>notify := notify w\<rparr>)"

lemma apart_owned: "owned_rows t w w' \<Longrightarrow> apart t w w'"
  by (simp add: apart_def owned_rows_def)

interpretation ap: io_relation "apart t" for t
proof
  fix w w1 w2 :: "'a mem_scheme"
  show "apart t w w" by (simp add: apart_def owned_rows_refl)
  assume a: "apart t w w1" "apart t w1 w2"
  from a(2) have "owned_rows t (w1\<lparr>notify := notify w\<rparr>) (w2\<lparr>notify := notify w\<rparr>)" by (simp add: apart_def owned_rows_def)
  with a(1) show "apart t w w2" unfolding apart_def by (rule owned_rows_trans)
qed

lemma apart_scoped: "state_io_rel (scoped t) m \<Longrightarrow> state_io_rel (apart t) m"
  by (erule state_io_rel_mono) (simp add: scoped_def apart_owned)

lemma apart_frame: "wall w' = wall w \<Longrightarrow> core w' = core (w\<lparr>notify := notify w'\<rparr>) \<Longrightarrow> apart t w w'"
  using owned_rows_refl [of t w] by (auto simp: apart_def owned_rows_def core_def)

lemma apart_Upsert: "state_io_rel (apart t) (UpsertNotifyState y :: ('z world_scheme, _, _) prog)"
  unfolding state_io_rel_def
  by (intro allI apart_frame) (simp_all add: UpsertNotifyState_def run_guarded Let_def core_def split: option.split)

lemma apart_each_row: "(\<And>x rep. x \<in> set rows \<Longrightarrow> state_io_rel (apart t) (f x rep)) \<Longrightarrow> state_io_rel (apart t) (each_row f rows rep)"
  by (induction rows arbitrary: rep) (simp_all add: ap.io_return ap.io_bind)

lemma apart_sweep_rows:
  assumes "state_io_rel (apart t) fetch" and "\<And>w rows w'. run_state fetch w = (Inr rows, w') \<Longrightarrow> list_all P rows"
    and "\<And>x rep. P x \<Longrightarrow> state_io_rel (apart t) (body x rep)"
  shows "state_io_rel (apart t) (sweep_rows fetch body rep)"
  unfolding sweep_rows_def
  by (rule ap.io_bind_val [OF assms(1)]) (auto intro!: ap.io_case_sum ap.io_return apart_each_row assms(3) dest!: assms(2) simp: list_all_iff)

lemmas apart_calls = scoped_store [THEN apart_scoped] scoped_Emit [THEN apart_scoped] scoped_Publish [THEN apart_scoped]
  scoped_get [THEN apart_scoped]

lemma apart_alert: "state_io_rel (apart t) (alert t key st typ pl f rep :: ('z world_scheme, _) state)"
  unfolding alert_def shouldNotify_def
  by (intro ap.io_rules apart_Upsert apart_calls)

lemma fetched:
  "run_state (AllAssets t) w = (Inr as, w') \<Longrightarrow> list_all (\<lambda>a. a_TenantID a = t) as"
  "run_state (AllLicenses t) w = (Inr ls, w') \<Longrightarrow> list_all (\<lambda>l. i_TenantID l = t) ls"
  "run_state (AllInsurance t) w = (Inr ps, w') \<Longrightarrow> list_all (\<lambda>p. p_TenantID p = t) ps"
  "run_state (AllConsumables t) w = (Inr cs, w') \<Longrightarrow> list_all (\<lambda>c. n_TenantID c = t) cs"
  by (auto simp: AllAssets_def AllLicenses_def AllInsurance_def AllConsumables_def run_guarded Let_def list_all_iff fillInsurance_def split: if_splits)

lemma apart_row:
  "state_io_rel (apart t) (warranty_row svc t now a rep :: ('z world_scheme, _) state)"
  "i_TenantID l = t \<Longrightarrow> state_io_rel (apart t) (license_row svc t now l rep :: ('z world_scheme, _) state)"
  "p_TenantID p = t \<Longrightarrow> state_io_rel (apart t) (policy_row svc t now p rep :: ('z world_scheme, _) state)"
  "state_io_rel (apart t) (stock_row t c rep :: ('z world_scheme, _) state)"
  unfolding warranty_row_def license_row_def policy_row_def stock_row_def expire_license_def expire_policy_def Let_def
  by (intro ap.io_rules apart_alert apart_calls; simp add: sched_event_def)+

lemma apart_Sweep: "state_io_rel (apart t) (Sweep svc t :: ('z world_scheme, _) state)"
  unfolding Sweep_def sweepWarranty_def sweepLicenses_def sweepInsurance_def sweepConsumables_def
  by (intro ap.io_rules apart_calls; (rule apart_sweep_rows [OF _ fetched(1)] apart_sweep_rows [OF _ fetched(2)]
      apart_sweep_rows [OF _ fetched(3)] apart_sweep_rows [OF _ fetched(4)]; (assumption | rule apart_row apart_calls)+))

section \<open>Histories\<close>

text \<open>
  One step of the service, with the tenant it acts for: a method of the module-to-module API for the tenant it names,
  a route of the gateway-facing API for the tenant of the verified identity, a restore for its target, a task of the
  platform scheduler, and a sweep of the lifecycle scheduler.
\<close>

inductive api_step :: "Config \<Rightarrow> 'z Outside \<Rightarrow> string \<Rightarrow> 'z world_scheme \<Rightarrow> 'z world_scheme \<Rightarrow> bool" for cfg ou where
  ByRpc: "rpc_call (Build_Deps cfg ou) peer t c \<Longrightarrow> run_state c w = (x, w') \<Longrightarrow> api_step cfg ou t w w'"
| ByHttp: "http_call (Build_HttpDeps cfg ou) (docSvc cfg ou) (stats_New (Config_SoonWindows cfg)) (Some ident) c \<Longrightarrow>
    run_state c w = (x, w') \<Longrightarrow> api_step cfg ou (id_TenantID ident) w w'"
| ByRestore: "subjects (Some ident) = Inr subj \<Longrightarrow>
    run_state (http_backup_import (Build_HttpDeps cfg ou) (Some ident) (Inr (b, opts))) w = (resp, w') \<Longrightarrow>
    api_step cfg ou (import_target subj opts) w w'"
| ByTask: "run_state (InventorySync (dp_Sync (Build_Deps cfg ou)) t payload) w = (r, w') \<Longrightarrow> api_step cfg ou t w w'"
| BySweep: "run_state (Sweep sched t) w = (rep, w') \<Longrightarrow> api_step cfg ou t w w'"

inductive api_run :: "Config \<Rightarrow> 'z Outside \<Rightarrow> 'z world_scheme \<Rightarrow> string list \<Rightarrow> 'z world_scheme \<Rightarrow> bool" for cfg ou w where
  RunStart: "api_run cfg ou w [] w"
| RunCall: "api_run cfg ou w acts w1 \<Longrightarrow> api_step cfg ou t w1 w2 \<Longrightarrow> api_run cfg ou w (acts @ [t]) w2"
| RunTick: "api_run cfg ou w acts w1 \<Longrightarrow> api_run cfg ou w acts (w1\<lparr>wall := now\<rparr>)"

lemma restore_owned:
  assumes "subjects (Some ident) = Inr subj" and "run_state (http_backup_import h (Some ident) (Inr (b, opts))) w = (resp, w')"
  shows "owned_rows (import_target subj opts) w w'"
proof -
  obtain r w1 where im: "run_state (Import (hd_Backup h) subj b opts) w = (r, w1)" by force
  then have "w' = w1" using assms by (simp add: http_backup_import_def handle_def with_body_def)
  then show ?thesis using Import_runs [OF im] by simp
qed

lemma scoped_RunScheduled: "state_io_rel (scoped t) (RunScheduled sync t opts)"
  using scoped_sync_run [of "\<lparr>TenantID = t, UserID = ''scheduler'', Roles = [], ActorKind = ActorSystem\<rparr>" sync "[]" opts]
  by (simp add: RunScheduled_def)

lemma scoped_InventorySync: "state_io_rel (scoped t) (InventorySync sync t payload)"
  unfolding InventorySync_def Let_def
  by (intro sc.io_if sc.io_return sc.io_case_sum) (auto intro!: sc.io_case_option sc.io_bind sc.io_return scoped_RunScheduled split: prod.split)

lemma api_step_apart:
  assumes "api_step cfg ou t w w'" and "paper_ok (ou_Paper ou)"
  shows "apart t w w'"
proof -
  note d = wired_Build [OF assms(2), of cfg] and ds = docSvc_ok [OF assms(2), of cfg]
  have h: "wired (hd_Deps (Build_HttpDeps cfg ou))" using d by (simp add: Build_HttpDeps_def)
  from assms(1) show ?thesis
  proof cases
    case (ByRpc peer c x)
    from sc.io_run [OF scoped_rpc_call [OF ByRpc(1) d] ByRpc(2)] show ?thesis by (simp add: scoped_def apart_owned)
  next
    case (ByHttp ident c x)
    from sc.io_run [OF scoped_http_call [OF ByHttp(2) h ds refl] ByHttp(3)] show ?thesis using ByHttp(1) by (simp add: scoped_def apart_owned)
  next
    case (ByRestore ident subj b opts resp)
    then show ?thesis using restore_owned apart_owned by blast
  next
    case (ByTask payload r)
    from sc.io_run [OF scoped_InventorySync ByTask] show ?thesis by (simp add: scoped_def apart_owned)
  next
    case (BySweep sched rep)
    from ap.io_run [OF apart_Sweep BySweep] show ?thesis .
  qed
qed

lemma notify_kept [simp]: "mem_ok (w\<lparr>notify := n\<rparr>) = mem_ok w" "holdings u (w\<lparr>notify := n\<rparr>) = holdings u w"
  by (simp_all add: mem_ok_def holdings_def)

lemma apart_holdings: "apart t w w' \<Longrightarrow> mem_ok w \<Longrightarrow> u \<noteq> t \<Longrightarrow> holdings u w' = holdings u w"
  unfolding apart_def using holdings_kept [of t w "w'\<lparr>notify := notify w\<rparr>" u] by simp

lemma apart_mem_ok: "apart t w w' \<Longrightarrow> mem_ok w \<Longrightarrow> mem_ok w'"
  unfolding apart_def using owned_rows_mem_ok [of t w "w'\<lparr>notify := notify w\<rparr>"] by simp

text \<open>The ticker loop of the scheduler keeps the tables well formed.\<close>

lemma sched_Run_keeps: "state_io_rel (preserving mem_ok) (sched_Run svc ticks :: ('z world_scheme, unit) state)"
proof -
  have sweep: "state_io_rel (preserving mem_ok) (Sweep svc t :: ('z world_scheme, _) state)" for t
    by (rule state_io_rel_mono [OF apart_Sweep]) (auto simp: preserving_def intro: apart_mem_ok)
  have all: "state_io_rel (preserving mem_ok) (sweep_all svc ids :: ('z world_scheme, _) state)" for ids
    by (induction ids) (auto intro!: pres.io_return pres.io_bind sweep)
  have "state_io_rel (preserving mem_ok) (TenantIDs :: ('z world_scheme, _, _) prog)"
    by (auto simp: state_io_rel_def preserving_def TenantIDs_def run_guarded Let_def mem_ok_def)
  then have "state_io_rel (preserving mem_ok) (SweepAll svc :: ('z world_scheme, _) state)"
    unfolding SweepAll_def by (intro pres.io_rules all)
  moreover have "state_io_rel (preserving mem_ok) (State_Monad.update (\<lambda>w. w\<lparr>wall := now\<rparr>) :: ('z world_scheme, unit) state)" for now
    by (simp add: state_io_rel_def preserving_def mem_ok_def)
  ultimately show ?thesis by (induction ticks) (auto intro!: pres.io_return pres.io_bind)
qed

lemma tick_kept [simp]: "mem_ok (w\<lparr>wall := now\<rparr>) = mem_ok w" "holdings u (w\<lparr>wall := now\<rparr>) = holdings u w"
  by (simp_all add: mem_ok_def holdings_def)


subsection \<open>A concrete history\<close>

text \<open>Another service creates a category for its tenant, beside the rows of the tenant \<^verbatim>\<open>t\<close>.\<close>

definition acme :: string where "acme = ''01234567-89ab-cdef-0123-456789abcdef''"

definition outside_demo :: "unit Outside" where
  "outside_demo = \<lparr>ou_fold = (\<lambda>s. s), ou_Resolve = (\<lambda>_ _. Inl UnknownUser), ou_ListUsers = (\<lambda>_. Inr []), ou_Env = demo_env,
     ou_Sha = (\<lambda>s. s), ou_Paper = paper_demo, ou_Inv = fake_client NewFake, ou_StoreOK = True\<rparr>"

definition category_demo :: CategoryInputMsg where
  "category_demo = \<lparr>ci_Name = ''laptops'', ci_Description = [], ci_ParentId = [], ci_Icon = [], ci_Tags = []\<rparr>"

definition called_demo :: world where
  "called_demo = snd (run_state (effect (rpc_CreateCategory (Build_Deps config_demo outside_demo) (Some ''spiffe'') acme category_demo)) tree_demo)"

lemma called_demo_run: "api_run config_demo outside_demo tree_demo [acme] called_demo"
proof -
  have "api_step config_demo outside_demo acme tree_demo called_demo"
    by (rule ByRpc [OF RpcCreateCategory]) (simp add: called_demo_def prod_eq_iff)
  from RunCall [OF RunStart this] show ?thesis by simp
qed

lemma tree_demo_mem_ok: "mem_ok tree_demo"
  by (simp add: tree_demo_def world_demo_def mem_ok_def rows_ok_def tab_ok_def zero_category_def sibling_clash_def)

lemma paper_demo_remote: "paper_ok (ou_Paper outside_demo)"
  using paper_demo_ok by (simp add: outside_demo_def)


section \<open>Calls without an identity\<close>

lemma effect_run [simp]: "run_state (effect m) w = ((), snd (run_state m w))"
  by (simp add: effect_def split: prod.split)

lemma refused_as_caller: "caller peer t = Inl e \<Longrightarrow> snd (run_state (as_caller peer t m) w) = w"
  by (simp add: as_caller_def)

lemma refused_handle: "subjects ctx = Inl e \<Longrightarrow> snd (run_state (handle ctx fn) w) = w"
  by (simp add: handle_def)

lemma refused_rpc_call: "rpc_call d peer t c \<Longrightarrow> caller peer t = Inl e \<Longrightarrow> run_state c w = ((), w)"
  by (induction rule: rpc_call.induct; unfold rpc_defs; simp add: refused_as_caller)

lemma refused_http_call: "http_call h ds st ctx c \<Longrightarrow> subjects ctx = Inl e \<Longrightarrow> run_state c w = ((), w)"
  by (induction rule: http_call.induct; unfold http_defs; simp add: refused_handle)



end
