(* ===== verification/Api_Views.thy ===== *)
theory Api_Views
  imports Isolation
begin

text \<open>
  What callers of the module-to-module API get to see: contact data stays blank for services, and the tree methods
  return every row once.
\<close>

section \<open>What a program returns\<close>

definition yields :: "('a \<Rightarrow> bool) \<Rightarrow> ('s, 'e, 'a) prog \<Rightarrow> bool" where
  "yields P m \<longleftrightarrow> (\<forall>w x w'. run_state m w = (Inr x, w') \<longrightarrow> P x)"

lemma yields_ok: "P x \<Longrightarrow> yields P (ok x)"
  by (simp add: yields_def)

lemma yields_fail: "yields P (fail_with e)"
  by (simp add: yields_def)

lemma yields_bind: "(\<And>x. yields P (f x)) \<Longrightarrow> yields P (State_Monad.bind m f)"
  unfolding yields_def by (auto split: prod.splits)

lemma yields_case_sum: "(\<And>e. yields P (f e)) \<Longrightarrow> (\<And>x. yields P (g x)) \<Longrightarrow> yields P (case r of Inl e \<Rightarrow> f e | Inr x \<Rightarrow> g x)"
  by (cases r) auto

lemma yields_if: "yields P m \<Longrightarrow> yields P m' \<Longrightarrow> yields P (if b then m else m')"
  by simp

lemma yields_try_as: "(\<And>x. yields P (f x)) \<Longrightarrow> yields P (try_as g m f)"
  unfolding try_as_def by (intro yields_bind yields_case_sum yields_fail)

lemma yields_try_in: "(\<And>x. yields P (f x)) \<Longrightarrow> yields P (try_in m f)"
  unfolding try_in_def by (rule yields_try_as)

lemma yields_in_tenant: "yields P m \<Longrightarrow> yields P (in_tenant subj m)"
  by (simp add: in_tenant_eq yields_fail)

lemma yields_then:
  assumes "yields P m" and "\<And>x. P x \<Longrightarrow> yields Q (f x)"
  shows "yields Q (try_as g m f)"
  unfolding yields_def
proof (intro allI impI)
  fix w x w'
  assume "run_state (try_as g m f) w = (Inr x, w')"
  then obtain y w1 where "run_state m w = (Inr y, w1)" "run_state (f y) w1 = (Inr x, w')"
    by (auto simp: run_try_as split: prod.splits sum.splits)
  then show "Q x" using assms unfolding yields_def by blast
qed

lemmas yields_rules = yields_ok yields_fail yields_bind yields_case_sum yields_if yields_try_as yields_try_in yields_in_tenant

section \<open>Contact data\<close>

definition no_contact :: "Supplier \<Rightarrow> bool" where
  "no_contact sp \<longleftrightarrow> s_ContactPerson sp = [] \<and> s_Telephone sp = [] \<and> s_Email sp = []"

definition no_site_contact :: "Location \<Rightarrow> bool" where
  "no_site_contact l \<longleftrightarrow> l_Contact l = [] \<and> l_Phone l = [] \<and> l_Email l = []"

lemma present_blank:
  "\<not> IsAdmin subj \<Longrightarrow> no_contact (supplier_present e subj sp)"
  "\<not> IsAdmin subj \<Longrightarrow> no_site_contact (location_present e subj l)"
  by (simp_all add: supplier_present_def location_present_def no_contact_def no_site_contact_def)

lemma suppliers_blank:
  assumes "\<not> IsAdmin subj"
  shows "yields no_contact (Suppliers_Create svc subj inp)" "yields no_contact (Suppliers_Get svc subj i)"
    "yields no_contact (Suppliers_Update svc subj i inp)" "yields (list_all no_contact) (Suppliers_List svc subj f)"
  unfolding Suppliers_Create_def Suppliers_Get_def Suppliers_Update_def Suppliers_List_def Let_def
  by (intro yields_rules; simp add: present_blank assms list_all_iff)+

lemma location_get_blank: "\<not> IsAdmin subj \<Longrightarrow> yields no_site_contact (Locations_Get svc subj i)"
  unfolding Locations_Get_def by (intro yields_rules) (simp add: present_blank)

lemma locations_blank:
  assumes "\<not> IsAdmin subj"
  shows "yields no_site_contact (Locations_Create svc subj inp)" "yields no_site_contact (Locations_Update svc subj i inp)"
    "yields (list_all no_site_contact) (Locations_List svc subj)"
  unfolding Locations_Create_def Locations_Update_def Locations_List_def Let_def
  by (intro yields_rules location_get_blank assms; simp add: present_blank assms list_all_iff)+

lemma node_map_vals: "set (vals (node_map idf rows)) \<subseteq> set rows"
proof -
  have "set (vals (foldl (\<lambda>m r. AList.update (idf r) r m) m0 rows)) \<subseteq> set (vals m0) \<union> set rows" for m0
  proof (induction rows arbitrary: m0)
    case (Cons r rows)
    show ?case using Cons.IH [of "AList.update (idf r) r m0"] set_vals_update [of "idf r" r m0] by auto
  qed simp
  from this [of "[]"] show ?thesis by (simp add: node_map_def)
qed

lemma location_tree_blank:
  assumes "\<not> IsAdmin subj"
  shows "yields (\<lambda>(nodes, f). list_all no_site_contact (vals nodes)) (Locations_Tree svc subj)"
  unfolding Locations_Tree_def try_in_def
proof (rule yields_then [OF locations_blank(3) [OF assms]])
  fix rows
  assume "list_all no_site_contact rows"
  then show "yields (\<lambda>(nodes, f). list_all no_site_contact (vals nodes)) (ok (node_map l_ID rows, Locations_BuildTree rows))"
    using node_map_vals [of l_ID rows] by (intro yields_ok) (auto simp: list_all_iff)
qed

lemma caller_not_admin: "caller peer t = Inr subj \<Longrightarrow> \<not> IsAdmin subj"
  by (auto simp: caller_def IsAdmin_def hasRole_iff split: option.splits if_splits)

lemma yields_as_caller: "(\<And>subj. \<not> IsAdmin subj \<Longrightarrow> yields P (m subj)) \<Longrightarrow> yields P (as_caller peer t m)"
  unfolding as_caller_def by (cases "caller peer t") (auto intro: yields_fail dest: caller_not_admin)

lemma yields_reply: "yields P m \<Longrightarrow> (\<And>x. P x \<Longrightarrow> Q (conv x)) \<Longrightarrow> yields Q (reply conv m)"
  unfolding reply_def by (erule yields_then) (rule yields_ok)

lemma rpc_reply_run:
  assumes "run_state (as_caller peer t (\<lambda>subj. reply conv (m subj))) w = (Inr x, w')"
  obtains subj v where "caller peer t = Inr subj" and "run_state (m subj) w = (Inr v, w')" and "x = conv v"
  using assms that
  by (cases "caller peer t") (auto simp: as_caller_def reply_def run_try_as split: prod.splits sum.splits)

text \<open>The fields of the messages that carry contact data, at every node of a tree.\<close>

definition blank_supplier :: "SupplierMsg \<Rightarrow> bool" where
  "blank_supplier m \<longleftrightarrow> sm_ContactPerson m = [] \<and> sm_Telephone m = [] \<and> sm_Email m = []"

definition blank_location :: "LocationMsg \<Rightarrow> bool" where
  "blank_location m \<longleftrightarrow> lm_Contact m = [] \<and> lm_Phone m = [] \<and> lm_Email m = []"

fun flatten :: "'m MsgTree \<Rightarrow> 'm list" where
  "flatten (MsgNode m cs) = m # concat (map flatten cs)"

text \<open>The ids a tree shows, in the order of its nodes.\<close>

fun tree_ids :: "'v tab \<Rightarrow> string list tab \<Rightarrow> nat \<Rightarrow> string list \<Rightarrow> string list" where
  "tree_ids nodes ch 0 ids = []"
| "tree_ids nodes ch (Suc n) ids = concat (map (\<lambda>i. case map_of nodes i of None \<Rightarrow> []
     | Some v \<Rightarrow> i # tree_ids nodes ch n (case map_of ch i of None \<Rightarrow> [] | Some l \<Rightarrow> l)) ids)"

lemma flatten_tree: "concat (map flatten (treeToPB conv nodes ch n ids)) = map (\<lambda>i. conv (the (map_of nodes i))) (tree_ids nodes ch n ids)"
proof (induction n arbitrary: ids)
  case (Suc n)
  show ?case
  proof (induction ids)
    case (Cons i ids)
    then show ?case by (cases "map_of nodes i") (simp_all add: Suc.IH)
  qed simp
qed simp

lemma tree_ids_dom: "i \<in> set (tree_ids nodes ch n ids) \<Longrightarrow> map_of nodes i \<noteq> None"
proof (induction n arbitrary: ids)
  case (Suc n)
  from Suc.prems obtain j v where j: "map_of nodes j = Some v"
    "i = j \<or> i \<in> set (tree_ids nodes ch n (case map_of ch j of None \<Rightarrow> [] | Some l \<Rightarrow> l))"
  proof (induction ids)
    case (Cons k ids)
    show ?case
    proof (cases "map_of nodes k")
      case None
      then show ?thesis using Cons by simp
    next
      case (Some v)
      then show ?thesis using Cons by (cases "i \<in> set (tree_ids nodes ch (Suc n) ids)") auto
    qed
  qed simp
  then show ?case using Suc.IH by auto
qed simp

lemma message_blank: "no_contact sp \<Longrightarrow> blank_supplier (supplierToPB sp)" "no_site_contact l \<Longrightarrow> blank_location (locationToPB l)"
  by (simp_all add: no_contact_def no_site_contact_def blank_supplier_def blank_location_def supplierToPB_def locationToPB_def)

lemma tree_message_blank:
  assumes "list_all no_site_contact (vals nodes)"
  shows "list_all blank_location (concat (map flatten (locationTreeToPB (nodes, f))))"
proof -
  have "blank_location (locationToPB (the (map_of nodes i)))" if shown: "i \<in> set (tree_ids nodes ch n ids)" for i ch n ids
  proof -
    obtain v where "map_of nodes i = Some v" using tree_ids_dom [OF shown] by auto
    then have "the (map_of nodes i) \<in> set (vals nodes)" by (force dest: map_of_SomeD)
    then show ?thesis using assms message_blank(2) by (simp only: list_all_iff)
  qed
  then show ?thesis by (simp add: locationTreeToPB_def flatten_tree list_all_iff)
qed

text \<open>
  C4: a service never receives contact data over the module-to-module API: whatever method it calls, for whatever
  tenant and in whatever state, the contact person, telephone and e-mail of every supplier message and of every
  location message, also inside a location tree, are blank.
\<close>

theorem rpc_hides_contacts:
  "yields blank_supplier (rpc_CreateSupplier d peer t sinp) \<and> yields blank_supplier (rpc_GetSupplier d peer t i) \<and>
   yields blank_supplier (rpc_UpdateSupplier d peer t i sinp) \<and> yields (list_all blank_supplier) (rpc_ListSuppliers d peer t f limit) \<and>
   yields blank_location (rpc_CreateLocation d peer t linp) \<and> yields blank_location (rpc_GetLocation d peer t i) \<and>
   yields blank_location (rpc_UpdateLocation d peer t i linp) \<and> yields (list_all blank_location) (rpc_ListLocations d peer t) \<and>
   yields (\<lambda>roots. list_all blank_location (concat (map flatten roots))) (rpc_GetLocationTree d peer t)"
  unfolding rpc_defs
  by (intro conjI; rule yields_as_caller; rule yields_reply;
      (rule suppliers_blank locations_blank location_get_blank location_tree_blank, assumption)?;
      (clarsimp simp: message_blank tree_message_blank)?; (simp add: list_all_iff message_blank)?)

section \<open>Contact data a service sends back\<close>

lemma supplier_update_blanks:
  assumes "run_state (Suppliers_Update svc subj i inp) w = (Inr v, w')" and "tab_ok s_ID (suppliers w)"
    and "z_ContactPerson inp = []" and "z_Telephone inp = []" and "z_Email inp = []"
  shows "\<exists>sp. map_of (suppliers w') i = Some sp \<and> no_contact sp"
proof -
  from assms(1) obtain sp0 w0 sp1 w1 w2 where get: "run_state (GetSupplier (TenantID subj) i) w = (Inr sp0, w0)"
    and seal: "run_state (supplier_seal (env svc) ((supplier_apply sp0 inp)\<lparr>s_UpdatedAt := wall w0\<rparr>)) w0 = (Inr sp1, w1)"
    and upd: "run_state (UpdateSupplier sp1) w1 = (Inr (), w2)"
    and rest: "run_state (do { emit (rec svc) subj ''supplier_updated'' ''supplier'' i [];
         ok (supplier_present (env svc) subj sp1) } :: (_, svc_err, _) prog) w2 = (Inr v, w')"
    by (auto simp: Suppliers_Update_def in_tenant_eq Let_def split: sum.splits if_splits elim!: try_in_Inr try_as_Inr)
  have sp1: "no_contact sp1" "s_ID sp1 = s_ID sp0"
    using seal assms(3-5) by (auto simp: supplier_seal_def supplier_apply_def SealString_def no_contact_def run_try_in)
  have "s_ID sp0 = i" using GetSupplier_found [OF get] assms(2) by (auto dest: tab_ok_lookup)
  moreover obtain sp2 where "map_of (suppliers w2) (s_ID sp1) = Some sp2" "no_contact sp2"
    using upd sp1(1) by (auto simp: UpdateSupplier_def run_guarded Let_def update_conv no_contact_def split: if_splits option.splits)
  moreover obtain w3 where e: "run_state (emit (rec svc) subj ''supplier_updated'' ''supplier'' i []) w2 = ((), w3)" by (rule run_unit)
  moreover have "w3 = w'" using rest e by simp
  moreover have "suppliers w3 = suppliers w2" using e quiet_emit core_tables(6) by (metis quiet_def snd_conv)
  ultimately show ?thesis using sp1(2) by auto
qed

text \<open>
  C16: a service that reads a supplier and sends it back loses its contact data. The contact fields it reads are blank
  (they are shown to administrators only), and an update with blank contact fields replaces the sealed values in
  the store by blanks, although the caller may not see them.
\<close>

theorem rpc_update_clears_contacts:
  assumes "run_state (rpc_GetSupplier d peer t i) w = (Inr m, w1)" and "run_state (rpc_UpdateSupplier d peer t i inp) w = (Inr m', w')"
    and "si_ContactPerson inp = sm_ContactPerson m" and "si_Telephone inp = sm_Telephone m" and "si_Email inp = sm_Email m"
    and "tab_ok s_ID (suppliers w)"
  shows "\<exists>sp. map_of (suppliers w') i = Some sp \<and> no_contact sp"
proof -
  obtain subj v where g: "caller peer t = Inr subj" "run_state (Suppliers_Get (dp_Suppliers d) subj i) w = (Inr v, w1)" "m = supplierToPB v"
    using assms(1) unfolding rpc_GetSupplier_def by (rule rpc_reply_run)
  obtain subj' v' where u: "caller peer t = Inr subj'" "run_state (Suppliers_Update (dp_Suppliers d) subj' i (supplierFromPB inp)) w = (Inr v', w')"
    using assms(2) unfolding rpc_UpdateSupplier_def by (rule rpc_reply_run)
  have "no_contact v" using suppliers_blank(2) [OF caller_not_admin [OF g(1)]] g(2) unfolding yields_def by blast
  then have "z_ContactPerson (supplierFromPB inp) = []" "z_Telephone (supplierFromPB inp) = []" "z_Email (supplierFromPB inp) = []"
    using assms(3-5) g(3) by (simp_all add: supplierFromPB_def supplierToPB_def no_contact_def)
  with supplier_update_blanks [OF u(2) assms(6)] show ?thesis by blast
qed

text \<open>A service renames a supplier whose e-mail address is on file, with the contact fields it was shown.\<close>

definition contact_demo :: world where
  "contact_demo = world_demo\<lparr>suppliers := [(''s1'', zero_supplier\<lparr>s_ID := ''s1'', s_TenantID := acme, s_Name := ''old'', s_Email := ''sealed''\<rparr>)]\<rparr>"

definition rename_demo :: SupplierInputMsg where
  "rename_demo = \<lparr>si_Name = ''new'', si_Code = [], si_Address = [], si_City = [], si_State = [], si_Country = [], si_PostalCode = [],
     si_ContactPerson = [], si_Telephone = [], si_Email = [], si_Website = [], si_Notes = [], si_Status = [], si_Tags = []\<rparr>"

theorem rpc_update_clears_contacts_witness:
  "map_option s_Email (map_of (suppliers contact_demo) ''s1'') = Some ''sealed'' \<and>
   map_option s_Email (map_of (suppliers (snd (run_state (rpc_UpdateSupplier (Build_Deps config_demo outside_demo) (Some ''spiffe'') acme ''s1'' rename_demo)
     contact_demo))) ''s1'') = Some []"
proof -
  let ?get = "run_state (rpc_GetSupplier (Build_Deps config_demo outside_demo) (Some ''spiffe'') acme ''s1'') contact_demo"
  let ?upd = "run_state (rpc_UpdateSupplier (Build_Deps config_demo outside_demo) (Some ''spiffe'') acme ''s1'' rename_demo) contact_demo"
  have "case fst ?get of Inl _ \<Rightarrow> False | Inr m \<Rightarrow> sm_ContactPerson m = [] \<and> sm_Telephone m = [] \<and> sm_Email m = []" by code_simp
  then obtain m where m: "fst ?get = Inr m" "sm_ContactPerson m = []" "sm_Telephone m = []" "sm_Email m = []" by (cases "fst ?get") auto
  have "case fst ?upd of Inl _ \<Rightarrow> False | Inr _ \<Rightarrow> True" by code_simp
  then obtain m' where m': "fst ?upd = Inr m'" by (cases "fst ?upd") auto
  have runs: "?get = (Inr m, snd ?get)" "?upd = (Inr m', snd ?upd)" using m(1) m' by (simp_all add: prod_eq_iff)
  have same: "si_ContactPerson rename_demo = sm_ContactPerson m" "si_Telephone rename_demo = sm_Telephone m" "si_Email rename_demo = sm_Email m"
    using m(2-4) by (simp_all add: rename_demo_def)
  have "tab_ok s_ID (suppliers contact_demo)" by (simp add: contact_demo_def tab_ok_def)
  from rpc_update_clears_contacts [OF runs same this]
  obtain sp where "map_of (suppliers (snd ?upd)) ''s1'' = Some sp" "no_contact sp" by blast
  then show ?thesis by (simp add: contact_demo_def no_contact_def)
qed

end
