(* ===== verification/Api_Trees.thy ===== *)
theory Api_Trees
  imports Api_Views "HOL-Library.Multiset"
begin

text \<open>
  The tree methods of the module-to-module API return the rows of the listing methods, each exactly once, nested below
  their parents. This rests on what \<^verbatim>\<open>BuildTree\<close> guarantees of its pointer graph, and shows that the fuel of \<open>treeToPB\<close>
  is enough.
\<close>

section \<open>Walking a forest\<close>

lemma tree_ids_each: "tree_ids nodes ch n ids = concat (map (\<lambda>i. tree_ids nodes ch n [i]) ids)"
  by (cases n) simp_all

lemma distinct_concat_map:
  assumes "distinct xs" and "\<And>x. x \<in> set xs \<Longrightarrow> distinct (g x)"
    and "\<And>x y. x \<in> set xs \<Longrightarrow> y \<in> set xs \<Longrightarrow> x \<noteq> y \<Longrightarrow> set (g x) \<inter> set (g y) = {}"
  shows "distinct (concat (map g xs))"
  using assms
proof (induction xs)
  case (Cons x xs)
  have "set (g x) \<inter> set (concat (map g xs)) = {}"
    using Cons.prems(1) Cons.prems(3) [of x] by fastforce
  then show ?case using Cons by simp
qed simp

text \<open>
  A finite forest: \<open>ch\<close> lists the children of each node, every node is the child of at most one, nothing is its own
  descendant. \<open>below i\<close> is \<open>i\<close> with its descendants.
\<close>

locale forest_walk =
  fixes nodes :: "'v tab" and ch :: "string list tab"
  assumes edges_known: "map_of ch p = Some l \<Longrightarrow> i \<in> set l \<Longrightarrow> map_of nodes i \<noteq> None"
    and parents_known: "map_of ch p = Some l \<Longrightarrow> map_of nodes p \<noteq> None"
    and distinct_kids: "map_of ch p = Some l \<Longrightarrow> distinct l"
    and one_parent: "map_of ch p = Some l \<Longrightarrow> i \<in> set l \<Longrightarrow> map_of ch q = Some l' \<Longrightarrow> i \<in> set l' \<Longrightarrow> p = q"
    and no_loop: "acyclic {(p, i). \<exists>l. map_of ch p = Some l \<and> i \<in> set l}"
begin

definition edge :: "(string \<times> string) set" where
  "edge = {(p, i). \<exists>l. map_of ch p = Some l \<and> i \<in> set l}"

definition below :: "string \<Rightarrow> string set" where
  "below i = edge\<^sup>* `` {i}"

lemma edge_known: "(p, i) \<in> edge \<Longrightarrow> map_of nodes i \<noteq> None"
  unfolding edge_def using edges_known by blast

lemma below_known: "map_of nodes i \<noteq> None \<Longrightarrow> below i \<subseteq> fst ` set nodes"
proof
  fix x
  assume i: "map_of nodes i \<noteq> None" and "x \<in> below i"
  then have "(i, x) \<in> edge\<^sup>*" by (simp add: below_def)
  then have "map_of nodes x \<noteq> None" using i by (induction rule: rtrancl_induct) (auto dest: edge_known)
  then show "x \<in> fst ` set nodes" by (simp add: map_of_eq_None_iff)
qed

lemma below_finite: "map_of nodes i \<noteq> None \<Longrightarrow> finite (below i)"
  using below_known finite_subset by blast

lemma not_below_child: "(p, c) \<in> edge \<Longrightarrow> p \<notin> below c"
  using no_loop unfolding below_def acyclic_def edge_def [symmetric]
  by (metis Image_singleton_iff rtrancl_into_trancl2)

lemma below_unfold: "below i = insert i (\<Union>c \<in> {c. (i, c) \<in> edge}. below c)"
  unfolding below_def by (auto elim: converse_rtranclE intro: converse_rtrancl_into_rtrancl)

lemma card_below_child:
  assumes "(p, c) \<in> edge" and "map_of nodes p \<noteq> None"
  shows "card (below c) < card (below p)"
proof (rule psubset_card_mono)
  show "finite (below p)" by (rule below_finite [OF assms(2)])
  show "below c \<subset> below p"
    using not_below_child [OF assms(1)] below_unfold [of p] assms(1) by auto
qed

text \<open>Two nodes with a common descendant lie on one path.\<close>

lemma below_comparable:
  assumes "x \<in> below c" and "x \<in> below c'"
  shows "(c, c') \<in> edge\<^sup>* \<or> (c', c) \<in> edge\<^sup>*"
proof -
  have "single_valued (edge\<inverse>)"
    using one_parent unfolding single_valued_def edge_def by blast
  moreover have "(x, c) \<in> (edge\<inverse>)\<^sup>*" "(x, c') \<in> (edge\<inverse>)\<^sup>*"
    using assms by (simp_all add: below_def rtrancl_converse)
  ultimately have "(c, c') \<in> (edge\<inverse>)\<^sup>* \<or> (c', c) \<in> (edge\<inverse>)\<^sup>*" by (rule single_valued_confluent)
  then show ?thesis by (auto simp: rtrancl_converse)
qed

lemma siblings_apart:
  assumes "(p, c) \<in> edge" and "(p, c') \<in> edge" and "c \<noteq> c'"
  shows "below c \<inter> below c' = {}"
proof -
  have no: "(a, b) \<notin> edge\<^sup>*" if ab: "(p, a) \<in> edge" "(p, b) \<in> edge" "a \<noteq> b" for a b
  proof
    assume "(a, b) \<in> edge\<^sup>*"
    then obtain q where q: "(a, q) \<in> edge\<^sup>*" "(q, b) \<in> edge" using ab(3) by (auto elim: rtranclE)
    then have "q = p" using ab(2) one_parent unfolding edge_def by blast
    then show False using q(1) not_below_child [OF ab(1)] by (simp add: below_def)
  qed
  show ?thesis
    using below_comparable [of _ c c'] no [OF assms] no [OF assms(2,1)] assms(3) by (metis IntE all_not_in_conv)
qed

lemma walk_all:
  assumes "map_of nodes i \<noteq> None" and "card (below i) \<le> n"
  shows "distinct (tree_ids nodes ch n [i]) \<and> set (tree_ids nodes ch n [i]) = below i"
  using assms
proof (induction n arbitrary: i)
  case 0
  have "i \<in> below i" by (simp add: below_def)
  then show ?case using 0 below_finite [OF 0(1)] by auto
next
  case (Suc n)
  let ?l = "case map_of ch i of None \<Rightarrow> [] | Some l \<Rightarrow> l"
  have kids: "c \<in> set ?l \<longleftrightarrow> (i, c) \<in> edge" for c by (cases "map_of ch i") (auto simp: edge_def)
  have each: "distinct (tree_ids nodes ch n [c]) \<and> set (tree_ids nodes ch n [c]) = below c" if c: "c \<in> set ?l" for c
  proof -
    have e: "(i, c) \<in> edge" using c kids by blast
    have "card (below c) \<le> n" using card_below_child [OF e Suc.prems(1)] Suc.prems(2) by linarith
    with edge_known [OF e] show ?thesis by (rule Suc.IH)
  qed
  have "distinct ?l" using distinct_kids [of i] by (cases "map_of ch i") simp_all
  then have "distinct (concat (map (\<lambda>c. tree_ids nodes ch n [c]) ?l))"
    by (rule distinct_concat_map) (use each kids siblings_apart in auto)
  then have dist: "distinct (tree_ids nodes ch n ?l)" by (subst tree_ids_each)
  have "set (concat (map (\<lambda>c. tree_ids nodes ch n [c]) ?l)) = (\<Union>c \<in> {c. (i, c) \<in> edge}. below c)"
    using each kids by auto
  then have set: "set (tree_ids nodes ch n ?l) = (\<Union>c \<in> {c. (i, c) \<in> edge}. below c)" by (subst tree_ids_each)
  obtain v where v: "map_of nodes i = Some v" using Suc.prems(1) by auto
  have "i \<notin> set (tree_ids nodes ch n ?l)" using set not_below_child by auto
  then show ?case using v dist set below_unfold [of i] by simp
qed

lemma walk_roots:
  assumes "distinct rs" and "\<And>r. r \<in> set rs \<Longrightarrow> map_of nodes r \<noteq> None" and "\<And>r p. r \<in> set rs \<Longrightarrow> (p, r) \<notin> edge"
    and "distinct (map fst nodes)"
  shows "distinct (tree_ids nodes ch (length nodes) rs)" and "set (tree_ids nodes ch (length nodes) rs) = (\<Union>r \<in> set rs. below r)"
proof -
  have enough: "card (below r) \<le> length nodes" if "r \<in> set rs" for r
    using card_mono [OF _ below_known [OF assms(2) [OF that]]] distinct_card [OF assms(4)] by simp
  have each: "distinct (tree_ids nodes ch (length nodes) [r]) \<and> set (tree_ids nodes ch (length nodes) [r]) = below r" if "r \<in> set rs" for r
    using walk_all [OF assms(2) enough] that by blast
  have apart: "below r \<inter> below r' = {}" if r: "r \<in> set rs" "r' \<in> set rs" "r \<noteq> r'" for r r'
  proof -
    have "(r, r') \<notin> edge\<^sup>*" "(r', r) \<notin> edge\<^sup>*" using r assms(3) by (auto elim: rtranclE)
    then show ?thesis using below_comparable by (metis IntE all_not_in_conv)
  qed
  show "distinct (tree_ids nodes ch (length nodes) rs)"
    by (subst tree_ids_each, rule distinct_concat_map [OF assms(1)]) (use each apart in auto)
  show "set (tree_ids nodes ch (length nodes) rs) = (\<Union>r \<in> set rs. below r)"
    by (subst tree_ids_each) (use each in auto)
qed

end

section \<open>The graph BuildTree returns\<close>

text \<open>Rows with distinct, non-empty ids; any other list counts as empty.\<close>

definition sound_rows :: "('v \<Rightarrow> string) \<Rightarrow> 'v list \<Rightarrow> 'v list" where
  "sound_rows idf rows = (if distinct (map idf rows) \<and> [] \<notin> idf ` set rows then rows else [])"

lemma sound_rows_ok: "distinct (map idf (sound_rows idf rows))" "[] \<notin> idf ` set (sound_rows idf rows)"
  unfolding sound_rows_def by (cases "distinct (map idf rows)"; cases "[] \<in> idf ` set rows"; simp only: simp_thms if_True if_False; simp)+

interpretation bt: forest_walk "node_map idf (sound_rows idf rows)" "kids (BuildTree idf par (sound_rows idf rows))" for idf par rows
proof
  let ?rows = "sound_rows idf rows" and ?ch = "kids (BuildTree idf par (sound_rows idf rows))"
  note ok = sound_rows_ok [of idf rows]
  note shape = BuildTree_shape [OF ok(1), of par] and dom = node_map_dom [OF ok(1)]
  fix p q i l l'
  assume l: "map_of ?ch p = Some l"
  show "map_of (node_map idf ?rows) p \<noteq> None" using l dom [of p] by (auto simp: shape(2) split: if_splits)
  show "distinct l" using l BuildTree_once(2) [OF ok(1), of par] by blast
  assume i: "i \<in> set l"
  show "map_of (node_map idf ?rows) i \<noteq> None" using l i dom [of i] by (auto simp: shape(2) split: if_splits)
  assume "map_of ?ch q = Some l'" "i \<in> set l'"
  with l i have "(p, i) \<in> child_rel (BuildTree idf par ?rows)" "(q, i) \<in> child_rel (BuildTree idf par ?rows)"
    by (auto simp: child_rel_def)
  then show "p = q" using BuildTree_once(3) [OF ok(1), of par] by (auto simp: single_valued_def)
next
  show "acyclic {(p, i). \<exists>l. map_of (kids (BuildTree idf par (sound_rows idf rows))) p = Some l \<and> i \<in> set l}"
    using child_rel_acyclic [OF sound_rows_ok [of idf rows], of par] by (simp add: child_rel_def)
qed

lemma node_map_keys: "distinct (map fst (node_map idf rows))"
proof -
  have "distinct (map fst m) \<Longrightarrow> distinct (map fst (foldl (\<lambda>m r. AList.update (idf r) r m) m rows))" for m
    by (induction rows arbitrary: m) (simp_all add: distinct_update)
  then show ?thesis by (simp add: node_map_def)
qed

lemma tree_ids_all:
  assumes "distinct (map idf rows)" and "[] \<notin> idf ` set rows"
  shows "mset (tree_ids (node_map idf rows) (kids (BuildTree idf par rows)) (length (node_map idf rows)) (roots (BuildTree idf par rows)))
    = mset (map idf rows)"
proof -
  let ?t = "tree_ids (node_map idf rows) (kids (BuildTree idf par rows)) (length (node_map idf rows)) (roots (BuildTree idf par rows))"
  have rows: "sound_rows idf rows = rows" using assms by (simp add: sound_rows_def)
  note walk = bt.walk_roots [of "roots (BuildTree idf par rows)" idf rows par, unfolded rows]
    and edge = bt.edge_def [of idf par rows, unfolded rows, folded child_rel_def]
    and below = bt.below_def [of idf par rows, unfolded rows edge]
    and once = BuildTree_once [OF assms(1), of par]
  have known: "map_of (node_map idf rows) r \<noteq> None" if "r \<in> set (roots (BuildTree idf par rows))" for r
    using that once(5) node_map_dom [OF assms(1), of r] by auto
  have top: "(p, r) \<notin> child_rel (BuildTree idf par rows)" if "r \<in> set (roots (BuildTree idf par rows))" for r p
    using that once(4) by (auto simp: Range_iff)
  have "distinct ?t" using walk(1) [OF once(1) known _ node_map_keys] top edge by simp
  moreover have "set ?t = idf ` set rows"
  proof -
    have "set ?t = (\<Union>r \<in> set (roots (BuildTree idf par rows)). (child_rel (BuildTree idf par rows))\<^sup>* `` {r})"
      using walk(2) [OF once(1) known _ node_map_keys] top edge below by simp
    also have "\<dots> = idf ` set rows"
    proof
      have "x \<in> idf ` set rows" if "r \<in> set (roots (BuildTree idf par rows))" "(r, x) \<in> (child_rel (BuildTree idf par rows))\<^sup>*" for r x
        using that(2,1) once(5) by (cases rule: rtranclE) auto
      then show "(\<Union>r \<in> set (roots (BuildTree idf par rows)). (child_rel (BuildTree idf par rows))\<^sup>* `` {r}) \<subseteq> idf ` set rows" by auto
      show "idf ` set rows \<subseteq> (\<Union>r \<in> set (roots (BuildTree idf par rows)). (child_rel (BuildTree idf par rows))\<^sup>* `` {r})"
        using BuildTree_reaches [OF assms, of _ par] by auto
    qed
    finally show ?thesis .
  qed
  ultimately show ?thesis using assms(1) by (metis set_eq_iff_mset_eq_distinct set_map)
qed

lemma tree_messages:
  assumes "distinct (map idf rows)" and "[] \<notin> idf ` set rows"
  shows "mset (concat (map flatten (treeToPB conv (node_map idf rows) (kids (BuildTree idf par rows)) (length (node_map idf rows))
    (roots (BuildTree idf par rows))))) = mset (map conv rows)"
proof -
  have "the (map_of (node_map idf rows) (idf r)) = r" if "r \<in> set rows" for r
    using node_map_Some [OF assms(1), of "idf r" r] that by simp
  then have "map conv rows = map (\<lambda>i. conv (the (map_of (node_map idf rows) i))) (map idf rows)" by simp
  then show ?thesis by (simp only: flatten_tree mset_map tree_ids_all [OF assms])
qed

lemma sorted_listing_ids:
  assumes "distinct (map idf rows)" and "[] \<notin> idf ` set rows"
  shows "distinct (map idf (sort_key f rows))" and "[] \<notin> idf ` set (sort_key f rows)"
proof -
  have "mset (map idf (sort_key f rows)) = mset (map idf rows)" by simp
  then show "distinct (map idf (sort_key f rows))" using assms(1) by (metis mset_eq_imp_distinct_iff)
  show "[] \<notin> idf ` set (sort_key f rows)" using assms(2) by simp
qed

text \<open>What the two methods of a server return, when they return.\<close>

lemma Categories_List_rows:
  assumes "run_state (Categories_List rc subj) w = (Inr rows, w')" and "tab_ok c_ID (categories w)" and "map_of (categories w) [] = None"
  shows "w' = w" and "distinct (map c_ID rows)" and "[] \<notin> c_ID ` set rows"
proof -
  obtain rows0 where r: "run_state (ListCategories (TenantID subj)) w = (Inr rows0, w')" "rows = sort_key (\<lambda>r. ToLower (folding rc) (c_Name r)) rows0"
    using assms(1) by (auto simp: Categories_List_def in_tenant_eq run_try_as split: if_splits prod.splits sum.splits)
  note l = ListCategories_listing [OF r(1)]
  have "distinct (map c_ID rows0)" "[] \<notin> c_ID ` set rows0"
    using cats.listing_ids [OF assms(2), of "core w" "TenantID subj"] assms(3) unfolding l by auto
  then show "distinct (map c_ID rows)" "[] \<notin> c_ID ` set rows" unfolding r(2) by (rule sorted_listing_ids)+
  show "w' = w" using r(1) by (auto simp: ListCategories_def run_guarded split: if_splits)
qed

lemma present_location_id: "l_ID (location_present e subj l) = l_ID l"
  by (simp add: location_present_def)

lemma Locations_List_rows:
  assumes "run_state (Locations_List svc subj) w = (Inr rows, w')" and "tab_ok l_ID (locations w)" and "map_of (locations w) [] = None"
  shows "w' = w" and "distinct (map l_ID rows)" and "[] \<notin> l_ID ` set rows"
proof -
  obtain rows0 where r: "run_state (ListLocations (TenantID subj)) w = (Inr rows0, w')"
    "rows = sort_key (\<lambda>l. ToLower (folding (rec svc)) (l_Path l)) (map (location_present (env svc) subj) rows0)"
    using assms(1) by (auto simp: Locations_List_def in_tenant_eq run_try_as split: if_splits prod.splits sum.splits)
  note l = ListLocations_listing [OF r(1)]
  have "map l_ID (map (location_present (env svc) subj) rows0) = map l_ID rows0" by (simp add: present_location_id)
  moreover have "distinct (map l_ID rows0)" "[] \<notin> set (map l_ID rows0)"
    using locs.listing_ids [OF assms(2), of "core w" "TenantID subj"] assms(3) unfolding l by auto
  ultimately have "distinct (map l_ID (map (location_present (env svc) subj) rows0))"
    "[] \<notin> l_ID ` set (map (location_present (env svc) subj) rows0)"
    by (simp_all only: set_map [symmetric] not_False_eq_True)
  then show "distinct (map l_ID rows)" "[] \<notin> l_ID ` set rows" unfolding r(2) by (rule sorted_listing_ids)+
  show "w' = w" using r(1) by (auto simp: ListLocations_def run_guarded split: if_splits)
qed

lemma categories_tree_listed:
  assumes "run_state (rpc_GetCategoryTree d peer t) w = (Inr trees, w1)" and "run_state (rpc_ListCategories d peer t) w = (Inr listed, w2)"
    and "tab_ok c_ID (categories w)" and "map_of (categories w) [] = None"
  shows "mset (concat (map flatten trees)) = mset listed"
proof -
  obtain subj rows where l: "caller peer t = Inr subj" "run_state (Categories_List (dp_Categories d) subj) w = (Inr rows, w2)" "listed = map categoryToPB rows"
    using assms(2) unfolding rpc_ListCategories_def by (rule rpc_reply_run)
  obtain subj' tree where g: "caller peer t = Inr subj'" "run_state (Categories_Tree (dp_Categories d) subj') w = (Inr tree, w1)" "trees = categoryTreeToPB tree"
    using assms(1) unfolding rpc_GetCategoryTree_def by (rule rpc_reply_run)
  have "tree = (node_map c_ID rows, Categories_BuildTree rows)"
    using g(1,2) l(1,2) by (simp add: Categories_Tree_def run_try_in)
  then show ?thesis
    using tree_messages [OF Categories_List_rows(2,3) [OF l(2) assms(3,4)]] g(3) l(3)
    by (simp add: categoryTreeToPB_def Categories_BuildTree_def)
qed

lemma locations_tree_listed:
  assumes "run_state (rpc_GetLocationTree d peer t) w = (Inr trees, w1)" and "run_state (rpc_ListLocations d peer t) w = (Inr listed, w2)"
    and "tab_ok l_ID (locations w)" and "map_of (locations w) [] = None"
  shows "mset (concat (map flatten trees)) = mset listed"
proof -
  obtain subj rows where l: "caller peer t = Inr subj" "run_state (Locations_List (dp_Locations d) subj) w = (Inr rows, w2)" "listed = map locationToPB rows"
    using assms(2) unfolding rpc_ListLocations_def by (rule rpc_reply_run)
  obtain subj' tree where g: "caller peer t = Inr subj'" "run_state (Locations_Tree (dp_Locations d) subj') w = (Inr tree, w1)" "trees = locationTreeToPB tree"
    using assms(1) unfolding rpc_GetLocationTree_def by (rule rpc_reply_run)
  have "tree = (node_map l_ID rows, Locations_BuildTree rows)"
    using g(1,2) l(1,2) by (simp add: Locations_Tree_def run_try_in)
  then show ?thesis
    using tree_messages [OF Locations_List_rows(2,3) [OF l(2) assms(3,4)]] g(3) l(3)
    by (simp add: locationTreeToPB_def Locations_BuildTree_def)
qed

text \<open>
  C10: the trees of the module-to-module API are complete: the nodes of the tree \<^verbatim>\<open>GetCategoryTree\<close> returns are, as a
  multiset, the messages \<^verbatim>\<open>ListCategories\<close> returns in the same state, however broken the parent ids of the rows are, and
  likewise for locations.
\<close>

theorem rpc_trees_complete:
  assumes "tab_ok c_ID (categories w)" and "map_of (categories w) [] = None" and "tab_ok l_ID (locations w)" and "map_of (locations w) [] = None"
  shows "(run_state (rpc_GetCategoryTree d peer t) w = (Inr croots, w1) \<and> run_state (rpc_ListCategories d peer t) w = (Inr clisted, w2)
      \<longrightarrow> mset (concat (map flatten croots)) = mset clisted)
    \<and> (run_state (rpc_GetLocationTree d peer t) w = (Inr lroots, w3) \<and> run_state (rpc_ListLocations d peer t) w = (Inr llisted, w4)
      \<longrightarrow> mset (concat (map flatten lroots)) = mset llisted)"
  using categories_tree_listed [OF _ _ assms(1,2)] locations_tree_listed [OF _ _ assms(3,4)] by blast

text \<open>Two categories that are each other's parent.\<close>

definition loop_demo :: world where
  "loop_demo = world_demo\<lparr>categories := [(''x'', zero_category\<lparr>c_ID := ''x'', c_TenantID := acme, c_Name := ''X'', c_ParentID := ''y''\<rparr>),
     (''y'', zero_category\<lparr>c_ID := ''y'', c_TenantID := acme, c_Name := ''Y'', c_ParentID := ''x''\<rparr>)]\<rparr>"

theorem rpc_trees_complete_witness:
  "\<exists>trees listed. fst (run_state (rpc_GetCategoryTree (Build_Deps config_demo outside_demo) (Some ''spiffe'') acme) loop_demo) = Inr trees
     \<and> fst (run_state (rpc_ListCategories (Build_Deps config_demo outside_demo) (Some ''spiffe'') acme) loop_demo) = Inr listed
     \<and> length listed = 2 \<and> mset (concat (map flatten trees)) = mset listed"
proof -
  let ?tree = "run_state (rpc_GetCategoryTree (Build_Deps config_demo outside_demo) (Some ''spiffe'') acme) loop_demo"
  let ?list = "run_state (rpc_ListCategories (Build_Deps config_demo outside_demo) (Some ''spiffe'') acme) loop_demo"
  have "case fst ?tree of Inl _ \<Rightarrow> False | Inr _ \<Rightarrow> True" by code_simp
  then obtain trees where t: "fst ?tree = Inr trees" by (cases "fst ?tree") auto
  have "case fst ?list of Inl _ \<Rightarrow> False | Inr l \<Rightarrow> length l = 2" by code_simp
  then obtain listed where l: "fst ?list = Inr listed" "length listed = 2" by (cases "fst ?list") auto
  have ok: "tab_ok c_ID (categories loop_demo)" "map_of (categories loop_demo) [] = None" "tab_ok l_ID (locations loop_demo)"
      "map_of (locations loop_demo) [] = None"
    by (simp_all add: loop_demo_def world_demo_def tab_ok_def zero_category_def)
  have "?tree = (Inr trees, snd ?tree)" "?list = (Inr listed, snd ?list)" using t l(1) by (simp_all add: prod_eq_iff)
  with rpc_trees_complete [OF ok] have "mset (concat (map flatten trees)) = mset listed" by blast
  with t l show ?thesis by blast
qed

end
