(* ===== verification/Spec2Isabelle.thy ===== *)
theory Spec2Isabelle
  imports Hub_Delivery Backup_Ids Backup_Restore Http_Laws Api_Trees
begin

text \<open>
  \<^bold>\<open>The asset module.\<close> The program is the IT asset management module of the Tangra platform: a multi-tenant Go service
  that keeps assets, their assignment history, categories, suppliers, locations, consumables, licenses, insurance
  policies, photos and documents. Users reach it through the gateway (HTTP), other modules through gRPC. Domain
  services check, seal, store and audit; a scheduler sweeps the tenants for expiring rows and low stock; a sync imports
  the hosts of the inventory module; a hub delivers events to browsers; backups export and restore whole tenants.

  \<^bold>\<open>How the theories correspond to the code\<close> (paths below \<^verbatim>\<open>src/\<close>; a definition has the name of the function it
  translates, with the package as prefix where two packages use the same name):

  \<^item> \<^verbatim>\<open>Prelude\<close>: programs as a state monad whose results are sums (\<^verbatim>\<open>Inl\<close> the error), their \<^verbatim>\<open>try\<close> forms, tables as
    association lists, and the locale \<^verbatim>\<open>io_relation\<close>: what holds between the states before and after a program, for any
    reflexive transitive relation. \<^verbatim>\<open>Golib\<close>, \<^verbatim>\<open>Strconv\<close>, \<^verbatim>\<open>Glob\<close>, \<^verbatim>\<open>Json_Valid\<close>: what the code uses of Go's library
    (strings, UTF-8 decoding, number formatting, \<^verbatim>\<open>path.Match\<close>, \<^verbatim>\<open>json.Valid\<close>).
  \<^item> \<^verbatim>\<open>Models\<close>, \<^verbatim>\<open>Ids\<close>, \<^verbatim>\<open>Deprec\<close>, \<^verbatim>\<open>Authz\<close>: \<^verbatim>\<open>internal/store/models.go\<close> and \<^verbatim>\<open>ids.go\<close>, \<^verbatim>\<open>internal/deprec\<close>,
    \<^verbatim>\<open>internal/authz\<close>.
  \<^item> \<^verbatim>\<open>Memstore\<close>, \<^verbatim>\<open>Memstore_Refs\<close>, \<^verbatim>\<open>Memstore_Items\<close>: \<^verbatim>\<open>internal/memstore\<close>, the store the services are specified
    against, with its injected failures. \<^verbatim>\<open>Store_Laws\<close>, \<^verbatim>\<open>Tenancy\<close>: every operation keeps the tables well formed and
    touches rows of one tenant only; \<^verbatim>\<open>tenant_table\<close> states this once for a table and is interpreted for all ten.
  \<^item> \<^verbatim>\<open>Audit_Log\<close>: \<^verbatim>\<open>internal/audit\<close>; \<^verbatim>\<open>Ports\<close>: \<^verbatim>\<open>internal/events\<close>, \<^verbatim>\<open>internal/userdir\<close> and the object store of
    \<^verbatim>\<open>internal/blob/fake.go\<close>; \<^verbatim>\<open>User_Listing\<close>: the paged user listing of \<^verbatim>\<open>internal/userdir\<close>.
  \<^item> \<^verbatim>\<open>Assets\<close> with \<^verbatim>\<open>Lifecycle\<close> and \<^verbatim>\<open>Custody\<close>: \<^verbatim>\<open>internal/assets\<close>, its row invariants and the agreement of the rows
    with the assignment history over every sequence of operations.
  \<^item> \<^verbatim>\<open>Flow\<close> (laws of programs that succeed), \<^verbatim>\<open>Trees\<close> (the locale \<^verbatim>\<open>parent_tree\<close> of categories and locations),
    \<^verbatim>\<open>Categories\<close>, \<^verbatim>\<open>Suppliers\<close>, \<^verbatim>\<open>Locations\<close>, \<^verbatim>\<open>Consumables\<close>, \<^verbatim>\<open>Licenses\<close>, \<^verbatim>\<open>Insurance\<close>: the services of the
    same names; \<^verbatim>\<open>Sealed\<close>: \<^verbatim>\<open>internal/sealed\<close>; \<^verbatim>\<open>Documents\<close>, \<^verbatim>\<open>Document_Laws\<close>: \<^verbatim>\<open>internal/documents\<close>.
  \<^item> \<^verbatim>\<open>Scheduler\<close>, \<^verbatim>\<open>Scheduler_Laws\<close>: \<^verbatim>\<open>internal/scheduler\<close>; \<^verbatim>\<open>Dashboard\<close>: \<^verbatim>\<open>internal/stats\<close>; \<^verbatim>\<open>Invsync\<close>,
    \<^verbatim>\<open>Invsync_Laws\<close>: \<^verbatim>\<open>internal/invsync\<close> and \<^verbatim>\<open>internal/invclient\<close>.
  \<^item> \<^verbatim>\<open>Workers\<close>: the migration worker of \<^verbatim>\<open>internal/app/migrate.go\<close>, the ticker loop of the scheduler and the task of
    \<^verbatim>\<open>internal/tasks\<close>.
  \<^item> \<^verbatim>\<open>Stream\<close>, \<^verbatim>\<open>Stream_Hub\<close>, \<^verbatim>\<open>Hub_Laws\<close>, \<^verbatim>\<open>Hub_Limits\<close>, \<^verbatim>\<open>Hub_Delivery\<close>: \<^verbatim>\<open>internal/stream\<close>. Publishing,
    subscribing, the turns of the subscriber loops, the readers and closing are steps of one relation, so its reachable
    states are all interleavings of the goroutines.
  \<^item> \<^verbatim>\<open>Backups\<close>, \<^verbatim>\<open>Backup_Laws\<close>, \<^verbatim>\<open>Backup_Ids\<close>, \<^verbatim>\<open>Backup_Restore\<close>: \<^verbatim>\<open>internal/backup\<close>.
  \<^item> \<^verbatim>\<open>Config\<close>, \<^verbatim>\<open>Wiring\<close>: \<^verbatim>\<open>internal/config\<close> and the part of \<^verbatim>\<open>internal/app/app.go\<close> that wires the services.
    \<^verbatim>\<open>Grpc_Map\<close>, \<^verbatim>\<open>Grpc_Api\<close>: \<^verbatim>\<open>internal/grpcapi\<close>, every method. \<^verbatim>\<open>Http_Api\<close>, \<^verbatim>\<open>Http_Laws\<close>: \<^verbatim>\<open>internal/httpapi\<close>, every
    handler but the paged listings. \<^verbatim>\<open>Api_Laws\<close>, \<^verbatim>\<open>Isolation\<close>, \<^verbatim>\<open>Api_Views\<close>, \<^verbatim>\<open>Api_Trees\<close>: the two APIs as wired,
    over whole histories of calls.

  \<^bold>\<open>State.\<close> The state is one extensible record: \<^verbatim>\<open>sys\<close> (clock, random source, id generator), extended by \<^verbatim>\<open>mem\<close> (the
  tables), \<^verbatim>\<open>auditing\<close> (the audit queue) and \<^verbatim>\<open>world\<close> (objects, published events). An operation of a package works on
  every extension of the part it needs.

  \<^bold>\<open>What is shown.\<close> Rows: the asset lifecycle is an invariant of every history and refused operations change nothing.
  Tenants: over every history of API calls, restores, scheduled tasks, sweeps and passing time, nothing of a tenant
  changes unless something is run for it; calls without an identity do nothing at all; services never see contact data. Trees:
  the tree views show every row once whatever the parents are, and moves that close a cycle are refused. Secrets:
  sealed values open only for their owner, credentials are redacted, scrubbed and kept out of the audit log. Documents:
  uploads come back with their digest, a failed migration loses nothing, and the migration worker ends. Scheduler: a sweep alerts exactly on changes
  and is idempotent, and the dashboard counts what it alerts about. Sync: every host gets one change, no asset is
  claimed twice, only sync-owned fields are written. Streams: addressing, order, bounds, replay and closing under every
  interleaving. Backups: an export restored into an empty store is what was there, renaming is one injective renaming.
  Configuration: what passes validation is in range.

  \<^bold>\<open>Bounds and fuel.\<close> \<^verbatim>\<open>visit\<close> follows the code's own bound of 64 steps to an ancestor; \<^verbatim>\<open>mesh_roles\<close> reads at most the
  10000 pages the code allows; \<^verbatim>\<open>insert_loop\<close> and \<^verbatim>\<open>create_attempts\<close> have the code's 5 attempts. \<^verbatim>\<open>treeToPB\<close> descends at
  most as many levels as there are nodes, which \<^verbatim>\<open>Api_Trees\<close> shows to be enough for every forest \<^verbatim>\<open>BuildTree\<close> returns. The
  paging loops over remote services and the loop over migration batches are partial functions in the option type, with
  theorems that they return (the former when the remote side pages a finite list). Ids use the 48-bit timestamp and the counter of the code, on words.

  \<^bold>\<open>Modelling decisions.\<close> An operation reads the clock as constant while it runs. Operations of the store are atomic,
  as its mutex makes them; a service call runs without interference, so races between two service calls are out of
  scope. Rows are values: the sharing of maps and pointers between a row in the store and a row handed out is not
  modelled (a finding records where the code writes through it). Go maps are association lists in the order of
  insertion, sorts are stable, \<^verbatim>\<open>float64\<close> is \<^verbatim>\<open>real\<close>, times are nanoseconds in UTC. Error values keep their kind and, where
  a property depends on it, their text. Parameters stand for code outside the repository: Unicode case folding,
  AES-GCM (with the contract of an AEAD), SHA-256, the paperless, inventory and user services, the JSON and multipart
  decoders, \<^verbatim>\<open>url.Parse\<close>, the token verifier and the peer identity. The random source does not fail.

  \<^bold>\<open>Not modelled.\<close> The SQL store (its statements run in PostgreSQL; the in-memory store models the same interface); the
  paged listings, whose order, cursors and grammar are those of the external listquery package; the S3, Valkey and
  paperless clients, which only forward calls; the router, the OpenAPI validation and static files of the HTTP server;
  reading YAML, keys and certificates, enrolment, dialling, timers, logging and shutdown; the client library and the
  manifest, which are stubs and constant tables; generated code.
\<close>

end
